(* ===== verification/Prelude.thy ===== *)
theory Prelude
  imports Main "HOL-Library.Word"
begin

text \<open>
  Shared vocabulary of the development: bytes and memory blocks, the faults a C++
  operation can run into, the sequencing of operations that may fault, little-endian
  encodings of the machine integers the program stores in its buffers, and the
  \<^verbatim>\<open>std::map::insert\<close> discipline. A memory block is the list of its bytes, so that an
  access outside the block is a fault of the model and not a silent success. The contents
  of memory that \<^verbatim>\<open>malloc\<close> or \<^verbatim>\<open>new char[]\<close> returns are not known: every allocation
  takes them as an argument of type \<open>junk\<close>, a function from offsets to bytes.
\<close>

section \<open>Types\<close>

type_synonym byte = "8 word"
type_synonym bytes = "byte list"
type_synonym u16 = "16 word"
type_synonym u32 = "32 word"
type_synonym u64 = "64 word"

text \<open>A C \<^verbatim>\<open>int\<close> is a \<open>u32\<close> read with \<open>sint\<close>.\<close>

type_synonym junk = "nat \<Rightarrow> byte"

section \<open>Faults and sequencing\<close>

text \<open>
  What can stop the program: a write or a read outside a block, a call or an access
  through a null pointer, a use of freed memory, signed overflow, a division by zero, a loop that has used up its fuel, a call of
  \<^verbatim>\<open>exit\<close>.
\<close>

datatype fault =
    HeapOverflow
  | OutOfBoundsRead
  | NullDeref
  | UseAfterFree
  | SignedOverflow
  | DivByZero
  | OutOfFuel
  | ProcessExit int

type_synonym 'a res = "fault + 'a"

named_theorems res_simps \<open>evaluation of sequenced operations\<close>
named_theorems mem_simps \<open>reads and writes of memory blocks\<close>

definition bind_res :: "'a res \<Rightarrow> ('a \<Rightarrow> 'b res) \<Rightarrow> 'b res" where
  "bind_res m f = (case m of Inl e \<Rightarrow> Inl e | Inr x \<Rightarrow> f x)"

lemma bind_res_Inl [simp, res_simps]: "bind_res (Inl e) f = Inl e"
  by (simp add: bind_res_def)

lemma bind_res_Inr [simp, res_simps]: "bind_res (Inr x) f = f x"
  by (simp add: bind_res_def)

lemma bind_res_eq_Inr [res_simps]:
  "bind_res m f = Inr y \<longleftrightarrow> (\<exists>x. m = Inr x \<and> f x = Inr y)"
  by (cases m) simp_all

lemma bind_res_InrE:
  assumes "bind_res m f = Inr y"
  obtains x where "m = Inr x" and "f x = Inr y"
  using assms by (auto simp: bind_res_eq_Inr)

lemma bind_res_eq_Inl:
  "bind_res m f = Inl e \<longleftrightarrow> m = Inl e \<or> (\<exists>x. m = Inr x \<and> f x = Inl e)"
  by (cases m) simp_all

lemma bind_res_assoc: "bind_res (bind_res m f) g = bind_res m (\<lambda>x. bind_res (f x) g)"
  by (cases m) simp_all

lemma bind_res_if: "bind_res (if P then a else b) f = (if P then bind_res a f else bind_res b f)"
  by simp

lemma bind_res_cong [fundef_cong]:
  "m = m' \<Longrightarrow> (\<And>x. m' = Inr x \<Longrightarrow> f x = f' x) \<Longrightarrow> bind_res m f = bind_res m' f'"
  by (cases m') simp_all

text \<open>Pulling a possibly null pointer: \<^verbatim>\<open>p->...\<close>.\<close>

definition deref :: "'a option \<Rightarrow> 'a res" where
  "deref p = (case p of None \<Rightarrow> Inl NullDeref | Some x \<Rightarrow> Inr x)"

lemma deref_simps [simp, res_simps]: "deref None = Inl NullDeref" "deref (Some x) = Inr x"
  by (simp_all add: deref_def)

lemma deref_eq_Inr [res_simps]: "deref p = Inr x \<longleftrightarrow> p = Some x"
  by (cases p) simp_all

section \<open>Memory blocks\<close>

definition fresh_block :: "junk \<Rightarrow> nat \<Rightarrow> bytes" where
  "fresh_block mem n = map mem [0..<n]"

lemma length_fresh_block [simp, mem_simps]: "length (fresh_block mem n) = n"
  by (simp add: fresh_block_def)

definition mslice :: "bytes \<Rightarrow> nat \<Rightarrow> nat \<Rightarrow> bytes" where
  "mslice m off n = take n (drop off m)"

definition msplice :: "bytes \<Rightarrow> nat \<Rightarrow> bytes \<Rightarrow> bytes" where
  "msplice m off bs = take off m @ bs @ drop (off + length bs) m"

definition mem_read :: "bytes \<Rightarrow> nat \<Rightarrow> nat \<Rightarrow> bytes res" where
  "mem_read m off n = (if off + n \<le> length m then Inr (mslice m off n) else Inl OutOfBoundsRead)"

definition mem_write :: "bytes \<Rightarrow> nat \<Rightarrow> bytes \<Rightarrow> bytes res" where
  "mem_write m off bs =
     (if off + length bs \<le> length m then Inr (msplice m off bs) else Inl HeapOverflow)"

lemma length_slice [simp]: "off + n \<le> length m \<Longrightarrow> length (mslice m off n) = n"
  by (simp add: mslice_def)

lemma length_msplice [simp, mem_simps]:
  "off + length bs \<le> length m \<Longrightarrow> length (msplice m off bs) = length m"
  by (simp add: msplice_def)

lemma slice_msplice_same [mem_simps]:
  "off + length bs \<le> length m \<Longrightarrow> n = length bs \<Longrightarrow> mslice (msplice m off bs) off n = bs"
  by (simp add: mslice_def msplice_def)

lemma slice_msplice_before [mem_simps]:
  assumes "off' + n \<le> off" and "off + length bs \<le> length m"
  shows "mslice (msplice m off bs) off' n = mslice m off' n"
  using assms by (simp add: mslice_def msplice_def take_drop)

lemma slice_msplice_after [mem_simps]:
  assumes "off + length bs \<le> off'" and "off + length bs \<le> length m"
  shows "mslice (msplice m off bs) off' n = mslice m off' n"
  using assms by (simp add: mslice_def msplice_def)

text \<open>Two adjacent writes are one.\<close>

lemma msplice_append:
  assumes "off' = off + length a" and "off + length a + length b \<le> length m"
  shows "msplice (msplice m off a) off' b = msplice m off (a @ b)"
  using assms by (simp add: msplice_def add.assoc add.left_commute add.commute)

lemma slice_msplice_inside:
  assumes "off \<le> off'" and "off' + n \<le> off + length bs" and "off + length bs \<le> length m"
  shows "mslice (msplice m off bs) off' n = mslice bs (off' - off) n"
  using assms by (simp add: mslice_def msplice_def)

text \<open>A write in front, inside or behind of a larger region.\<close>

lemma slice_slice: "a + n \<le> k \<Longrightarrow> mslice (mslice m off k) a n = mslice m (off + a) n"
  by (simp add: mslice_def drop_take min_def add.commute)

lemma slice_append_left: "off + n \<le> length xs \<Longrightarrow> mslice (xs @ ys) off n = mslice xs off n"
  by (simp add: mslice_def)

lemma slice_append_right: "length xs \<le> off \<Longrightarrow> mslice (xs @ ys) off n = mslice ys (off - length xs) n"
  by (simp add: mslice_def)

lemma slice_full [simp]: "n = length m \<Longrightarrow> mslice m 0 n = m"
  by (simp add: mslice_def)

lemma slice_0 [simp]: "mslice m off 0 = []"
  by (simp add: mslice_def)

lemma slice_join: "mslice m off a @ mslice m (off + a) b = mslice m off (a + b)"
  by (simp add: mslice_def take_add add.commute)

lemma mem_write_eq_Inr [res_simps]:
  "mem_write m off bs = Inr m' \<longleftrightarrow> off + length bs \<le> length m \<and> m' = msplice m off bs"
  by (auto simp: mem_write_def)

lemma mem_write_ok [simp]:
  "off + length bs \<le> length m \<Longrightarrow> mem_write m off bs = Inr (msplice m off bs)"
  by (simp add: mem_write_def)

lemma mem_write_overflow [simp]:
  "length m < off + length bs \<Longrightarrow> mem_write m off bs = Inl HeapOverflow"
  by (simp add: mem_write_def)

lemma mem_read_eq_Inr [res_simps]:
  "mem_read m off n = Inr bs \<longleftrightarrow> off + n \<le> length m \<and> bs = mslice m off n"
  by (auto simp: mem_read_def)

lemma mem_read_ok [simp]: "off + n \<le> length m \<Longrightarrow> mem_read m off n = Inr (mslice m off n)"
  by (simp add: mem_read_def)

lemma mem_read_fault [simp]: "length m < off + n \<Longrightarrow> mem_read m off n = Inl OutOfBoundsRead"
  by (simp add: mem_read_def)

section \<open>Little-endian integers\<close>

fun le_enc :: "nat \<Rightarrow> nat \<Rightarrow> bytes" where
  "le_enc 0 n = []"
| "le_enc (Suc k) n = word_of_nat n # le_enc k (n div 256)"

fun le_dec :: "bytes \<Rightarrow> nat" where
  "le_dec [] = 0"
| "le_dec (b # bs) = unat b + 256 * le_dec bs"

lemma length_le_enc [simp]: "length (le_enc k n) = k"
  by (induction k n rule: le_enc.induct) simp_all

lemma le_dec_le_enc: "le_dec (le_enc k n) = n mod 256 ^ k"
proof (induction k n rule: le_enc.induct)
  case (1 n)
  then show ?case by simp
next
  case (2 k n)
  have "n mod 256 ^ Suc k = n mod 256 + 256 * (n div 256 mod 256 ^ k)"
    by (simp add: mod_mult2_eq)
  with 2 show ?case by (simp add: unat_of_nat)
qed

lemma byte_bound: "unat (b :: byte) < 256"
  by (rule unsigned_less [of b, simplified])

lemma u16_bound: "unat (h :: u16) < 65536"
  by (rule unsigned_less [of h, simplified])

lemma u32_bound: "unat (w :: u32) < 4294967296"
  by (rule unsigned_less [of w, simplified])

lemma u64_bound: "unat (q :: u64) < 18446744073709551616"
  by (rule unsigned_less [of q, simplified])

lemma u32_sint_of_nat: "n < 2 ^ 31 \<Longrightarrow> sint (word_of_nat n :: u32) = int n"
  by (simp add: signed_of_nat signed_take_bit_int_eq_self_iff)

lemma le_dec_bound: "le_dec bs < 256 ^ length bs"
proof (induction bs)
  case (Cons b bs)
  have "unat b < 256" by (rule byte_bound)
  then have "unat b + 256 * le_dec bs < 256 + 256 * le_dec bs" by simp
  also have "\<dots> = 256 * Suc (le_dec bs)" by simp
  also have "\<dots> \<le> 256 * 256 ^ length bs"
    using Cons.IH by (intro mult_le_mono2) simp
  finally show ?case by simp
qed simp

lemma le_enc_le_dec: "le_enc (length bs) (le_dec bs) = bs"
proof (induction bs)
  case (Cons b bs)
  have z: "(256 :: byte) = 0" by simp
  have "256 * word_of_nat (le_dec bs) = (0 :: byte)"
    by (simp only: z mult_zero_left)
  then have "word_of_nat (unat b + 256 * le_dec bs) = (b :: byte)"
    by (simp add: of_nat_unat)
  moreover have "(unat b + 256 * le_dec bs) div 256 = le_dec bs"
    using byte_bound [of b] by simp
  ultimately show ?case using Cons.IH by simp
qed simp

definition enc8 :: "byte \<Rightarrow> bytes" where "enc8 w = [w]"
definition dec8 :: "bytes \<Rightarrow> byte" where "dec8 bs = word_of_nat (le_dec bs)"
definition enc16 :: "u16 \<Rightarrow> bytes" where "enc16 w = le_enc 2 (unat w)"
definition dec16 :: "bytes \<Rightarrow> u16" where "dec16 bs = word_of_nat (le_dec bs)"
definition enc32 :: "u32 \<Rightarrow> bytes" where "enc32 w = le_enc 4 (unat w)"
definition dec32 :: "bytes \<Rightarrow> u32" where "dec32 bs = word_of_nat (le_dec bs)"
definition enc64 :: "u64 \<Rightarrow> bytes" where "enc64 w = le_enc 8 (unat w)"
definition dec64 :: "bytes \<Rightarrow> u64" where "dec64 bs = word_of_nat (le_dec bs)"

text \<open>Loads and stores of one integer, \<^verbatim>\<open>*(T*)(p + off)\<close>.\<close>

definition load :: "(bytes \<Rightarrow> 'a) \<Rightarrow> nat \<Rightarrow> bytes \<Rightarrow> nat \<Rightarrow> 'a res" where
  "load dec n m off = bind_res (mem_read m off n) (\<lambda>bs. Inr (dec bs))"

definition store :: "('a \<Rightarrow> bytes) \<Rightarrow> bytes \<Rightarrow> nat \<Rightarrow> 'a \<Rightarrow> bytes res" where
  "store enc m off x = mem_write m off (enc x)"

abbreviation "load8 \<equiv> load dec8 1"
abbreviation "load16 \<equiv> load dec16 2"
abbreviation "load32 \<equiv> load dec32 4"
abbreviation "load64 \<equiv> load dec64 8"
abbreviation "store8 \<equiv> store enc8"
abbreviation "store16 \<equiv> store enc16"
abbreviation "store32 \<equiv> store enc32"
abbreviation "store64 \<equiv> store enc64"

text \<open>The contract of a fixed-width field encoding, and what loads see after stores.\<close>

locale fixed_codec =
  fixes enc :: "'a \<Rightarrow> bytes"
    and dec :: "bytes \<Rightarrow> 'a"
    and width :: nat
  assumes length_enc: "length (enc x) = width"
    and dec_enc: "dec (enc x) = x"
begin

lemma store_ok: "off + width \<le> length m \<Longrightarrow> store enc m off x = Inr (msplice m off (enc x))"
  by (simp add: store_def length_enc)

lemma store_fault: "length m < off + width \<Longrightarrow> store enc m off x = Inl HeapOverflow"
  by (simp add: store_def length_enc)

lemma load_ok: "off + width \<le> length m \<Longrightarrow> load dec width m off = Inr (dec (mslice m off width))"
  by (simp add: load_def)

lemma load_fault: "length m < off + width \<Longrightarrow> load dec width m off = Inl OutOfBoundsRead"
  by (simp add: load_def)

lemma dec_slice_enc: "off + width \<le> length m \<Longrightarrow> dec (mslice (msplice m off (enc x)) off width) = x"
  by (simp add: slice_msplice_same length_enc dec_enc)

lemma load_store: "store enc m off x = Inr m' \<Longrightarrow> load dec width m' off = Inr x"
  by (auto simp: store_def load_def mem_write_def length_enc slice_msplice_same dec_enc
        split: if_splits)

end

lemma dec_enc_words [simp, mem_simps]:
  "dec8 (enc8 b) = b" "dec16 (enc16 h) = h" "dec32 (enc32 w) = w" "dec64 (enc64 q) = q"
  using u16_bound [of h] u32_bound [of w] u64_bound [of q]
  by (simp_all add: dec8_def enc8_def dec16_def enc16_def dec32_def enc32_def dec64_def enc64_def
        le_dec_le_enc)

lemma length_enc_words [simp, mem_simps]:
  "length (enc8 b) = 1" "length (enc16 h) = 2" "length (enc32 w) = 4" "length (enc64 q) = 8"
  by (simp_all add: enc8_def enc16_def enc32_def enc64_def)

interpretation f8: fixed_codec enc8 dec8 1
  by unfold_locales simp_all

interpretation f16: fixed_codec enc16 dec16 2
  by unfold_locales simp_all

interpretation f32: fixed_codec enc32 dec32 4
  by unfold_locales simp_all

interpretation f64: fixed_codec enc64 dec64 8
  by unfold_locales simp_all

lemmas field_ok [simp] =
  f8.store_ok f8.load_ok f16.store_ok f16.load_ok f32.store_ok f32.load_ok f64.store_ok f64.load_ok

lemmas field_fault [simp] =
  f8.store_fault f8.load_fault f16.store_fault f16.load_fault
  f32.store_fault f32.load_fault f64.store_fault f64.load_fault

lemma unat_dec32: "length bs = 4 \<Longrightarrow> unat (dec32 bs) = le_dec bs"
proof -
  assume "length bs = 4"
  then have "le_dec bs < 2 ^ 32" using le_dec_bound [of bs] by simp
  then show ?thesis by (simp add: dec32_def unat_of_nat)
qed

lemma enc32_dec32: "length bs = 4 \<Longrightarrow> enc32 (dec32 bs) = bs"
  using le_enc_le_dec [of bs] by (simp add: enc32_def unat_dec32)

section \<open>C strings and decimal numbers\<close>

text \<open>
  The string that starts at the first byte of a block, as \<^verbatim>\<open>strlen\<close>, \<^verbatim>\<open>%s\<close> and
  \<^verbatim>\<open>std::string(const char*)\<close> read it: without a NUL byte in the block the read leaves it.
\<close>

definition c_string :: "bytes \<Rightarrow> bytes res" where
  "c_string m = (if 0 \<in> set m then Inr (takeWhile (\<lambda>b. b \<noteq> 0) m) else Inl OutOfBoundsRead)"

definition ascii :: "string \<Rightarrow> bytes" where
  "ascii s = map (\<lambda>c. word_of_nat (of_char c)) s"

text \<open>\<^verbatim>\<open>%u\<close> and \<^verbatim>\<open>%d\<close>.\<close>

fun fmt_nat :: "nat \<Rightarrow> bytes" where
  "fmt_nat n = (if n < 10 then [word_of_nat (48 + n)] else fmt_nat (n div 10) @ [word_of_nat (48 + n mod 10)])"

declare fmt_nat.simps [simp del]

lemma fmt_nat_no_nul: "0 \<notin> set (fmt_nat n)"
proof (induction n rule: fmt_nat.induct)
  case (1 n)
  have "(word_of_nat (48 + k) :: byte) \<noteq> 0" if "k < 10" for k :: nat
    using that by (simp add: word_unat_eq_iff unat_of_nat del: of_nat_add)
  then show ?case
    using 1 by (subst fmt_nat.simps) (auto simp del: of_nat_add simp: eq_commute [of "0 :: byte"])
qed

definition fmt_int :: "u32 \<Rightarrow> bytes" where
  "fmt_int w = (if sint w < 0 then 45 # fmt_nat (nat (- sint w)) else fmt_nat (unat w))"

lemma length_ascii [simp]: "length (ascii s) = length s"
  by (simp add: ascii_def)

lemma c_string_terminated: "0 \<notin> set s \<Longrightarrow> c_string (s @ 0 # rest) = Inr s"
  by (simp add: c_string_def) (subst takeWhile_append2, auto)

lemma length_fmt_nat_pos: "0 < length (fmt_nat n)"
  by (simp add: fmt_nat.simps [of n])

lemma length_fmt_nat_small: "n < 10 \<Longrightarrow> length (fmt_nat n) = 1"
  by (simp add: fmt_nat.simps [of n])

lemma length_fmt_nat_2: "10 \<le> n \<Longrightarrow> n < 100 \<Longrightarrow> length (fmt_nat n) = 2"
  by (simp add: fmt_nat.simps [of n] length_fmt_nat_small)

lemma length_fmt_nat_3: "100 \<le> n \<Longrightarrow> 3 \<le> length (fmt_nat n)"
proof -
  assume n: "100 \<le> n"
  then have "\<not> n < 10" "\<not> n div 10 < 10" by simp_all
  with length_fmt_nat_pos [of "n div 10 div 10"] show ?thesis
    by (simp add: fmt_nat.simps [of n] fmt_nat.simps [of "n div 10"] Suc_le_eq del: not_less)
qed

lemma length_fmt_nat_upper: "n < 10 ^ Suc k \<Longrightarrow> length (fmt_nat n) \<le> Suc k"
proof (induction k arbitrary: n)
  case 0
  then show ?case by (simp add: length_fmt_nat_small)
next
  case (Suc k)
  then have "n div 10 < 10 ^ Suc k"
    by (simp add: less_mult_imp_div_less mult.commute)
  with Suc.IH show ?case by (simp add: fmt_nat.simps [of n])
qed

section \<open>The \<^verbatim>\<open>std::map\<close> discipline\<close>

text \<open>\<^verbatim>\<open>std::map::insert\<close> leaves an existing entry alone; \<^verbatim>\<open>erase\<close> drops one.\<close>

definition map_insert :: "('k \<rightharpoonup> 'v) \<Rightarrow> 'k \<Rightarrow> 'v \<Rightarrow> ('k \<rightharpoonup> 'v)" where
  "map_insert m k v = (case m k of None \<Rightarrow> m(k \<mapsto> v) | Some _ \<Rightarrow> m)"

definition map_erase :: "('k \<rightharpoonup> 'v) \<Rightarrow> 'k \<Rightarrow> ('k \<rightharpoonup> 'v)" where
  "map_erase m k = m(k := None)"

lemma map_insert_fresh [simp]: "m k = None \<Longrightarrow> map_insert m k v = m(k \<mapsto> v)"
  by (simp add: map_insert_def)

lemma map_insert_present [simp]: "m k = Some w \<Longrightarrow> map_insert m k v = m"
  by (simp add: map_insert_def)

lemma map_erase_apply [simp]: "map_erase m k j = (if j = k then None else m j)"
  by (simp add: map_erase_def)

end
