(* ===== verification/NetBuffer.thy ===== *)
theory NetBuffer
  imports Prelude
begin

text \<open>
  The wire header, \<^verbatim>\<open>common/net_buffer.hpp\<close> and \<^verbatim>\<open>common/net_buffer.cpp\<close>: six integers in
  20 bytes in front of a serialized message. Getters read a field of a received packet,
  \<^verbatim>\<open>CreateNetBuffer\<close> builds a packet, \<^verbatim>\<open>AddHanderIdToBuffer\<close> stamps the session id into
  one, \<^verbatim>\<open>GetNetPackageBody\<close> finds the message behind the header.
\<close>

section \<open>Layout\<close>

definition KD_PACKAGE_UINT_SIZE :: nat where "KD_PACKAGE_UINT_SIZE = 4"
definition KD_PACKAGE_USHORT_SIZE :: nat where "KD_PACKAGE_USHORT_SIZE = 2"
definition KD_PACKAGE_HEADER_EVENT_TYPE_START :: nat where
  "KD_PACKAGE_HEADER_EVENT_TYPE_START = KD_PACKAGE_UINT_SIZE"
definition KD_PACKAGE_HEADER_ERROR_CODE_START :: nat where
  "KD_PACKAGE_HEADER_ERROR_CODE_START = KD_PACKAGE_UINT_SIZE * 2"
definition KD_PACKAGE_HEADER_HANDLER_ID_START :: nat where
  "KD_PACKAGE_HEADER_HANDLER_ID_START = KD_PACKAGE_UINT_SIZE * 3"
definition KD_PACKAGE_HEADER_SERVER_ID_START :: nat where
  "KD_PACKAGE_HEADER_SERVER_ID_START = KD_PACKAGE_UINT_SIZE * 4"
definition KD_PACKAGE_HEADER_SEQUENCE_ID_START :: nat where
  "KD_PACKAGE_HEADER_SEQUENCE_ID_START = KD_PACKAGE_UINT_SIZE * 4 + KD_PACKAGE_USHORT_SIZE"
definition KD_PACKAGE_HEADER_SIZE :: nat where
  "KD_PACKAGE_HEADER_SIZE = KD_PACKAGE_UINT_SIZE * 4 + KD_PACKAGE_USHORT_SIZE * 2"

lemmas header_layout [simp] =
  KD_PACKAGE_UINT_SIZE_def KD_PACKAGE_USHORT_SIZE_def KD_PACKAGE_HEADER_EVENT_TYPE_START_def
  KD_PACKAGE_HEADER_ERROR_CODE_START_def KD_PACKAGE_HEADER_HANDLER_ID_START_def
  KD_PACKAGE_HEADER_SERVER_ID_START_def KD_PACKAGE_HEADER_SEQUENCE_ID_START_def
  KD_PACKAGE_HEADER_SIZE_def

section \<open>Operations\<close>

definition GetBufferSize :: "bytes \<Rightarrow> u32 res" where
  "GetBufferSize pBuffer = load32 pBuffer 0"

definition GetEventType :: "bytes \<Rightarrow> u32 res" where
  "GetEventType pBuffer = load32 pBuffer KD_PACKAGE_HEADER_EVENT_TYPE_START"

definition GetErrorCode :: "bytes \<Rightarrow> u32 res" where
  "GetErrorCode pBuffer = load32 pBuffer KD_PACKAGE_HEADER_ERROR_CODE_START"

definition GetHandlerId :: "bytes \<Rightarrow> u32 res" where
  "GetHandlerId pBuffer = load32 pBuffer KD_PACKAGE_HEADER_HANDLER_ID_START"

definition GetServerId :: "bytes \<Rightarrow> u16 res" where
  "GetServerId pBuffer = load16 pBuffer KD_PACKAGE_HEADER_SERVER_ID_START"

definition GetSequenceId :: "bytes \<Rightarrow> u16 res" where
  "GetSequenceId pBuffer = load16 pBuffer KD_PACKAGE_HEADER_SEQUENCE_ID_START"

definition AddHanderIdToBuffer :: "u32 \<Rightarrow> bytes \<Rightarrow> u32 \<Rightarrow> bytes res" where
  "AddHanderIdToBuffer nHandlerId pBuffer uSize =
     (if unat uSize > KD_PACKAGE_HEADER_SIZE
      then store32 pBuffer KD_PACKAGE_HEADER_HANDLER_ID_START nHandlerId
      else Inr pBuffer)"

text \<open>
  The out parameters are the offset of the body in the buffer and its size; the size is
  computed in \<^verbatim>\<open>unsigned int\<close> and wraps for a packet shorter than its header.
\<close>

definition GetNetPackageBody :: "u32 \<Rightarrow> nat \<times> u32" where
  "GetNetPackageBody uNetBufferSize =
     (KD_PACKAGE_HEADER_SIZE, uNetBufferSize - word_of_nat KD_PACKAGE_HEADER_SIZE)"

text \<open>
  \<^verbatim>\<open>CreateNetBuffer\<close> returns the block and \<^verbatim>\<open>*uNetBufferSize\<close>. The size is an
  \<^verbatim>\<open>unsigned int\<close>, so it wraps for a parameter of nearly 4 GB.
\<close>

definition CreateNetBuffer ::
  "junk \<Rightarrow> u32 \<Rightarrow> u32 \<Rightarrow> u32 \<Rightarrow> u16 \<Rightarrow> u16 \<Rightarrow> bytes \<Rightarrow> u32 \<Rightarrow> (bytes \<times> u32) res" where
  "CreateNetBuffer mem uEventType uErrorCode uHandlerId uServerId uSequenceId pParam uParamSize =
     (let uBufferSize = word_of_nat KD_PACKAGE_HEADER_SIZE + uParamSize;
          pBuffer = fresh_block mem (unat uBufferSize) in
      bind_res (store32 pBuffer 0 uBufferSize) (\<lambda>b.
      bind_res (store32 b KD_PACKAGE_HEADER_EVENT_TYPE_START uEventType) (\<lambda>b.
      bind_res (store32 b KD_PACKAGE_HEADER_ERROR_CODE_START uErrorCode) (\<lambda>b.
      bind_res (store32 b KD_PACKAGE_HEADER_HANDLER_ID_START uHandlerId) (\<lambda>b.
      bind_res (store16 b KD_PACKAGE_HEADER_SERVER_ID_START uServerId) (\<lambda>b.
      bind_res (store16 b KD_PACKAGE_HEADER_SEQUENCE_ID_START uSequenceId) (\<lambda>b.
      bind_res (mem_read pParam 0 (unat uParamSize)) (\<lambda>param.
      bind_res (mem_write b KD_PACKAGE_HEADER_SIZE param) (\<lambda>b.
      Inr (b, uBufferSize))))))))))"

section \<open>A packet and its fields\<close>

text \<open>
  The bytes of a packet, field by field. \<open>CreateNetBuffer\<close> builds exactly these bytes, and
  the getters take them apart.
\<close>

definition packet :: "u32 \<Rightarrow> u32 \<Rightarrow> u32 \<Rightarrow> u32 \<Rightarrow> u16 \<Rightarrow> u16 \<Rightarrow> bytes \<Rightarrow> bytes" where
  "packet len ev err hid sid seq body =
     enc32 len @ enc32 ev @ enc32 err @ enc32 hid @ enc16 sid @ enc16 seq @ body"

lemma length_packet [simp]: "length (packet len ev err hid sid seq body) = 20 + length body"
  by (simp add: packet_def)

lemma packet_neq_Nil [simp]: "packet len ev err hid sid seq body \<noteq> []"
  using length_packet [of len ev err hid sid seq body] by (metis add_is_0 list.size(3) zero_neq_numeral)

lemma slice_packet:
  "mslice (packet len ev err hid sid seq body) 0 4 = enc32 len"
  "mslice (packet len ev err hid sid seq body) 4 4 = enc32 ev"
  "mslice (packet len ev err hid sid seq body) 8 4 = enc32 err"
  "mslice (packet len ev err hid sid seq body) 12 4 = enc32 hid"
  "mslice (packet len ev err hid sid seq body) 16 2 = enc16 sid"
  "mslice (packet len ev err hid sid seq body) 18 2 = enc16 seq"
  by (simp_all add: packet_def mslice_def)

lemma drop_packet: "drop 20 (packet len ev err hid sid seq body) = body"
  by (simp add: packet_def)

lemma packet_getters:
  "GetBufferSize (packet len ev err hid sid seq body) = Inr len"
  "GetEventType (packet len ev err hid sid seq body) = Inr ev"
  "GetErrorCode (packet len ev err hid sid seq body) = Inr err"
  "GetHandlerId (packet len ev err hid sid seq body) = Inr hid"
  "GetServerId (packet len ev err hid sid seq body) = Inr sid"
  "GetSequenceId (packet len ev err hid sid seq body) = Inr seq"
  by (simp_all add: GetBufferSize_def GetEventType_def GetErrorCode_def GetHandlerId_def
        GetServerId_def GetSequenceId_def slice_packet)

lemma CreateNetBuffer_eq:
  assumes "unat uParamSize < 2 ^ 32 - 20" and "unat uParamSize \<le> length pParam"
  shows "CreateNetBuffer mem ev err hid sid seq pParam uParamSize =
    Inr (packet (20 + uParamSize) ev err hid sid seq (take (unat uParamSize) pParam),
         20 + uParamSize)"
proof -
  have sz: "unat (20 + uParamSize) = 20 + unat uParamSize"
    using assms(1) by (simp add: unat_word_ariths)
  define blk where "blk = fresh_block mem (20 + unat uParamSize)"
  have len: "length blk = 20 + unat uParamSize" by (simp add: blk_def)
  show ?thesis
    unfolding CreateNetBuffer_def Let_def header_layout
    using assms(2)
    by (simp add: sz blk_def [symmetric] len store_def mslice_def)
       (simp add: msplice_def len packet_def)
qed

lemma CreateNetBuffer_overflow:
  assumes "2 ^ 32 - 20 \<le> unat uParamSize"
  shows "CreateNetBuffer mem ev err hid sid seq pParam uParamSize \<noteq> Inr r"
proof -
  have "unat (20 + uParamSize) = unat uParamSize + 20 - 2 ^ 32"
    using assms u32_bound [of uParamSize] by (simp add: unat_word_ariths mod_if)
  then show ?thesis
    by (auto simp: CreateNetBuffer_def Let_def store_def res_simps)
qed

lemma CreateNetBuffer_small:
  assumes "CreateNetBuffer mem ev err hid sid seq pParam uParamSize = Inr r"
  shows "unat uParamSize < 2 ^ 32 - 20"
  using assms CreateNetBuffer_overflow [of uParamSize] by (meson not_less)

lemma create_net_buffer_le:
  "CreateNetBuffer mem ev err hid sid seq pParam uParamSize = Inr r \<Longrightarrow> unat uParamSize \<le> length pParam"
  by (auto simp: CreateNetBuffer_def Let_def res_simps)

lemma AddHanderIdToBuffer_eq:
  "AddHanderIdToBuffer h (packet len ev err hid sid seq body) uSize =
     Inr (packet len ev err (if 20 < unat uSize then h else hid) sid seq body)"
  by (simp add: AddHanderIdToBuffer_def store_def) (simp add: msplice_def packet_def)

section \<open>Properties\<close>

text \<open>Building a packet succeeds exactly when the parameter block holds the announced
  number of bytes and the total size still fits an \<^verbatim>\<open>unsigned int\<close>; for a size within
  20 bytes of 4 GB the size wraps and the writes run past the block.\<close>

lemma create_net_buffer_succeeds_iff:
  "(\<exists>r. CreateNetBuffer mem ev err hid sid seq pParam uParamSize = Inr r) \<longleftrightarrow>
     unat uParamSize \<le> length pParam \<and> unat uParamSize < 2 ^ 32 - 20"
proof (cases "unat uParamSize \<le> length pParam")
  case True
  then show ?thesis
    using CreateNetBuffer_eq [of uParamSize pParam] CreateNetBuffer_small by blast
next
  case False
  then show ?thesis
    by (auto simp: CreateNetBuffer_def Let_def res_simps)
qed

text \<open>What \<^verbatim>\<open>CreateNetBuffer\<close> writes is what the getters read: every header field comes
  back, the length field is the size of the block, and the body found behind the header is
  the parameter.\<close>

lemma net_packet_roundtrip:
  assumes "CreateNetBuffer mem ev err hid sid seq pParam uParamSize = Inr (buf, sz)"
    and "unat uParamSize = length pParam"
  shows "length buf = unat sz \<and> GetBufferSize buf = Inr sz \<and> GetEventType buf = Inr ev
    \<and> GetErrorCode buf = Inr err \<and> GetHandlerId buf = Inr hid \<and> GetServerId buf = Inr sid
    \<and> GetSequenceId buf = Inr seq
    \<and> (case GetNetPackageBody sz of (off, n) \<Rightarrow> mem_read buf off (unat n) = Inr pParam)"
proof -
  have small: "unat uParamSize < 2 ^ 32 - 20"
    using assms(1) by (rule CreateNetBuffer_small)
  then have "buf = packet sz ev err hid sid seq pParam" and sz: "sz = 20 + uParamSize"
    using assms by (auto simp: CreateNetBuffer_eq)
  moreover have "unat sz = 20 + length pParam"
    using small assms(2) sz by (simp add: unat_word_ariths)
  ultimately show ?thesis
    using assms(2) by (simp add: packet_getters GetNetPackageBody_def mslice_def drop_packet)
qed

lemma net_packet_roundtrip_witness:
  "\<exists>buf. CreateNetBuffer (\<lambda>_. 0xFF) 3001 0 7 0 9 [10, 2, 104, 105] 4 = Inr (buf, 24)
     \<and> GetHandlerId buf = Inr 7 \<and> GetSequenceId buf = Inr 9"
proof -
  have "CreateNetBuffer (\<lambda>_. 0xFF) 3001 0 7 0 9 [10, 2, 104, 105] 4 =
      Inr (packet 24 3001 0 7 0 9 [10, 2, 104, 105], 24)"
    by (simp add: CreateNetBuffer_eq)
  with net_packet_roundtrip [OF this] show ?thesis by simp
qed

text \<open>Stamping the session id into a packet that has a body changes the handler id field
  and no other byte, in particular not the destination server.\<close>

lemma stamp_only_handler_id:
  assumes "AddHanderIdToBuffer h buf uSize = Inr buf'" and "20 < unat uSize"
  shows "GetHandlerId buf' = Inr h \<and> length buf' = length buf
    \<and> take 12 buf' = take 12 buf \<and> drop 16 buf' = drop 16 buf"
  using assms
  by (auto simp: AddHanderIdToBuffer_def GetHandlerId_def store_def res_simps msplice_def mslice_def
        split: if_splits)

lemma stamp_only_handler_id_witness:
  "\<exists>buf'. AddHanderIdToBuffer 5 (packet 24 1 0 99 2 0 [10, 2, 104, 105]) 24 = Inr buf'
     \<and> GetHandlerId buf' = Inr 5"
proof -
  have "AddHanderIdToBuffer 5 (packet 24 1 0 99 2 0 [10, 2, 104, 105]) 24 =
      Inr (packet 24 1 0 5 2 0 [10, 2, 104, 105])"
    by (simp add: AddHanderIdToBuffer_eq)
  with stamp_only_handler_id [OF this] show ?thesis by simp
qed

end
