(* ===== verification/KgBuffer.thy ===== *)
theory KgBuffer
  imports Prelude
begin

unbundle bit_operations_syntax

text \<open>
  The reference-counted memory block \<^verbatim>\<open>KG_Buffer\<close> of \<^verbatim>\<open>common/db_buffer.cpp\<close> and the atomic
  operations of \<^verbatim>\<open>common/kg_interlockedvariable.h\<close> under it, on an LP64 target (the layout
  the inline assembly and the build files ask for): \<^verbatim>\<open>long\<close> has 64 bits, the object 32
  bytes, and the header, 8 reserved bytes and the data lie in one \<^verbatim>\<open>malloc\<close> block.
\<close>

section \<open>Atomic counters\<close>

text \<open>
  The assembly works on the low 32 bits of the 64-bit \<^verbatim>\<open>long\<close> it is given and returns
  \<^verbatim>\<open>rax\<close>, whose upper half a 32-bit instruction clears. The result is (the variable, the
  returned \<^verbatim>\<open>long\<close>).
\<close>

definition low32 :: "u64 \<Rightarrow> u32" where
  "low32 v = ucast v"

definition set_low32 :: "u64 \<Rightarrow> u32 \<Rightarrow> u64" where
  "set_low32 v w = push_bit 32 (drop_bit 32 v) OR ucast w"

definition KG_InterlockedExchangeAdd :: "u64 \<Rightarrow> u32 \<Rightarrow> u64 \<times> u64" where
  "KG_InterlockedExchangeAdd v a = (set_low32 v (low32 v + a), ucast (low32 v))"

definition KG_InterlockedIncrement :: "u64 \<Rightarrow> u64 \<times> u64" where
  "KG_InterlockedIncrement v = (set_low32 v (low32 v + 1), ucast (low32 v + 1))"

definition KG_InterlockedDecrement :: "u64 \<Rightarrow> u64 \<times> u64" where
  "KG_InterlockedDecrement v = (set_low32 v (low32 v + 0xFFFFFFFF), ucast (low32 v - 1))"

section \<open>The buffer\<close>

record kg_buffer =
  m_lRefCount :: u64
  m_uOriginSize :: u32
  m_uSize :: u32
  reserve :: bytes
  pvData :: bytes

definition SIZEOF_KG_BUFFER :: nat where "SIZEOF_KG_BUFFER = 32"
definition MEMORY_BUFFER_RESERVE_SIZE :: nat where "MEMORY_BUFFER_RESERVE_SIZE = 8"

lemmas buffer_layout [simp] = SIZEOF_KG_BUFFER_def MEMORY_BUFFER_RESERVE_SIZE_def

text \<open>
  \<^verbatim>\<open>DB_MemoryCreateBuffer\<close>: the block size is an \<^verbatim>\<open>unsigned int\<close> and can wrap. A block
  smaller than the object is overrun by the constructor; otherwise \<open>reserve\<close> and \<open>pvData\<close>
  hold what the block really has behind the object.
\<close>

definition DB_MemoryCreateBuffer :: "junk \<Rightarrow> u32 \<Rightarrow> kg_buffer res" where
  "DB_MemoryCreateBuffer mem uSize =
     (let uBufferSize = uSize + word_of_nat SIZEOF_KG_BUFFER + word_of_nat MEMORY_BUFFER_RESERVE_SIZE;
          pvBuffer = fresh_block mem (unat uBufferSize) in
      if length pvBuffer < SIZEOF_KG_BUFFER then Inl HeapOverflow
      else Inr \<lparr>m_lRefCount = 1, m_uOriginSize = uSize, m_uSize = uSize,
                reserve = mslice pvBuffer SIZEOF_KG_BUFFER MEMORY_BUFFER_RESERVE_SIZE,
                pvData = drop (SIZEOF_KG_BUFFER + MEMORY_BUFFER_RESERVE_SIZE) pvBuffer\<rparr>)"

definition KG_Buffer_AddRef :: "kg_buffer \<Rightarrow> u64 \<times> kg_buffer" where
  "KG_Buffer_AddRef b =
     (case KG_InterlockedIncrement (m_lRefCount b) of (cnt, r) \<Rightarrow> (r, b\<lparr>m_lRefCount := cnt\<rparr>))"

text \<open>
  \<^verbatim>\<open>Release\<close> returns the count, the buffer (\<open>None\<close> once it is freed) and whether the
  \<^verbatim>\<open>Unexpected memory release\<close> branch was taken.
\<close>

definition KG_Buffer_Release :: "kg_buffer \<Rightarrow> u64 \<times> kg_buffer option \<times> bool" where
  "KG_Buffer_Release b =
     (case KG_InterlockedDecrement (m_lRefCount b) of (cnt, lRefNow) \<Rightarrow>
        if sint lRefNow > 0 then (lRefNow, Some (b\<lparr>m_lRefCount := cnt\<rparr>), False)
        else if sint lRefNow < 0 then (lRefNow, None, True)
        else (lRefNow, None, False))"

section \<open>Lemmas\<close>

lemma sint_u64_of_nat: "n < 2 ^ 63 \<Longrightarrow> sint (word_of_nat n :: u64) = int n"
  by (simp add: signed_of_nat signed_take_bit_int_eq_self_iff)

lemma sint_ucast_u32: "sint (ucast (w :: u32) :: u64) = int (unat w)"
proof -
  have "sint (word_of_nat (unat w) :: u64) = int (unat w)"
    using u32_bound [of w] by (intro sint_u64_of_nat) simp
  then show ?thesis by simp
qed

lemma ucast_minus_1: "(ucast (- 1 :: u32) :: u64) = 0xFFFFFFFF"
  by code_simp

lemma low32_of_nat: "low32 (word_of_nat n) = word_of_nat n"
  by (simp add: low32_def unsigned_of_nat word_of_nat_eq_iff)

lemma ucast_u32_of_nat: "n < 2 ^ 32 \<Longrightarrow> (ucast (word_of_nat n :: u32) :: u64) = word_of_nat n"
  by (simp add: unsigned_of_nat take_bit_nat_eq_self)

lemma set_low32_of_nat:
  assumes "n < 2 ^ 32"
  shows "set_low32 (word_of_nat n) w = ucast w"
proof -
  have "drop_bit 32 (word_of_nat n :: u64) = 0"
    using assms by (simp add: drop_bit_eq_div word_arith_nat_div unat_of_nat)
  then show ?thesis by (simp add: set_low32_def)
qed

lemma create_ok:
  assumes "unat uSize < 2 ^ 32 - 40"
  shows "DB_MemoryCreateBuffer mem uSize =
    Inr \<lparr>m_lRefCount = 1, m_uOriginSize = uSize, m_uSize = uSize,
         reserve = mslice (fresh_block mem (40 + unat uSize)) 32 8,
         pvData = drop 40 (fresh_block mem (40 + unat uSize))\<rparr>"
proof -
  have "unat (uSize + 32 + 8) = 40 + unat uSize"
    using assms by (simp add: unat_word_ariths)
  then show ?thesis by (simp add: DB_MemoryCreateBuffer_def Let_def)
qed

lemma create_wrap:
  assumes "2 ^ 32 - 40 \<le> unat uSize" and "DB_MemoryCreateBuffer mem uSize = Inr b"
  shows "pvData b = []"
proof -
  have "unat (uSize + 40) = unat uSize + 40 - 2 ^ 32"
    using assms(1) u32_bound [of uSize] by (simp add: unat_word_ariths mod_if)
  then have "unat (uSize + 32 + 8) \<le> 40"
    using u32_bound [of uSize] by (simp add: add.assoc)
  then show ?thesis
    using assms(2) by (auto simp: DB_MemoryCreateBuffer_def Let_def split: if_splits)
qed

text \<open>A count that fits 32 bits behaves as a natural number.\<close>

lemma increment_of_nat:
  assumes "n + 1 < 2 ^ 32"
  shows "KG_InterlockedIncrement (word_of_nat n) = (word_of_nat (n + 1), word_of_nat (n + 1))"
proof -
  have "low32 (word_of_nat n) + 1 = word_of_nat (n + 1)"
    by (simp add: low32_of_nat)
  with assms ucast_u32_of_nat [of "n + 1"] show ?thesis
    by (simp add: KG_InterlockedIncrement_def set_low32_of_nat del: of_nat_add of_nat_Suc)
qed

lemma decrement_of_nat:
  assumes "n + 1 < 2 ^ 32"
  shows "KG_InterlockedDecrement (word_of_nat (n + 1)) = (word_of_nat n, word_of_nat n)"
proof -
  have "low32 (word_of_nat (n + 1)) + 0xFFFFFFFF = word_of_nat n"
    "low32 (word_of_nat (n + 1)) - 1 = word_of_nat n"
    by (simp_all add: low32_of_nat del: of_nat_add of_nat_Suc) simp_all
  with assms ucast_u32_of_nat [of n] show ?thesis
    by (simp add: KG_InterlockedDecrement_def set_low32_of_nat del: of_nat_add of_nat_Suc)
qed

fun addref_times :: "nat \<Rightarrow> kg_buffer \<Rightarrow> kg_buffer" where
  "addref_times 0 b = b"
| "addref_times (Suc n) b = addref_times n (snd (KG_Buffer_AddRef b))"

fun release_times :: "nat \<Rightarrow> kg_buffer \<Rightarrow> kg_buffer option" where
  "release_times 0 b = Some b"
| "release_times (Suc n) b =
     (case KG_Buffer_Release b of
        (_, None, _) \<Rightarrow> None
      | (_, Some b', _) \<Rightarrow> release_times n b')"

lemma addref_times_count:
  "k + n < 2 ^ 32 \<Longrightarrow> m_lRefCount b = word_of_nat k \<Longrightarrow>
     addref_times n b = b\<lparr>m_lRefCount := word_of_nat (k + n)\<rparr>"
proof (induction n arbitrary: k b)
  case (Suc n)
  have step: "snd (KG_Buffer_AddRef b) = b\<lparr>m_lRefCount := word_of_nat (k + 1)\<rparr>"
    using Suc.prems increment_of_nat [of k] by (simp add: KG_Buffer_AddRef_def)
  show ?case
    using Suc.prems Suc.IH [of "k + 1" "b\<lparr>m_lRefCount := word_of_nat (k + 1)\<rparr>"]
    by (simp add: step del: of_nat_add of_nat_Suc)
qed simp

lemma release_last:
  assumes "m_lRefCount b = 1"
  shows "KG_Buffer_Release b = (0, None, False)"
  using assms decrement_of_nat [of 0] by (simp add: KG_Buffer_Release_def)

lemma release_more:
  assumes "m_lRefCount b = word_of_nat (n + 1)" and "0 < n" and "n + 1 < 2 ^ 32"
  shows "KG_Buffer_Release b = (word_of_nat n, Some (b\<lparr>m_lRefCount := word_of_nat n\<rparr>), False)"
proof -
  have "sint (word_of_nat n :: u64) = int n"
    using assms(3) by (intro sint_u64_of_nat) simp
  with assms decrement_of_nat [of n] show ?thesis
    by (simp add: KG_Buffer_Release_def del: of_nat_add of_nat_Suc)
qed

lemma release_times_count:
  "k + 1 < 2 ^ 32 \<Longrightarrow> n \<le> k \<Longrightarrow> m_lRefCount b = word_of_nat (k + 1) \<Longrightarrow>
     release_times n b = Some (b\<lparr>m_lRefCount := word_of_nat (k + 1 - n)\<rparr>)"
proof (induction n arbitrary: k b)
  case 0
  then show ?case by simp
next
  case (Suc n)
  then obtain j where j: "k = Suc j" by (cases k) auto
  have "KG_Buffer_Release b = (word_of_nat k, Some (b\<lparr>m_lRefCount := word_of_nat k\<rparr>), False)"
    using Suc.prems by (intro release_more) auto
  then show ?case
    using Suc.prems Suc.IH [of j "b\<lparr>m_lRefCount := word_of_nat k\<rparr>"] j
    by (simp del: of_nat_add of_nat_Suc)
qed

lemma release_times_add:
  "release_times (m + n) b = Option.bind (release_times m b) (release_times n)"
  by (induction m arbitrary: b) (auto split: option.splits prod.splits)

section \<open>Properties\<close>

text \<open>A request for less than 4 GB minus the 40 bytes of header and reserve yields a
  buffer with one reference, exactly the requested data bytes and the 8 reserved bytes in
  front; a larger request wraps, and the buffer it yields, if the constructor survives, has
  no data byte at all while it still reports the requested size.\<close>

lemma memory_create_buffer_size:
  "(case DB_MemoryCreateBuffer mem uSize of
      Inl e \<Rightarrow> 2 ^ 32 - 40 \<le> unat uSize \<and> e = HeapOverflow
    | Inr b \<Rightarrow> m_lRefCount b = 1 \<and> m_uSize b = uSize \<and>
        (if unat uSize < 2 ^ 32 - 40
         then length (pvData b) = unat uSize \<and> length (reserve b) = 8
         else pvData b = []))"
proof (cases "unat uSize < 2 ^ 32 - 40")
  case True
  then show ?thesis using create_ok [OF True, of mem] by simp
next
  case False
  then show ?thesis
    using create_wrap [of uSize mem]
    by (auto simp: DB_MemoryCreateBuffer_def Let_def)
qed

text \<open>Reference counting frees exactly once and exactly at the last release: after \<open>k\<close>
  extra references the first \<open>k\<close> releases keep the buffer, the next one frees it.\<close>

lemma refcount_balanced:
  assumes "m_lRefCount b = 1" and "k + 1 < 2 ^ 32" and "n \<le> k + 1"
  shows "release_times n (addref_times k b) =
    (if n \<le> k then Some (b\<lparr>m_lRefCount := word_of_nat (k + 1 - n)\<rparr>) else None)"
proof -
  define c where "c = addref_times k b"
  have "c = b\<lparr>m_lRefCount := word_of_nat (1 + k)\<rparr>"
    unfolding c_def using assms by (intro addref_times_count) auto
  then have c: "m_lRefCount c = word_of_nat (k + 1)" "c\<lparr>m_lRefCount := w\<rparr> = b\<lparr>m_lRefCount := w\<rparr>" for w
    by (simp_all add: add.commute)
  have keep: "release_times j c = Some (b\<lparr>m_lRefCount := word_of_nat (k + 1 - j)\<rparr>)" if "j \<le> k" for j
    using release_times_count [OF assms(2) that c(1)] c(2) by simp
  have "release_times (k + 1) c = None"
    using keep [of k] release_times_add [of k 1 c] release_last [of "b\<lparr>m_lRefCount := 1\<rparr>"] by simp
  then show ?thesis
    using keep [of n] assms(3) by (auto simp: c_def le_Suc_eq)
qed

lemma refcount_balanced_witness:
  "let b = \<lparr>m_lRefCount = 1, m_uOriginSize = 0, m_uSize = 0, reserve = [], pvData = []\<rparr> in
     release_times 3 (addref_times 2 b) = None \<and> release_times 2 (addref_times 2 b) = Some b"
  using refcount_balanced
      [of "\<lparr>m_lRefCount = 1, m_uOriginSize = 0, m_uSize = 0, reserve = [], pvData = []\<rparr>" 2 3]
    refcount_balanced
      [of "\<lparr>m_lRefCount = 1, m_uOriginSize = 0, m_uSize = 0, reserve = [], pvData = []\<rparr>" 2 2]
  by simp

text \<open>The misuse branch of \<^verbatim>\<open>Release\<close> is dead on LP64: the zero-extended result of the
  32-bit decrement is never negative as a \<^verbatim>\<open>long\<close>, so releasing a buffer whose count is
  already 0 reports nothing and returns 4294967295.\<close>

lemma over_release_is_not_detected:
  "snd (snd (KG_Buffer_Release b)) = False
    \<and> KG_Buffer_Release (b\<lparr>m_lRefCount := 0\<rparr>) =
        (0xFFFFFFFF, Some (b\<lparr>m_lRefCount := 0xFFFFFFFF\<rparr>), False)"
proof
  show "snd (snd (KG_Buffer_Release b)) = False"
    by (simp add: KG_Buffer_Release_def KG_InterlockedDecrement_def sint_ucast_u32)
  show "KG_Buffer_Release (b\<lparr>m_lRefCount := 0\<rparr>) =
        (0xFFFFFFFF, Some (b\<lparr>m_lRefCount := 0xFFFFFFFF\<rparr>), False)"
    using ucast_minus_1
    by (simp add: KG_Buffer_Release_def KG_InterlockedDecrement_def low32_def set_low32_def
          sint_ucast_u32)
qed

end
