(* ===== verification/PbMessage.thy ===== *)
theory PbMessage
  imports Prelude
begin

text \<open>
  The one message type, \<^verbatim>\<open>google.Message\<close> with its field \<^verbatim>\<open>required string data = 1\<close>, as the
  generated \<^verbatim>\<open>protobuf/google.pb.cc\<close> reads and writes it. The wire primitives (varints and
  length-delimited strings) follow the inline functions of the protobuf headers under
  \<^verbatim>\<open>third_party/google/protobuf\<close>; skipping a field that is not \<^verbatim>\<open>data\<close> is done by
  \<^verbatim>\<open>WireFormat::SkipField\<close>, whose body is not in the tree: it is the parameter
  \<open>skip_field\<close>, from a tag and the rest of the input to what is left after the field.
\<close>

section \<open>Wire primitives\<close>

fun write_varint :: "nat \<Rightarrow> bytes" where
  "write_varint n =
     (if n < 128 then [word_of_nat n] else word_of_nat (n mod 128 + 128) # write_varint (n div 128))"

declare write_varint.simps [simp del]

text \<open>At most \<open>k\<close> bytes are read; a varint that is cut off or longer is malformed.\<close>

fun read_varint :: "nat \<Rightarrow> bytes \<Rightarrow> (nat \<times> bytes) option" where
  "read_varint 0 bs = None"
| "read_varint (Suc k) [] = None"
| "read_varint (Suc k) (b # bs) =
     (if unat b < 128 then Some (unat b, bs)
      else case read_varint k bs of
        None \<Rightarrow> None
      | Some (v, rest) \<Rightarrow> Some (unat b - 128 + 128 * v, rest))"

text \<open>
  \<^verbatim>\<open>ReadTag\<close>: the tag (0 at the end of the input or for a malformed varint), what is left,
  and whether the input ended exactly here.
\<close>

definition ReadTag :: "bytes \<Rightarrow> u32 \<times> bytes \<times> bool" where
  "ReadTag bs =
     (if bs = [] then (0, [], True)
      else case read_varint 10 bs of
        None \<Rightarrow> (0, bs, False)
      | Some (v, rest) \<Rightarrow> (word_of_nat v, rest, False))"

definition ReadString :: "bytes \<Rightarrow> (bytes \<times> bytes) option" where
  "ReadString bs =
     (case read_varint 10 bs of
        None \<Rightarrow> None
      | Some (v, rest) \<Rightarrow>
          (let size = (word_of_nat v :: u32) in
           if sint size < 0 \<or> length rest < unat size then None
           else Some (take (unat size) rest, drop (unat size) rest)))"

definition WriteStringToArray :: "bytes \<Rightarrow> bytes" where
  "WriteStringToArray value = 10 # write_varint (length value) @ value"

section \<open>The message\<close>

record message =
  has_data :: bool
  msg_data :: bytes

definition new_message :: message where
  "new_message = \<lparr>has_data = False, msg_data = []\<rparr>"

definition set_data :: "bytes \<Rightarrow> message \<Rightarrow> message" where
  "set_data value m = m\<lparr>has_data := True, msg_data := value\<rparr>"

definition IsInitialized :: "message \<Rightarrow> bool" where
  "IsInitialized m \<longleftrightarrow> has_data m"

text \<open>
  \<^verbatim>\<open>MergePartialFromCodedStream\<close>: \<open>None\<close> for its failure exit; otherwise the message and
  whether the loop was left at the exact end of the input, which \<^verbatim>\<open>ConsumedEntireMessage\<close>
  asks for. The loop takes at least one byte per round, so the length of the input and one
  more is enough fuel.
\<close>

fun MergePartialFromCodedStream ::
  "(u32 \<Rightarrow> bytes \<Rightarrow> bytes option) \<Rightarrow> nat \<Rightarrow> bytes \<Rightarrow> message \<Rightarrow> (message \<times> bool) option" where
  "MergePartialFromCodedStream skip_field 0 input m = None"
| "MergePartialFromCodedStream skip_field (Suc fuel) input m =
     (case ReadTag input of (tag, rest, at_end) \<Rightarrow>
        if unat tag \<le> 127 \<and> unat tag div 8 = 1 \<and> tag = 10 then
          (case ReadString rest of
             None \<Rightarrow> None
           | Some (s, rest') \<Rightarrow>
               if rest' = [] then Some (set_data s m, True)
               else MergePartialFromCodedStream skip_field fuel rest' (set_data s m))
        else if tag = 0 \<or> unat tag mod 8 = 4 then Some (m, at_end)
        else (case skip_field tag rest of
                None \<Rightarrow> None
              | Some rest' \<Rightarrow> MergePartialFromCodedStream skip_field fuel rest' m))"

text \<open>\<^verbatim>\<open>msg.ParseFromArray(p, n)\<close> followed by \<^verbatim>\<open>msg.data()\<close>; \<open>None\<close> when it returns false.\<close>

definition ParseFromArray :: "(u32 \<Rightarrow> bytes \<Rightarrow> bytes option) \<Rightarrow> bytes \<Rightarrow> bytes option" where
  "ParseFromArray skip_field bs =
     (case MergePartialFromCodedStream skip_field (Suc (length bs)) bs new_message of
        None \<Rightarrow> None
      | Some (m, at_end) \<Rightarrow> if IsInitialized m \<and> at_end then Some (msg_data m) else None)"

text \<open>\<^verbatim>\<open>msg.set_data(s); msg.SerializeToString(&out)\<close>.\<close>

definition SerializeWithCachedSizesToArray :: "message \<Rightarrow> bytes" where
  "SerializeWithCachedSizesToArray m = (if has_data m then WriteStringToArray (msg_data m) else [])"

definition SerializeToString :: "bytes \<Rightarrow> bytes" where
  "SerializeToString s = SerializeWithCachedSizesToArray (set_data s new_message)"

definition ByteSizeLong :: "message \<Rightarrow> nat" where
  "ByteSizeLong m =
     (if has_data m then 1 + (length (write_varint (length (msg_data m))) + length (msg_data m))
      else 0)"

section \<open>Lemmas\<close>

lemma read_write_varint:
  "n < 128 ^ Suc k \<Longrightarrow> read_varint (Suc k) (write_varint n @ rest) = Some (n, rest)"
proof (induction k arbitrary: n)
  case 0
  then show ?case by (simp add: write_varint.simps [of n] unat_of_nat)
next
  case (Suc k)
  show ?case
  proof (cases "n < 128")
    case True
    then show ?thesis by (simp add: write_varint.simps [of n] unat_of_nat)
  next
    case False
    from Suc.prems have "n div 128 < 128 ^ Suc k"
      by (simp add: less_mult_imp_div_less mult.commute)
    then have "read_varint (Suc k) (write_varint (n div 128) @ rest) = Some (n div 128, rest)"
      by (rule Suc.IH)
    moreover have "unat (word_of_nat (n mod 128 + 128) :: byte) = n mod 128 + 128"
      by (simp only: unat_of_nat) simp
    ultimately show ?thesis
      using False by (simp add: write_varint.simps [of n] del: of_nat_add)
  qed
qed

lemmas read_write_varint10 = read_write_varint [of _ 9, simplified]

lemma ReadTag_Cons: "unat b < 128 \<Longrightarrow> ReadTag (b # bs) = (word_of_nat (unat b), bs, False)"
  using read_varint.simps(3) [of 9 b bs] by (simp add: ReadTag_def)

lemma ReadString_write:
  assumes "length s < 2 ^ 31"
  shows "ReadString (write_varint (length s) @ s @ rest) = Some (s, rest)"
proof -
  have "read_varint 10 (write_varint (length s) @ s @ rest) = Some (length s, s @ rest)"
    using assms by (intro read_write_varint10) simp
  moreover have "unat (word_of_nat (length s) :: u32) = length s"
    using assms by (simp add: unat_of_nat)
  moreover have "\<not> sint (word_of_nat (length s) :: u32) < 0"
    using assms by (simp add: u32_sint_of_nat)
  ultimately show ?thesis
    by (simp add: ReadString_def Let_def)
qed

text \<open>What the servers rely on: a serialized message parses back, an empty body does not
  parse because the field is required.\<close>

locale message_codec =
  fixes ser :: "bytes \<Rightarrow> bytes"
    and parse :: "bytes \<Rightarrow> bytes option"
  assumes parse_ser: "length s < 2 ^ 31 \<Longrightarrow> parse (ser s) = Some s"
    and parse_nil: "parse [] = None"

lemma ParseFromArray_Nil: "ParseFromArray skip_field [] = None"
  by (simp add: ParseFromArray_def ReadTag_def new_message_def IsInitialized_def)

lemma ParseFromArray_Serialize:
  assumes "length s < 2 ^ 31"
  shows "ParseFromArray skip_field (SerializeToString s) = Some s"
proof -
  have "ReadTag (SerializeToString s) = (10, write_varint (length s) @ s, False)"
    by (simp add: SerializeToString_def SerializeWithCachedSizesToArray_def set_data_def
          WriteStringToArray_def ReadTag_Cons)
  moreover have "ReadString (write_varint (length s) @ s) = Some (s, [])"
    using ReadString_write [OF assms, of "[]"] by simp
  ultimately show ?thesis
    by (simp add: ParseFromArray_def IsInitialized_def set_data_def)
qed

interpretation pb: message_codec SerializeToString "ParseFromArray skip_field" for skip_field
  by unfold_locales (simp_all add: ParseFromArray_Serialize ParseFromArray_Nil)

lemma Serialize_small: "length s < 128 \<Longrightarrow> SerializeToString s = 10 # word_of_nat (length s) # s"
  by (simp add: SerializeToString_def SerializeWithCachedSizesToArray_def set_data_def
      WriteStringToArray_def write_varint.simps)

lemma length_write_varint: "n < 128 ^ Suc k \<Longrightarrow> length (write_varint n) \<le> Suc k"
proof (induction k arbitrary: n)
  case 0
  then show ?case by (simp add: write_varint.simps [of n])
next
  case (Suc k)
  then have "n div 128 < 128 ^ Suc k"
    by (simp add: less_mult_imp_div_less mult.commute)
  with Suc.IH show ?case by (simp add: write_varint.simps [of n])
qed

lemma length_Serialize:
  assumes "length s < 2 ^ 31"
  shows "length (SerializeToString s) \<le> length s + 6"
  using length_write_varint [of "length s" 4] assms
  by (simp add: SerializeToString_def SerializeWithCachedSizesToArray_def set_data_def
      WriteStringToArray_def)

section \<open>Properties\<close>

text \<open>C25: a message that was serialized parses back to its text, whatever the library does
  with fields it does not know, and \<^verbatim>\<open>ByteSizeLong\<close> is the size of the serialization.\<close>

theorem message_roundtrip:
  assumes "length s < 2 ^ 31"
  shows "ParseFromArray skip_field (SerializeToString s) = Some s
    \<and> length (SerializeToString s) = ByteSizeLong (set_data s new_message)"
  using pb.parse_ser [OF assms]
  by (simp add: SerializeToString_def SerializeWithCachedSizesToArray_def set_data_def
        WriteStringToArray_def ByteSizeLong_def)

theorem message_roundtrip_witness:
  "ParseFromArray (\<lambda>_ _. None) (SerializeToString [104, 105]) = Some [104, 105]"
  using message_roundtrip [of "[104, 105]" "\<lambda>_ _. None"] by simp

end
