(* ===== verification/NetPacket.thy ===== *)
theory NetPacket
  imports NetBuffer KgBuffer PbMessage
begin

text \<open>
  \<^verbatim>\<open>KNetPackage\<close> of \<^verbatim>\<open>common/knetpacket.cpp\<close>: a byte stream is written into it in pieces of any
  size, and it assembles one packet at a time: four bytes of length first, then a buffer of
  that length. The theory models the class, states its assembly contract as the abstract
  function \<open>frames\<close>, and proves that writing refines it.
\<close>

section \<open>State and operations\<close>

record knetpackage =
  m_szRemain :: bytes
  m_uPacketLen :: u32
  m_uRecvOffset :: u32
  m_pBuffer :: "kg_buffer option"

definition KD_PACKAGE_LEN_SIZE :: nat where "KD_PACKAGE_LEN_SIZE = 4"
definition KD_INVALID_PACKET_LEN :: u32 where "KD_INVALID_PACKET_LEN = - 1"

definition KG_CreateCommonPackage :: knetpackage where
  "KG_CreateCommonPackage =
     \<lparr>m_szRemain = replicate KD_PACKAGE_LEN_SIZE 0, m_uPacketLen = KD_INVALID_PACKET_LEN,
      m_uRecvOffset = 0, m_pBuffer = None\<rparr>"

definition IsValid :: "knetpackage \<Rightarrow> bool" where
  "IsValid pk \<longleftrightarrow> m_uRecvOffset pk = m_uPacketLen pk"

text \<open>\<^verbatim>\<open>GetData\<close> returns false for an unfinished packet, else sets \<^verbatim>\<open>*ppBuffer\<close>.\<close>

definition GetData :: "knetpackage \<Rightarrow> bool \<times> kg_buffer option" where
  "GetData pk = (if \<not> IsValid pk then (False, None) else (True, m_pBuffer pk))"

definition KNetPackage_Reset :: "knetpackage \<Rightarrow> knetpackage" where
  "KNetPackage_Reset pk = pk\<lparr>m_uPacketLen := KD_INVALID_PACKET_LEN, m_uRecvOffset := 0\<rparr>"

definition InitPackage :: "junk \<Rightarrow> u32 \<Rightarrow> knetpackage \<Rightarrow> knetpackage res" where
  "InitPackage mem uPacketSize pk =
     bind_res (DB_MemoryCreateBuffer mem uPacketSize) (\<lambda>b.
     bind_res (mem_write (pvData b) 0 (enc32 uPacketSize)) (\<lambda>d.
     Inr (pk\<lparr>m_uPacketLen := uPacketSize, m_pBuffer := Some (b\<lparr>pvData := d\<rparr>)\<rparr>)))"

definition WriteData :: "bytes \<Rightarrow> u32 \<Rightarrow> knetpackage \<Rightarrow> knetpackage res" where
  "WriteData pData uSize pk =
     bind_res (deref (m_pBuffer pk)) (\<lambda>b.
     bind_res (mem_read pData 0 (unat uSize)) (\<lambda>bs.
     bind_res (mem_write (pvData b) (unat (m_uRecvOffset pk)) bs) (\<lambda>d.
     Inr (pk\<lparr>m_pBuffer := Some (b\<lparr>pvData := d\<rparr>), m_uRecvOffset := m_uRecvOffset pk + uSize\<rparr>))))"

text \<open>
  The loop that collects the length bytes, from loop index \<open>i\<close>: the packet, the unread
  input, the bytes written so far, and whether the loop left through \<^verbatim>\<open>goto Exit1\<close>.
\<close>

function write_length ::
  "junk \<Rightarrow> nat \<Rightarrow> knetpackage \<Rightarrow> bytes \<Rightarrow> u32 \<Rightarrow> u32 \<Rightarrow> (knetpackage \<times> bytes \<times> u32 \<times> bool) res" where
  "write_length mem i pk pData uCurWriteLen uDataLen =
     (if i < KD_PACKAGE_LEN_SIZE then
        bind_res (mem_read pData 0 1) (\<lambda>c.
        bind_res (mem_write (m_szRemain pk) (unat (m_uRecvOffset pk)) c) (\<lambda>r.
        let pk1 = pk\<lparr>m_szRemain := r, m_uRecvOffset := m_uRecvOffset pk + 1\<rparr>;
            uCur = uCurWriteLen + 1 in
        bind_res
          (if unat (m_uRecvOffset pk1) = KD_PACKAGE_LEN_SIZE
           then bind_res (load32 (m_szRemain pk1) 0) (\<lambda>n. InitPackage mem n pk1)
           else Inr pk1) (\<lambda>pk2.
        if uCur = uDataLen then Inr (pk2, drop 1 pData, uCur, True)
        else write_length mem (Suc i) pk2 (drop 1 pData) uCur uDataLen)))
      else Inr (pk, pData, uCurWriteLen, False))"
  by pat_completeness auto
termination
  by (relation "measure (\<lambda>(mem, i, pk, pData, uCur, uDataLen). KD_PACKAGE_LEN_SIZE - i)")
    (auto simp: KD_PACKAGE_LEN_SIZE_def)

declare write_length.simps [simp del]

text \<open>The part of \<^verbatim>\<open>Write\<close> behind the length loop: as much of the input as the packet lacks.\<close>

definition write_body :: "knetpackage \<Rightarrow> bytes \<Rightarrow> u32 \<Rightarrow> u32 \<Rightarrow> (knetpackage \<times> u32) res" where
  "write_body pk pData uCurWriteLen uDataLen =
     (if m_uRecvOffset pk < m_uPacketLen pk then
        let uMaxWriteLen = uDataLen - uCurWriteLen;
            uMaxWriteLen = (if uMaxWriteLen < m_uPacketLen pk - m_uRecvOffset pk
                            then uMaxWriteLen else m_uPacketLen pk - m_uRecvOffset pk) in
        bind_res (WriteData pData uMaxWriteLen pk) (\<lambda>pk. Inr (pk, uCurWriteLen + uMaxWriteLen))
      else Inr (pk, uCurWriteLen))"

text \<open>\<^verbatim>\<open>Write\<close>: the packet and \<^verbatim>\<open>*puWrite\<close>; its result is always true.\<close>

definition KNetPackage_Write :: "junk \<Rightarrow> knetpackage \<Rightarrow> bytes \<Rightarrow> u32 \<Rightarrow> (knetpackage \<times> u32) res" where
  "KNetPackage_Write mem pk pData uDataLen =
     (if m_uPacketLen pk = m_uRecvOffset pk then Inr (pk, 0)
      else if unat (m_uRecvOffset pk) < KD_PACKAGE_LEN_SIZE then
        bind_res (write_length mem (unat (m_uRecvOffset pk)) pk pData 0 uDataLen)
          (\<lambda>(pk, pData, uCur, exit1).
             if exit1 \<or> uCur = uDataLen then Inr (pk, uCur) else write_body pk pData uCur uDataLen)
      else write_body pk pData 0 uDataLen)"

text \<open>
  \<^verbatim>\<open>CheckNetPacket\<close> hands the body to \<^verbatim>\<open>ParseFromArray\<close>, the parameter \<open>parse\<close>. A packet
  shorter than its header gives a wrapped body size, a range outside the buffer.
\<close>

definition CheckNetPacket :: "(bytes \<Rightarrow> bytes option) \<Rightarrow> bytes \<Rightarrow> u32 \<Rightarrow> bool res" where
  "CheckNetPacket parse pData uSize =
     (case GetNetPackageBody uSize of (pBodyBuffer, uNetBodySize) \<Rightarrow>
        bind_res (mem_read pData pBodyBuffer (unat uNetBodySize)) (\<lambda>body.
        Inr (parse body \<noteq> None)))"

text \<open>The class's own getters, and the check \<^verbatim>\<open>CheckProtobuf\<close> of \<^verbatim>\<open>net_buffer.cpp\<close>.\<close>

definition KNetPackage_GetEventType :: "bytes \<Rightarrow> u32 res" where
  "KNetPackage_GetEventType pBuffer = load32 pBuffer 0"

definition KNetPackage_GetHandlerId :: "bytes \<Rightarrow> u32 res" where
  "KNetPackage_GetHandlerId pBuffer = load32 pBuffer (KD_PACKAGE_UINT_SIZE * 2)"

definition CheckProtobuf :: "(bytes \<Rightarrow> bytes option) \<Rightarrow> bytes \<Rightarrow> u32 \<Rightarrow> bool res" where
  "CheckProtobuf parse pBuffer uSize =
     bind_res (mem_read pBuffer 0 (unat uSize)) (\<lambda>body. Inr (parse body \<noteq> None))"

section \<open>The framing contract\<close>

text \<open>
  What the assembly promises for a whole stream: its packets in order and the unfinished
  rest. \<open>good_len\<close> are the lengths the class handles: the length counts its own four bytes
  and the buffer must not wrap. \<open>wf_stream\<close> says that every complete length field of the
  stream is such a length.
\<close>

definition good_len :: "nat \<Rightarrow> bool" where
  "good_len n \<longleftrightarrow> 4 \<le> n \<and> n < 2 ^ 32 - 40"

function frames :: "bytes \<Rightarrow> bytes list \<times> bytes" where
  "frames bs =
     (if length bs < 4 \<or> le_dec (take 4 bs) < 4 \<or> length bs < le_dec (take 4 bs) then ([], bs)
      else case frames (drop (le_dec (take 4 bs)) bs) of
             (fs, rest) \<Rightarrow> (take (le_dec (take 4 bs)) bs # fs, rest))"
  by pat_completeness auto
termination by (relation "measure length") auto

declare frames.simps [simp del]

function wf_stream :: "bytes \<Rightarrow> bool" where
  "wf_stream bs =
     (if length bs < 4 then True
      else if \<not> good_len (le_dec (take 4 bs)) then False
      else if length bs < le_dec (take 4 bs) then True
      else wf_stream (drop (le_dec (take 4 bs)) bs))"
  by pat_completeness auto
termination by (relation "measure length") (auto simp: good_len_def)

declare wf_stream.simps [simp del]

section \<open>Assembly refines the contract\<close>

text \<open>\<open>pk_ok pk acc\<close>: the packet object has received exactly the bytes \<open>acc\<close> of the current
  packet.\<close>

definition pk_ok :: "knetpackage \<Rightarrow> bytes \<Rightarrow> bool" where
  "pk_ok pk acc \<longleftrightarrow>
     unat (m_uRecvOffset pk) = length acc \<and> length (m_szRemain pk) = 4 \<and>
     (if length acc < 4
      then m_uPacketLen pk = KD_INVALID_PACKET_LEN \<and> take (length acc) (m_szRemain pk) = acc
      else good_len (le_dec (take 4 acc)) \<and> length acc \<le> le_dec (take 4 acc) \<and>
           unat (m_uPacketLen pk) = le_dec (take 4 acc) \<and>
           (\<exists>b. m_pBuffer pk = Some b \<and> length (pvData b) = le_dec (take 4 acc) \<and>
                m_uSize b = m_uPacketLen pk \<and> take (length acc) (pvData b) = acc))"

lemma pk_ok_create: "pk_ok KG_CreateCommonPackage []"
  by (simp add: pk_ok_def KG_CreateCommonPackage_def KD_PACKAGE_LEN_SIZE_def)

lemma pk_ok_reset: "pk_ok pk acc \<Longrightarrow> pk_ok (KNetPackage_Reset pk) []"
  by (simp add: pk_ok_def KNetPackage_Reset_def)

lemma InitPackage_ok:
  assumes "good_len (unat n)"
  shows "\<exists>b. InitPackage mem n pk = Inr (pk\<lparr>m_uPacketLen := n, m_pBuffer := Some b\<rparr>) \<and>
    length (pvData b) = unat n \<and> m_uSize b = n \<and> take 4 (pvData b) = enc32 n"
proof -
  have "DB_MemoryCreateBuffer mem n = Inr \<lparr>m_lRefCount = 1, m_uOriginSize = n, m_uSize = n,
         reserve = mslice (fresh_block mem (40 + unat n)) 32 8,
         pvData = drop 40 (fresh_block mem (40 + unat n))\<rparr>"
    using assms by (intro create_ok) (simp add: good_len_def)
  then have eq: "InitPackage mem n pk = Inr (pk\<lparr>m_uPacketLen := n, m_pBuffer := Some
      \<lparr>m_lRefCount = 1, m_uOriginSize = n, m_uSize = n,
       reserve = mslice (fresh_block mem (40 + unat n)) 32 8,
       pvData = enc32 n @ drop 44 (fresh_block mem (40 + unat n))\<rparr>\<rparr>)"
    using assms by (simp add: InitPackage_def good_len_def msplice_def)
  show ?thesis
    by (rule exI, rule conjI [OF eq]) (use assms in \<open>simp add: good_len_def\<close>)
qed

text \<open>One byte of the length field.\<close>

definition put_byte :: "junk \<Rightarrow> knetpackage \<Rightarrow> byte \<Rightarrow> knetpackage res" where
  "put_byte mem pk c =
     bind_res (mem_write (m_szRemain pk) (unat (m_uRecvOffset pk)) [c]) (\<lambda>r.
     let pk1 = pk\<lparr>m_szRemain := r, m_uRecvOffset := m_uRecvOffset pk + 1\<rparr> in
     if unat (m_uRecvOffset pk1) = KD_PACKAGE_LEN_SIZE
     then bind_res (load32 (m_szRemain pk1) 0) (\<lambda>n. InitPackage mem n pk1)
     else Inr pk1)"

lemma write_length_step:
  "i < 4 \<Longrightarrow> write_length mem i pk (c # cs) uCur uDataLen =
     bind_res (put_byte mem pk c) (\<lambda>pk2.
       if uCur + 1 = uDataLen then Inr (pk2, cs, uCur + 1, True)
       else write_length mem (Suc i) pk2 cs (uCur + 1) uDataLen)"
  by (subst write_length.simps)
     (simp add: put_byte_def bind_res_assoc Let_def mslice_def KD_PACKAGE_LEN_SIZE_def cong: if_cong)

lemma put_byte_ok:
  assumes ok: "pk_ok pk acc" and short: "length acc < 4"
    and good: "length acc = 3 \<Longrightarrow> good_len (le_dec (acc @ [c]))"
  shows "\<exists>pk2. put_byte mem pk c = Inr pk2 \<and> pk_ok pk2 (acc @ [c])"
proof -
  define r where "r = msplice (m_szRemain pk) (length acc) [c]"
  define pk1 where "pk1 = pk\<lparr>m_szRemain := r, m_uRecvOffset := m_uRecvOffset pk + 1\<rparr>"
  have off: "unat (m_uRecvOffset pk) = length acc" and len: "length (m_szRemain pk) = 4"
    and rem: "take (length acc) (m_szRemain pk) = acc"
    using ok short by (auto simp: pk_ok_def)
  have off1: "unat (m_uRecvOffset pk + 1) = Suc (length acc)"
    using off short by (simp add: unat_word_ariths)
  have r: "length r = 4" "take (Suc (length acc)) r = acc @ [c]"
    using short len rem by (simp_all add: r_def msplice_def)
  have wr: "mem_write (m_szRemain pk) (unat (m_uRecvOffset pk)) [c] = Inr r"
    using short len by (simp add: off r_def)
  show ?thesis
  proof (cases "length acc = 3")
    case False
    then have "put_byte mem pk c = Inr pk1"
      using short by (simp add: put_byte_def wr off1 pk1_def Let_def KD_PACKAGE_LEN_SIZE_def)
    moreover have "pk_ok pk1 (acc @ [c])"
      using False short ok r off1 by (auto simp: pk_ok_def pk1_def)
    ultimately show ?thesis by blast
  next
    case True
    define n where "n = dec32 (acc @ [c])"
    have "mslice r 0 4 = acc @ [c]"
      using r True by (simp add: mslice_def)
    then have ld: "load32 r 0 = Inr n"
      using f32.load_ok [of 0 r] r(1) by (simp add: n_def)
    have n: "unat n = le_dec (acc @ [c])" "enc32 n = acc @ [c]"
      using True by (simp_all add: n_def unat_dec32 enc32_dec32)
    then obtain b where b: "InitPackage mem n pk1 = Inr (pk1\<lparr>m_uPacketLen := n, m_pBuffer := Some b\<rparr>)"
        "length (pvData b) = unat n" "m_uSize b = n" "take 4 (pvData b) = acc @ [c]"
      using InitPackage_ok [of n mem pk1] good [OF True] by auto
    have "put_byte mem pk c = Inr (pk1\<lparr>m_uPacketLen := n, m_pBuffer := Some b\<rparr>)"
      using True b(1) by (simp add: put_byte_def wr off1 Let_def KD_PACKAGE_LEN_SIZE_def ld pk1_def)
    moreover have "pk_ok (pk1\<lparr>m_uPacketLen := n, m_pBuffer := Some b\<rparr>) (acc @ [c])"
      using True b n good [OF True] off1 r by (auto simp: pk_ok_def pk1_def good_len_def)
    ultimately show ?thesis by blast
  qed
qed

lemma write_length_ok:
  assumes "pk_ok pk acc" and "length acc < 4" and "data \<noteq> []"
    and "unat uCur + length data = unat uDataLen"
    and "4 \<le> length (acc @ data) \<Longrightarrow> good_len (le_dec (take 4 (acc @ data)))"
  shows "\<exists>pk' uCur'. write_length mem (length acc) pk data uCur uDataLen =
      Inr (pk', drop (4 - length acc) data, uCur', uCur' = uDataLen) \<and>
    pk_ok pk' (acc @ take (4 - length acc) data) \<and>
    unat uCur' = unat uCur + min (4 - length acc) (length data)"
  using assms
proof (induction data arbitrary: pk acc uCur)
  case (Cons c cs)
  have good3: "good_len (le_dec (acc @ [c]))" if "length acc = 3"
    using Cons.prems(5) that by simp
  obtain pk2 where pk2: "put_byte mem pk c = Inr pk2" "pk_ok pk2 (acc @ [c])"
    using put_byte_ok [OF Cons.prems(1,2) good3] by blast
  have cur: "unat (uCur + 1) = unat uCur + 1"
    using Cons.prems(4) u32_bound [of uDataLen] by (simp add: unat_word_ariths)
  have last: "uCur + 1 = uDataLen \<longleftrightarrow> cs = []"
    using Cons.prems(4) cur
    by (simp only: word_unat_eq_iff length_0_conv [symmetric] list.size) arith
  have sub: "4 - length acc = Suc (3 - length acc)"
    using Cons.prems(2) by simp
  show ?case
  proof (cases "cs = []")
    case True
    then show ?thesis
      using pk2 cur last Cons.prems(2) by (simp add: write_length_step sub)
  next
    case False
    have more: "write_length mem (length acc) pk (c # cs) uCur uDataLen =
        write_length mem (length (acc @ [c])) pk2 cs (uCur + 1) uDataLen"
      using False pk2(1) last Cons.prems(2) by (simp add: write_length_step)
    show ?thesis
    proof (cases "length (acc @ [c]) < 4")
      case True
      have "\<exists>pk' uCur'. write_length mem (length (acc @ [c])) pk2 cs (uCur + 1) uDataLen =
          Inr (pk', drop (4 - length (acc @ [c])) cs, uCur', uCur' = uDataLen) \<and>
        pk_ok pk' ((acc @ [c]) @ take (4 - length (acc @ [c])) cs) \<and>
        unat uCur' = unat (uCur + 1) + min (4 - length (acc @ [c])) (length cs)"
        by (rule Cons.IH [OF pk2(2) True False]) (use Cons.prems(4,5) cur in auto)
      then show ?thesis unfolding more by (simp add: cur sub)
    next
      case full: False
      then have "length acc = 3" using Cons.prems(2) by simp
      then show ?thesis
        unfolding more
        using pk2(2) cur last False
        by (subst write_length.simps) (simp add: KD_PACKAGE_LEN_SIZE_def)
    qed
  qed
qed simp

text \<open>The part of a packet that still has to be received.\<close>

definition incomplete :: "bytes \<Rightarrow> bool" where
  "incomplete acc \<longleftrightarrow> length acc < 4 \<or> length acc < le_dec (take 4 acc)"

lemma unat_invalid_len: "unat KD_INVALID_PACKET_LEN = 4294967295"
  by (simp add: KD_INVALID_PACKET_LEN_def unsigned_minus_1_eq_mask mask_eq_exp_minus_1)

lemma IsValid_iff:
  assumes "pk_ok pk acc"
  shows "IsValid pk \<longleftrightarrow> \<not> incomplete acc"
proof (cases "length acc < 4")
  case True
  then have "unat (m_uRecvOffset pk) \<noteq> unat (m_uPacketLen pk)"
    using assms unat_invalid_len by (auto simp: pk_ok_def)
  then show ?thesis using True by (auto simp: IsValid_def incomplete_def)
next
  case False
  then have "unat (m_uRecvOffset pk) = length acc" "length acc \<le> unat (m_uPacketLen pk)"
    "unat (m_uPacketLen pk) = le_dec (take 4 acc)"
    using assms by (simp_all add: pk_ok_def)
  then show ?thesis
    using False by (auto simp: IsValid_def incomplete_def word_unat_eq_iff)
qed

lemma take4_append: "4 \<le> length acc \<Longrightarrow> take 4 (acc @ bs) = take 4 acc"
  by simp

lemma WriteData_ok:
  assumes ok: "pk_ok pk acc" and long: "4 \<le> length acc"
    and u: "unat u \<le> length data" "length acc + unat u \<le> le_dec (take 4 acc)"
  shows "\<exists>pk'. WriteData data u pk = Inr pk' \<and> pk_ok pk' (acc @ take (unat u) data)"
proof -
  define n where "n = le_dec (take 4 acc)"
  obtain b where off: "unat (m_uRecvOffset pk) = length acc"
    and len: "length (m_szRemain pk) = 4" and n: "good_len n" "unat (m_uPacketLen pk) = n"
    and b: "m_pBuffer pk = Some b" "length (pvData b) = n" "m_uSize b = m_uPacketLen pk"
      "take (length acc) (pvData b) = acc"
    using ok long by (auto simp: pk_ok_def n_def not_less)
  define d where "d = msplice (pvData b) (length acc) (take (unat u) data)"
  define pk' where "pk' = pk\<lparr>m_pBuffer := Some (b\<lparr>pvData := d\<rparr>), m_uRecvOffset := m_uRecvOffset pk + u\<rparr>"
  have "WriteData data u pk = Inr pk'"
    using u off b by (simp add: WriteData_def mslice_def d_def pk'_def n_def)
  moreover have "unat (m_uRecvOffset pk + u) = length acc + unat u"
    using off u(2) n(1) by (simp add: unat_word_ariths n_def good_len_def)
  then have "pk_ok pk' (acc @ take (unat u) data)"
    using ok long u n b len by (auto simp: pk_ok_def pk'_def d_def msplice_def n_def not_less)
  ultimately show ?thesis by blast
qed

definition consumed :: "bytes \<Rightarrow> bytes \<Rightarrow> nat" where
  "consumed acc data =
     (if length (acc @ data) < 4 then length data
      else min (length data) (le_dec (take 4 (acc @ data)) - length acc))"

lemma consumed_pos:
  "incomplete acc \<Longrightarrow> data \<noteq> [] \<Longrightarrow>
     (4 \<le> length (acc @ data) \<Longrightarrow> good_len (le_dec (take 4 (acc @ data)))) \<Longrightarrow>
     0 < consumed acc data \<and> consumed acc data \<le> length data"
  by (cases "length acc < 4") (auto simp: consumed_def incomplete_def good_len_def not_less)

lemma Write_body_ok:
  assumes ok: "pk_ok pk acc" and long: "4 \<le> length acc"
    and cur: "unat uCur + length data = unat uDataLen"
  shows "\<exists>pk'. write_body pk data uCur uDataLen =
      Inr (pk', uCur + word_of_nat (min (length data) (le_dec (take 4 acc) - length acc))) \<and>
    pk_ok pk' (acc @ take (min (length data) (le_dec (take 4 acc) - length acc)) data)"
proof -
  define n where "n = le_dec (take 4 acc)"
  have off: "unat (m_uRecvOffset pk) = length acc" and n: "unat (m_uPacketLen pk) = n"
    and le: "length acc \<le> n"
    using ok long by (auto simp: pk_ok_def n_def not_less)
  show ?thesis
  proof (cases "length acc < n")
    case False
    then have "length acc = n" using le by simp
    then show ?thesis
      using ok off n by (simp add: write_body_def word_less_nat_alt n_def [symmetric])
  next
    case True
    define u where "u = (if uDataLen - uCur < m_uPacketLen pk - m_uRecvOffset pk
        then uDataLen - uCur else m_uPacketLen pk - m_uRecvOffset pk)"
    have "unat (uDataLen - uCur) = length data"
      using cur by (simp add: unat_sub word_le_nat_alt)
    moreover have "unat (m_uPacketLen pk - m_uRecvOffset pk) = n - length acc"
      using le off n by (simp add: unat_sub word_le_nat_alt)
    ultimately have u: "unat u = min (length data) (n - length acc)"
      by (simp add: u_def word_less_nat_alt min_def)
    have "unat u \<le> length data" "length acc + unat u \<le> le_dec (take 4 acc)"
      using u le by (simp_all add: n_def)
    then obtain pk' where "WriteData data u pk = Inr pk'" "pk_ok pk' (acc @ take (unat u) data)"
      using WriteData_ok [OF ok long] by blast
    moreover have "u = word_of_nat (min (length data) (n - length acc))"
      by (simp add: u [symmetric])
    moreover have "write_body pk data uCur uDataLen =
        bind_res (WriteData data u pk) (\<lambda>pk. Inr (pk, uCur + u))"
      using True off n by (simp add: write_body_def word_less_nat_alt Let_def u_def)
    ultimately show ?thesis
      using u by (simp add: n_def [symmetric])
  qed
qed

lemma Write_ok:
  assumes ok: "pk_ok pk acc" and inc: "incomplete acc" and data: "data \<noteq> []" "length data < 2 ^ 32"
    and good: "4 \<le> length (acc @ data) \<Longrightarrow> good_len (le_dec (take 4 (acc @ data)))"
  shows "\<exists>pk'. KNetPackage_Write mem pk data (word_of_nat (length data)) =
      Inr (pk', word_of_nat (consumed acc data)) \<and> pk_ok pk' (acc @ take (consumed acc data) data)"
proof -
  have ne: "m_uPacketLen pk \<noteq> m_uRecvOffset pk"
    using IsValid_iff [OF ok] inc by (auto simp: IsValid_def)
  have off: "unat (m_uRecvOffset pk) = length acc"
    using ok by (simp add: pk_ok_def)
  have dl: "unat (word_of_nat (length data) :: u32) = length data"
    using data(2) by (simp add: unat_of_nat)
  show ?thesis
  proof (cases "length acc < 4")
    case False
    then show ?thesis
      using Write_body_ok [OF ok, of 0 data "word_of_nat (length data)"] dl ne off
      by (simp add: KNetPackage_Write_def KD_PACKAGE_LEN_SIZE_def consumed_def)
  next
    case True
    obtain pk1 uCur where w: "write_length mem (length acc) pk data 0 (word_of_nat (length data)) =
          Inr (pk1, drop (4 - length acc) data, uCur, uCur = word_of_nat (length data))"
      and ok1: "pk_ok pk1 (acc @ take (4 - length acc) data)"
      and cur: "unat uCur = min (4 - length acc) (length data)"
      using write_length_ok [OF ok True data(1), of 0 "word_of_nat (length data)" mem] good dl by auto
    have fin: "uCur = word_of_nat (length data) \<longleftrightarrow> length data \<le> 4 - length acc"
      using cur dl by (auto simp: word_unat_eq_iff min_def)
    show ?thesis
    proof (cases "length data \<le> 4 - length acc")
      case all: True
      then have "consumed acc data = length data"
        using good True by (auto simp: consumed_def good_len_def)
      then show ?thesis
        using all True ne off w fin ok1
        by (simp add: KNetPackage_Write_def KD_PACKAGE_LEN_SIZE_def)
    next
      case more: False
      define k where "k = 4 - length acc"
      define acc1 where "acc1 = acc @ take k data"
      have l1: "length acc1 = 4" and kd: "k < length data"
        using more True by (simp_all add: acc1_def k_def)
      have hd: "take 4 (acc @ data) = acc1" "take 4 acc1 = acc1"
        using l1 True by (simp_all add: acc1_def k_def)
      define r where "r = min (length (drop k data)) (le_dec acc1 - 4)"
      have c: "consumed acc data = k + r"
        using more True hd good by (auto simp: consumed_def r_def k_def good_len_def min_def)
      obtain pk2 where
        "write_body pk1 (drop k data) uCur (word_of_nat (length data)) = Inr (pk2, uCur + word_of_nat r)"
        and ok2: "pk_ok pk2 (acc1 @ take r (drop k data))"
        using Write_body_ok [of pk1 acc1 uCur "drop k data" "word_of_nat (length data)"]
          ok1 l1 hd cur dl kd by (auto simp: acc1_def [symmetric] k_def [symmetric] r_def)
      moreover have "uCur = word_of_nat k"
        using cur kd by (simp add: word_unat_eq_iff k_def unat_of_nat)
      moreover have "acc1 @ take r (drop k data) = acc @ take (k + r) data"
        by (simp add: acc1_def take_add)
      ultimately show ?thesis
        using more True ne off w fin
        by (simp add: KNetPackage_Write_def KD_PACKAGE_LEN_SIZE_def c k_def [symmetric])
    qed
  qed
qed

text \<open>The check of a complete packet, by the bytes behind its header.\<close>

lemma CheckNetPacket_eq:
  assumes "length p < 2 ^ 32"
  shows "CheckNetPacket parse p (word_of_nat (length p)) =
    (if length p < 20 then Inl OutOfBoundsRead else Inr (parse (drop 20 p) \<noteq> None))"
proof -
  have n: "unat (word_of_nat (length p) :: u32) = length p"
    using assms by (simp add: unat_of_nat)
  show ?thesis
  proof (cases "length p < 20")
    case True
    have "unat (word_of_nat (length p) - 20 :: u32) = length p + 2 ^ 32 - 20"
      using True n by (simp add: unat_sub_if_size word_le_nat_alt word_size)
    then show ?thesis
      using True by (simp add: CheckNetPacket_def GetNetPackageBody_def)
  next
    case False
    then have "unat (word_of_nat (length p) - 20 :: u32) = length p - 20"
      using n by (simp add: unat_sub word_le_nat_alt)
    with False show ?thesis
      by (simp add: CheckNetPacket_def GetNetPackageBody_def mslice_def)
  qed
qed

section \<open>Properties\<close>

text \<open>The packet class's own getters do not follow the header: on every packet
  \<^verbatim>\<open>KNetPackage::GetEventType\<close> gives the packet length and \<^verbatim>\<open>KNetPackage::GetHandlerId\<close>
  the error code, while the free functions of the same name give event type and
  handler id.\<close>

lemma class_getters_read_other_fields:
  assumes "CreateNetBuffer mem ev err hid sid seq pParam uParamSize = Inr (buf, sz)"
  shows "KNetPackage_GetEventType buf = Inr sz \<and> GetEventType buf = Inr ev
    \<and> KNetPackage_GetHandlerId buf = Inr err \<and> GetHandlerId buf = Inr hid"
proof -
  have "buf = packet sz ev err hid sid seq (take (unat uParamSize) pParam)"
    using assms CreateNetBuffer_small [OF assms] create_net_buffer_le [OF assms]
      CreateNetBuffer_eq [of uParamSize pParam mem ev err hid sid seq] by simp
  then show ?thesis
    by (simp add: KNetPackage_GetEventType_def KNetPackage_GetHandlerId_def packet_getters slice_packet)
qed

text \<open>One \<^verbatim>\<open>Write\<close>. A packet object that has received \<open>acc\<close> takes from the input exactly
  what the current packet still lacks, never more; it reports that many bytes and is
  finished exactly when the packet is complete.\<close>

lemma write_takes_what_is_missing:
  assumes "pk_ok pk acc" and "incomplete acc" and "data \<noteq> []" and "length data < 2 ^ 32"
    and "4 \<le> length (acc @ data) \<Longrightarrow> good_len (le_dec (take 4 (acc @ data)))"
  shows "\<exists>pk'. KNetPackage_Write mem pk data (word_of_nat (length data)) =
      Inr (pk', word_of_nat (consumed acc data)) \<and> pk_ok pk' (acc @ take (consumed acc data) data)
    \<and> 0 < consumed acc data \<and> consumed acc data \<le> length data
    \<and> (IsValid pk' \<longleftrightarrow> \<not> incomplete (acc @ take (consumed acc data) data))"
proof -
  obtain pk' where "KNetPackage_Write mem pk data (word_of_nat (length data)) =
      Inr (pk', word_of_nat (consumed acc data))" "pk_ok pk' (acc @ take (consumed acc data) data)"
    using Write_ok [OF assms] by blast
  then show ?thesis
    using IsValid_iff consumed_pos [OF assms(2,3,5)] by blast
qed

lemma write_takes_what_is_missing_witness:
  "\<exists>pk'. KNetPackage_Write (\<lambda>_. 0) KG_CreateCommonPackage [5, 0, 0, 0, 65, 9] 6 = Inr (pk', 5)
     \<and> IsValid pk'"
  using write_takes_what_is_missing [OF pk_ok_create, of "[5, 0, 0, 0, 65, 9]" "\<lambda>_. 0"]
  by (auto simp: incomplete_def consumed_def good_len_def)

end
