(* ===== verification/RecvLoop.thy ===== *)
theory RecvLoop
  imports NetPacket
begin

text \<open>
  The receive loop. \<^verbatim>\<open>TCPSession::ProcessNetData\<close>, \<^verbatim>\<open>TCPSession::CenterServerProcessNetData\<close>,
  \<^verbatim>\<open>GatewayClient::_ProcessNetData\<close>, \<^verbatim>\<open>CenterClient::_ProcessNetData\<close> and
  \<^verbatim>\<open>GameLogicServer::_ProcessNetData\<close> are the same loop around different packet handlers: it
  writes what was read into the packet object, hands every finished packet to the handler
  and goes on with the rest of the input. \<open>recv_loop\<close> is that loop with the handler as an
  argument. The theory shows once, for every handler, that the loop delivers exactly the
  packets of the stream, however the stream is cut into reads, and what happens on length
  fields the packet object cannot handle.
\<close>

section \<open>The loop\<close>

text \<open>
  One unit of fuel is one round; \<open>OutOfFuel\<close> is a loop that has not ended yet. The result is
  the function's \<^verbatim>\<open>bool\<close>, the handler's state and the packet object. Each round's
  allocation gets its own junk.
\<close>

fun recv_loop ::
  "(nat \<Rightarrow> junk) \<Rightarrow> (bytes \<Rightarrow> u32 \<Rightarrow> 's \<Rightarrow> 's res) \<Rightarrow> nat \<Rightarrow> 's \<Rightarrow> knetpackage \<Rightarrow> bytes
     \<Rightarrow> (bool \<times> 's \<times> knetpackage) res" where
  "recv_loop mem body 0 s pk pData = Inl OutOfFuel"
| "recv_loop mem body (Suc fuel) s pk pData =
     bind_res (KNetPackage_Write (mem fuel) pk pData (word_of_nat (length pData))) (\<lambda>(pk, uWrite).
       if IsValid pk then
         (case GetData pk of
            (True, Some pBuffer) \<Rightarrow>
              bind_res (body (pvData pBuffer) (m_uSize pBuffer) s) (\<lambda>s.
                let pk = KNetPackage_Reset pk; pData = drop (unat uWrite) pData in
                if pData \<noteq> [] then recv_loop mem body fuel s pk pData else Inr (True, s, pk))
          | _ \<Rightarrow> Inr (False, s, pk))
       else
         let pData = drop (unat uWrite) pData in
         if pData \<noteq> [] then recv_loop mem body fuel s pk pData else Inr (True, s, pk))"

text \<open>The guard in front of the loop: \<^verbatim>\<open>if(!(pData && uRead > 0)) goto Exit0\<close>.\<close>

definition process_net_data ::
  "(nat \<Rightarrow> junk) \<Rightarrow> (bytes \<Rightarrow> u32 \<Rightarrow> 's \<Rightarrow> 's res) \<Rightarrow> nat \<Rightarrow> 's \<Rightarrow> knetpackage \<Rightarrow> bytes
     \<Rightarrow> (bool \<times> 's \<times> knetpackage) res" where
  "process_net_data mem body fuel s pk pData =
     (if pData = [] then Inr (False, s, pk) else recv_loop mem body fuel s pk pData)"

section \<open>Delivery\<close>

text \<open>
  The specification of the loop: the packets go to the handler one after the other, each
  with its own length, until one faults. \<open>recv_reads\<close> is a run of read callbacks.
\<close>

fun deliver :: "(bytes \<Rightarrow> u32 \<Rightarrow> 's \<Rightarrow> 's res) \<Rightarrow> bytes list \<Rightarrow> 's \<Rightarrow> 's res" where
  "deliver f [] s = Inr s"
| "deliver f (p # ps) s = bind_res (f p (word_of_nat (length p)) s) (deliver f ps)"

fun recv_reads ::
  "(nat \<Rightarrow> nat \<Rightarrow> junk) \<Rightarrow> (bytes \<Rightarrow> u32 \<Rightarrow> 's \<Rightarrow> 's res) \<Rightarrow> 's \<Rightarrow> knetpackage \<Rightarrow> bytes list
     \<Rightarrow> ('s \<times> knetpackage) res" where
  "recv_reads mem body s pk [] = Inr (s, pk)"
| "recv_reads mem body s pk (c # cs) =
     bind_res (process_net_data (mem (length cs)) body (length c) s pk c)
       (\<lambda>(_, s, pk). recv_reads mem body s pk cs)"

lemma deliver_Nil [simp]: "deliver f [] = Inr"
  by (rule ext) simp

lemma deliver_append:
  "deliver f (ps @ qs) s = bind_res (deliver f ps s) (deliver f qs)"
proof (induction ps arbitrary: s)
  case (Cons p ps)
  then show ?case by (cases "f p (word_of_nat (length p)) s") simp_all
qed simp

text \<open>
  Whatever length field was received, a buffer the packet object holds has the size it
  reports: a request that wraps does not survive the store of the length bytes.
\<close>

definition pk_sized :: "knetpackage \<Rightarrow> bool" where
  "pk_sized pk \<longleftrightarrow> (\<forall>b. m_pBuffer pk = Some b \<longrightarrow> length (pvData b) = unat (m_uSize b))"

lemma pk_sized_create: "pk_sized KG_CreateCommonPackage"
  by (simp add: pk_sized_def KG_CreateCommonPackage_def)

lemma pk_sized_reset: "pk_sized pk \<Longrightarrow> pk_sized (KNetPackage_Reset pk)"
  by (simp add: pk_sized_def KNetPackage_Reset_def)

lemma pk_sized_Init:
  assumes "InitPackage mem n pk = Inr pk'"
  shows "pk_sized pk'"
proof -
  obtain b d where b: "DB_MemoryCreateBuffer mem n = Inr b" "mem_write (pvData b) 0 (enc32 n) = Inr d"
    and pk': "pk' = pk\<lparr>m_uPacketLen := n, m_pBuffer := Some (b\<lparr>pvData := d\<rparr>)\<rparr>"
    using assms by (auto simp: InitPackage_def bind_res_eq_Inr)
  have d: "length d = length (pvData b)" "4 \<le> length (pvData b)"
    using b(2) by (auto simp: mem_write_eq_Inr)
  then have "unat n < 2 ^ 32 - 40"
    using create_wrap [OF _ b(1)] by (cases "2 ^ 32 - 40 \<le> unat n") auto
  then have "length (pvData b) = unat n \<and> m_uSize b = n"
    using b(1) create_ok [of n mem] by auto
  then show ?thesis using d by (simp add: pk_sized_def pk')
qed

lemma pk_sized_write_length:
  "write_length mem i pk data cur n = Inr (pk', r) \<Longrightarrow> pk_sized pk \<Longrightarrow> pk_sized pk'"
proof (induction mem i pk data cur n arbitrary: pk' r rule: write_length.induct)
  case (1 mem i pk data cur n)
  show ?case
  proof (cases "i < KD_PACKAGE_LEN_SIZE")
    case False
    then show ?thesis using "1.prems" by (simp add: write_length.simps [of mem i])
  next
    case True
    obtain c bs pk2 where c: "mem_read data 0 1 = Inr c"
      and w: "mem_write (m_szRemain pk) (unat (m_uRecvOffset pk)) c = Inr bs"
      and pk2: "(let pk1 = pk\<lparr>m_szRemain := bs, m_uRecvOffset := m_uRecvOffset pk + 1\<rparr> in
          if unat (m_uRecvOffset pk1) = KD_PACKAGE_LEN_SIZE
          then bind_res (load32 (m_szRemain pk1) 0) (\<lambda>n. InitPackage mem n pk1)
          else Inr pk1) = Inr pk2"
      and rest: "(if cur + 1 = n then Inr (pk2, drop 1 data, cur + 1, True)
          else write_length mem (Suc i) pk2 (drop 1 data) (cur + 1) n) = Inr (pk', r)"
      using "1.prems"(1) True
      by (subst (asm) write_length.simps) (auto simp: bind_res_eq_Inr Let_def)
    have small2: "pk_sized pk2"
      using pk2 "1.prems"(2) pk_sized_Init
      by (auto simp: Let_def bind_res_eq_Inr pk_sized_def split: if_splits)
    show ?thesis
    proof (cases "cur + 1 = n")
      case True
      then show ?thesis using rest small2 by simp
    next
      case False
      with rest have "write_length mem (Suc i) pk2 (drop 1 data) (cur + 1) n = Inr (pk', r)" by simp
      then show ?thesis
        using "1.IH" [OF True c w refl refl _ False] pk2 small2 by (simp add: Let_def)
    qed
  qed
qed

lemma pk_sized_Write:
  assumes "KNetPackage_Write mem pk data n = Inr (pk', u)" and "pk_sized pk"
  shows "pk_sized pk'"
proof -
  have body: "pk_sized q'" if "write_body q d c m = Inr (q', v)" "pk_sized q" for q d c m q' v
    using that by (auto simp: write_body_def WriteData_def Let_def bind_res_eq_Inr pk_sized_def
        deref_eq_Inr mem_write_eq_Inr split: if_splits)
  show ?thesis
    using assms pk_sized_write_length body
    by (fastforce simp: KNetPackage_Write_def bind_res_eq_Inr split: if_splits prod.splits)
qed

text \<open>
  The contract of a packet handler that keeps a property of the state; the loop keeps it for
  any input and in any state of the packet object.
\<close>

locale packet_handler =
  fixes body :: "bytes \<Rightarrow> u32 \<Rightarrow> 's \<Rightarrow> 's res"
    and inv :: "'s \<Rightarrow> bool"
  assumes body_inv: "inv s \<Longrightarrow> length p = unat n \<Longrightarrow> body p n s = Inr s' \<Longrightarrow> inv s'"
begin

lemma recv_loop_inv:
  "inv s \<Longrightarrow> pk_sized pk \<Longrightarrow> recv_loop mem body fuel s pk data = Inr (r, s', pk') \<Longrightarrow>
     inv s' \<and> pk_sized pk'"
proof (induction fuel arbitrary: s pk data)
  case (Suc fuel)
  from Suc.prems(3) obtain pk1 u where
    w: "KNetPackage_Write (mem fuel) pk data (word_of_nat (length data)) = Inr (pk1, u)"
    by (auto simp: bind_res_eq_Inr)
  have small: "pk_sized pk1" using pk_sized_Write [OF w Suc.prems(2)] .
  show ?case
  proof (cases "IsValid pk1")
    case False
    then show ?thesis
      using Suc.IH [OF Suc.prems(1) small] Suc.prems small w by (auto simp: Let_def split: if_splits)
  next
    case True
    then have b: "GetData pk1 = (True, m_pBuffer pk1)" by (auto simp: GetData_def)
    show ?thesis
    proof (cases "m_pBuffer pk1")
      case None
      then show ?thesis using Suc.prems small w b True by auto
    next
      case (Some x)
      then obtain s1 where s1: "body (pvData x) (m_uSize x) s = Inr s1"
        using Suc.prems(3) w b True by (auto simp: bind_res_eq_Inr)
      have "inv s1" using body_inv [OF Suc.prems(1) _ s1] small Some by (simp add: pk_sized_def)
      with Suc.IH [OF this pk_sized_reset [OF small]] pk_sized_reset [OF small] show ?thesis
        using Suc.prems(3) w b True Some s1 by (auto simp: Let_def split: if_splits)
    qed
  qed
qed simp

lemma process_inv:
  "inv s \<Longrightarrow> pk_sized pk \<Longrightarrow> process_net_data mem body fuel s pk data = Inr (r, s', pk') \<Longrightarrow>
     inv s' \<and> pk_sized pk'"
  using recv_loop_inv [of s pk mem fuel data r s' pk']
  by (cases "data = []") (simp_all add: process_net_data_def)

end

section \<open>Lemmas on frames\<close>

lemma frames_incomplete: "incomplete bs \<Longrightarrow> frames bs = ([], bs)"
  by (subst frames.simps) (auto simp: incomplete_def)

lemma incomplete_Nil [simp]: "incomplete []"
  by (simp add: incomplete_def)

lemma frames_Nil [simp]: "frames [] = ([], [])"
  by (simp add: frames_incomplete)

lemma frames_complete:
  assumes "n = le_dec (take 4 st)" and "4 \<le> n" and "n \<le> length st"
  shows "frames st = (take n st # fst (frames (drop n st)), snd (frames (drop n st)))"
  using assms by (subst frames.simps) (simp split: prod.split)

lemma wf_stream_header: "wf_stream st \<Longrightarrow> 4 \<le> length st \<Longrightarrow> good_len (le_dec (take 4 st))"
  by (subst (asm) wf_stream.simps) (simp split: if_splits)

lemma wf_stream_drop:
  "wf_stream st \<Longrightarrow> 4 \<le> length st \<Longrightarrow> le_dec (take 4 st) \<le> length st \<Longrightarrow>
     wf_stream (drop (le_dec (take 4 st)) st)"
  by (subst (asm) wf_stream.simps) (simp split: if_splits)

lemma wf_stream_Nil [simp]: "wf_stream []"
  by (simp add: wf_stream.simps)

lemma incomplete_rest: "wf_stream bs \<Longrightarrow> incomplete (snd (frames bs))"
proof (induction bs rule: frames.induct)
  case (1 bs)
  show ?case
  proof (cases "length bs < 4 \<or> length bs < le_dec (take 4 bs)")
    case True
    then show ?thesis
      by (subst frames.simps) (auto simp: incomplete_def)
  next
    case False
    then have good: "good_len (le_dec (take 4 bs))"
      using 1 wf_stream_header by auto
    then have "frames bs = (take (le_dec (take 4 bs)) bs # fst (frames (drop (le_dec (take 4 bs)) bs)),
        snd (frames (drop (le_dec (take 4 bs)) bs)))"
      using False by (intro frames_complete) (auto simp: good_len_def)
    with False 1 good wf_stream_drop [of bs] show ?thesis
      by (simp add: good_len_def)
  qed
qed

lemma wf_stream_append: "wf_stream (a @ b) \<Longrightarrow> wf_stream a"
proof (induction a rule: wf_stream.induct)
  case (1 a)
  show ?case
  proof (cases "length a < 4 \<or> length a < le_dec (take 4 a)")
    case True
    then show ?thesis
      using "1.prems" wf_stream_header [of "a @ b"]
      by (cases "length a < 4") (simp_all add: wf_stream.simps [of a])
  next
    case False
    then show ?thesis
      using 1 wf_stream_header [of "a @ b"] wf_stream_drop [of "a @ b"]
      by (subst wf_stream.simps) auto
  qed
qed

lemma frames_append:
  "wf_stream (a @ b) \<Longrightarrow>
     frames (a @ b) = (fst (frames a) @ fst (frames (snd (frames a) @ b)),
                       snd (frames (snd (frames a) @ b)))
     \<and> wf_stream (snd (frames a) @ b)"
proof (induction a rule: frames.induct)
  case (1 a)
  define n where "n = le_dec (take 4 a)"
  show ?case
  proof (cases "length a < 4 \<or> length a < n")
    case True
    then have "frames a = ([], a)"
      by (intro frames_incomplete) (auto simp: incomplete_def n_def)
    then show ?thesis using "1.prems" by simp
  next
    case False
    then have n: "4 \<le> n" "n \<le> length a" "n = le_dec (take 4 (a @ b))"
      using wf_stream_header [OF "1.prems"] by (simp_all add: good_len_def n_def)
    have "wf_stream (drop n a @ b)"
      using wf_stream_drop [OF "1.prems"] n False by simp
    with False n have "frames (drop n a @ b) =
          (fst (frames (drop n a)) @ fst (frames (snd (frames (drop n a)) @ b)),
           snd (frames (snd (frames (drop n a)) @ b)))
        \<and> wf_stream (snd (frames (drop n a)) @ b)"
      using "1.IH" by (simp add: n_def)
    moreover have "frames (a @ b) = (take n (a @ b) # fst (frames (drop n (a @ b))),
        snd (frames (drop n (a @ b))))"
      using n by (intro frames_complete) (auto simp del: take_append)
    moreover have "frames a = (take n a # fst (frames (drop n a)), snd (frames (drop n a)))"
      using n by (intro frames_complete) (auto simp: n_def)
    ultimately show ?thesis
      using n(2) by simp
  qed
qed

lemma frames_partition: "concat (fst (frames bs)) @ snd (frames bs) = bs"
proof (induction bs rule: frames.induct)
  case (1 bs)
  then show ?case
    by (subst frames.simps, subst (2) frames.simps) (auto split: prod.split)
qed

text \<open>The packets of a stream are whole packets of a length the packet object handles.\<close>

definition good_packet :: "bytes \<Rightarrow> bool" where
  "good_packet p \<longleftrightarrow> good_len (length p) \<and> le_dec (take 4 p) = length p"

lemma good_packet_bound: "good_packet p \<Longrightarrow> length p < 2 ^ 32"
  by (simp add: good_packet_def good_len_def)

lemma frames_good: "wf_stream bs \<Longrightarrow> p \<in> set (fst (frames bs)) \<Longrightarrow> good_packet p"
proof (induction bs rule: frames.induct)
  case (1 bs)
  define n where "n = le_dec (take 4 bs)"
  show ?case
  proof (cases "length bs < 4 \<or> length bs < n")
    case True
    then have "frames bs = ([], bs)"
      by (intro frames_incomplete) (auto simp: incomplete_def n_def)
    then show ?thesis using "1.prems" by simp
  next
    case False
    then have g: "good_len n" using wf_stream_header [OF "1.prems"(1)] by (simp add: n_def)
    then have "frames bs = (take n bs # fst (frames (drop n bs)), snd (frames (drop n bs)))"
      using False by (intro frames_complete) (auto simp: n_def good_len_def)
    with "1.prems"(2) consider "p = take n bs" | "p \<in> set (fst (frames (drop n bs)))"
      by auto
    then show ?thesis
    proof cases
      case 1
      have "take 4 (take n bs) = take 4 bs"
        using g by (simp only: good_len_def take_take min_def if_True)
      with 1 False g show ?thesis
        by (simp only: good_packet_def) (simp add: n_def)
    next
      case 2
      then show ?thesis
        using "1.IH" wf_stream_drop [OF "1.prems"(1)] False g by (simp add: n_def good_len_def)
    qed
  qed
qed

section \<open>The loop refines the framing contract\<close>

lemma consumed_complete:
  assumes "\<not> incomplete (acc @ take (consumed acc data) data)" and "incomplete acc"
    and good: "4 \<le> length (acc @ data) \<Longrightarrow> good_len (le_dec (take 4 (acc @ data)))"
  shows "4 \<le> length (acc @ data) \<and> le_dec (take 4 (acc @ data)) \<le> length (acc @ data) \<and>
    length acc \<le> le_dec (take 4 (acc @ data)) \<and>
    consumed acc data = le_dec (take 4 (acc @ data)) - length acc"
proof -
  define n where "n = le_dec (take 4 (acc @ data))"
  define c where "c = consumed acc data"
  have len: "4 \<le> length (acc @ take c data)"
    using assms(1) by (simp add: incomplete_def c_def)
  then have long: "4 \<le> length (acc @ data)" by simp
  have "take 4 (acc @ data) = take 4 ((acc @ take c data) @ drop c data)" by simp
  also have "\<dots> = take 4 (acc @ take c data)" using len by (simp del: append_assoc)
  finally have n_pre: "n = le_dec (take 4 (acc @ take c data))" by (simp add: n_def)
  have full: "n \<le> length (acc @ take c data)"
    using assms(1) len by (simp add: incomplete_def c_def [symmetric] n_pre)
  have c: "c = min (length data) (n - length acc)"
    using long by (simp add: c_def consumed_def n_def)
  have accn: "length acc \<le> n"
  proof (cases "length acc < 4")
    case True
    then show ?thesis using good [OF long] by (simp add: good_len_def n_def)
  next
    case False
    then show ?thesis using assms(2) by (simp add: incomplete_def n_def)
  qed
  show ?thesis
    unfolding n_def [symmetric] c_def [symmetric] using full accn long c by simp
qed

lemma consumed_incomplete:
  assumes "incomplete (acc @ take (consumed acc data) data)" and "incomplete acc"
    and good: "4 \<le> length (acc @ data) \<Longrightarrow> good_len (le_dec (take 4 (acc @ data)))"
  shows "consumed acc data = length data"
proof (rule ccontr)
  define n where "n = le_dec (take 4 (acc @ data))"
  assume "\<not> ?thesis"
  then have long: "4 \<le> length (acc @ data)" and c: "consumed acc data = n - length acc"
      and less: "n - length acc < length data"
    by (auto simp: consumed_def n_def min_def split: if_splits)
  have n: "4 \<le> n" using good [OF long] by (simp add: good_len_def n_def)
  have accn: "length acc \<le> n"
    using assms(2) n by (cases "length acc < 4") (auto simp: incomplete_def n_def)
  have "acc @ take (n - length acc) data = take n (acc @ data)"
    using accn by simp
  then have inc: "incomplete (take n (acc @ data))"
    using assms(1) c by simp
  have "take 4 (take n (acc @ data)) = take 4 (acc @ data)"
    using n by (simp only: take_take min_def if_True)
  then show False
    using inc n less accn by (simp only: incomplete_def n_def [symmetric]) simp
qed

lemma recv_loop_delivers:
  assumes "pk_ok pk acc" and "incomplete acc" and "data \<noteq> []" and "length data < 2 ^ 32"
    and "wf_stream (acc @ data)" and "length data \<le> fuel"
  shows "\<exists>pk'. pk_ok pk' (snd (frames (acc @ data))) \<and>
    (\<forall>s. recv_loop mem body fuel s pk data =
      bind_res (deliver body (fst (frames (acc @ data))) s) (\<lambda>s'. Inr (True, s', pk')))"
  using assms
proof (induction fuel arbitrary: pk acc data)
  case 0
  then show ?case by simp
next
  case (Suc fuel)
  define c where "c = consumed acc data"
  note good = wf_stream_header [OF Suc.prems(5)]
  obtain pk1 where w: "KNetPackage_Write (mem fuel) pk data (word_of_nat (length data)) =
        Inr (pk1, word_of_nat c)" and ok1: "pk_ok pk1 (acc @ take c data)"
    using Write_ok [OF Suc.prems(1-4) good] by (auto simp: c_def)
  have c: "0 < c" "c \<le> length data"
    using consumed_pos [OF Suc.prems(2,3) good] by (auto simp: c_def)
  have uc: "unat (word_of_nat c :: u32) = c"
    using c(2) Suc.prems(4) by (simp add: unat_of_nat)
  show ?case
  proof (cases "incomplete (acc @ take c data)")
    case True
    have all: "c = length data"
      using consumed_incomplete [OF _ Suc.prems(2) good] True by (simp add: c_def)
    have "recv_loop mem body (Suc fuel) s pk data = Inr (True, s, pk1)" for s
      using w IsValid_iff [OF ok1] True uc all by (simp add: Let_def)
    moreover have "frames (acc @ data) = ([], acc @ data)"
      using True all by (simp add: frames_incomplete)
    ultimately show ?thesis
      using ok1 all by auto
  next
    case False
    define n where "n = le_dec (take 4 (acc @ data))"
    have n: "4 \<le> length (acc @ data)" "n \<le> length (acc @ data)" "length acc \<le> n" "c = n - length acc"
      using consumed_complete [OF _ Suc.prems(2) good] False by (simp_all add: c_def n_def)
    have gn: "good_len n" using good [OF n(1)] by (simp add: n_def)
    have pre: "acc @ take c data = take n (acc @ data)" "drop c data = drop n (acc @ data)"
      using n(3,4) by simp_all
    have fr: "frames (acc @ data) = (take n (acc @ data) # fst (frames (drop c data)), snd (frames (drop c data)))"
      unfolding pre(2) using gn n(2) by (intro frames_complete) (simp_all add: n_def good_len_def)
    have len: "length (take n (acc @ data)) = n" using n(2) by simp
    then have t4: "le_dec (take 4 (take n (acc @ data))) = n"
      using gn by (simp only: take_take min_def good_len_def if_True n_def)
    have valid: "IsValid pk1" using IsValid_iff [OF ok1] False by simp
    obtain b where b: "m_pBuffer pk1 = Some b" "pvData b = take n (acc @ data)"
        "m_uSize b = word_of_nat n"
    proof -
      have "\<not> length (take n (acc @ data)) < 4"
        using len gn by (simp only: good_len_def) simp
      then obtain b where "m_pBuffer pk1 = Some b" "length (pvData b) = n"
          "m_uSize b = m_uPacketLen pk1" "take n (pvData b) = take n (acc @ data)"
          "unat (m_uPacketLen pk1) = n"
        using ok1 unfolding pre(1) by (simp only: pk_ok_def len t4 if_False) blast
      then show thesis by (intro that [of b]) auto
    qed
    have step: "recv_loop mem body (Suc fuel) s pk data =
        bind_res (body (take n (acc @ data)) (word_of_nat n) s) (\<lambda>s.
          if drop c data \<noteq> [] then recv_loop mem body fuel s (KNetPackage_Reset pk1) (drop c data)
          else Inr (True, s, KNetPackage_Reset pk1))" for s
      using w valid b uc by (simp add: GetData_def Let_def cong: if_cong)
    have reset: "pk_ok (KNetPackage_Reset pk1) []" using ok1 by (rule pk_ok_reset)
    show ?thesis
    proof (cases "drop c data = []")
      case True
      have "frames (acc @ data) = ([take n (acc @ data)], [])"
        unfolding fr True by simp
      then show ?thesis
        using reset len True unfolding step
        by (intro exI [of _ "KNetPackage_Reset pk1"]) (simp only: deliver.simps fst_conv snd_conv, simp add: bind_res_assoc)
    next
      case more: False
      have wf: "wf_stream ([] @ drop c data)"
        using wf_stream_drop [OF Suc.prems(5) n(1)] n(2) pre(2) by (simp add: n_def)
      have sz: "length (drop c data) < 2 ^ 32" "length (drop c data) \<le> fuel"
        using c Suc.prems(4,6) by auto
      obtain pk' where pk': "pk_ok pk' (snd (frames (drop c data)))"
          "\<And>s. recv_loop mem body fuel s (KNetPackage_Reset pk1) (drop c data) =
            bind_res (deliver body (fst (frames (drop c data))) s) (\<lambda>s'. Inr (True, s', pk'))"
        using Suc.IH [OF reset incomplete_Nil more sz(1) wf sz(2)] unfolding append_Nil by blast
      show ?thesis
        unfolding fr step fst_conv snd_conv deliver.simps len bind_res_assoc
        using pk' more by auto
    qed
  qed
qed

lemma process_net_data_delivers:
  assumes "pk_ok pk acc" and "incomplete acc" and "data \<noteq> []" and "length data < 2 ^ 32"
    and "wf_stream (acc @ data)" and "length data \<le> fuel"
  shows "\<exists>pk'. pk_ok pk' (snd (frames (acc @ data))) \<and>
    (\<forall>s. process_net_data mem body fuel s pk data =
      bind_res (deliver body (fst (frames (acc @ data))) s) (\<lambda>s'. Inr (True, s', pk')))"
  using recv_loop_delivers [OF assms] assms(3) by (simp add: process_net_data_def)

lemma recv_reads_delivers:
  "pk_ok pk acc \<Longrightarrow> incomplete acc \<Longrightarrow> wf_stream (acc @ concat cs) \<Longrightarrow>
     \<forall>c\<in>set cs. c \<noteq> [] \<and> length c < 2 ^ 32 \<Longrightarrow>
   \<exists>pk'. pk_ok pk' (snd (frames (acc @ concat cs))) \<and>
     (\<forall>s. recv_reads mem body s pk cs =
        bind_res (deliver body (fst (frames (acc @ concat cs))) s) (\<lambda>s'. Inr (s', pk')))"
proof (induction cs arbitrary: pk acc)
  case Nil
  then show ?case by (auto simp: frames_incomplete)
next
  case (Cons c cs)
  have wf: "wf_stream (acc @ c)"
    using Cons.prems(3) wf_stream_append [of "acc @ c" "concat cs"] by simp
  obtain pk1 where pk1: "pk_ok pk1 (snd (frames (acc @ c)))"
    "\<And>s. process_net_data (mem (length cs)) body (length c) s pk c =
      bind_res (deliver body (fst (frames (acc @ c))) s) (\<lambda>s'. Inr (True, s', pk1))"
    using process_net_data_delivers [OF Cons.prems(1,2) _ _ wf, of "length c" "mem (length cs)" body]
      Cons.prems(4) by auto
  have inc: "incomplete (snd (frames (acc @ c)))" using wf by (rule incomplete_rest)
  have fr: "frames (acc @ concat (c # cs)) =
      (fst (frames (acc @ c)) @ fst (frames (snd (frames (acc @ c)) @ concat cs)),
       snd (frames (snd (frames (acc @ c)) @ concat cs)))"
    and wf2: "wf_stream (snd (frames (acc @ c)) @ concat cs)"
    using frames_append [of "acc @ c" "concat cs"] Cons.prems(3) by simp_all
  obtain pk' where pk': "pk_ok pk' (snd (frames (snd (frames (acc @ c)) @ concat cs)))"
    "\<And>s. recv_reads mem body s pk1 cs =
      bind_res (deliver body (fst (frames (snd (frames (acc @ c)) @ concat cs))) s) (\<lambda>s'. Inr (s', pk'))"
    using Cons.IH [OF pk1(1) inc wf2] Cons.prems(4) by auto
  show ?case
    unfolding fr fst_conv snd_conv
    using pk' pk1(2) by (auto simp: deliver_append bind_res_assoc)
qed

text \<open>A change of the state that the handler commutes with commutes with the loop.\<close>

lemma recv_loop_map:
  assumes body: "\<And>p n s. body p n (F s) = bind_res (body p n s) (\<lambda>s. Inr (F s))"
  shows "recv_loop mem body fuel (F s) pk data =
    bind_res (recv_loop mem body fuel s pk data) (\<lambda>(r, s, pk). Inr (r, F s, pk))"
proof (induction fuel arbitrary: s pk data)
  case (Suc fuel)
  show ?case
  proof (cases "KNetPackage_Write (mem fuel) pk data (word_of_nat (length data))")
    case (Inr w)
    obtain pk1 u where w: "w = (pk1, u)" by (cases w)
    show ?thesis
    proof (cases "IsValid pk1")
      case False
      then show ?thesis using Inr w Suc.IH by (simp add: Let_def)
    next
      case True
      show ?thesis
      proof (cases "GetData pk1")
        case (Pair b buf)
        then show ?thesis
          using True Inr w Suc.IH
          by (cases b; cases buf; cases "body (pvData (the buf)) (m_uSize (the buf)) s") (simp_all add: body Let_def)
      qed
    qed
  qed simp
qed simp

lemma recv_reads_map:
  assumes body: "\<And>p n s. body p n (F s) = bind_res (body p n s) (\<lambda>s. Inr (F s))"
  shows "recv_reads mems body (F s) pk cs = bind_res (recv_reads mems body s pk cs) (\<lambda>(s, pk). Inr (F s, pk))"
proof (induction cs arbitrary: s pk)
  case (Cons c cs)
  show ?case
    by (cases "process_net_data (mems (length cs)) body (length c) s pk c")
       (auto simp: process_net_data_def recv_loop_map [where F = F and body = body, OF body] Cons.IH split: if_splits)
qed simp

text \<open>Short length fields: \<^verbatim>\<open>InitPackage\<close> allocates the announced size and then stores the four
  length bytes into it.\<close>

lemma InitPackage_short:
  assumes "unat n < 4"
  shows "InitPackage mem n pk = Inl HeapOverflow"
proof -
  have "DB_MemoryCreateBuffer mem n = Inr \<lparr>m_lRefCount = 1, m_uOriginSize = n, m_uSize = n,
         reserve = mslice (fresh_block mem (40 + unat n)) 32 8,
         pvData = drop 40 (fresh_block mem (40 + unat n))\<rparr>"
    using assms by (intro create_ok) simp
  then show ?thesis using assms by (simp add: InitPackage_def)
qed

lemma InitPackage_wrap:
  assumes "2 ^ 32 - 40 \<le> unat n"
  shows "InitPackage mem n pk = Inl HeapOverflow"
proof (cases "DB_MemoryCreateBuffer mem n")
  case (Inl e)
  then have "e = HeapOverflow"
    by (auto simp: DB_MemoryCreateBuffer_def Let_def split: if_splits)
  with Inl show ?thesis by (simp add: InitPackage_def)
next
  case (Inr b)
  then have "pvData b = []" using create_wrap [OF assms] by simp
  with Inr show ?thesis by (simp add: InitPackage_def)
qed

lemma InitPackage_bad: "\<not> good_len (unat n) \<Longrightarrow> InitPackage mem n pk = Inl HeapOverflow"
  using InitPackage_short [of n] InitPackage_wrap [of n] by (auto simp: good_len_def not_less)

lemma put_byte_bad:
  assumes ok: "pk_ok pk acc" and three: "length acc = 3"
    and bad: "\<not> good_len (le_dec (acc @ [c]))"
  shows "put_byte mem pk c = Inl HeapOverflow"
proof -
  define r where "r = msplice (m_szRemain pk) 3 [c]"
  have off: "unat (m_uRecvOffset pk) = 3" and len: "length (m_szRemain pk) = 4"
    and rem: "take 3 (m_szRemain pk) = acc"
    using ok three by (auto simp: pk_ok_def)
  have off1: "unat (m_uRecvOffset pk + 1) = 4"
    using off by (simp add: unat_word_ariths)
  have r: "r = acc @ [c]" using len rem by (simp add: r_def msplice_def)
  have "load32 r 0 = Inr (dec32 (acc @ [c]))"
    using three by (simp add: r)
  then show ?thesis
    using off off1 len bad three InitPackage_bad [of "dec32 (acc @ [c])"]
    by (simp add: put_byte_def Let_def KD_PACKAGE_LEN_SIZE_def unat_dec32 r_def [symmetric])
qed

lemma write_length_bad:
  assumes "pk_ok pk acc" and "length acc < 4" and "4 \<le> length (acc @ data)"
    and "\<not> good_len (le_dec (take 4 (acc @ data)))"
    and "unat uCur + length data = unat uDataLen"
  shows "write_length mem (length acc) pk data uCur uDataLen = Inl HeapOverflow"
  using assms
proof (induction data arbitrary: pk acc uCur)
  case (Cons c cs)
  show ?case
  proof (cases "length acc = 3")
    case True
    then show ?thesis
      using put_byte_bad [OF Cons.prems(1) True, of c] Cons.prems(4)
      by (simp add: write_length_step)
  next
    case False
    then obtain pk2 where pk2: "put_byte mem pk c = Inr pk2" "pk_ok pk2 (acc @ [c])"
      using put_byte_ok [OF Cons.prems(1,2), of c] by blast
    have cur: "unat (uCur + 1) = unat uCur + 1"
      using Cons.prems(5) u32_bound [of uDataLen] by (simp add: unat_word_ariths)
    have "cs \<noteq> []" using False Cons.prems(2,3) by auto
    then have "uCur + 1 \<noteq> uDataLen"
      using Cons.prems(5) cur by (cases cs) (auto simp: word_unat_eq_iff)
    moreover have "write_length mem (length (acc @ [c])) pk2 cs (uCur + 1) uDataLen = Inl HeapOverflow"
      by (rule Cons.IH [OF pk2(2)]) (use False Cons.prems(2-5) cur in auto)
    ultimately show ?thesis
      using pk2 Cons.prems(2) by (simp add: write_length_step)
  qed
qed simp

lemma Write_bad:
  assumes ok: "pk_ok pk acc" and "length acc < 4" and "4 \<le> length (acc @ data)"
    and bad: "\<not> good_len (le_dec (take 4 (acc @ data)))" and "length data < 2 ^ 32"
  shows "KNetPackage_Write mem pk data (word_of_nat (length data)) = Inl HeapOverflow"
proof -
  have ne: "m_uPacketLen pk \<noteq> m_uRecvOffset pk"
    using IsValid_iff [OF ok] assms(2) by (auto simp: IsValid_def incomplete_def)
  have off: "unat (m_uRecvOffset pk) = length acc"
    using ok by (simp add: pk_ok_def)
  have "unat (word_of_nat (length data) :: u32) = length data"
    using assms(5) by (simp add: unat_of_nat)
  then show ?thesis
    using ne off assms(2) write_length_bad [OF ok assms(2,3) bad, of 0 "word_of_nat (length data)" mem]
    by (simp add: KNetPackage_Write_def KD_PACKAGE_LEN_SIZE_def)
qed

lemma stuck_loop:
  assumes "unat (m_uRecvOffset pk) \<ge> 4" and "m_uPacketLen pk < m_uRecvOffset pk" and "data \<noteq> []"
  shows "recv_loop mem body fuel s pk data = Inl OutOfFuel"
  using assms
proof (induction fuel)
  case (Suc fuel)
  have "KNetPackage_Write (mem fuel) pk data (word_of_nat (length data)) = Inr (pk, 0)"
    using Suc.prems by (auto simp: KNetPackage_Write_def KD_PACKAGE_LEN_SIZE_def write_body_def not_less)
  moreover have "\<not> IsValid pk"
    using Suc.prems(2) by (auto simp: IsValid_def)
  ultimately show ?case using Suc by (simp add: Let_def)
qed simp

text \<open>The sender's side of the contract: packets with a right length field.\<close>

lemma frames_concat: "\<forall>p\<in>set ps. good_packet p \<Longrightarrow> frames (concat ps) = (ps, []) \<and> wf_stream (concat ps)"
proof (induction ps)
  case (Cons p ps)
  have len: "4 \<le> length p" and p: "le_dec (take 4 p) = length p" "good_len (length p)"
    using Cons.prems by (auto simp: good_packet_def good_len_def)
  have hd: "le_dec (take 4 (p @ concat ps)) = length p"
    using len p(1) by simp
  have "frames (p @ concat ps) = (take (length p) (p @ concat ps) #
      fst (frames (drop (length p) (p @ concat ps))), snd (frames (drop (length p) (p @ concat ps))))"
    using hd len by (intro frames_complete) simp_all
  moreover have "wf_stream (p @ concat ps)"
    using hd len p(2) Cons by (subst wf_stream.simps) (simp del: take_append)
  ultimately show ?case using Cons by simp
qed simp

lemma good_packet_CreateNetBuffer:
  assumes "CreateNetBuffer mem ev err hid sid seq pParam uParamSize = Inr (p, n)"
    and "unat uParamSize < 2 ^ 32 - 60"
  shows "good_packet p"
proof -
  have le: "unat uParamSize \<le> length pParam"
    using assms(1) create_net_buffer_le by blast
  have p: "p = packet (20 + uParamSize) ev err hid sid seq (take (unat uParamSize) pParam)"
    using assms CreateNetBuffer_eq [of uParamSize pParam mem ev err hid sid seq] le by simp
  have u: "unat (20 + uParamSize) = 20 + unat uParamSize"
    using assms(2) by (simp add: unat_word_ariths)
  have "take 4 p = enc32 (20 + uParamSize)"
    by (simp add: p packet_def)
  then have "le_dec (take 4 p) = 20 + unat uParamSize"
    using u u32_bound [of "20 + uParamSize"] by (simp add: enc32_def le_dec_le_enc)
  then show ?thesis
    using le assms(2) by (simp add: good_packet_def good_len_def p)
qed

section \<open>Properties\<close>

text \<open>C12: reassembly. However the byte stream of a connection is cut into reads, the handler gets
  exactly the packets of the stream, in order and complete, each once, and what is left
  over is an unfinished packet kept in the packet object: nothing is lost or made up.\<close>

theorem reads_deliver_the_stream:
  assumes "wf_stream (concat cs)" and "\<forall>c\<in>set cs. c \<noteq> [] \<and> length c < 2 ^ 32"
  shows "\<exists>pk'. recv_reads mem body s KG_CreateCommonPackage cs =
        bind_res (deliver body (fst (frames (concat cs))) s) (\<lambda>s'. Inr (s', pk'))
      \<and> pk_ok pk' (snd (frames (concat cs))) \<and> incomplete (snd (frames (concat cs)))
      \<and> concat (fst (frames (concat cs))) @ snd (frames (concat cs)) = concat cs"
  using recv_reads_delivers [OF pk_ok_create incomplete_Nil, of cs mem body]
    incomplete_rest [OF assms(1)] frames_partition [of "concat cs"] assms by auto

theorem reads_deliver_the_stream_witness:
  "\<exists>pk'. recv_reads (\<lambda>_ _ _. 0) (\<lambda>p n s. Inr (s @ [(p, n)])) [] KG_CreateCommonPackage
       [[5, 0], [0, 0, 65, 6, 0, 0], [0, 66, 67, 9]] =
     Inr ([([5, 0, 0, 0, 65], 5), ([6, 0, 0, 0, 66, 67], 6)], pk')"
proof -
  let ?cs = "[[5, 0], [0, 0, 65, 6, 0, 0], [0, 66, 67, 9]] :: bytes list"
  have "wf_stream (concat ?cs)"
    by (simp add: wf_stream.simps good_len_def)
  moreover have "frames (concat ?cs) = ([[5, 0, 0, 0, 65], [6, 0, 0, 0, 66, 67]], [9])"
    by (simp add: frames.simps)
  ultimately show ?thesis
    using reads_deliver_the_stream [of ?cs "\<lambda>_ _ _. 0" "\<lambda>p n s. Inr (s @ [(p, n)])" "[]"] by auto
qed

text \<open>C13: end to end. Packets made by \<^verbatim>\<open>CreateNetBuffer\<close>, sent one after the other and read in
  pieces of any size, arrive at the handler as they were made, and the packet object is
  empty again.\<close>

theorem sent_packets_arrive:
  assumes "\<forall>p\<in>set ps. \<exists>mem ev err hid sid seq param n.
      CreateNetBuffer mem ev err hid sid seq param n = Inr (p, n + 20) \<and> unat n < 2 ^ 32 - 60"
    and "concat cs = concat ps" and "\<forall>c\<in>set cs. c \<noteq> [] \<and> length c < 2 ^ 32"
  shows "\<exists>pk'. recv_reads mem body s KG_CreateCommonPackage cs =
      bind_res (deliver body ps s) (\<lambda>s'. Inr (s', pk')) \<and> pk_ok pk' []"
proof -
  have "\<forall>p\<in>set ps. good_packet p"
    using assms(1) good_packet_CreateNetBuffer by blast
  then have "frames (concat cs) = (ps, [])" "wf_stream (concat cs)"
    using frames_concat assms(2) by auto
  then show ?thesis
    using recv_reads_delivers [OF pk_ok_create incomplete_Nil, of cs mem body] assms(3) by auto
qed

theorem sent_packets_arrive_witness:
  "\<exists>pk'. recv_reads (\<lambda>_ _ _. 0) (\<lambda>p n s. Inr (s @ [(p, n)])) [] KG_CreateCommonPackage
       [[22], [0, 0, 0] @ drop 4 (packet 22 1 0 2 3 0 [8, 9])] =
     Inr ([(packet 22 1 0 2 3 0 [8, 9], 22)], pk')"
proof -
  let ?p = "packet 22 1 0 2 3 0 [8, 9]"
  let ?cs = "[[22], [0, 0, 0] @ drop 4 ?p]"
  have "CreateNetBuffer (\<lambda>_. 0) 1 0 2 3 0 [8, 9] 2 = Inr (?p, 2 + 20) \<and> unat (2 :: u32) < 2 ^ 32 - 60"
    by (simp add: CreateNetBuffer_eq)
  then have 1: "\<forall>p\<in>set [?p]. \<exists>mem ev err hid sid seq param n.
      CreateNetBuffer mem ev err hid sid seq param n = Inr (p, n + 20) \<and> unat n < 2 ^ 32 - 60"
    by (simp only: set_simps ball_simps) blast
  have "[22, 0, 0, 0] @ drop 4 ?p = ?p"
    by code_simp
  then have 2: "concat ?cs = concat [?p]" by simp
  have 3: "\<forall>c\<in>set ?cs. c \<noteq> [] \<and> length c < 2 ^ 32" by simp
  show ?thesis
    using sent_packets_arrive [OF 1 2 3, of "\<lambda>_ _ _. 0" "\<lambda>p n s. Inr (s @ [(p, n)])" "[]"] by auto
qed

text \<open>C27: the length field is not validated. As soon as the fourth length byte arrives and the
  announced length is below 4 or within 40 bytes of 4 GB, \<^verbatim>\<open>InitPackage\<close> writes behind the
  block it has allocated, whatever the handler is.\<close>

theorem bad_length_corrupts_heap:
  assumes "4 \<le> length data" and "length data < 2 ^ 32" and "\<not> good_len (le_dec (take 4 data))"
  shows "process_net_data mem body (Suc fuel) s KG_CreateCommonPackage data = Inl HeapOverflow"
  using Write_bad [OF pk_ok_create, of data] assms by (auto simp: process_net_data_def)

theorem bad_length_corrupts_heap_witness:
  "process_net_data (\<lambda>_ _. 0) (\<lambda>_ _ s. Inr s) 100 () KG_CreateCommonPackage [3, 0, 0, 0] = Inl HeapOverflow"
  using bad_length_corrupts_heap [of "[3, 0, 0, 0]" "\<lambda>_ _. 0" "\<lambda>_ _ s. Inr s" 99 "()"]
  by (simp add: good_len_def)

text \<open>
  A state the model does not reach: if the overflow of a length field below 4 goes unnoticed, as the
  rounding of \<^verbatim>\<open>malloc\<close> makes it do, the packet is never finished and never written to again, so that
  no fuel is enough for the next byte.
\<close>

lemma short_length_never_ends:
  assumes "m_uRecvOffset pk = 4" and "unat (m_uPacketLen pk) < 4" and "data \<noteq> []"
  shows "process_net_data mem body fuel s pk data = Inl OutOfFuel"
  using stuck_loop [of pk data mem body fuel s] assms
  by (simp add: process_net_data_def word_less_nat_alt)

end
