(* ===== verification/TcpBase.thy ===== *)
theory TcpBase
  imports RecvLoop
begin

text \<open>
  \<^verbatim>\<open>TCPBaseServer\<close> of \<^verbatim>\<open>tcp/tcp_base_server.cpp\<close> and the data of \<^verbatim>\<open>TCPSession\<close> of
  \<^verbatim>\<open>tcp/tcp_session.cpp\<close>: the table of open connections that the gateway, the center and
  the logic server inherit. A server class is a record that extends \<open>tcp_base_server\<close>.
  What the process asks libuv to do is appended to \<open>uv_calls\<close>; what libuv does is an
  argument of the callback that receives it. The theory states the invariant of the session
  table and the contract of a server that keeps it.
\<close>

section \<open>State\<close>

text \<open>A \<^verbatim>\<open>uv_stream_t*\<close> is the address of the \<^verbatim>\<open>uv_tcp_t\<close> of a connection.\<close>

type_synonym uv_stream = nat

datatype uv_call =
    UvReadStart uv_stream
  | UvReadStop uv_stream
  | UvWrite uv_stream bytes
  | UvClose uv_stream

definition UV_EOF :: int where "UV_EOF = - 4095"

datatype server_type = CENTER | LOGIN | LOGIC | ROOM | GATEWAY

fun server_id :: "server_type \<Rightarrow> u16" where
  "server_id CENTER = 0"
| "server_id LOGIN = 1"
| "server_id LOGIC = 2"
| "server_id ROOM = 3"
| "server_id GATEWAY = 4"

text \<open>The connection of a session is the key under which \<open>open_sessions\<close> has it.\<close>

record tcp_session =
  m_uHandlerId :: u32
  m_pRecvPacket :: knetpackage

text \<open>The constructor leaves the handler id as the allocation had it.\<close>

definition TCPSession_new :: "u32 \<Rightarrow> tcp_session" where
  "TCPSession_new junk_id = \<lparr>m_uHandlerId = junk_id, m_pRecvPacket = KG_CreateCommonPackage\<rparr>"

definition SetHandlerId :: "u32 \<Rightarrow> tcp_session \<Rightarrow> tcp_session" where
  "SetHandlerId uHandlerId session = session\<lparr>m_uHandlerId := uHandlerId\<rparr>"

record tcp_base_server =
  m_nSessionId :: u32
  m_port :: u32
  m_default_backlog :: u32
  m_pServerPacket :: knetpackage
  open_sessions :: "uv_stream \<rightharpoonup> tcp_session"
  m_id_to_handler_map :: "u32 \<rightharpoonup> uv_stream"
  m_hander_to_id_map :: "uv_stream \<rightharpoonup> u32"
  uv_calls :: "uv_call list"

definition TCPBaseServer_new :: tcp_base_server where
  "TCPBaseServer_new =
     \<lparr>m_nSessionId = 0, m_port = 0, m_default_backlog = 1000,
      m_pServerPacket = KG_CreateCommonPackage, open_sessions = Map.empty,
      m_id_to_handler_map = Map.empty, m_hander_to_id_map = Map.empty, uv_calls = []\<rparr>"

section \<open>Operations\<close>

definition uv_do :: "uv_call \<Rightarrow> 's tcp_base_server_scheme \<Rightarrow> 's tcp_base_server_scheme" where
  "uv_do c s = s\<lparr>uv_calls := uv_calls s @ [c]\<rparr>"

definition SetPort :: "u32 \<Rightarrow> 's tcp_base_server_scheme \<Rightarrow> 's tcp_base_server_scheme" where
  "SetPort port s = s\<lparr>m_port := port\<rparr>"

definition GetPort :: "'s tcp_base_server_scheme \<Rightarrow> u32" where
  "GetPort s = m_port s"

definition GetDefaultBackLog :: "'s tcp_base_server_scheme \<Rightarrow> u32" where
  "GetDefaultBackLog s = m_default_backlog s"

definition GetHandlerById :: "u32 \<Rightarrow> 's tcp_base_server_scheme \<Rightarrow> uv_stream option" where
  "GetHandlerById uHandlerId s = m_id_to_handler_map s uHandlerId"

definition GetHandlerIdByHandler :: "uv_stream \<Rightarrow> 's tcp_base_server_scheme \<Rightarrow> u32" where
  "GetHandlerIdByHandler pKey s =
     (case m_hander_to_id_map s pKey of None \<Rightarrow> 0 | Some uHandlerId \<Rightarrow> uHandlerId)"

text \<open>\<^verbatim>\<open>m_nSessionId++\<close> is on an \<^verbatim>\<open>int\<close>; the three inserts leave existing entries alone.\<close>

definition AddSession ::
  "uv_stream \<Rightarrow> tcp_session \<Rightarrow> 's tcp_base_server_scheme \<Rightarrow> 's tcp_base_server_scheme res" where
  "AddSession key session s =
     (if sint (m_nSessionId s) = 2 ^ 31 - 1 then Inl SignedOverflow
      else
        let n = m_nSessionId s + 1 in
        Inr (s\<lparr>m_nSessionId := n,
               open_sessions := map_insert (open_sessions s) key (SetHandlerId n session),
               m_id_to_handler_map := map_insert (m_id_to_handler_map s) n key,
               m_hander_to_id_map := map_insert (m_hander_to_id_map s) key n\<rparr>))"

text \<open>
  The handlers of the base class itself. \<open>key\<close> is the address \<^verbatim>\<open>make_shared\<close> returned,
  \<open>accept\<close> the result of \<^verbatim>\<open>uv_accept\<close>. The base class puts a session into \<open>open_sessions\<close>
  without an id and reads what arrives as a C string.
\<close>

definition TCPBaseServer_OnNewConnection ::
  "uv_stream \<Rightarrow> u32 \<Rightarrow> int \<Rightarrow> int \<Rightarrow> 's tcp_base_server_scheme \<Rightarrow> 's tcp_base_server_scheme" where
  "TCPBaseServer_OnNewConnection key junk_id status accept s =
     (if status < 0 then s
      else if accept = 0 then
        let s = uv_do (UvReadStart key) s in
        s\<lparr>open_sessions := map_insert (open_sessions s) key (TCPSession_new junk_id)\<rparr>
      else uv_do (UvClose key) s)"

definition TCPBaseServer_RemoveClient ::
  "uv_stream \<Rightarrow> 's tcp_base_server_scheme \<Rightarrow> 's tcp_base_server_scheme" where
  "TCPBaseServer_RemoveClient client s =
     (case open_sessions s client of
        None \<Rightarrow> s
      | Some session \<Rightarrow> uv_do (UvClose client) s)"

definition TCPBaseServer_OnConnectionClose ::
  "uv_stream \<Rightarrow> 's tcp_base_server_scheme \<Rightarrow> 's tcp_base_server_scheme" where
  "TCPBaseServer_OnConnectionClose handle s =
     s\<lparr>open_sessions := map_erase (open_sessions s) handle\<rparr>"

definition TCPBaseServer_OnMsgRecv ::
  "uv_stream \<Rightarrow> int \<Rightarrow> bytes \<Rightarrow> 's tcp_base_server_scheme \<Rightarrow> 's tcp_base_server_scheme res" where
  "TCPBaseServer_OnMsgRecv client nread base s =
     (case open_sessions s client of
        None \<Rightarrow> Inr s
      | Some session \<Rightarrow>
          if nread = UV_EOF then Inr (TCPBaseServer_RemoveClient client s)
          else if nread > 0 then bind_res (c_string base) (\<lambda>str. Inr s)
          else Inr s)"

section \<open>The invariant of the session table\<close>

text \<open>
  \<open>alloc\<close> are the addresses of the connections allocated so far: no session is ever deleted,
  so an address is not reused. A live id leads to a connection whose session has this id and
  back; ids are 1, 2, 3, \<dots> and not reused; a connection that is being closed has no id.
  The servers read the id of a lost connection through the iterator of an entry that was just
  erased, which C++ leaves undefined: the read may give any value. \<open>reads\<close> are the ways such a read
  may turn out, as functions of the erased value, one of which is taken at each read; \<open>e\<close> says
  that all of them give the erased value. Otherwise an id can stay behind.
\<close>

definition exact_reads :: "(u32 \<Rightarrow> u32) set \<Rightarrow> bool" where
  "exact_reads reads \<longleftrightarrow> (\<forall>stale\<in>reads. \<forall>i. stale i = i)"

text \<open>An id that still leads to a connection which is being closed, and to which it belonged.\<close>

definition lost_route :: "'s tcp_base_server_scheme \<Rightarrow> u32 \<Rightarrow> uv_stream \<Rightarrow> bool" where
  "lost_route s i h \<longleftrightarrow> UvClose h \<in> set (uv_calls s) \<and> 0 < unat i \<and> unat i \<le> unat (m_nSessionId s)
     \<and> (\<forall>ss. open_sessions s h = Some ss \<longrightarrow> m_uHandlerId ss = i)"

definition table_ok :: "bool \<Rightarrow> uv_stream set \<Rightarrow> 's tcp_base_server_scheme \<Rightarrow> bool" where
  "table_ok e alloc s \<longleftrightarrow>
     unat (m_nSessionId s) < 2 ^ 31 \<and>
     (\<forall>i h. m_id_to_handler_map s i = Some h \<longrightarrow> m_hander_to_id_map s h = Some i \<or> \<not> e \<and> lost_route s i h) \<and>
     (e \<longrightarrow> (\<forall>i h. m_hander_to_id_map s h = Some i \<longrightarrow> m_id_to_handler_map s i = Some h)) \<and>
     (\<forall>h i. m_hander_to_id_map s h = Some i \<longrightarrow>
        (\<exists>ss. open_sessions s h = Some ss \<and> m_uHandlerId ss = i) \<and> UvClose h \<notin> set (uv_calls s)) \<and>
     (\<forall>h ss. open_sessions s h = Some ss \<longrightarrow>
        h \<in> alloc \<and> 0 < unat (m_uHandlerId ss) \<and> unat (m_uHandlerId ss) \<le> unat (m_nSessionId s)) \<and>
     (\<forall>h h' ss ss'. open_sessions s h = Some ss \<longrightarrow> open_sessions s h' = Some ss' \<longrightarrow>
        m_uHandlerId ss = m_uHandlerId ss' \<longrightarrow> h = h') \<and>
     (\<forall>h. UvClose h \<in> set (uv_calls s) \<longrightarrow> h \<in> alloc)"

lemma table_okI:
  assumes "unat (m_nSessionId s) < 2 ^ 31"
    and "\<And>i h. m_id_to_handler_map s i = Some h \<Longrightarrow> m_hander_to_id_map s h = Some i \<or> \<not> e \<and> lost_route s i h"
    and "\<And>i h. e \<Longrightarrow> m_hander_to_id_map s h = Some i \<Longrightarrow> m_id_to_handler_map s i = Some h"
    and "\<And>i h. m_hander_to_id_map s h = Some i \<Longrightarrow>
        (\<exists>ss. open_sessions s h = Some ss \<and> m_uHandlerId ss = i) \<and> UvClose h \<notin> set (uv_calls s)"
    and "\<And>h ss. open_sessions s h = Some ss \<Longrightarrow>
        h \<in> alloc \<and> 0 < unat (m_uHandlerId ss) \<and> unat (m_uHandlerId ss) \<le> unat (m_nSessionId s)"
    and "\<And>h h' ss ss'. open_sessions s h = Some ss \<Longrightarrow> open_sessions s h' = Some ss' \<Longrightarrow>
        m_uHandlerId ss = m_uHandlerId ss' \<Longrightarrow> h = h'"
    and "\<And>h. UvClose h \<in> set (uv_calls s) \<Longrightarrow> h \<in> alloc"
  shows "table_ok e alloc s"
  unfolding table_ok_def using assms by blast

lemma table_okD:
  assumes "table_ok e alloc s"
  shows table_bound: "unat (m_nSessionId s) < 2 ^ 31"
    and table_route: "m_id_to_handler_map s i = Some h \<Longrightarrow> m_hander_to_id_map s h = Some i \<or> \<not> e \<and> lost_route s i h"
    and table_back: "e \<Longrightarrow> m_hander_to_id_map s h = Some i \<Longrightarrow> m_id_to_handler_map s i = Some h"
    and table_session: "m_hander_to_id_map s h = Some i \<Longrightarrow>
          (\<exists>ss. open_sessions s h = Some ss \<and> m_uHandlerId ss = i) \<and> UvClose h \<notin> set (uv_calls s)"
    and table_ids: "open_sessions s h = Some ss \<Longrightarrow>
          h \<in> alloc \<and> 0 < unat (m_uHandlerId ss) \<and> unat (m_uHandlerId ss) \<le> unat (m_nSessionId s)"
    and table_distinct: "open_sessions s h = Some ss \<Longrightarrow> open_sessions s h' = Some ss' \<Longrightarrow>
          m_uHandlerId ss = m_uHandlerId ss' \<Longrightarrow> h = h'"
    and table_closed: "UvClose h \<in> set (uv_calls s) \<Longrightarrow> h \<in> alloc"
  using assms unfolding table_ok_def by blast+

lemma table_fresh:
  assumes ok: "table_ok e alloc s" and key: "key \<notin> alloc"
  shows "open_sessions s key = None" "m_hander_to_id_map s key = None"
    and "m_id_to_handler_map s i \<noteq> Some key"
proof -
  show o: "open_sessions s key = None"
    using table_ids [OF ok] key by (cases "open_sessions s key") auto
  show h: "m_hander_to_id_map s key = None"
    using table_session [OF ok, of key] o by (cases "m_hander_to_id_map s key") auto
  show "m_id_to_handler_map s i \<noteq> Some key"
    using table_route [OF ok, of i key] table_closed [OF ok, of key] h key by (auto simp: lost_route_def)
qed

lemma table_route_id:
  assumes ok: "table_ok e alloc s" and "m_id_to_handler_map s i = Some h"
  shows "0 < unat i \<and> unat i \<le> unat (m_nSessionId s)"
  using table_route [OF assms] table_session [OF ok, of h i] table_ids [OF ok, of h] by (auto simp: lost_route_def)

lemma table_next_id:
  assumes ok: "table_ok e alloc s" and "sint (m_nSessionId s) \<noteq> 2 ^ 31 - 1"
  shows "unat (m_nSessionId s + 1) = unat (m_nSessionId s) + 1"
    and "unat (m_nSessionId s) + 1 < 2 ^ 31"
    and "m_id_to_handler_map s (m_nSessionId s + 1) = None"
proof -
  have "sint (word_of_nat (unat (m_nSessionId s)) :: u32) = int (unat (m_nSessionId s))"
    using table_bound [OF ok] by (rule u32_sint_of_nat)
  then have "sint (m_nSessionId s) = int (unat (m_nSessionId s))"
    by (simp only: word_of_nat_eq_iff of_nat_unat ucast_id)
  then have "int (unat (m_nSessionId s)) \<noteq> 2 ^ 31 - 1"
    using assms(2) by (simp only: not_False_eq_True)
  then have "unat (m_nSessionId s) \<noteq> 2147483647"
    by (intro notI) (simp only: of_nat_numeral, simp)
  with table_bound [OF ok] show less: "unat (m_nSessionId s) + 1 < 2 ^ 31"
    by simp
  then show eq: "unat (m_nSessionId s + 1) = unat (m_nSessionId s) + 1"
    by (simp add: unat_word_ariths)
  show "m_id_to_handler_map s (m_nSessionId s + 1) = None"
    using table_route_id [OF ok, of "m_nSessionId s + 1"] eq by (cases "m_id_to_handler_map s (m_nSessionId s + 1)") auto
qed

lemma table_ok_new: "table_ok e {} (tcp_base_server.extend TCPBaseServer_new x)"
  by (rule table_okI) (simp_all add: TCPBaseServer_new_def tcp_base_server.defs)

text \<open>How the pieces of the handlers act on the table.\<close>

lemma uv_do_fields [simp]:
  "m_nSessionId (uv_do c s) = m_nSessionId s" "open_sessions (uv_do c s) = open_sessions s"
  "m_id_to_handler_map (uv_do c s) = m_id_to_handler_map s"
  "m_hander_to_id_map (uv_do c s) = m_hander_to_id_map s"
  "m_pServerPacket (uv_do c s) = m_pServerPacket s"
  "uv_calls (uv_do c s) = uv_calls s @ [c]"
  "tcp_base_server.more (uv_do c s) = tcp_base_server.more s"
  by (simp_all add: uv_do_def)

lemma table_mono: "table_ok e alloc s \<Longrightarrow> alloc \<subseteq> alloc' \<Longrightarrow> table_ok e alloc' s"
  by (auto simp: table_ok_def)

lemma table_same:
  assumes "table_ok e alloc s" and "m_nSessionId s' = m_nSessionId s" and "open_sessions s' = open_sessions s"
    and "m_id_to_handler_map s' = m_id_to_handler_map s" and "m_hander_to_id_map s' = m_hander_to_id_map s"
    and "\<And>h. UvClose h \<in> set (uv_calls s') \<longleftrightarrow> UvClose h \<in> set (uv_calls s)"
  shows "table_ok e alloc s'"
  using assms unfolding table_ok_def lost_route_def by simp

lemma table_uv_do: "table_ok e alloc s \<Longrightarrow> \<forall>h. c \<noteq> UvClose h \<Longrightarrow> table_ok e alloc (uv_do c s)"
  by (auto simp: table_ok_def lost_route_def)

lemma table_uv_close:
  "table_ok e alloc s \<Longrightarrow> h \<in> alloc \<Longrightarrow> m_hander_to_id_map s h = None \<Longrightarrow>
     table_ok e alloc (uv_do (UvClose h) s)"
  by (auto simp: table_ok_def lost_route_def)

lemma table_erase_session:
  assumes ok: "table_ok e alloc s" and h: "m_hander_to_id_map s h = None"
  shows "table_ok e alloc (s\<lparr>open_sessions := map_erase (open_sessions s) h\<rparr>)"
proof (rule table_okI)
  let ?s = "s\<lparr>open_sessions := map_erase (open_sessions s) h\<rparr>"
  have o: "open_sessions ?s h' = Some t \<Longrightarrow> open_sessions s h' = Some t" for h' t
    by (simp split: if_splits)
  have "lost_route ?s i h'" if "lost_route s i h'" for i h'
    using that by (simp add: lost_route_def)
  then show "m_hander_to_id_map ?s h' = Some i \<or> \<not> e \<and> lost_route ?s i h'" if "m_id_to_handler_map ?s i = Some h'" for i h'
    using that table_route [OF ok, of i h'] by simp blast
  show "(\<exists>ss. open_sessions ?s h' = Some ss \<and> m_uHandlerId ss = i) \<and> UvClose h' \<notin> set (uv_calls ?s)"
    if "m_hander_to_id_map ?s h' = Some i" for h' i
    using that h table_session [OF ok, of h' i] by auto
  show "h' \<in> alloc \<and> 0 < unat (m_uHandlerId t) \<and> unat (m_uHandlerId t) \<le> unat (m_nSessionId ?s)"
    if "open_sessions ?s h' = Some t" for h' t
    using table_ids [OF ok o [OF that]] by simp
  show "h' = h''" if "open_sessions ?s h' = Some t" "open_sessions ?s h'' = Some t'"
      "m_uHandlerId t = m_uHandlerId t'" for h' h'' t t'
    using table_distinct [OF ok o [OF that(1)] o [OF that(2)] that(3)] .
qed (use table_bound [OF ok] table_back [OF ok] table_closed [OF ok] in simp_all)

lemma table_set_packet:
  assumes ok: "table_ok e alloc s" and h: "open_sessions s h = Some ss"
  shows "table_ok e alloc (s\<lparr>open_sessions := (open_sessions s)(h \<mapsto> ss\<lparr>m_pRecvPacket := pk\<rparr>)\<rparr>)"
    (is "table_ok e alloc ?s")
proof -
  have o: "open_sessions ?s h' = Some t \<Longrightarrow>
      \<exists>t'. open_sessions s h' = Some t' \<and> m_uHandlerId t' = m_uHandlerId t" for h' t
    using h by (auto split: if_splits)
  show ?thesis
  proof (rule table_okI)
    fix h' i
    assume "m_hander_to_id_map ?s h' = Some i"
    then show "(\<exists>ss. open_sessions ?s h' = Some ss \<and> m_uHandlerId ss = i) \<and> UvClose h' \<notin> set (uv_calls ?s)"
      using table_session [OF ok, of h' i] h by auto
  next
    fix i h'
    assume r: "m_id_to_handler_map ?s i = Some h'"
    have "lost_route ?s i h'" if "lost_route s i h'"
      unfolding lost_route_def
    proof (intro conjI allI impI)
      fix t
      assume "open_sessions ?s h' = Some t"
      with o show "m_uHandlerId t = i" using that by (metis lost_route_def)
    qed (use that in \<open>simp_all add: lost_route_def\<close>)
    then show "m_hander_to_id_map ?s h' = Some i \<or> \<not> e \<and> lost_route ?s i h'"
      using table_route [OF ok, of i h'] r by simp blast
  next
    fix h' h'' t t'
    assume "open_sessions ?s h' = Some t" "open_sessions ?s h'' = Some t'" "m_uHandlerId t = m_uHandlerId t'"
    then show "h' = h''" using o table_distinct [OF ok] by metis
  next
    fix h' t
    assume "open_sessions ?s h' = Some t"
    then show "h' \<in> alloc \<and> 0 < unat (m_uHandlerId t) \<and> unat (m_uHandlerId t) \<le> unat (m_nSessionId ?s)"
      using o table_ids [OF ok] by fastforce
  qed (use table_bound [OF ok] table_back [OF ok] table_closed [OF ok] in simp_all)
qed

lemma table_AddSession:
  assumes ok: "table_ok e alloc s" and key: "key \<notin> alloc" and add: "AddSession key session s = Inr s'"
  shows "table_ok e (insert key alloc) s'"
proof -
  define n where "n = m_nSessionId s + 1"
  have "sint (m_nSessionId s) \<noteq> 2 ^ 31 - 1"
    using add by (auto simp: AddSession_def)
  note next_id = table_next_id [OF ok this, folded n_def]
  note fresh = table_fresh [OF ok key]
  have s': "s' = s\<lparr>m_nSessionId := n, open_sessions := (open_sessions s)(key \<mapsto> SetHandlerId n session),
      m_id_to_handler_map := (m_id_to_handler_map s)(n \<mapsto> key),
      m_hander_to_id_map := (m_hander_to_id_map s)(key \<mapsto> n)\<rparr>"
    using add fresh next_id(3) by (auto simp: AddSession_def Let_def n_def split: if_splits)
  have old: "m_uHandlerId ss \<noteq> n" if "open_sessions s h = Some ss" for h ss
    using table_ids [OF ok that] next_id(1) by auto
  have open_key: "UvClose key \<notin> set (uv_calls s)" using table_closed [OF ok] key by blast
  have lost: "lost_route s' i h" if "lost_route s i h" for i h
    using that open_key next_id(1) by (auto simp: lost_route_def s')
  show ?thesis
  proof (rule table_okI)
    show "unat (m_nSessionId s') < 2 ^ 31" using next_id by (simp add: s')
    show "m_hander_to_id_map s' h = Some i \<or> \<not> e \<and> lost_route s' i h" if "m_id_to_handler_map s' i = Some h" for i h
      using that table_route [OF ok, of i h] fresh lost by (auto simp: s' split: if_splits)
    show "m_id_to_handler_map s' i = Some h" if "e" "m_hander_to_id_map s' h = Some i" for i h
      using that table_back [OF ok, of h i] fresh next_id(3) by (auto simp: s' split: if_splits)
    show "(\<exists>ss. open_sessions s' h = Some ss \<and> m_uHandlerId ss = i) \<and> UvClose h \<notin> set (uv_calls s')"
      if "m_hander_to_id_map s' h = Some i" for h i
      using that table_session [OF ok, of h i] open_key
      by (auto simp: s' SetHandlerId_def split: if_splits)
    show "h \<in> insert key alloc \<and> 0 < unat (m_uHandlerId ss) \<and> unat (m_uHandlerId ss) \<le> unat (m_nSessionId s')"
      if "open_sessions s' h = Some ss" for h ss
      using that table_ids [OF ok, of h ss] next_id(1) by (auto simp: s' SetHandlerId_def split: if_splits)
    show "h = h'" if "open_sessions s' h = Some ss" "open_sessions s' h' = Some ss'"
        "m_uHandlerId ss = m_uHandlerId ss'" for h h' ss ss'
      using that old [of h ss] old [of h' ss'] table_distinct [OF ok, of h ss h' ss']
      by (auto simp: s' SetHandlerId_def split: if_splits)
    show "h \<in> insert key alloc" if "UvClose h \<in> set (uv_calls s')" for h
      using that table_closed [OF ok] by (simp add: s')
  qed
qed

text \<open>What the two servers do to the table when a connection is lost.\<close>

lemma table_drop:
  assumes ok: "table_ok e alloc s" and i: "m_hander_to_id_map s h = Some i" and j: "e \<Longrightarrow> j = i"
  shows "table_ok e alloc ((uv_do (UvClose h) s)\<lparr>m_hander_to_id_map := map_erase (m_hander_to_id_map s) h,
      m_id_to_handler_map := map_erase (m_id_to_handler_map s) j\<rparr>)"
    (is "table_ok e alloc ?s")
proof (rule table_okI)
  have t: "\<exists>ss. open_sessions s h = Some ss \<and> m_uHandlerId ss = i" using table_session [OF ok i] by simp
  then have closing: "lost_route ?s i h"
    using table_ids [OF ok] by (fastforce simp: lost_route_def)
  have keep: "lost_route ?s k h'" if "lost_route s k h'" for k h'
    using that by (auto simp: lost_route_def)
  show "m_hander_to_id_map ?s h' = Some k \<or> \<not> e \<and> lost_route ?s k h'" if r: "m_id_to_handler_map ?s k = Some h'" for k h'
  proof -
    have k: "m_id_to_handler_map s k = Some h'" "k \<noteq> j" using r by (simp_all split: if_splits)
    show ?thesis
    proof (cases "m_hander_to_id_map s h' = Some k \<and> h' = h")
      case True
      then have "k = i" using i by auto
      then show ?thesis using True closing j k(2) by auto
    next
      case False
      then show ?thesis using table_route [OF ok k(1)] keep by auto
    qed
  qed
  show "m_id_to_handler_map ?s k = Some h'" if "e" "m_hander_to_id_map ?s h' = Some k" for k h'
  proof -
    have h': "h' \<noteq> h" "m_hander_to_id_map s h' = Some k" using that(2) by (simp_all split: if_splits)
    have "m_id_to_handler_map s i = Some h" "m_id_to_handler_map s k = Some h'"
      using table_back [OF ok that(1)] i h'(2) by simp_all
    then show ?thesis using h'(1) j [OF that(1)] by auto
  qed
  show "(\<exists>ss. open_sessions ?s h' = Some ss \<and> m_uHandlerId ss = k) \<and> UvClose h' \<notin> set (uv_calls ?s)"
    if "m_hander_to_id_map ?s h' = Some k" for h' k
    using that table_session [OF ok, of h' k] by (simp split: if_splits)
  show "h' = h''" if "open_sessions ?s h' = Some t" "open_sessions ?s h'' = Some t'"
      "m_uHandlerId t = m_uHandlerId t'" for h' h'' t t'
    using that table_distinct [OF ok, of h' t h'' t'] by simp
  show "h' \<in> alloc" if "UvClose h' \<in> set (uv_calls ?s)" for h'
    using that t table_ids [OF ok, of h] table_closed [OF ok, of h'] by auto
qed (use table_bound [OF ok] table_ids [OF ok] in simp_all)

lemma table_RemoveClient:
  assumes t: "table_ok e alloc s" and o: "open_sessions s client = Some session" and stale: "e \<Longrightarrow> \<forall>i. stale i = i"
  shows "table_ok e alloc
    (let s = uv_do (UvClose client) s in
     case m_hander_to_id_map s client of
       None \<Rightarrow> s
     | Some old \<Rightarrow>
         let s = s\<lparr>m_hander_to_id_map := map_erase (m_hander_to_id_map s) client\<rparr>; uSessionId = stale old in
         case m_id_to_handler_map s uSessionId of
           None \<Rightarrow> s
         | Some _ \<Rightarrow> s\<lparr>m_id_to_handler_map := map_erase (m_id_to_handler_map s) uSessionId\<rparr>)"
proof -
  have al: "client \<in> alloc" using table_ids [OF t o] by simp
  show ?thesis
  proof (cases "m_hander_to_id_map s client")
    case None
    then show ?thesis using table_uv_close [OF t al None] by (simp add: Let_def)
  next
    case i: (Some i)
    have same: "s\<lparr>m_hander_to_id_map := m, m_id_to_handler_map := map_erase (m_id_to_handler_map s) j\<rparr> = s\<lparr>m_hander_to_id_map := m\<rparr>"
      if "m_id_to_handler_map s j = None" for s :: "'a tcp_base_server_scheme" and m j
      using that by (cases s) (simp add: map_erase_def fun_upd_idem)
    show ?thesis
      using table_drop [OF t i, of "stale i"] stale i same [of "uv_do (UvClose client) s" "stale i"]
      by (auto simp: Let_def split: option.split)
  qed
qed

lemma table_OnNewConnection:
  assumes t: "table_ok e alloc s" and key: "key \<notin> alloc"
    and run: "(if status < 0 then Inr s
      else if accept = 0 then AddSession key session (uv_do (UvReadStart key) s)
      else Inr (uv_do (UvClose key) s)) = Inr s'"
  shows "table_ok e (insert key alloc) s'"
    and "open_sessions s' h = Some ss \<Longrightarrow> open_sessions s h = Some ss \<or> m_pRecvPacket ss = m_pRecvPacket session"
proof -
  have "s' = s \<or> s' = uv_do (UvClose key) s \<or> AddSession key session (uv_do (UvReadStart key) s) = Inr s'"
    using run by (simp split: if_splits)
  then consider "s' = s" | "s' = uv_do (UvClose key) s"
    | "AddSession key session (uv_do (UvReadStart key) s) = Inr s'"
    by blast
  then show "table_ok e (insert key alloc) s'"
  proof cases
    case 1
    then show ?thesis using table_mono [OF t, of "insert key alloc"] by auto
  next
    case 2
    show ?thesis
      unfolding 2 using table_mono [OF t, of "insert key alloc"] table_fresh [OF t key]
      by (intro table_uv_close) auto
  next
    case 3
    have t1: "table_ok e alloc (uv_do (UvReadStart key) s)"
      using t by (rule table_uv_do) simp
    show ?thesis using table_AddSession [OF t1 key 3] .
  qed
  show "open_sessions s h = Some ss \<or> m_pRecvPacket ss = m_pRecvPacket session"
    if "open_sessions s' h = Some ss"
    using that run
    by (auto simp: AddSession_def Let_def map_insert_def SetHandlerId_def split: if_splits option.splits)
qed

lemma table_OnConnectionClose:
  assumes t: "table_ok e alloc s" and h: "UvClose handle \<in> set (uv_calls s)"
  shows "table_ok e alloc (s\<lparr>open_sessions := map_erase (open_sessions s) handle\<rparr>)"
proof -
  have "m_hander_to_id_map s handle = None"
    using table_session [OF t, of handle] h by (cases "m_hander_to_id_map s handle") auto
  from table_erase_session [OF t this] show ?thesis .
qed

section \<open>The contract of a server\<close>

text \<open>
  A server whose steps keep the table. A configuration is the server and the addresses
  allocated so far. What follows from the contract holds in every reachable configuration.
\<close>

locale session_server =
  fixes step :: "('s tcp_base_server_scheme \<times> uv_stream set) \<Rightarrow>
      ('s tcp_base_server_scheme \<times> uv_stream set) \<Rightarrow> bool"
    and init :: "'s tcp_base_server_scheme"
    and ok :: "uv_stream set \<Rightarrow> 's tcp_base_server_scheme \<Rightarrow> bool"
    and exact :: bool
  assumes init_ok: "ok {} init"
    and step_ok: "step (s, alloc) (s', alloc') \<Longrightarrow> ok alloc s \<Longrightarrow> ok alloc' s'"
    and ok_table: "ok alloc s \<Longrightarrow> table_ok exact alloc s"
begin

lemma reachable_ok: "step\<^sup>*\<^sup>* (init, {}) c \<Longrightarrow> ok (snd c) (fst c)"
proof (induction rule: rtranclp_induct)
  case base
  then show ?case by (simp add: init_ok)
next
  case (step c c')
  then show ?case
    using step_ok [of "fst c" "snd c" "fst c'" "snd c'"] by simp
qed

lemma reachable_table: "step\<^sup>*\<^sup>* (init, {}) (s, alloc) \<Longrightarrow> table_ok exact alloc s"
  using reachable_ok [of "(s, alloc)"] ok_table by simp

text \<open>The owner of an id, or, if reads are not exact, a connection that had the id and is being closed.\<close>

lemma owner_of_id:
  assumes "step\<^sup>*\<^sup>* (init, {}) (s, alloc)" and "GetHandlerById i s = Some h"
  shows "i \<noteq> 0 \<and>
    (GetHandlerIdByHandler h s = i \<and> UvClose h \<notin> set (uv_calls s)
       \<and> (\<exists>ss. open_sessions s h = Some ss \<and> m_uHandlerId ss = i)
     \<or> \<not> exact \<and> UvClose h \<in> set (uv_calls s)
       \<and> (\<forall>ss. open_sessions s h = Some ss \<longrightarrow> m_uHandlerId ss = i))"
proof -
  have ok: "table_ok exact alloc s" using reachable_table [OF assms(1)] .
  have r: "m_id_to_handler_map s i = Some h" using assms(2) by (simp add: GetHandlerById_def)
  have "i \<noteq> 0" using table_route_id [OF ok r] by auto
  moreover have "GetHandlerIdByHandler h s = i \<and> UvClose h \<notin> set (uv_calls s)
       \<and> (\<exists>ss. open_sessions s h = Some ss \<and> m_uHandlerId ss = i)" if "m_hander_to_id_map s h = Some i"
    using that table_session [OF ok that] by (simp add: GetHandlerIdByHandler_def)
  ultimately show ?thesis
    using table_route [OF ok r] unfolding lost_route_def by blast
qed

end

end
