(* ===== verification/Gateway.thy ===== *)
theory Gateway
  imports TcpBase
begin

text \<open>
  The gateway process: \<^verbatim>\<open>GatewayServer\<close> (\<^verbatim>\<open>tcp/gateway_server.cpp\<close>) faces the players,
  \<^verbatim>\<open>TCPSession::ProcessNetData\<close> (\<^verbatim>\<open>tcp/tcp_session.cpp\<close>) handles what a player sends,
  \<^verbatim>\<open>GatewayClient\<close> (\<^verbatim>\<open>tcp/gateway_client.cpp\<close>) faces the back-end servers. A player's packet is
  checked, stamped with the session id and forwarded to the server it names; a back-end's
  packet goes to the session whose id it carries. The three \<^verbatim>\<open>GatewayClient\<close> objects of
  \<^verbatim>\<open>gateway/main.cpp\<close> own the connections, but all callbacks run on the one object of
  \<^verbatim>\<open>GatewayClient::GetInstance()\<close> and share its packet object.
\<close>

section \<open>State\<close>

text \<open>A global client pointer is the address of its \<^verbatim>\<open>m_client\<close>, \<open>None\<close> for \<^verbatim>\<open>NULL\<close>.\<close>

record gateway = tcp_base_server +
  g_pLoginLogicClient :: "uv_stream option"
  g_pGameLogicClient :: "uv_stream option"
  g_pRoomLogicClient :: "uv_stream option"
  m_pClientPacket :: knetpackage

text \<open>
  \<^verbatim>\<open>main\<close> up to \<^verbatim>\<open>uv_run\<close>: the clients whose address the configuration names. The
  arguments are the addresses of the clients' handles.
\<close>

definition gateway_main ::
  "uv_stream option \<Rightarrow> uv_stream option \<Rightarrow> uv_stream option \<Rightarrow> gateway" where
  "gateway_main login_logic game_logic room_logic =
     tcp_base_server.extend TCPBaseServer_new
       \<lparr>g_pLoginLogicClient = login_logic, g_pGameLogicClient = game_logic,
        g_pRoomLogicClient = room_logic, m_pClientPacket = KG_CreateCommonPackage\<rparr>"

section \<open>From the players to the back-end servers\<close>

definition TransferToLogicServer :: "uv_stream \<Rightarrow> bytes \<Rightarrow> nat \<Rightarrow> gateway \<Rightarrow> gateway res" where
  "TransferToLogicServer client pBuffer nRead g =
     bind_res (mem_read pBuffer 0 nRead) (\<lambda>pvBuffer. Inr (uv_do (UvWrite client pvBuffer) g))"

definition GetGatewayClient :: "u16 \<Rightarrow> gateway \<Rightarrow> uv_stream option" where
  "GetGatewayClient uServerId g =
     (if uServerId = server_id LOGIN then g_pLoginLogicClient g
      else if uServerId = server_id LOGIC then g_pGameLogicClient g
      else if uServerId = server_id ROOM then g_pRoomLogicClient g
      else None)"

text \<open>The body of the receive loop for a finished packet of a player.\<close>

definition session_packet ::
  "(u32 \<Rightarrow> bytes \<Rightarrow> bytes option) \<Rightarrow> u32 \<Rightarrow> bytes \<Rightarrow> u32 \<Rightarrow> gateway \<Rightarrow> gateway res" where
  "session_packet skip_field uHandlerId pDataBuffer uDataBufferSize g =
     bind_res (CheckNetPacket (ParseFromArray skip_field) pDataBuffer uDataBufferSize) (\<lambda>legal.
     if legal then
       bind_res (AddHanderIdToBuffer uHandlerId pDataBuffer uDataBufferSize) (\<lambda>pDataBuffer.
       bind_res (GetServerId pDataBuffer) (\<lambda>uServerId.
       bind_res (deref (GetGatewayClient uServerId g)) (\<lambda>pClient.
       TransferToLogicServer pClient pDataBuffer (unat uDataBufferSize) g)))
     else Inr g)"

definition ProcessNetData ::
  "(nat \<Rightarrow> junk) \<Rightarrow> (u32 \<Rightarrow> bytes \<Rightarrow> bytes option) \<Rightarrow> tcp_session \<Rightarrow> bytes \<Rightarrow> gateway
     \<Rightarrow> (bool \<times> tcp_session \<times> gateway) res" where
  "ProcessNetData mem skip_field session pData g =
     bind_res (process_net_data mem (session_packet skip_field (m_uHandlerId session)) (length pData)
         g (m_pRecvPacket session) pData)
       (\<lambda>(bResult, g, pk). Inr (bResult, session\<lparr>m_pRecvPacket := pk\<rparr>, g))"

text \<open>
  The id is read through the iterator of an entry that has just been erased, which C++ leaves
  undefined. \<open>stale\<close> is what that read gives for the value the entry had; it may be any function.
\<close>

definition GatewayServer_RemoveClient :: "(u32 \<Rightarrow> u32) \<Rightarrow> uv_stream \<Rightarrow> gateway \<Rightarrow> gateway" where
  "GatewayServer_RemoveClient stale client g =
     (case open_sessions g client of
        None \<Rightarrow> g
      | Some session \<Rightarrow>
          let g = uv_do (UvClose client) g in
          (case m_hander_to_id_map g client of
             None \<Rightarrow> g
           | Some old \<Rightarrow>
               let g = g\<lparr>m_hander_to_id_map := map_erase (m_hander_to_id_map g) client\<rparr>;
                   uSessionId = stale old in
               (case m_id_to_handler_map g uSessionId of
                  None \<Rightarrow> g
                | Some _ \<Rightarrow> g\<lparr>m_id_to_handler_map := map_erase (m_id_to_handler_map g) uSessionId\<rparr>)))"

definition GatewayServer_OnConnectionClose :: "uv_stream \<Rightarrow> gateway \<Rightarrow> gateway" where
  "GatewayServer_OnConnectionClose handle g = g\<lparr>open_sessions := map_erase (open_sessions g) handle\<rparr>"

definition GatewayServer_OnNewConnection ::
  "uv_stream \<Rightarrow> u32 \<Rightarrow> int \<Rightarrow> int \<Rightarrow> gateway \<Rightarrow> gateway res" where
  "GatewayServer_OnNewConnection key junk_id status accept g =
     (if status < 0 then Inr g
      else if accept = 0 then
        AddSession key (TCPSession_new junk_id) (uv_do (UvReadStart key) g)
      else Inr (uv_do (UvClose key) g))"

definition GatewayServer_OnMsgRecv ::
  "(nat \<Rightarrow> junk) \<Rightarrow> (u32 \<Rightarrow> u32) \<Rightarrow> (u32 \<Rightarrow> bytes \<Rightarrow> bytes option) \<Rightarrow> uv_stream \<Rightarrow> int \<Rightarrow> bytes
     \<Rightarrow> gateway \<Rightarrow> gateway res" where
  "GatewayServer_OnMsgRecv mem stale skip_field client uRead base g =
     (case open_sessions g client of
        Some session \<Rightarrow>
          if uRead = UV_EOF then Inr (GatewayServer_RemoveClient stale client g)
          else if uRead > 0 then
            bind_res (mem_read base 0 (nat uRead)) (\<lambda>pData.
            bind_res (ProcessNetData mem skip_field session pData g) (\<lambda>(bResult, session, g).
            Inr (g\<lparr>open_sessions := (open_sessions g)(client \<mapsto> session)\<rparr>)))
          else Inr g
      | None \<Rightarrow> Inr (uv_do (UvReadStop client) g))"

section \<open>From the back-end servers to the players\<close>

definition NotifyLogicServer ::
  "junk \<Rightarrow> u32 \<Rightarrow> u32 \<Rightarrow> bytes \<Rightarrow> u32 \<Rightarrow> gateway \<Rightarrow> gateway res" where
  "NotifyLogicServer mem uServerId uEventType pBuffer uMsgSize g =
     bind_res (CreateNetBuffer mem uEventType 0 0 (ucast uServerId) 0 pBuffer uMsgSize)
       (\<lambda>(pvNetBuffer, uPacketLen).
     case GetGatewayClient (ucast uServerId) g of
       None \<Rightarrow> Inr g
     | Some pClient \<Rightarrow> TransferToLogicServer pClient pvNetBuffer (unat uPacketLen) g)"

text \<open>\<^verbatim>\<open>new char[sizeof("[%d]")]\<close> has 5 bytes; \<^verbatim>\<open>sprintf\<close> writes the text and a NUL.\<close>

definition NotifyUserSocketDisconnect :: "junk \<Rightarrow> junk \<Rightarrow> u32 \<Rightarrow> gateway \<Rightarrow> gateway res" where
  "NotifyUserSocketDisconnect mem mem' uHandlerId g =
     (let str = ascii ''['' @ fmt_int uHandlerId @ ascii '']'' in
      bind_res (mem_write (fresh_block mem 5) 0 (str @ [0])) (\<lambda>pBbuffer.
      bind_res (mem_read pBbuffer 0 (length str)) (\<lambda>data.
      let szNetBody = SerializeToString data in
      bind_res (NotifyLogicServer mem' (ucast (server_id LOGIC)) 4001 szNetBody
          (word_of_nat (length szNetBody)) g) (\<lambda>g.
      Inr (case m_id_to_handler_map g uHandlerId of
             None \<Rightarrow> g
           | Some _ \<Rightarrow> g\<lparr>m_id_to_handler_map := map_erase (m_id_to_handler_map g) uHandlerId\<rparr>)))))"

definition GatewayServer_TransferToClient ::
  "junk \<Rightarrow> junk \<Rightarrow> u32 \<Rightarrow> bytes \<Rightarrow> u32 \<Rightarrow> gateway \<Rightarrow> gateway res" where
  "GatewayServer_TransferToClient mem mem' uHandlerId pBuffer uSize g =
     (case GetHandlerById uHandlerId g of
        Some pClientHandler \<Rightarrow>
          bind_res (mem_read pBuffer 0 (unat uSize)) (\<lambda>pvBuffer.
          Inr (uv_do (UvWrite pClientHandler pvBuffer) g))
      | None \<Rightarrow> NotifyUserSocketDisconnect mem mem' uHandlerId g)"

text \<open>The body of the receive loop for a finished packet of a back-end server.\<close>

definition client_packet :: "junk \<Rightarrow> junk \<Rightarrow> bytes \<Rightarrow> u32 \<Rightarrow> gateway \<Rightarrow> gateway res" where
  "client_packet mem mem' pDataBuffer uBufferSize g =
     bind_res (GetHandlerId pDataBuffer) (\<lambda>uHandlerId.
     if uHandlerId > 0 then GatewayServer_TransferToClient mem mem' uHandlerId pDataBuffer uBufferSize g
     else Inr g)"

definition GatewayClient_ProcessNetData ::
  "(nat \<Rightarrow> junk) \<Rightarrow> junk \<Rightarrow> junk \<Rightarrow> bytes \<Rightarrow> gateway \<Rightarrow> (bool \<times> gateway) res" where
  "GatewayClient_ProcessNetData pmem mem mem' pData g =
     bind_res (process_net_data pmem (client_packet mem mem') (length pData) g (m_pClientPacket g) pData)
       (\<lambda>(bResult, g, pk). Inr (bResult, g\<lparr>m_pClientPacket := pk\<rparr>))"

definition GatewayClient_OnMsgRecv ::
  "(nat \<Rightarrow> junk) \<Rightarrow> junk \<Rightarrow> junk \<Rightarrow> int \<Rightarrow> bytes \<Rightarrow> gateway \<Rightarrow> gateway res" where
  "GatewayClient_OnMsgRecv pmem mem mem' nread base g =
     (if nread = UV_EOF then Inr g
      else if nread > 0 then
        bind_res (mem_read base 0 (nat nread)) (\<lambda>pData.
        bind_res (GatewayClient_ProcessNetData pmem mem mem' pData g) (\<lambda>(bResult, g). Inr g))
      else Inr g)"

text \<open>\<^verbatim>\<open>OnConnect\<close>: a failed connection ends the process.\<close>

definition GatewayClient_OnConnect :: "uv_stream \<Rightarrow> int \<Rightarrow> gateway \<Rightarrow> gateway res" where
  "GatewayClient_OnConnect handle nStatus g =
     (if nStatus < 0 then Inl (ProcessExit 1) else Inr (uv_do (UvReadStart handle) g))"

section \<open>The process as a transition system\<close>

text \<open>
  The callbacks libuv makes, in any order and with any data. A connection is closed only
  after \<^verbatim>\<open>uv_close\<close>; the address of a new one is not in use. Each read through an erased iterator
  turns out in one of the ways \<open>reads\<close>.
\<close>

inductive gateway_step ::
  "(u32 \<Rightarrow> u32) set \<Rightarrow> (u32 \<Rightarrow> bytes \<Rightarrow> bytes option) \<Rightarrow>
     gateway \<times> uv_stream set \<Rightarrow> gateway \<times> uv_stream set \<Rightarrow> bool"
  for reads :: "(u32 \<Rightarrow> u32) set" and skip_field :: "u32 \<Rightarrow> bytes \<Rightarrow> bytes option" where
  new_connection:
    "key \<notin> alloc \<Longrightarrow> GatewayServer_OnNewConnection key junk_id status accept g = Inr g' \<Longrightarrow>
       gateway_step reads skip_field (g, alloc) (g', insert key alloc)"
| from_player:
    "stale \<in> reads \<Longrightarrow> GatewayServer_OnMsgRecv mem stale skip_field client uRead base g = Inr g' \<Longrightarrow>
       gateway_step reads skip_field (g, alloc) (g', alloc)"
| connection_close:
    "UvClose handle \<in> set (uv_calls g) \<Longrightarrow>
       gateway_step reads skip_field (g, alloc) (GatewayServer_OnConnectionClose handle g, alloc)"
| from_server:
    "GatewayClient_OnMsgRecv pmem mem mem' nread base g = Inr g' \<Longrightarrow>
       gateway_step reads skip_field (g, alloc) (g', alloc)"
| connected:
    "GatewayClient_OnConnect handle nStatus g = Inr g' \<Longrightarrow>
       gateway_step reads skip_field (g, alloc) (g', alloc)"

section \<open>Lemmas\<close>

text \<open>Packets of a player, by their bytes.\<close>

definition legal :: "(u32 \<Rightarrow> bytes \<Rightarrow> bytes option) \<Rightarrow> bytes \<Rightarrow> bool" where
  "legal skip_field p \<longleftrightarrow> ParseFromArray skip_field (drop 20 p) \<noteq> None"

definition server_of :: "bytes \<Rightarrow> u16" where
  "server_of p = dec16 (mslice p 16 2)"

definition stamp :: "u32 \<Rightarrow> bytes \<Rightarrow> bytes" where
  "stamp h p = msplice p 12 (enc32 h)"

lemma stamp_ok:
  "20 \<le> length p \<Longrightarrow> length (stamp h p) = length p \<and> GetHandlerId (stamp h p) = Inr h
     \<and> GetServerId (stamp h p) = Inr (server_of p) \<and> drop 16 (stamp h p) = drop 16 p
     \<and> take 12 (stamp h p) = take 12 p"
  by (simp add: stamp_def server_of_def GetHandlerId_def GetServerId_def mem_simps msplice_def mslice_def)

text \<open>A complete packet of a player has one of four outcomes.\<close>

lemma session_packet_eq:
  assumes "length p < 2 ^ 32"
  shows "session_packet skip_field h p (word_of_nat (length p)) g =
    (if length p < 20 then Inl OutOfBoundsRead
     else if \<not> legal skip_field p then Inr g
     else case GetGatewayClient (server_of p) g of
            None \<Rightarrow> Inl NullDeref
          | Some c \<Rightarrow> Inr (uv_do (UvWrite c (stamp h p)) g))"
proof -
  have n: "unat (word_of_nat (length p) :: u32) = length p"
    using assms by (simp add: unat_of_nat)
  show ?thesis
  proof (cases "length p < 20 \<or> \<not> legal skip_field p")
    case True
    then show ?thesis
      by (auto simp: session_packet_def CheckNetPacket_eq [OF assms] legal_def)
  next
    case False
    have "drop 20 p \<noteq> []"
      using False pb.parse_nil [of skip_field] by (auto simp: legal_def)
    then have long: "20 < length p" by simp
    then have "AddHanderIdToBuffer h p (word_of_nat (length p)) = Inr (stamp h p)"
      using n by (simp add: AddHanderIdToBuffer_def stamp_def)
    moreover have "mem_read (stamp h p) 0 (length p) = Inr (stamp h p)"
      using stamp_ok [of p h] long by simp
    ultimately show ?thesis
      using False n long stamp_ok [of p h]
      by (simp add: session_packet_def CheckNetPacket_eq [OF assms] legal_def TransferToLogicServer_def
          split: option.split)
  qed
qed

text \<open>What a handler may do to the process: ask libuv for more, nothing else.\<close>

definition only_calls :: "gateway \<Rightarrow> (uv_call \<Rightarrow> bool) \<Rightarrow> gateway \<Rightarrow> bool" where
  "only_calls g P g' \<longleftrightarrow> (\<exists>w. g' = g\<lparr>uv_calls := uv_calls g @ w\<rparr> \<and> (\<forall>c\<in>set w. P c))"

lemma only_calls_refl [simp]: "only_calls g P g"
  by (auto simp: only_calls_def intro: exI [of _ "[]"])

lemma only_calls_uv_do: "only_calls g P g' \<Longrightarrow> P c \<Longrightarrow> only_calls g P (uv_do c g')"
proof -
  assume "only_calls g P g'" "P c"
  then obtain w where "g' = g\<lparr>uv_calls := uv_calls g @ w\<rparr>" "\<forall>c\<in>set w. P c"
    by (auto simp: only_calls_def)
  with \<open>P c\<close> show ?thesis
    unfolding only_calls_def by (intro exI [of _ "w @ [c]"]) (simp add: uv_do_def)
qed

lemma only_calls_fields:
  "only_calls g P g' \<Longrightarrow> open_sessions g' = open_sessions g \<and> GetGatewayClient i g' = GetGatewayClient i g
     \<and> m_id_to_handler_map g' = m_id_to_handler_map g \<and> m_pClientPacket g' = m_pClientPacket g"
  by (auto simp: only_calls_def GetGatewayClient_def)

text \<open>The packets a session may cause to be sent.\<close>

definition forwards :: "gateway \<Rightarrow> u32 \<Rightarrow> uv_call \<Rightarrow> bool" where
  "forwards g h c \<longleftrightarrow>
     (\<exists>l p. c = UvWrite l p \<and> GetHandlerId p = Inr h \<and> 20 < length p
       \<and> GetServerId p = Inr (server_of p) \<and> GetGatewayClient (server_of p) g = Some l)"

lemma session_packet_only_calls:
  assumes inv: "only_calls g (forwards g h) g1" and p: "length p = unat n"
    and run: "session_packet skip_field h p n g1 = Inr g2"
  shows "only_calls g (forwards g h) g2"
proof -
  have n: "n = word_of_nat (length p)" "length p < 2 ^ 32"
    using p u32_bound [of n] by simp_all
  show ?thesis
  proof (cases "legal skip_field p \<and> 20 \<le> length p")
    case False
    then show ?thesis
      using run inv session_packet_eq [OF n(2)] by (auto simp: n(1) split: if_splits)
  next
    case True
    then obtain c where c: "GetGatewayClient (server_of p) g1 = Some c"
      and g2: "g2 = uv_do (UvWrite c (stamp h p)) g1"
      using run session_packet_eq [OF n(2), of skip_field h g1]
      by (auto simp: n(1) split: option.splits)
    have "drop 20 p \<noteq> []"
      using True pb.parse_nil [of skip_field] by (auto simp: legal_def)
    then have "20 < length p" by simp
    moreover have "server_of (stamp h p) = server_of p"
      using True by (simp add: server_of_def stamp_def mem_simps)
    ultimately have "forwards g h (UvWrite c (stamp h p))"
      using only_calls_fields [OF inv] c stamp_ok [of p h] by (simp add: forwards_def)
    then show ?thesis using inv g2 by (simp add: only_calls_uv_do)
  qed
qed

interpretation player: packet_handler "session_packet skip_field h" "only_calls g (forwards g h)"
  for skip_field h g
  by unfold_locales (rule session_packet_only_calls)

lemma ProcessNetData_only_calls:
  assumes "ProcessNetData mem skip_field session pData g = Inr (r, session', g')"
    and "pk_sized (m_pRecvPacket session)"
  shows "only_calls g (forwards g (m_uHandlerId session)) g' \<and>
    m_uHandlerId session' = m_uHandlerId session \<and> pk_sized (m_pRecvPacket session')
    \<and> (\<exists>pk. session' = session\<lparr>m_pRecvPacket := pk\<rparr>)"
  using assms player.process_inv [OF only_calls_refl assms(2), of mem skip_field _ _ g]
  by (fastforce simp: ProcessNetData_def bind_res_eq_Inr)

section \<open>The gateway keeps its session table\<close>

definition gateway_ok :: "bool \<Rightarrow> uv_stream set \<Rightarrow> gateway \<Rightarrow> bool" where
  "gateway_ok e alloc g \<longleftrightarrow> table_ok e alloc g \<and> pk_sized (m_pClientPacket g) \<and>
     (\<forall>h ss. open_sessions g h = Some ss \<longrightarrow> pk_sized (m_pRecvPacket ss))"

lemma gateway_ok_main: "gateway_ok e {} (gateway_main l c r)"
  using table_ok_new pk_sized_create
  by (simp add: gateway_ok_def gateway_main_def)
     (simp add: tcp_base_server.defs TCPBaseServer_new_def)

lemma table_calls:
  assumes "table_ok e alloc g" and "\<forall>c\<in>set w. \<forall>h. c \<noteq> UvClose h"
  shows "table_ok e alloc (g\<lparr>uv_calls := uv_calls g @ w\<rparr>)"
  by (rule table_same [OF assms(1)]) (use assms(2) in auto)

lemma gateway_only_calls:
  assumes "gateway_ok e alloc g" and "only_calls g P g'" and "\<And>h. \<not> P (UvClose h)"
  shows "gateway_ok e alloc g'"
proof -
  obtain w where "g' = g\<lparr>uv_calls := uv_calls g @ w\<rparr>" "\<forall>c\<in>set w. P c"
    using assms(2) by (auto simp: only_calls_def)
  then show ?thesis
    using assms table_calls [of e alloc g w] by (auto simp: gateway_ok_def)
qed

lemma gateway_RemoveClient:
  assumes ok: "gateway_ok e alloc g" and stale: "e \<Longrightarrow> \<forall>i. stale i = i"
  shows "gateway_ok e alloc (GatewayServer_RemoveClient stale client g)"
proof (cases "open_sessions g client")
  case None
  then show ?thesis using ok by (simp add: GatewayServer_RemoveClient_def)
next
  case (Some session)
  have t: "table_ok e alloc (GatewayServer_RemoveClient stale client g)"
    using table_RemoveClient [of e alloc g client session stale] Some ok stale
    by (simp add: GatewayServer_RemoveClient_def gateway_ok_def)
  have "m_pClientPacket (GatewayServer_RemoveClient stale client g) = m_pClientPacket g"
    "open_sessions (GatewayServer_RemoveClient stale client g) = open_sessions g"
    by (simp_all add: GatewayServer_RemoveClient_def Let_def uv_do_def split: option.split)
  with ok t show ?thesis by (simp add: gateway_ok_def)
qed

lemma gateway_OnMsgRecv:
  assumes ok: "gateway_ok e alloc g" and stale: "e \<Longrightarrow> \<forall>i. stale i = i"
    and run: "GatewayServer_OnMsgRecv mem stale skip_field client uRead base g = Inr g'"
  shows "gateway_ok e alloc g'"
proof (cases "open_sessions g client")
  case None
  then show ?thesis
    using ok run table_uv_do [of e alloc g "UvReadStop client"]
    by (simp add: GatewayServer_OnMsgRecv_def gateway_ok_def) (auto simp: uv_do_def)
next
  case (Some session)
  show ?thesis
  proof (cases "uRead = UV_EOF \<or> \<not> uRead > 0")
    case True
    then show ?thesis
      using run Some ok gateway_RemoveClient [OF ok stale]
      by (auto simp: GatewayServer_OnMsgRecv_def split: if_splits)
  next
    case False
    then obtain pData r session1 g1 where
      p: "ProcessNetData mem skip_field session pData g = Inr (r, session1, g1)"
      and g': "g' = g1\<lparr>open_sessions := (open_sessions g1)(client \<mapsto> session1)\<rparr>"
      using run Some by (auto simp: GatewayServer_OnMsgRecv_def bind_res_eq_Inr)
    have small: "pk_sized (m_pRecvPacket session)"
      using ok Some by (auto simp: gateway_ok_def)
    note f = ProcessNetData_only_calls [OF p small]
    have ok1: "gateway_ok e alloc g1"
      using ok f by (intro gateway_only_calls [of e alloc g _ g1]) (auto simp: forwards_def)
    have o: "open_sessions g1 client = Some session"
      using f only_calls_fields Some by metis
    obtain pk where pk: "session1 = session\<lparr>m_pRecvPacket := pk\<rparr>" using f by blast
    have "table_ok e alloc g'"
      unfolding g' pk using ok1 o by (intro table_set_packet) (simp_all add: gateway_ok_def)
    then show ?thesis
      using ok1 f by (auto simp: gateway_ok_def g')
  qed
qed

lemma gateway_OnConnectionClose:
  assumes ok: "gateway_ok e alloc g" and h: "UvClose handle \<in> set (uv_calls g)"
  shows "gateway_ok e alloc (GatewayServer_OnConnectionClose handle g)"
  using ok table_OnConnectionClose [of e alloc g handle] h
  by (auto simp: gateway_ok_def GatewayServer_OnConnectionClose_def map_erase_def)

lemma gateway_OnNewConnection:
  assumes ok: "gateway_ok e alloc g" and key: "key \<notin> alloc"
    and run: "GatewayServer_OnNewConnection key junk_id status accept g = Inr g'"
  shows "gateway_ok e (insert key alloc) g'"
proof -
  have t: "table_ok e alloc g" using ok by (simp add: gateway_ok_def)
  note new = table_OnNewConnection [OF t key run [unfolded GatewayServer_OnNewConnection_def]]
  have "m_pClientPacket g' = m_pClientPacket g"
    using run by (auto simp: GatewayServer_OnNewConnection_def AddSession_def Let_def uv_do_def split: if_splits)
  then show ?thesis
    using ok new pk_sized_create by (fastforce simp: gateway_ok_def TCPSession_new_def)
qed

section \<open>Replies\<close>

lemma NotifyLogicServer_eq:
  assumes "length pBuffer < 2 ^ 32 - 20" and "uMsgSize = word_of_nat (length pBuffer)"
  shows "NotifyLogicServer mem uServerId ev pBuffer uMsgSize g =
    Inr (case GetGatewayClient (ucast uServerId) g of
           None \<Rightarrow> g
         | Some c \<Rightarrow> uv_do (UvWrite c
             (packet (20 + uMsgSize) ev 0 0 (ucast uServerId) 0 pBuffer)) g)"
proof -
  have n: "unat uMsgSize = length pBuffer"
    using assms by (simp add: unat_of_nat)
  then have "unat (20 + uMsgSize) = 20 + length pBuffer"
    using assms(1) by (simp add: unat_word_ariths)
  then show ?thesis
    using n assms(1)
    by (simp add: NotifyLogicServer_def CreateNetBuffer_eq TransferToLogicServer_def split: option.split)
qed

definition disconnect_text :: "u32 \<Rightarrow> bytes" where
  "disconnect_text h = ascii ''['' @ fmt_int h @ ascii '']''"

text \<open>The notice that a player is gone, as the logic server gets it.\<close>

definition disconnect_packet :: "u32 \<Rightarrow> bytes" where
  "disconnect_packet h =
     (let body = SerializeToString (disconnect_text h) in
      packet (20 + word_of_nat (length body)) 4001 0 0 (server_id LOGIC) 0 body)"

lemma fmt_int_length:
  "length (fmt_int h) \<le> 2 \<longleftrightarrow> unat h < 100 \<or> - 10 < sint h \<and> sint h < 0"
proof (cases "sint h < 0")
  case True
  have "\<not> unat h < 100"
  proof
    assume "unat h < 100"
    then have "sint (word_of_nat (unat h) :: u32) = int (unat h)" by (intro u32_sint_of_nat) simp
    with True show False by simp
  qed
  moreover have "length (fmt_nat (nat (- sint h))) \<le> 1 \<longleftrightarrow> nat (- sint h) < 10"
    using length_fmt_nat_small length_fmt_nat_2 length_fmt_nat_3
    by (metis One_nat_def Suc_1 le_refl linorder_not_le not_less_eq_eq numeral_le_iff numeral_3_eq_3 Suc_leD)
  ultimately show ?thesis using True by (auto simp: fmt_int_def)
next
  case False
  have "length (fmt_nat (unat h)) \<le> 2 \<longleftrightarrow> unat h < 100"
    using length_fmt_nat_small [of "unat h"] length_fmt_nat_2 [of "unat h"] length_fmt_nat_3 [of "unat h"]
    by (cases "unat h < 10"; cases "unat h < 100") auto
  with False show ?thesis by (simp add: fmt_int_def)
qed

lemma Notify_eq:
  "NotifyUserSocketDisconnect mem mem' h g =
    (if 2 < length (fmt_int h) then Inl HeapOverflow
     else let g' = (case g_pGameLogicClient g of
                      None \<Rightarrow> g
                    | Some c \<Rightarrow> uv_do (UvWrite c (disconnect_packet h)) g)
          in Inr (g'\<lparr>m_id_to_handler_map := map_erase (m_id_to_handler_map g') h\<rparr>))"
proof (cases "2 < length (fmt_int h)")
  case True
  then show ?thesis by (simp add: NotifyUserSocketDisconnect_def Let_def)
next
  case False
  define str where "str = disconnect_text h"
  have len: "length str \<le> 4" using False by (simp add: str_def disconnect_text_def)
  have blk: "mem_write (fresh_block mem 5) 0 (str @ [0]) = Inr (msplice (fresh_block mem 5) 0 (str @ [0]))"
    using len by simp
  have rd: "mem_read (msplice (fresh_block mem 5) 0 (str @ [0])) 0 (length str) = Inr str"
    using len by (simp add: msplice_def mslice_def)
  define body where "body = SerializeToString str"
  have "length body \<le> 6" using len Serialize_small [of str] by (simp add: body_def)
  then have n: "NotifyLogicServer mem' (ucast (server_id LOGIC)) 4001 body (word_of_nat (length body)) g =
      Inr (case g_pGameLogicClient g of
             None \<Rightarrow> g
           | Some c \<Rightarrow> uv_do (UvWrite c (disconnect_packet h)) g)"
    by (subst NotifyLogicServer_eq)
       (simp_all add: GetGatewayClient_def disconnect_packet_def body_def str_def Let_def
          split: option.split)
  have erase: "(case m_id_to_handler_map g' h of None \<Rightarrow> g'
        | Some _ \<Rightarrow> g'\<lparr>m_id_to_handler_map := map_erase (m_id_to_handler_map g') h\<rparr>) =
      g'\<lparr>m_id_to_handler_map := map_erase (m_id_to_handler_map g') h\<rparr>" for g' :: gateway
    by (cases "m_id_to_handler_map g' h") (simp_all add: map_erase_def fun_upd_idem)
  show ?thesis
    unfolding NotifyUserSocketDisconnect_def Let_def disconnect_text_def [symmetric] str_def [symmetric]
    using False blk rd n erase by (simp add: body_def [symmetric])
qed

text \<open>What a back-end's packet may cause to be sent: itself to the owner of its id, or the
  notice that the owner is gone.\<close>

definition replies :: "gateway \<Rightarrow> uv_call \<Rightarrow> bool" where
  "replies g c \<longleftrightarrow>
     (\<exists>l p i. c = UvWrite l p \<and> GetHandlerId p = Inr i \<and> i \<noteq> 0 \<and> GetHandlerById i g = Some l) \<or>
     (\<exists>l i. c = UvWrite l (disconnect_packet i) \<and> g_pGameLogicClient g = Some l \<and> i \<noteq> 0
        \<and> GetHandlerById i g = None)"

lemma client_packet_eq:
  assumes "length p < 2 ^ 32"
  shows "client_packet mem mem' p (word_of_nat (length p)) g =
    (if length p < 16 then Inl OutOfBoundsRead
     else let i = dec32 (mslice p 12 4) in
       if i = 0 then Inr g
       else case GetHandlerById i g of
              Some h \<Rightarrow> Inr (uv_do (UvWrite h p) g)
            | None \<Rightarrow> NotifyUserSocketDisconnect mem mem' i g)"
proof -
  have n: "unat (word_of_nat (length p) :: u32) = length p"
    using assms by (simp add: unat_of_nat)
  show ?thesis
  proof (cases "length p < 16")
    case True
    then show ?thesis by (simp add: client_packet_def GetHandlerId_def)
  next
    case False
    then have "GetHandlerId p = Inr (dec32 (mslice p 12 4))"
      by (simp add: GetHandlerId_def)
    then show ?thesis
      using False n
      by (simp add: client_packet_def GatewayServer_TransferToClient_def Let_def word_gt_0
          split: option.split)
  qed
qed

lemma client_packet_only_calls:
  assumes inv: "only_calls g (replies g) g1" and p: "length p = unat n"
    and run: "client_packet mem mem' p n g1 = Inr g2"
  shows "only_calls g (replies g) g2"
proof -
  have n: "n = word_of_nat (length p)" "length p < 2 ^ 32"
    using p u32_bound [of n] by simp_all
  define i where "i = dec32 (mslice p 12 4)"
  have f: "GetHandlerById i g1 = GetHandlerById i g" "g_pGameLogicClient g1 = g_pGameLogicClient g"
    using inv by (auto simp: only_calls_def GetHandlerById_def)
  note eq = client_packet_eq [OF n(2), of mem mem' g1, folded n(1) i_def]
  have long: "16 \<le> length p" using run eq by (auto split: if_splits)
  then have hid: "GetHandlerId p = Inr i" by (simp add: GetHandlerId_def i_def)
  show ?thesis
  proof (cases "i = 0")
    case True
    then show ?thesis using run eq long inv by simp
  next
    case False
    show ?thesis
    proof (cases "GetHandlerById i g")
      case (Some h)
      then have "g2 = uv_do (UvWrite h p) g1"
        using run eq long False f by simp
      moreover have "replies g (UvWrite h p)"
        using Some hid False by (auto simp: replies_def)
      ultimately show ?thesis using inv by (simp add: only_calls_uv_do)
    next
      case None
      define g' where "g' = (case g_pGameLogicClient g1 of None \<Rightarrow> g1
          | Some c \<Rightarrow> uv_do (UvWrite c (disconnect_packet i)) g1)"
      have "NotifyUserSocketDisconnect mem mem' i g1 = Inr g2"
        using run eq long False f None by simp
      then have g2: "g2 = g'\<lparr>m_id_to_handler_map := map_erase (m_id_to_handler_map g') i\<rparr>"
        by (simp add: Notify_eq g'_def Let_def split: if_splits)
      have "m_id_to_handler_map g' i = None"
        using None f by (simp add: g'_def GetHandlerById_def split: option.split)
      then have "g2 = g'" by (simp add: g2 map_erase_def fun_upd_idem)
      moreover have "only_calls g (replies g) g'"
        using inv None False f
        by (auto simp: g'_def replies_def split: option.split intro!: only_calls_uv_do)
      ultimately show ?thesis by simp
    qed
  qed
qed

interpretation backend: packet_handler "client_packet mem mem'" "only_calls g (replies g)"
  for mem mem' g
  by unfold_locales (rule client_packet_only_calls)

lemma GatewayClient_ProcessNetData_calls:
  assumes "GatewayClient_ProcessNetData pmem mem mem' pData g = Inr (r, g')" and "pk_sized (m_pClientPacket g)"
  shows "\<exists>g1 pk. only_calls g (replies g) g1 \<and> pk_sized pk \<and> g' = g1\<lparr>m_pClientPacket := pk\<rparr>"
  using assms backend.process_inv [OF only_calls_refl assms(2)]
  by (fastforce simp: GatewayClient_ProcessNetData_def bind_res_eq_Inr)

lemma gateway_from_server:
  assumes ok: "gateway_ok e alloc g" and run: "GatewayClient_OnMsgRecv pmem mem mem' nread base g = Inr g'"
  shows "gateway_ok e alloc g'"
proof -
  have "g' = g \<or> (\<exists>r pData. GatewayClient_ProcessNetData pmem mem mem' pData g = Inr (r, g'))"
    using run by (auto simp: GatewayClient_OnMsgRecv_def bind_res_eq_Inr split: if_splits)
  then show ?thesis
  proof (elim disjE exE)
    fix r pData
    assume p: "GatewayClient_ProcessNetData pmem mem mem' pData g = Inr (r, g')"
    obtain g1 pk where g1: "only_calls g (replies g) g1" "pk_sized pk" "g' = g1\<lparr>m_pClientPacket := pk\<rparr>"
      using GatewayClient_ProcessNetData_calls [OF p] ok by (auto simp: gateway_ok_def)
    then have "gateway_ok e alloc g1"
      by (intro gateway_only_calls [OF ok g1(1)]) (simp add: replies_def)
    then show ?thesis using g1 by (auto simp: gateway_ok_def intro: table_same [of e alloc g1])
  qed (use ok in simp)
qed

lemma gateway_step_ok:
  assumes "gateway_step reads skip_field (g, alloc) (g', alloc')" and "gateway_ok (exact_reads reads) alloc g"
  shows "gateway_ok (exact_reads reads) alloc' g'"
  using assms(1)
proof (cases rule: gateway_step.cases)
  case (new_connection key junk_id status accept)
  then show ?thesis using gateway_OnNewConnection [OF assms(2)] by simp
next
  case (from_player stale mem client uRead base)
  then show ?thesis using gateway_OnMsgRecv [OF assms(2), of stale mem skip_field client uRead base g'] by (auto simp: exact_reads_def)
next
  case (connection_close handle)
  then show ?thesis using gateway_OnConnectionClose [OF assms(2)] by simp
next
  case (from_server pmem mem mem' nread base)
  then show ?thesis using gateway_from_server [OF assms(2)] by simp
next
  case (connected handle nStatus)
  then have "gateway_ok (exact_reads reads) alloc (uv_do (UvReadStart handle) g)"
    using assms(2) table_uv_do [of "exact_reads reads" alloc g "UvReadStart handle"]
    by (simp add: gateway_ok_def) (simp add: uv_do_def)
  with connected show ?thesis by (auto simp: GatewayClient_OnConnect_def split: if_splits)
qed

interpretation gw: session_server "gateway_step reads skip_field" "gateway_main l c r" "gateway_ok (exact_reads reads)" "exact_reads reads"
  for reads skip_field l c r
  by unfold_locales
     (rule gateway_ok_main, erule (1) gateway_step_ok, simp add: gateway_ok_def)

section \<open>A player's stream\<close>

text \<open>The specification: what the gateway sends for one packet of a player.\<close>

definition forward_spec ::
  "(u32 \<Rightarrow> bytes \<Rightarrow> bytes option) \<Rightarrow> gateway \<Rightarrow> u32 \<Rightarrow> bytes \<Rightarrow> uv_call list" where
  "forward_spec skip_field g h p =
     (if legal skip_field p
      then [UvWrite (the (GetGatewayClient (server_of p) g)) (stamp h p)] else [])"

definition routable :: "(u32 \<Rightarrow> bytes \<Rightarrow> bytes option) \<Rightarrow> gateway \<Rightarrow> bytes \<Rightarrow> bool" where
  "routable skip_field g p \<longleftrightarrow>
     20 \<le> length p \<and> (legal skip_field p \<longrightarrow> GetGatewayClient (server_of p) g \<noteq> None)"

lemma deliver_player:
  "\<forall>p\<in>set ps. length p < 2 ^ 32 \<and> routable skip_field g p \<Longrightarrow>
     deliver (session_packet skip_field h) ps g =
       Inr (g\<lparr>uv_calls := uv_calls g @ concat (map (forward_spec skip_field g h) ps)\<rparr>)"
proof (induction ps arbitrary: g)
  case (Cons p ps)
  define g1 where "g1 = g\<lparr>uv_calls := uv_calls g @ forward_spec skip_field g h p\<rparr>"
  have p: "length p < 2 ^ 32" "20 \<le> length p"
      "legal skip_field p \<longrightarrow> GetGatewayClient (server_of p) g \<noteq> None"
    using Cons.prems by (auto simp: routable_def)
  have step: "session_packet skip_field h p (word_of_nat (length p)) g = Inr g1"
    using p(2,3) session_packet_eq [OF p(1), of skip_field h g]
    by (auto simp: forward_spec_def g1_def uv_do_def)
  have same: "GetGatewayClient i g1 = GetGatewayClient i g" for i
    by (simp add: GetGatewayClient_def g1_def)
  then have "deliver (session_packet skip_field h) ps g1 =
      Inr (g1\<lparr>uv_calls := uv_calls g1 @ concat (map (forward_spec skip_field g1 h) ps)\<rparr>)"
    using Cons.prems by (intro Cons.IH) (simp add: routable_def)
  moreover have "forward_spec skip_field g1 h = forward_spec skip_field g h"
    by (simp add: fun_eq_iff forward_spec_def same)
  ultimately show ?case using step by (simp add: g1_def)
qed simp

text \<open>A run of read callbacks for one player.\<close>

fun player_sends ::
  "(nat \<Rightarrow> nat \<Rightarrow> junk) \<Rightarrow> (u32 \<Rightarrow> u32) \<Rightarrow> (u32 \<Rightarrow> bytes \<Rightarrow> bytes option) \<Rightarrow> uv_stream
     \<Rightarrow> bytes list \<Rightarrow> gateway \<Rightarrow> gateway res" where
  "player_sends mem stale skip_field client [] g = Inr g"
| "player_sends mem stale skip_field client (c # cs) g =
     bind_res (GatewayServer_OnMsgRecv (mem (length cs)) stale skip_field client (int (length c)) c g)
       (player_sends mem stale skip_field client cs)"

lemma OnMsgRecv_data:
  assumes "open_sessions g client = Some session" and "c \<noteq> []"
  shows "GatewayServer_OnMsgRecv mem stale skip_field client (int (length c)) c g =
    bind_res (process_net_data mem (session_packet skip_field (m_uHandlerId session)) (length c) g
        (m_pRecvPacket session) c)
      (\<lambda>(r, g, pk). Inr (g\<lparr>open_sessions := (open_sessions g)(client \<mapsto> session\<lparr>m_pRecvPacket := pk\<rparr>)\<rparr>))"
  using assms
  by (simp add: GatewayServer_OnMsgRecv_def ProcessNetData_def UV_EOF_def bind_res_assoc case_prod_unfold)

lemma player_sends_eq:
  "open_sessions g client = Some session \<Longrightarrow> pk_ok (m_pRecvPacket session) acc \<Longrightarrow> incomplete acc \<Longrightarrow>
   wf_stream (acc @ concat cs) \<Longrightarrow> \<forall>c\<in>set cs. c \<noteq> [] \<and> length c < 2 ^ 32 \<Longrightarrow>
   \<forall>p\<in>set (fst (frames (acc @ concat cs))). routable skip_field g p \<Longrightarrow>
   \<exists>session'. m_uHandlerId session' = m_uHandlerId session \<and>
     pk_ok (m_pRecvPacket session') (snd (frames (acc @ concat cs))) \<and>
     player_sends mem stale skip_field client cs g =
       Inr (g\<lparr>uv_calls := uv_calls g @ concat (map (forward_spec skip_field g (m_uHandlerId session))
                (fst (frames (acc @ concat cs)))),
              open_sessions := (open_sessions g)(client \<mapsto> session')\<rparr>)"
proof (induction cs arbitrary: g session acc)
  case Nil
  then show ?case
    by (intro exI [of _ session]) (simp add: frames_incomplete fun_upd_idem)
next
  case (Cons c cs)
  let ?h = "m_uHandlerId session"
  define ps where "ps = fst (frames (acc @ c))"
  define acc1 where "acc1 = snd (frames (acc @ c))"
  have wf: "wf_stream (acc @ c)"
    using Cons.prems(4) wf_stream_append [of "acc @ c" "concat cs"] by simp
  have fr: "frames (acc @ concat (c # cs)) =
      (ps @ fst (frames (acc1 @ concat cs)), snd (frames (acc1 @ concat cs)))"
    and wf2: "wf_stream (acc1 @ concat cs)"
    using frames_append [of "acc @ c" "concat cs"] Cons.prems(4) by (simp_all add: ps_def acc1_def)
  obtain pk1 where ok1: "pk_ok pk1 acc1" and run:
    "\<And>s. process_net_data (mem (length cs)) (session_packet skip_field ?h) (length c) s
        (m_pRecvPacket session) c = bind_res (deliver (session_packet skip_field ?h) ps s) (\<lambda>s'. Inr (True, s', pk1))"
    using process_net_data_delivers [OF Cons.prems(2,3) _ _ wf, of "length c" "mem (length cs)"
        "session_packet skip_field ?h"] Cons.prems(5) by (auto simp: ps_def acc1_def)
  define session1 where "session1 = session\<lparr>m_pRecvPacket := pk1\<rparr>"
  define g1 where "g1 = g\<lparr>uv_calls := uv_calls g @ concat (map (forward_spec skip_field g ?h) ps),
      open_sessions := (open_sessions g)(client \<mapsto> session1)\<rparr>"
  have "\<forall>p\<in>set ps. length p < 2 ^ 32 \<and> routable skip_field g p"
    using Cons.prems(6) frames_good [OF wf] good_packet_bound unfolding fr ps_def by auto
  then have step: "GatewayServer_OnMsgRecv (mem (length cs)) stale skip_field client (int (length c)) c g = Inr g1"
    using Cons.prems(1,5) OnMsgRecv_data [of g client session c] deliver_player run
    by (simp add: g1_def session1_def)
  have same: "routable skip_field g1 = routable skip_field g" "forward_spec skip_field g1 = forward_spec skip_field g"
    by (simp_all add: fun_eq_iff routable_def forward_spec_def GetGatewayClient_def g1_def)
  have chunks: "\<forall>c\<in>set cs. c \<noteq> [] \<and> length c < 2 ^ 32"
    using Cons.prems(5) by simp
  have now: "open_sessions g1 client = Some session1" "pk_ok (m_pRecvPacket session1) acc1"
    "\<forall>p\<in>set (fst (frames (acc1 @ concat cs))). routable skip_field g1 p"
    using ok1 Cons.prems(6) same unfolding fr by (simp_all add: g1_def session1_def)
  obtain session' where s': "m_uHandlerId session' = m_uHandlerId session1"
      "pk_ok (m_pRecvPacket session') (snd (frames (acc1 @ concat cs)))"
      "player_sends mem stale skip_field client cs g1 =
       Inr (g1\<lparr>uv_calls := uv_calls g1 @ concat (map (forward_spec skip_field g1 (m_uHandlerId session1))
                (fst (frames (acc1 @ concat cs)))),
              open_sessions := (open_sessions g1)(client \<mapsto> session')\<rparr>)"
    using Cons.IH [OF now(1,2) incomplete_rest [OF wf, folded acc1_def] wf2 chunks now(3)] by blast
  show ?case
    using s' step same unfolding fr fst_conv snd_conv
    by (intro exI [of _ session']) (simp add: g1_def session1_def del: fun_upd_apply)
qed

section \<open>A concrete run\<close>

text \<open>One player, connection 7 with session id 1; the logic server is connection 12.\<close>

definition demo :: gateway where
  "demo = (gateway_main None (Some 12) None)
     \<lparr>m_nSessionId := 1,
      open_sessions := [7 \<mapsto> \<lparr>m_uHandlerId = 1, m_pRecvPacket = KG_CreateCommonPackage\<rparr>],
      m_id_to_handler_map := [1 \<mapsto> 7], m_hander_to_id_map := [7 \<mapsto> 1], uv_calls := [UvReadStart 7]\<rparr>"

definition demo_packet :: bytes where
  "demo_packet = packet 24 1 0 99 2 0 [10, 2, 104, 105]"

lemma demo_fields:
  "open_sessions demo = [7 \<mapsto> \<lparr>m_uHandlerId = 1, m_pRecvPacket = KG_CreateCommonPackage\<rparr>]"
  "GetGatewayClient 2 demo = Some 12" "g_pGameLogicClient demo = Some 12"
  "m_id_to_handler_map demo = [1 \<mapsto> 7]" "m_hander_to_id_map demo = [7 \<mapsto> 1]"
  "m_pClientPacket demo = KG_CreateCommonPackage" "uv_calls demo = [UvReadStart 7]"
  by (simp_all add: demo_def gateway_main_def GetGatewayClient_def tcp_base_server.defs)

lemma demo_reachable:
  "(gateway_step reads skip_field)\<^sup>*\<^sup>* (gateway_main None (Some 12) None, {}) (demo, {7})"
proof -
  have "GatewayServer_OnNewConnection 7 0 0 0 (gateway_main None (Some 12) None) = Inr demo"
    by (simp add: GatewayServer_OnNewConnection_def AddSession_def Let_def demo_def uv_do_def
        gateway_main_def TCPBaseServer_new_def tcp_base_server.defs SetHandlerId_def TCPSession_new_def)
  then have "gateway_step reads skip_field (gateway_main None (Some 12) None, {}) (demo, {7})"
    using gateway_step.new_connection [of 7 "{}"] by blast
  then show ?thesis by (rule r_into_rtranclp)
qed

lemma demo_packet_facts:
  "good_packet demo_packet" "server_of demo_packet = 2" "legal skip_field demo_packet"
  "stamp 1 demo_packet = packet 24 1 0 1 2 0 [10, 2, 104, 105]" "length demo_packet = 24"
  "frames demo_packet = ([demo_packet], [])" "wf_stream demo_packet" "demo_packet \<noteq> []"
proof -
  have "CreateNetBuffer (\<lambda>_. 0) 1 0 99 2 0 [10, 2, 104, 105] 4 = Inr (demo_packet, 24)"
    by (simp add: CreateNetBuffer_eq demo_packet_def)
  then show g: "good_packet demo_packet" by (rule good_packet_CreateNetBuffer) simp
  then show "frames demo_packet = ([demo_packet], [])" "wf_stream demo_packet"
    using frames_concat [of "[demo_packet]"] by simp_all
  show "server_of demo_packet = 2" "stamp 1 demo_packet = packet 24 1 0 1 2 0 [10, 2, 104, 105]"
    by code_simp+
  show "legal skip_field demo_packet"
    using pb.parse_ser [of "[104, 105]" skip_field]
    by (simp add: legal_def demo_packet_def drop_packet Serialize_small)
qed (simp_all add: demo_packet_def)

lemma demo_routable: "routable skip_field demo demo_packet"
  by (simp add: routable_def demo_packet_facts demo_fields)

lemma demo_forward:
  "forward_spec skip_field demo 1 demo_packet = [UvWrite 12 (packet 24 1 0 1 2 0 [10, 2, 104, 105])]"
  by (simp add: forward_spec_def demo_packet_facts demo_fields)

lemma demo_recv:
  "\<exists>g'. GatewayServer_OnMsgRecv mem stale skip_field 7 24 demo_packet demo = Inr g'
     \<and> uv_calls g' = [UvReadStart 7, UvWrite 12 (packet 24 1 0 1 2 0 [10, 2, 104, 105])]"
  using player_sends_eq [of demo 7 "\<lparr>m_uHandlerId = 1, m_pRecvPacket = KG_CreateCommonPackage\<rparr>"
      "[]" "[demo_packet]" skip_field "\<lambda>_. mem" stale]
  by (auto simp: demo_fields demo_packet_facts demo_routable demo_forward pk_ok_create bind_res_eq_Inr)

section \<open>Properties\<close>

text \<open>C4: end to end. What the gateway sends for a player is determined by the stream the player
  sent, not by how it was cut into reads: each legal packet, stamped with the session's id,
  goes to the server it names, in order; illegal packets are dropped; nothing else is sent.\<close>

theorem gateway_forwards_stream:
  assumes "open_sessions g client = Some session"
    and "pk_ok (m_pRecvPacket session) []"
    and "wf_stream (concat cs)" and "\<forall>c\<in>set cs. c \<noteq> [] \<and> length c < 2 ^ 32"
    and "\<forall>p\<in>set (fst (frames (concat cs))). routable skip_field g p"
  shows "\<exists>session'. m_uHandlerId session' = m_uHandlerId session \<and>
     pk_ok (m_pRecvPacket session') (snd (frames (concat cs))) \<and>
     player_sends mem stale skip_field client cs g =
       Inr (g\<lparr>uv_calls := uv_calls g @ concat (map (forward_spec skip_field g (m_uHandlerId session))
                (fst (frames (concat cs)))),
              open_sessions := (open_sessions g)(client \<mapsto> session')\<rparr>)"
  using player_sends_eq [OF assms(1,2) incomplete_Nil, of cs skip_field mem stale] assms(3-5) by simp

theorem gateway_forwards_stream_witness:
  "\<exists>g'. player_sends (\<lambda>_ _ _. 0) (\<lambda>v. v) (\<lambda>_ _. None) 7 [take 9 demo_packet, drop 9 demo_packet] demo = Inr g'
     \<and> uv_calls g' = [UvReadStart 7, UvWrite 12 (packet 24 1 0 1 2 0 [10, 2, 104, 105])]"
  using gateway_forwards_stream [of demo 7 "\<lparr>m_uHandlerId = 1, m_pRecvPacket = KG_CreateCommonPackage\<rparr>"
      "[take 9 demo_packet, drop 9 demo_packet]" "\<lambda>_ _. None" "\<lambda>_ _ _. 0" "\<lambda>v. v"]
  by (auto simp: demo_fields demo_packet_facts demo_routable demo_forward pk_ok_create)

text \<open>C5: no spoofing. Whatever bytes a player sends and whatever the packet object has received
  before, in every reachable state of the gateway every packet it then sends carries the id of
  that player's session, goes to the server named in the packet, and has a body.\<close>

theorem player_cannot_spoof:
  assumes "(gateway_step reads skip_field)\<^sup>*\<^sup>* (gateway_main l c r, {}) (g, alloc)"
    and "open_sessions g client = Some session" and "uRead \<noteq> UV_EOF"
    and "GatewayServer_OnMsgRecv mem stale skip_field client uRead base g = Inr g'"
  shows "\<exists>w. uv_calls g' = uv_calls g @ w \<and>
    (\<forall>call\<in>set w. \<exists>link p. call = UvWrite link p \<and> 20 < length p
       \<and> GetHandlerId p = Inr (m_uHandlerId session)
       \<and> GetGatewayClient (server_of p) g = Some link)"
proof -
  have small: "pk_sized (m_pRecvPacket session)"
    using gw.reachable_ok [OF assms(1)] assms(2) by (auto simp: gateway_ok_def)
  have "g' = g \<or> (\<exists>pData r session1 g1. ProcessNetData mem skip_field session pData g = Inr (r, session1, g1)
      \<and> g' = g1\<lparr>open_sessions := (open_sessions g1)(client \<mapsto> session1)\<rparr>)"
    using assms(2-4) by (auto simp: GatewayServer_OnMsgRecv_def bind_res_eq_Inr split: if_splits)
  then show ?thesis
  proof (elim disjE exE conjE)
    fix pData r' session1 g1
    assume p: "ProcessNetData mem skip_field session pData g = Inr (r', session1, g1)"
      and g': "g' = g1\<lparr>open_sessions := (open_sessions g1)(client \<mapsto> session1)\<rparr>"
    obtain w where "g1 = g\<lparr>uv_calls := uv_calls g @ w\<rparr>" "\<forall>x\<in>set w. forwards g (m_uHandlerId session) x"
      using ProcessNetData_only_calls [OF p small] by (auto simp: only_calls_def)
    then show ?thesis
      by (intro exI [of _ w]) (auto simp: g' forwards_def)
  qed simp
qed

theorem player_cannot_spoof_witness:
  "\<exists>g'. GatewayServer_OnMsgRecv (\<lambda>_ _. 0) (\<lambda>v. v) (\<lambda>_ _. None) 7 24 demo_packet demo = Inr g'
     \<and> (\<exists>call. uv_calls g' = uv_calls demo @ [call]
         \<and> (\<exists>link p. call = UvWrite link p \<and> GetHandlerId p = Inr 1))"
proof -
  obtain g' where g': "GatewayServer_OnMsgRecv (\<lambda>_ _. 0) (\<lambda>v. v) (\<lambda>_ _. None) 7 24 demo_packet demo = Inr g'"
      "uv_calls g' = [UvReadStart 7, UvWrite 12 (packet 24 1 0 1 2 0 [10, 2, 104, 105])]"
    using demo_recv by blast
  have "open_sessions demo 7 = Some \<lparr>m_uHandlerId = 1, m_pRecvPacket = KG_CreateCommonPackage\<rparr>" "24 \<noteq> UV_EOF"
    by (simp_all add: demo_fields UV_EOF_def)
  from player_cannot_spoof [OF demo_reachable this g'(1)] g' show ?thesis
    by (auto simp: demo_fields)
qed

text \<open>\<^verbatim>\<open>RemoveClient\<close> reads the id through an erased iterator. If that read does not give the
  old value, the route of the closed connection stays: replies for its id are still written
  to a connection that is being closed.\<close>

lemma stale_read_keeps_route:
  assumes "table_ok e alloc g" and "m_hander_to_id_map g client = Some i" and "GetHandlerById i g = Some client"
    and "stale i \<noteq> i"
  shows "GetHandlerById i (GatewayServer_RemoveClient stale client g) = Some client
    \<and> UvClose client \<in> set (uv_calls (GatewayServer_RemoveClient stale client g))"
  using table_session [OF assms(1,2)] assms(2-4)
  by (auto simp: GatewayServer_RemoveClient_def Let_def GetHandlerById_def split: option.splits)

text \<open>C7: the routing table. In every reachable state an id that is still routable is not 0 and
  leads to a connection whose session has no other id. If the connection is not being closed, its
  session has the id, and the reverse lookup gives the id back. It is never being closed as long as
  the reads through an erased iterator give the erased value, which C++ does not promise; if such
  a read gives another value, the id of the lost connection stays routable.\<close>

theorem gateway_ids_lead_to_owner:
  assumes "(gateway_step reads skip_field)\<^sup>*\<^sup>* (gateway_main l c r, {}) (g, alloc)"
    and "GetHandlerById i g = Some h"
  shows "i \<noteq> 0 \<and> (\<forall>session. open_sessions g h = Some session \<longrightarrow> m_uHandlerId session = i)
    \<and> (UvClose h \<notin> set (uv_calls g) \<longrightarrow> GetHandlerIdByHandler h g = i
        \<and> (\<exists>session. open_sessions g h = Some session \<and> m_uHandlerId session = i))
    \<and> (exact_reads reads \<longrightarrow> UvClose h \<notin> set (uv_calls g))
    \<and> (UvClose h \<notin> set (uv_calls g) \<and> stale i \<noteq> i \<longrightarrow>
        GetHandlerById i (GatewayServer_RemoveClient stale h g) = Some h
        \<and> UvClose h \<in> set (uv_calls (GatewayServer_RemoveClient stale h g)))"
proof -
  have ok: "table_ok (exact_reads reads) alloc g" using gw.reachable_table [OF assms(1)] .
  have "m_hander_to_id_map g h = Some i" if "UvClose h \<notin> set (uv_calls g)"
    using that table_route [OF ok, of i h] assms(2) by (auto simp: GetHandlerById_def lost_route_def)
  then have "UvClose h \<notin> set (uv_calls g) \<and> stale i \<noteq> i \<longrightarrow>
        GetHandlerById i (GatewayServer_RemoveClient stale h g) = Some h
        \<and> UvClose h \<in> set (uv_calls (GatewayServer_RemoveClient stale h g))"
    using stale_read_keeps_route [OF ok _ assms(2)] by blast
  then show ?thesis
    using gw.owner_of_id [OF assms] by auto
qed

theorem gateway_ids_lead_to_owner_witness:
  "GetHandlerById 1 demo = Some 7 \<and> GetHandlerIdByHandler 7 demo = 1"
  using gateway_ids_lead_to_owner [OF demo_reachable, of 1 7]
  by (simp add: GetHandlerById_def demo_fields)

definition answers_owner :: "(u32 \<Rightarrow> u32) set \<Rightarrow> gateway \<Rightarrow> u32 \<Rightarrow> uv_stream \<Rightarrow> bool" where
  "answers_owner reads g i h \<longleftrightarrow>
     (\<exists>session. open_sessions g h = Some session \<and> m_uHandlerId session = i) \<and> UvClose h \<notin> set (uv_calls g)
     \<or> \<not> exact_reads reads \<and> UvClose h \<in> set (uv_calls g)
        \<and> (\<forall>session. open_sessions g h = Some session \<longrightarrow> m_uHandlerId session = i)"

text \<open>C6: replies. In every reachable state, whatever a back-end server sends, a packet it sends
  goes to a connection whose session has the id that it carries, or to one that had this id and is
  being closed, but never to the connection of another session; the second case does not occur as
  long as the reads through an erased iterator give the erased value, which C++ does not promise. A
  packet for an id without a connection is answered by the notice to the logic server. The routing
  table stays as it is.\<close>

theorem reply_reaches_only_owner:
  assumes "(gateway_step reads skip_field)\<^sup>*\<^sup>* (gateway_main l c r, {}) (g, alloc)"
    and "GatewayClient_OnMsgRecv pmem mem mem' nread base g = Inr g'"
  shows "m_id_to_handler_map g' = m_id_to_handler_map g \<and> (\<exists>w. uv_calls g' = uv_calls g @ w \<and>
    (\<forall>call\<in>set w.
       (\<exists>h p i. call = UvWrite h p \<and> GetHandlerId p = Inr i \<and> i \<noteq> 0 \<and> answers_owner reads g i h) \<or>
       (\<exists>logic i. call = UvWrite logic (disconnect_packet i) \<and> g_pGameLogicClient g = Some logic
          \<and> GetHandlerById i g = None)))"
proof -
  have ok: "gateway_ok (exact_reads reads) alloc g" using gw.reachable_ok [OF assms(1)] by simp
  have "g' = g \<or> (\<exists>r pData. GatewayClient_ProcessNetData pmem mem mem' pData g = Inr (r, g'))"
    using assms(2) by (auto simp: GatewayClient_OnMsgRecv_def bind_res_eq_Inr split: if_splits)
  then show ?thesis
  proof (elim disjE exE)
    fix r' pData
    assume p: "GatewayClient_ProcessNetData pmem mem mem' pData g = Inr (r', g')"
    obtain w pk where w: "g' = (g\<lparr>uv_calls := uv_calls g @ w\<rparr>)\<lparr>m_pClientPacket := pk\<rparr>"
        "\<forall>x\<in>set w. replies g x"
      using GatewayClient_ProcessNetData_calls [OF p] ok by (auto simp: gateway_ok_def only_calls_def)
    have own: "answers_owner reads g i h" if "GetHandlerById i g = Some h" for i h
      using gw.owner_of_id [OF assms(1) that] by (auto simp: answers_owner_def)
    have "(\<exists>h p i. call = UvWrite h p \<and> GetHandlerId p = Inr i \<and> i \<noteq> 0 \<and> answers_owner reads g i h) \<or>
       (\<exists>logic i. call = UvWrite logic (disconnect_packet i) \<and> g_pGameLogicClient g = Some logic
          \<and> GetHandlerById i g = None)" if "call \<in> set w" for call
      using w(2) that own unfolding replies_def by blast
    moreover have "m_id_to_handler_map g' = m_id_to_handler_map g" "uv_calls g' = uv_calls g @ w"
      using w(1) by simp_all
    ultimately show ?thesis by blast
  qed simp
qed

theorem reply_reaches_only_owner_witness:
  "\<exists>g'. GatewayClient_OnMsgRecv (\<lambda>_ _. 0) (\<lambda>_. 0) (\<lambda>_. 0) 24 (packet 24 1 0 1 2 0 [10, 2, 104, 105]) demo
      = Inr g' \<and> UvWrite 7 (packet 24 1 0 1 2 0 [10, 2, 104, 105]) \<in> set (uv_calls g')
      \<and> m_id_to_handler_map g' = m_id_to_handler_map demo"
proof -
  let ?p = "packet 24 1 0 1 2 0 [10, 2, 104, 105]"
  have "CreateNetBuffer (\<lambda>_. 0) 1 0 1 2 0 [10, 2, 104, 105] 4 = Inr (?p, 24)"
    by (simp add: CreateNetBuffer_eq)
  then have "good_packet ?p" by (rule good_packet_CreateNetBuffer) simp
  then have fr: "frames ?p = ([?p], [])" "wf_stream ?p"
    using frames_concat [of "[?p]"] by simp_all
  have i: "dec32 (mslice ?p 12 4) = 1"
    by (simp add: slice_packet)
  have "client_packet (\<lambda>_. 0) (\<lambda>_. 0) ?p (word_of_nat (length ?p)) demo = Inr (uv_do (UvWrite 7 ?p) demo)"
    by (subst client_packet_eq) (simp_all add: i GetHandlerById_def demo_fields)
  moreover obtain pk where "process_net_data (\<lambda>_ _. 0) (client_packet (\<lambda>_. 0) (\<lambda>_. 0)) 24 demo
      KG_CreateCommonPackage ?p = bind_res (deliver (client_packet (\<lambda>_. 0) (\<lambda>_. 0)) [?p] demo) (\<lambda>s'. Inr (True, s', pk))"
    using process_net_data_delivers [OF pk_ok_create incomplete_Nil, of ?p 24 "\<lambda>_ _. 0"
        "client_packet (\<lambda>_. 0) (\<lambda>_. 0)"] fr by auto
  ultimately have g': "GatewayClient_OnMsgRecv (\<lambda>_ _. 0) (\<lambda>_. 0) (\<lambda>_. 0) 24 ?p demo =
      Inr ((uv_do (UvWrite 7 ?p) demo)\<lparr>m_pClientPacket := pk\<rparr>)"
    by (simp add: GatewayClient_OnMsgRecv_def GatewayClient_ProcessNetData_def demo_fields UV_EOF_def)
  then show ?thesis
    using reply_reaches_only_owner [OF demo_reachable g'] by auto
qed

text \<open>C30: the notice about a lost player goes through a buffer of \<^verbatim>\<open>sizeof("[%d]")\<close> = 5 bytes:
  it overflows exactly for the ids whose decimal form has more than two characters, so from
  the hundredth session on every reply to a player who has left corrupts the heap.\<close>

theorem disconnect_notice_overflows_iff:
  "NotifyUserSocketDisconnect mem mem' h g = Inl HeapOverflow \<longleftrightarrow>
     \<not> (unat h < 100 \<or> - 10 < sint h \<and> sint h < 0)"
  using fmt_int_length [of h] by (auto simp: Notify_eq Let_def not_less)

text \<open>C28: a legal packet for a server the gateway has no client for (the center, the gateway
  itself, an unknown id, or a server missing in the configuration) stops the gateway: the
  null pointer is called without a check. Any player can send it.\<close>

theorem unroutable_packet_crashes_gateway:
  assumes "open_sessions g client = Some session" and "pk_ok (m_pRecvPacket session) []"
    and "good_packet p" and "20 \<le> length p" and "legal skip_field p"
    and "GetGatewayClient (server_of p) g = None"
  shows "GatewayServer_OnMsgRecv mem stale skip_field client (int (length p)) p g = Inl NullDeref"
proof -
  have fr: "frames p = ([p], [])" "wf_stream p"
    using frames_concat [of "[p]"] assms(3) by simp_all
  have ne: "p \<noteq> []" and b: "length p < 2 ^ 32"
    using assms(3,4) good_packet_bound by auto
  have "session_packet skip_field (m_uHandlerId session) p (word_of_nat (length p)) g = Inl NullDeref"
    using assms(4-6) by (simp add: session_packet_eq [OF b])
  then show ?thesis
    using OnMsgRecv_data [OF assms(1) ne] process_net_data_delivers [OF assms(2) incomplete_Nil ne b, of "length p"
        mem "session_packet skip_field (m_uHandlerId session)"] fr
    by auto
qed

theorem unroutable_packet_crashes_gateway_witness:
  "GatewayServer_OnMsgRecv (\<lambda>_ _. 0) (\<lambda>v. v) (\<lambda>_ _. None) 7 24 demo_packet
     (demo\<lparr>g_pGameLogicClient := None\<rparr>) = Inl NullDeref"
  using unroutable_packet_crashes_gateway [of "demo\<lparr>g_pGameLogicClient := None\<rparr>" 7
      "\<lparr>m_uHandlerId = 1, m_pRecvPacket = KG_CreateCommonPackage\<rparr>" demo_packet "\<lambda>_ _. None"
      "\<lambda>_ _. 0" "\<lambda>v. v"]
  by (simp add: demo_fields demo_packet_facts pk_ok_create GetGatewayClient_def)

text \<open>A complete packet shorter than the 20 bytes of the header makes the body size wrap:
  checking it reads far outside the buffer. Any player can send it.\<close>

lemma short_packet_crashes_gateway:
  assumes "open_sessions g client = Some session" and "pk_ok (m_pRecvPacket session) []"
    and "good_packet p" and "length p < 20"
  shows "GatewayServer_OnMsgRecv mem stale skip_field client (int (length p)) p g = Inl OutOfBoundsRead"
proof -
  have fr: "frames p = ([p], [])" "wf_stream p"
    using frames_concat [of "[p]"] assms(3) by simp_all
  have ne: "p \<noteq> []" and b: "length p < 2 ^ 32"
    using assms(3) good_packet_bound by (auto simp: good_packet_def good_len_def)
  have "session_packet skip_field (m_uHandlerId session) p (word_of_nat (length p)) g = Inl OutOfBoundsRead"
    using assms(4) by (simp add: session_packet_eq [OF b])
  then show ?thesis
    using OnMsgRecv_data [OF assms(1) ne] process_net_data_delivers [OF assms(2) incomplete_Nil ne b, of "length p"
        mem "session_packet skip_field (m_uHandlerId session)"] fr
    by auto
qed

text \<open>C16: typing of the heap. In every reachable state of the gateway, whatever length fields have
  been received, each packet buffer that is in use has exactly the size it reports, so the size
  handed to the packet handlers is the size of the memory.\<close>

theorem packet_buffers_have_their_size:
  assumes "(gateway_step reads skip_field)\<^sup>*\<^sup>* (gateway_main l c r, {}) (g, alloc)"
  shows "(\<forall>h session b. open_sessions g h = Some session \<longrightarrow> m_pBuffer (m_pRecvPacket session) = Some b \<longrightarrow>
      length (pvData b) = unat (m_uSize b)) \<and>
    (\<forall>b. m_pBuffer (m_pClientPacket g) = Some b \<longrightarrow> length (pvData b) = unat (m_uSize b))"
  using gw.reachable_ok [OF assms] by (auto simp: gateway_ok_def pk_sized_def)

theorem packet_buffers_have_their_size_witness:
  "\<exists>g session b. GatewayServer_OnMsgRecv (\<lambda>_ _. 0) (\<lambda>v. v) (\<lambda>_ _. None) 7 10 (take 10 demo_packet) demo = Inr g
     \<and> open_sessions g 7 = Some session \<and> m_pBuffer (m_pRecvPacket session) = Some b
     \<and> length (pvData b) = unat (m_uSize b)"
proof -
  have d: "le_dec (take 4 demo_packet) = 24" by code_simp
  have "frames (take 10 demo_packet) = ([], take 10 demo_packet)"
    using d demo_packet_facts(5) by (subst frames.simps) simp
  moreover have "wf_stream (take 10 demo_packet)"
    using d demo_packet_facts(5) by (subst wf_stream.simps) (simp add: good_len_def)
  ultimately have fr: "frames (take 10 demo_packet) = ([], take 10 demo_packet)" "wf_stream (take 10 demo_packet)"
    by simp_all
  obtain session where s: "pk_ok (m_pRecvPacket session) (take 10 demo_packet)"
    and run: "player_sends (\<lambda>_ _ _. 0) (\<lambda>v. v) (\<lambda>_ _. None) 7 [take 10 demo_packet] demo =
      Inr (demo\<lparr>open_sessions := (open_sessions demo)(7 \<mapsto> session)\<rparr>)"
    using player_sends_eq [of demo 7 "\<lparr>m_uHandlerId = 1, m_pRecvPacket = KG_CreateCommonPackage\<rparr>" "[]"
        "[take 10 demo_packet]" "\<lambda>_ _. None" "\<lambda>_ _ _. 0" "\<lambda>v. v"] fr demo_packet_facts(5,8)
    by (auto simp: demo_fields pk_ok_create)
  define g where "g = demo\<lparr>open_sessions := (open_sessions demo)(7 \<mapsto> session)\<rparr>"
  have g: "GatewayServer_OnMsgRecv (\<lambda>_ _. 0) (\<lambda>v. v) (\<lambda>_ _. None) 7 10 (take 10 demo_packet) demo = Inr g"
    using run demo_packet_facts(5) by (simp add: bind_res_eq_Inr g_def)
  have "(gateway_step {\<lambda>v. v} (\<lambda>_ _. None))\<^sup>*\<^sup>* (gateway_main None (Some 12) None, {}) (g, {7})"
    using demo_reachable gateway_step.from_player [OF singletonI g] by (rule rtranclp.rtrancl_into_rtrancl)
  moreover obtain b where "m_pBuffer (m_pRecvPacket session) = Some b"
    using s demo_packet_facts(5) by (auto simp: pk_ok_def)
  moreover have "open_sessions g 7 = Some session" by (simp add: g_def)
  ultimately show ?thesis
    using g packet_buffers_have_their_size [of "{\<lambda>v. v}" "\<lambda>_ _. None" None "Some 12" None g "{7}"] by blast
qed

end
