(* ===== verification/LuaEngine.thy ===== *)
theory LuaEngine
  imports PbMessage
begin

text \<open>
  \<^verbatim>\<open>LuaEngine\<close> of \<^verbatim>\<open>vm/lua_engine.cpp\<close>: how the servers call their scripts. The engine owns a
  Lua state with a value stack; every call pushes a global function and its arguments and
  runs \<^verbatim>\<open>lua_pcall\<close>. The scripts are a parameter: for a function, its arguments and the script's
  own state they give the calls of C++ functions they make, in order, and a result or an
  error. The calls are executed on the state of the process by the argument \<open>api\<close>.
\<close>

section \<open>Values\<close>

datatype lua_value =
    LuaNil
  | LuaNumber int
  | LuaString bytes
  | LuaTable "bytes list"
  | LuaLibrary
  | LuaFunction bytes

text \<open>\<^verbatim>\<open>lua_tonumber\<close> after the conversion to \<^verbatim>\<open>unsigned int\<close>; \<^verbatim>\<open>lua_tostring\<close> is \<^verbatim>\<open>NULL\<close> for other values.\<close>

record 'v lua_api =
  lua_tonumber :: "'v \<Rightarrow> u32"
  lua_tostring :: "'v \<Rightarrow> bytes option"

text \<open>\<^verbatim>\<open>std::string s = lua_tostring(...)\<close>.\<close>

definition lua_string :: "'v lua_api \<Rightarrow> 'v \<Rightarrow> bytes res" where
  "lua_string api v = bind_res (deref (lua_tostring api v)) (\<lambda>s. c_string (s @ [0]))"

lemma lua_string_ok: "lua_tostring api v = Some s \<Longrightarrow> 0 \<notin> set s \<Longrightarrow> lua_string api v = Inr s"
  by (simp add: lua_string_def c_string_terminated [of s "[]", simplified])

section \<open>The stack\<close>

text \<open>The first element of \<open>lua_stack\<close> is the top; \<open>lua_state\<close> is everything the script keeps.\<close>

record 'l lua_engine =
  lua_stack :: "lua_value list"
  lua_state :: 'l

type_synonym ('l, 'call) script =
  "lua_value \<Rightarrow> lua_value list \<Rightarrow> 'l \<Rightarrow> 'call list \<times> (lua_value + lua_value) \<times> 'l"

definition lua_gettop :: "'l lua_engine \<Rightarrow> nat" where
  "lua_gettop e = length (lua_stack e)"

definition lua_settop :: "nat \<Rightarrow> 'l lua_engine \<Rightarrow> 'l lua_engine" where
  "lua_settop n e = e\<lparr>lua_stack := drop (length (lua_stack e) - n) (lua_stack e)\<rparr>"

definition lua_push :: "lua_value \<Rightarrow> 'l lua_engine \<Rightarrow> 'l lua_engine" where
  "lua_push v e = e\<lparr>lua_stack := v # lua_stack e\<rparr>"

definition lua_getglobal :: "bytes \<Rightarrow> 'l lua_engine \<Rightarrow> 'l lua_engine" where
  "lua_getglobal name e = lua_push (LuaFunction name) e"

definition lua_pushnumber :: "int \<Rightarrow> 'l lua_engine \<Rightarrow> 'l lua_engine" where
  "lua_pushnumber n e = lua_push (LuaNumber n) e"

definition lua_pushstring :: "bytes \<Rightarrow> 'l lua_engine \<Rightarrow> 'l lua_engine res" where
  "lua_pushstring pParam e = bind_res (c_string pParam) (\<lambda>s. Inr (lua_push (LuaString s) e))"

fun run_calls :: "('call \<Rightarrow> 's \<Rightarrow> 's res) \<Rightarrow> 'call list \<Rightarrow> 's \<Rightarrow> 's res" where
  "run_calls api [] s = Inr s"
| "run_calls api (c # cs) s = bind_res (api c s) (run_calls api cs)"

text \<open>
  \<^verbatim>\<open>lua_pcall\<close> takes the arguments and the function off the stack and leaves the result or the
  error value. Calling with too few values on the stack is outside the interface of Lua.
\<close>

definition lua_pcall ::
  "('l, 'call) script \<Rightarrow> ('call \<Rightarrow> 's \<Rightarrow> 's res) \<Rightarrow> nat \<Rightarrow> 'l lua_engine \<times> 's
     \<Rightarrow> (bool \<times> 'l lua_engine \<times> 's) res" where
  "lua_pcall script api nargs es =
     (case es of (e, s) \<Rightarrow>
      let st = lua_stack e in
      if length st \<le> nargs then Inl OutOfBoundsRead
      else case script (st ! nargs) (rev (take nargs st)) (lua_state e) of (calls, out, l) \<Rightarrow>
        bind_res (run_calls api calls s) (\<lambda>s.
        let rest = drop (nargs + 1) st in
        Inr (case out of
               Inl msg \<Rightarrow> (True, e\<lparr>lua_stack := msg # rest, lua_state := l\<rparr>, s)
             | Inr v \<Rightarrow> (False, e\<lparr>lua_stack := v # rest, lua_state := l\<rparr>, s))))"

section \<open>The calls of the engine\<close>

text \<open>
  What all calls do after \<^verbatim>\<open>lua_pcall\<close>: an error is printed and the function returns at
  once; a result is looked at without consequence and the stack is set back.
\<close>

definition lua_return ::
  "lua_value lua_api \<Rightarrow> nat \<Rightarrow> bool \<times> 'l lua_engine \<times> 's \<Rightarrow> ('l lua_engine \<times> 's) res" where
  "lua_return lua nTop res =
     (case res of (ret, e, s) \<Rightarrow>
      if ret then bind_res (deref (lua_tostring lua (hd (lua_stack e)))) (\<lambda>pErrorMsg. Inr (e, s))
      else Inr (lua_settop nTop e, s))"

definition CallLua ::
  "lua_value lua_api \<Rightarrow> ('l, 'call) script \<Rightarrow> ('call \<Rightarrow> 's \<Rightarrow> 's res) \<Rightarrow> u32 \<Rightarrow> u32 \<Rightarrow> u16 \<Rightarrow> bytes
     \<Rightarrow> 'l lua_engine \<times> 's \<Rightarrow> ('l lua_engine \<times> 's) res" where
  "CallLua lua script api uHandlerId uEventType uSequenceId pParam es =
     (case es of (e, s) \<Rightarrow>
      let nTop = lua_gettop e;
          e = lua_getglobal (ascii ''OnClientRequest'') e;
          e = lua_pushnumber (int (unat uHandlerId)) e;
          e = lua_pushnumber (int (unat uEventType)) e;
          e = lua_pushnumber (int (unat uSequenceId)) e in
      bind_res (lua_pushstring pParam e) (\<lambda>e.
      bind_res (lua_pcall script api 4 (e, s)) (lua_return lua nTop)))"

definition CallCenterRequestLua ::
  "lua_value lua_api \<Rightarrow> ('l, 'call) script \<Rightarrow> ('call \<Rightarrow> 's \<Rightarrow> 's res) \<Rightarrow> u32 \<Rightarrow> u32 \<Rightarrow> u16 \<Rightarrow> bytes
     \<Rightarrow> 'l lua_engine \<times> 's \<Rightarrow> ('l lua_engine \<times> 's) res" where
  "CallCenterRequestLua lua script api uHandlerId uEventType uSequenceId pParam es =
     (case es of (e, s) \<Rightarrow>
      let nTop = lua_gettop e;
          e = lua_getglobal (ascii ''OnCenterRequest'') e;
          e = lua_pushnumber (int (unat uHandlerId)) e;
          e = lua_pushnumber (int (unat uEventType)) e;
          e = lua_pushnumber (int (unat uSequenceId)) e in
      bind_res (lua_pushstring pParam e) (\<lambda>e.
      bind_res (lua_pcall script api 4 (e, s)) (lua_return lua nTop)))"

definition UpdateTimer ::
  "lua_value lua_api \<Rightarrow> ('l, 'call) script \<Rightarrow> ('call \<Rightarrow> 's \<Rightarrow> 's res) \<Rightarrow> int
     \<Rightarrow> 'l lua_engine \<times> 's \<Rightarrow> ('l lua_engine \<times> 's) res" where
  "UpdateTimer lua script api elapse es =
     (case es of (e, s) \<Rightarrow>
      let nTop = lua_gettop e;
          e = lua_getglobal (ascii ''UpdateTimer'') e;
          e = lua_pushnumber elapse e in
      bind_res (lua_pcall script api 1 (e, s)) (lua_return lua nTop))"

definition RedisCallLua ::
  "lua_value lua_api \<Rightarrow> ('l, 'call) script \<Rightarrow> ('call \<Rightarrow> 's \<Rightarrow> 's res) \<Rightarrow> u32 \<Rightarrow> u32 \<Rightarrow> u32 \<Rightarrow> bytes
     \<Rightarrow> 'l lua_engine \<times> 's \<Rightarrow> ('l lua_engine \<times> 's) res" where
  "RedisCallLua lua script api uSquenceId uUserId uEventType request es =
     (case es of (e, s) \<Rightarrow>
      let nTop = lua_gettop e;
          e = lua_getglobal (ascii ''OnRedisRespone'') e;
          e = lua_pushnumber (int (unat uSquenceId)) e;
          e = lua_pushnumber (int (unat uUserId)) e;
          e = lua_pushnumber (int (unat uEventType)) e in
      bind_res (lua_pushstring (request @ [0]) e) (\<lambda>e.
      bind_res (lua_pcall script api 4 (e, s)) (lua_return lua nTop)))"

text \<open>The overload for several values; the strings are what \<^verbatim>\<open>lua_pushlstring\<close> copied into the table.\<close>

definition RedisCallLua_table ::
  "lua_value lua_api \<Rightarrow> ('l, 'call) script \<Rightarrow> ('call \<Rightarrow> 's \<Rightarrow> 's res) \<Rightarrow> u32 \<Rightarrow> u32 \<Rightarrow> u32 \<Rightarrow> bytes list
     \<Rightarrow> 'l lua_engine \<times> 's \<Rightarrow> ('l lua_engine \<times> 's) res" where
  "RedisCallLua_table lua script api uSquenceId uUserId uEventType values es =
     (case es of (e, s) \<Rightarrow>
      let nTop = lua_gettop e;
          e = lua_getglobal (ascii ''OnRedisMulDataRespone'') e;
          e = lua_pushnumber (int (unat uSquenceId)) e;
          e = lua_pushnumber (int (unat uUserId)) e;
          e = lua_pushnumber (int (unat uEventType)) e;
          e = lua_push (LuaTable values) e in
      bind_res (lua_pcall script api 4 (e, s)) (lua_return lua nTop))"

section \<open>Starting the engine\<close>

text \<open>The paths of the constructor; the subscript operator makes an empty string for other types.\<close>

definition server_path :: "int \<Rightarrow> bytes" where
  "server_path server_type =
     (if server_type = 1 then ascii ''./../script/login_main.lua''
      else if server_type = 2 then ascii ''./../script/logic_main.lua''
      else if server_type = 3 then ascii ''./../script/room_main.lua''
      else if server_type = 0 then ascii ''./../script/center_main.lua''
      else [])"

text \<open>
  \<open>dofile\<close> loads and runs a file: it fails or gives the values the file returns. The four
  libraries \<^verbatim>\<open>luaopen_base\<close> and the two register functions leave are on the stack below. What
  \<^verbatim>\<open>InitState\<close> then calls is whatever is on top. The result is the status of that call.
\<close>

definition InitState ::
  "(bytes \<Rightarrow> 'l \<Rightarrow> 'call list \<times> (lua_value list) option \<times> 'l) \<Rightarrow> ('l, 'call) script
     \<Rightarrow> ('call \<Rightarrow> 's \<Rightarrow> 's res) \<Rightarrow> int \<Rightarrow> 'l \<Rightarrow> 's \<Rightarrow> (bool \<times> 'l lua_engine \<times> 's) res" where
  "InitState dofile script api server_type l s =
     (let e = \<lparr>lua_stack = replicate 4 LuaLibrary, lua_state = l\<rparr> in
      case dofile (server_path server_type) (lua_state e) of
        (calls, out, l) \<Rightarrow>
          bind_res (run_calls api calls s) (\<lambda>s.
          case out of
            None \<Rightarrow> Inl (ProcessExit 1)
          | Some vs \<Rightarrow>
              let e = e\<lparr>lua_stack := rev vs @ lua_stack e, lua_state := l\<rparr> in
              bind_res (lua_pcall script api 0 (e, s)) (\<lambda>(ret, e, s).
              Inr (ret, lua_settop 0 e, s))))"

section \<open>What a call does\<close>

text \<open>
  The specification of all five calls: the script runs on the arguments, its calls are
  executed, and the stack is as before, or has the error value on it.
\<close>

definition script_call ::
  "lua_value lua_api \<Rightarrow> ('l, 'call) script \<Rightarrow> ('call \<Rightarrow> 's \<Rightarrow> 's res) \<Rightarrow> string \<Rightarrow> lua_value list
     \<Rightarrow> 'l lua_engine \<times> 's \<Rightarrow> ('l lua_engine \<times> 's) res" where
  "script_call lua script api f args es =
     (case script (LuaFunction (ascii f)) args (lua_state (fst es)) of (calls, out, l) \<Rightarrow>
        bind_res (run_calls api calls (snd es)) (\<lambda>s.
        case out of
          Inl msg \<Rightarrow> bind_res (deref (lua_tostring lua msg)) (\<lambda>_.
            Inr ((fst es)\<lparr>lua_stack := msg # lua_stack (fst es), lua_state := l\<rparr>, s))
        | Inr v \<Rightarrow> Inr ((fst es)\<lparr>lua_state := l\<rparr>, s)))"

named_theorems lua_ops \<open>the stack operations of the engine\<close>

lemmas lua_stack_ops [lua_ops] =
  lua_gettop_def lua_settop_def lua_push_def lua_getglobal_def lua_pushnumber_def
  lua_pushstring_def lua_pcall_def lua_return_def script_call_def

lemma c_string_data: "c_string (d @ [0]) = Inr (takeWhile (\<lambda>b. b \<noteq> 0) d)"
  by (auto simp: c_string_def takeWhile_append takeWhile_eq_all_conv [THEN iffD2])

lemma return_value: "e\<lparr>lua_stack := lua_stack e, lua_state := l\<rparr> = e\<lparr>lua_state := l\<rparr>"
  by (cases e) simp

lemma CallLua_eq:
  "CallLua lua script api h ev q (d @ [0]) es = script_call lua script api ''OnClientRequest''
     [LuaNumber (int (unat h)), LuaNumber (int (unat ev)), LuaNumber (int (unat q)),
      LuaString (takeWhile (\<lambda>b. b \<noteq> 0) d)] es"
  by (cases es) (auto simp: CallLua_def lua_ops c_string_data bind_res_def return_value split: sum.splits prod.splits)

lemma CallCenterRequestLua_eq:
  "CallCenterRequestLua lua script api h ev q (d @ [0]) es = script_call lua script api ''OnCenterRequest''
     [LuaNumber (int (unat h)), LuaNumber (int (unat ev)), LuaNumber (int (unat q)),
      LuaString (takeWhile (\<lambda>b. b \<noteq> 0) d)] es"
  by (cases es) (auto simp: CallCenterRequestLua_def lua_ops c_string_data bind_res_def return_value
      split: sum.splits prod.splits)

lemma UpdateTimer_eq:
  "UpdateTimer lua script api elapse es = script_call lua script api ''UpdateTimer'' [LuaNumber elapse] es"
  by (cases es) (auto simp: UpdateTimer_def lua_ops bind_res_def return_value split: sum.splits prod.splits)

lemma RedisCallLua_eq:
  "RedisCallLua lua script api q u ev d es = script_call lua script api ''OnRedisRespone''
     [LuaNumber (int (unat q)), LuaNumber (int (unat u)), LuaNumber (int (unat ev)),
      LuaString (takeWhile (\<lambda>b. b \<noteq> 0) d)] es"
  by (cases es) (auto simp: RedisCallLua_def lua_ops c_string_data bind_res_def return_value
      split: sum.splits prod.splits)

lemma RedisCallLua_table_eq:
  "RedisCallLua_table lua script api q u ev vs es = script_call lua script api ''OnRedisMulDataRespone''
     [LuaNumber (int (unat q)), LuaNumber (int (unat u)), LuaNumber (int (unat ev)), LuaTable vs] es"
  by (cases es) (auto simp: RedisCallLua_table_def lua_ops bind_res_def return_value split: sum.splits prod.splits)

lemmas engine_calls = CallLua_eq CallCenterRequestLua_eq UpdateTimer_eq RedisCallLua_eq RedisCallLua_table_eq

text \<open>The process only changes through the calls of the script.\<close>

lemma script_call_inv:
  assumes "script_call lua script api f args (e, s) = Inr (e', s')" and "I s"
    and "\<And>c s s'. I s \<Longrightarrow> api c s = Inr s' \<Longrightarrow> I s'"
  shows "I s'"
proof -
  have run: "run_calls api cs t = Inr t' \<Longrightarrow> I t \<Longrightarrow> I t'" for cs t t'
    by (induction cs arbitrary: t) (auto simp: bind_res_eq_Inr intro: assms(3))
  obtain calls out l where "script (LuaFunction (ascii f)) args (lua_state e) = (calls, out, l)"
    by (rule prod_cases3)
  then show ?thesis
    using assms(1,2) run by (cases out) (auto simp: script_call_def bind_res_eq_Inr)
qed

text \<open>A change of the process that all calls of the script commute with commutes with the whole call.\<close>

lemma script_call_map:
  assumes api: "\<And>c s. api c (F s) = bind_res (api c s) (\<lambda>s. Inr (F s))"
  shows "script_call lua script api f args (e, F s) =
    bind_res (script_call lua script api f args (e, s)) (\<lambda>(e, s). Inr (e, F s))"
proof -
  have run: "run_calls api cs (F t) = bind_res (run_calls api cs t) (\<lambda>s. Inr (F s))" for cs t
  proof (induction cs arbitrary: t)
    case (Cons c cs)
    then show ?case by (cases "api c t") (simp_all add: api)
  qed simp
  obtain calls out l where "script (LuaFunction (ascii f)) args (lua_state e) = (calls, out, l)"
    by (rule prod_cases3)
  then show ?thesis
    by (cases "run_calls api calls s"; cases out) (simp_all add: script_call_def run bind_res_assoc)
qed

lemma script_call_stack:
  assumes "script_call lua script api f args (e, s) = Inr (e', s')"
  shows "lua_stack e' = (case fst (snd (script (LuaFunction (ascii f)) args (lua_state e))) of
     Inl msg \<Rightarrow> msg # lua_stack e | Inr v \<Rightarrow> lua_stack e)"
proof -
  obtain calls out l where "script (LuaFunction (ascii f)) args (lua_state e) = (calls, out, l)"
    by (rule prod_cases3)
  then show ?thesis
    using assms by (cases out) (auto simp: script_call_def bind_res_eq_Inr)
qed

section \<open>Properties\<close>

text \<open>A call of a script that ends in an error leaves the error value on the stack of the
  engine, because the error branch returns before the stack is set back; a call that succeeds
  leaves the stack as it was. So the stack grows by one with every failed request.\<close>

lemma failed_calls_fill_the_stack:
  assumes "CallLua lua script api h ev q (d @ [0]) (e, s) = Inr (e', s')"
    and "script (LuaFunction (ascii ''OnClientRequest''))
        [LuaNumber (int (unat h)), LuaNumber (int (unat ev)), LuaNumber (int (unat q)),
         LuaString (takeWhile (\<lambda>b. b \<noteq> 0) d)] (lua_state e) = (calls, out, l)"
  shows "lua_stack e' = (case out of Inl msg \<Rightarrow> msg # lua_stack e | Inr v \<Rightarrow> lua_stack e)
    \<and> lua_gettop e' = lua_gettop e + (case out of Inl msg \<Rightarrow> 1 | Inr v \<Rightarrow> 0)"
  using script_call_stack [OF assms(1) [unfolded CallLua_eq]] assms(2)
  by (simp add: lua_gettop_def split: sum.splits)

lemma failed_calls_fill_the_stack_witness:
  "\<exists>e'. CallLua \<lparr>lua_tonumber = (\<lambda>_. 0), lua_tostring = (\<lambda>_. Some [])\<rparr> (\<lambda>_ _ l. ([], Inl LuaNil, l))
     (\<lambda>c s. Inr s) 1 2 3 ([65] @ [0]) (\<lparr>lua_stack = [LuaNil], lua_state = ()\<rparr>, ()) = Inr (e', ())
     \<and> lua_gettop e' = 2"
proof -
  let ?e' = "\<lparr>lua_stack = [LuaNil, LuaNil], lua_state = ()\<rparr>"
  have "CallLua \<lparr>lua_tonumber = (\<lambda>_. 0), lua_tostring = (\<lambda>_. Some [])\<rparr> (\<lambda>_ _ l. ([], Inl LuaNil, l))
     (\<lambda>c s. Inr s) 1 2 3 ([65] @ [0]) (\<lparr>lua_stack = [LuaNil], lua_state = ()\<rparr>, ()) = Inr (?e', ())"
    by (simp add: CallLua_def lua_ops c_string_def del: append_Cons)
  from failed_calls_fill_the_stack [OF this refl] this show ?thesis
    by (intro exI [of _ ?e']) (simp add: lua_gettop_def)
qed

end
