(* ===== verification/LuaNet.thy ===== *)
theory LuaNet
  imports LuaEngine TcpBase
begin

text \<open>
  The network functions of the scripts, \<^verbatim>\<open>vm/lua_net.cpp\<close>. Each turns its arguments into a
  packet and hands it to an object of the process: \<^verbatim>\<open>GameLogicServer\<close>, the client that is
  connected to the center, or \<^verbatim>\<open>CenterServer\<close>. These operations are arguments here; the theories
  of the servers supply them. A packet buffer is freed right after it was handed over.
\<close>

datatype cnet_call =
    SendToServer "lua_value list"
  | SendToLogicServer "lua_value list"
  | SetServerTypeToHandlerId "lua_value list"

text \<open>\<^verbatim>\<open>msg.set_data(szParam); msg.SerializeToString(&szNetBody)\<close> and \<^verbatim>\<open>CreateNetBuffer\<close>.\<close>

definition CreateNetPackage ::
  "junk \<Rightarrow> u32 \<Rightarrow> u32 \<Rightarrow> u32 \<Rightarrow> u16 \<Rightarrow> u16 \<Rightarrow> bytes \<Rightarrow> (bytes \<times> u32) res" where
  "CreateNetPackage mem uEventType uErrorCode uHandlerId uServerId uSequenceId szParam =
     (let szNetBody = SerializeToString szParam in
      CreateNetBuffer mem uEventType uErrorCode uHandlerId uServerId uSequenceId szNetBody
        (word_of_nat (length szNetBody)))"

text \<open>
  The arguments are converted from the Lua numbers: \<open>SendDataToGateway\<close> is the method of the logic
  server, \<open>TransferToCenterServer\<close> that of \<^verbatim>\<open>g_pCenterLogicClient\<close>, \<open>None\<close> when it is \<^verbatim>\<open>NULL\<close>.
  Numbers are taken modulo the width of the variable.
\<close>

definition LuaNet_SendToServer ::
  "lua_value lua_api \<Rightarrow> junk \<Rightarrow> (bytes \<Rightarrow> u32 \<Rightarrow> 's \<Rightarrow> 's res) \<Rightarrow> (bytes \<Rightarrow> u32 \<Rightarrow> 's \<Rightarrow> 's res) option
     \<Rightarrow> lua_value list \<Rightarrow> 's \<Rightarrow> 's res" where
  "LuaNet_SendToServer lua mem SendDataToGateway TransferToCenterServer args s =
     (if length args \<noteq> 6 then Inr s
      else
        let uTargetServerId = ucast (lua_tonumber lua (args ! 0)) :: u16;
            uSequenceId = ucast (lua_tonumber lua (args ! 1)) :: u16;
            uEventType = lua_tonumber lua (args ! 2);
            uErrorCode = lua_tonumber lua (args ! 3);
            uHandlerId = lua_tonumber lua (args ! 4) in
        bind_res (lua_string lua (args ! 5)) (\<lambda>szParam.
        bind_res (CreateNetPackage mem uEventType uErrorCode uHandlerId uTargetServerId uSequenceId szParam)
          (\<lambda>(pNetPackage, uNetPacketSize).
        if uTargetServerId = server_id GATEWAY then SendDataToGateway pNetPackage uNetPacketSize s
        else if uTargetServerId = server_id ROOM \<or> uTargetServerId = server_id LOGIC
          \<or> uTargetServerId = server_id LOGIN \<or> uTargetServerId = server_id CENTER then
          (case TransferToCenterServer of
             None \<Rightarrow> Inr s
           | Some send \<Rightarrow> send pNetPackage uNetPacketSize s)
        else Inr s)))"

definition LuaNet_SendToLogicServer ::
  "lua_value lua_api \<Rightarrow> junk \<Rightarrow> (u32 \<Rightarrow> bytes \<Rightarrow> u32 \<Rightarrow> 's \<Rightarrow> 's res) \<Rightarrow> lua_value list \<Rightarrow> 's \<Rightarrow> 's res" where
  "LuaNet_SendToLogicServer lua mem TransferToClient args s =
     (if length args \<noteq> 5 then Inr s
      else
        let uSequenceId = ucast (lua_tonumber lua (args ! 0)) :: u16;
            uEventType = lua_tonumber lua (args ! 1);
            uErrorCode = lua_tonumber lua (args ! 2);
            uHandlerId = lua_tonumber lua (args ! 3) in
        bind_res (lua_string lua (args ! 4)) (\<lambda>szParam.
        bind_res (CreateNetPackage mem uEventType uErrorCode uHandlerId 0 uSequenceId szParam)
          (\<lambda>(pNetPackage, uNetPacketSize).
        TransferToClient uHandlerId pNetPackage uNetPacketSize s)))"

text \<open>With the wrong number of arguments the function returns -1, which Lua takes for a yield.\<close>

definition LuaNet_SetServerTypeToHandlerId ::
  "lua_value lua_api \<Rightarrow> (u32 \<Rightarrow> u32 \<Rightarrow> 's \<Rightarrow> 's) \<Rightarrow> lua_value list \<Rightarrow> 's \<Rightarrow> 's res" where
  "LuaNet_SetServerTypeToHandlerId lua SetServerTypeToHandler args s =
     (if length args \<noteq> 2 then Inr s
      else
        let uServerType = lua_tonumber lua (args ! 0);
            uHandlerId = lua_tonumber lua (args ! 1) in
        Inr (SetServerTypeToHandler uServerType uHandlerId s))"

section \<open>Lemmas\<close>

definition net_package :: "u32 \<Rightarrow> u32 \<Rightarrow> u32 \<Rightarrow> u16 \<Rightarrow> u16 \<Rightarrow> bytes \<Rightarrow> bytes" where
  "net_package ev err hid sid seq szText =
     packet (20 + word_of_nat (length (SerializeToString szText))) ev err hid sid seq (SerializeToString szText)"

lemma CreateNetPackage_eq:
  assumes "length szText < 2 ^ 31"
  shows "CreateNetPackage mem ev err hid sid seq szText =
      Inr (net_package ev err hid sid seq szText, 20 + word_of_nat (length (SerializeToString szText)))"
    and "unat (20 + word_of_nat (length (SerializeToString szText)) :: u32) = 20 + length (SerializeToString szText)"
    and "length (net_package ev err hid sid seq szText) = 20 + length (SerializeToString szText)"
proof -
  have n: "length (SerializeToString szText) < 2 ^ 32 - 20"
    using length_Serialize [of szText] assms by simp
  then have u: "unat (word_of_nat (length (SerializeToString szText)) :: u32) = length (SerializeToString szText)"
    by (simp add: unat_of_nat)
  with n show "unat (20 + word_of_nat (length (SerializeToString szText)) :: u32) = 20 + length (SerializeToString szText)"
    by (simp add: unat_word_ariths)
  show "CreateNetPackage mem ev err hid sid seq szText =
      Inr (net_package ev err hid sid seq szText, 20 + word_of_nat (length (SerializeToString szText)))"
    using n u by (simp add: CreateNetPackage_def net_package_def CreateNetBuffer_eq Let_def)
  show "length (net_package ev err hid sid seq szText) = 20 + length (SerializeToString szText)"
    by (simp add: net_package_def)
qed

end
