(* ===== verification/SessionStream.thy ===== *)
theory SessionStream
  imports TcpBase
begin

text \<open>
  A session's stream through a server. The gateway and the center treat a read alike: the
  bytes go into the packet object of the session, finished packets go to a handler that knows
  the id of the session, and the packet object is kept in the session table. The contract says
  so, and that the handler does not touch the session table; it follows that a run of reads has
  the effect of the packets of the stream, handled in order.
\<close>

locale session_stream =
  fixes body :: "u32 \<Rightarrow> bytes \<Rightarrow> u32 \<Rightarrow> 's tcp_base_server_scheme \<Rightarrow> 's tcp_base_server_scheme res"
    and recv :: "(nat \<Rightarrow> junk) \<Rightarrow> uv_stream \<Rightarrow> int \<Rightarrow> bytes \<Rightarrow> 's tcp_base_server_scheme
        \<Rightarrow> 's tcp_base_server_scheme res"
    and reads :: "(nat \<Rightarrow> nat \<Rightarrow> junk) \<Rightarrow> uv_stream \<Rightarrow> bytes list \<Rightarrow> 's tcp_base_server_scheme
        \<Rightarrow> 's tcp_base_server_scheme res"
  assumes recv_data: "open_sessions s client = Some session \<Longrightarrow> c \<noteq> [] \<Longrightarrow>
      recv mem client (int (length c)) c s =
        bind_res (process_net_data mem (body (m_uHandlerId session)) (length c) s (m_pRecvPacket session) c)
          (\<lambda>(r, s, pk). Inr (s\<lparr>open_sessions := (open_sessions s)(client \<mapsto> session\<lparr>m_pRecvPacket := pk\<rparr>)\<rparr>))"
    and body_frame: "body h p n (s\<lparr>open_sessions := tab\<rparr>) =
      bind_res (body h p n s) (\<lambda>s'. Inr (s'\<lparr>open_sessions := tab\<rparr>))"
    and reads_Nil: "reads mems client [] s = Inr s"
    and reads_Cons: "reads mems client (c # cs) s =
      bind_res (recv (mems (length cs)) client (int (length c)) c s) (reads mems client cs)"
begin

lemma deliver_frame:
  "deliver (body h) ps (s\<lparr>open_sessions := tab\<rparr>) =
     bind_res (deliver (body h) ps s) (\<lambda>s'. Inr (s'\<lparr>open_sessions := tab\<rparr>))"
proof (induction ps arbitrary: s)
  case (Cons p ps)
  then show ?case
    by (cases "body h p (word_of_nat (length p)) s") (simp_all add: body_frame)
qed simp

lemma deliver_sessions: "deliver (body h) ps s = Inr s' \<Longrightarrow> open_sessions s' = open_sessions s"
proof -
  assume run: "deliver (body h) ps s = Inr s'"
  have "s\<lparr>open_sessions := open_sessions s\<rparr> = s" by simp
  then have "Inr s' = (Inr (s'\<lparr>open_sessions := open_sessions s\<rparr>) :: (_ tcp_base_server_scheme) res)"
    using deliver_frame [where h = h and ps = ps and s = s and tab = "open_sessions s"] run by simp
  then have "s' = s'\<lparr>open_sessions := open_sessions s\<rparr>" by simp
  then have "open_sessions s' = open_sessions (s'\<lparr>open_sessions := open_sessions s\<rparr>)" by (rule arg_cong)
  then show ?thesis by simp
qed

lemma reads_deliver:
  "pk_ok pk acc \<Longrightarrow> incomplete acc \<Longrightarrow> wf_stream (acc @ concat cs) \<Longrightarrow>
   \<forall>c\<in>set cs. c \<noteq> [] \<and> length c < 2 ^ 32 \<Longrightarrow>
   \<exists>pk'. pk_ok pk' (snd (frames (acc @ concat cs))) \<and>
     (\<forall>s session. open_sessions s client = Some session \<longrightarrow> m_pRecvPacket session = pk \<longrightarrow>
        m_uHandlerId session = h \<longrightarrow>
        reads mems client cs s = bind_res (deliver (body h) (fst (frames (acc @ concat cs))) s)
          (\<lambda>s'. Inr (s'\<lparr>open_sessions := (open_sessions s)(client \<mapsto> session\<lparr>m_pRecvPacket := pk'\<rparr>)\<rparr>)))"
proof (induction cs arbitrary: pk acc)
  case Nil
  then show ?case
    by (intro exI [of _ pk]) (auto simp: frames_incomplete reads_Nil fun_upd_idem)
next
  case (Cons c cs)
  define ps where "ps = fst (frames (acc @ c))"
  define acc1 where "acc1 = snd (frames (acc @ c))"
  have wf: "wf_stream (acc @ c)"
    using Cons.prems(3) wf_stream_append [of "acc @ c" "concat cs"] by simp
  have fr: "frames (acc @ concat (c # cs)) =
      (ps @ fst (frames (acc1 @ concat cs)), snd (frames (acc1 @ concat cs)))"
    and wf2: "wf_stream (acc1 @ concat cs)"
    using frames_append [of "acc @ c" "concat cs"] Cons.prems(3) by (simp_all add: ps_def acc1_def)
  obtain pk1 where ok1: "pk_ok pk1 acc1" and run:
    "\<And>s. process_net_data (mems (length cs)) (body h) (length c) s pk c =
        bind_res (deliver (body h) ps s) (\<lambda>s'. Inr (True, s', pk1))"
    using process_net_data_delivers [OF Cons.prems(1,2) _ _ wf, of "length c" "mems (length cs)"
        "body h"] Cons.prems(4) by (auto simp: ps_def acc1_def)
  have chunks: "\<forall>c\<in>set cs. c \<noteq> [] \<and> length c < 2 ^ 32" and c: "c \<noteq> []"
    using Cons.prems(4) by simp_all
  obtain pk' where pk': "pk_ok pk' (snd (frames (acc1 @ concat cs)))" and IH:
    "\<And>s session. open_sessions s client = Some session \<Longrightarrow> m_pRecvPacket session = pk1 \<Longrightarrow>
        m_uHandlerId session = h \<Longrightarrow>
        reads mems client cs s = bind_res (deliver (body h) (fst (frames (acc1 @ concat cs))) s)
          (\<lambda>s'. Inr (s'\<lparr>open_sessions := (open_sessions s)(client \<mapsto> session\<lparr>m_pRecvPacket := pk'\<rparr>)\<rparr>))"
    using Cons.IH [OF ok1 incomplete_rest [OF wf, folded acc1_def] wf2 chunks] by blast
  have "reads mems client (c # cs) s = bind_res (deliver (body h) (ps @ fst (frames (acc1 @ concat cs))) s)
      (\<lambda>s'. Inr (s'\<lparr>open_sessions := (open_sessions s)(client \<mapsto> session\<lparr>m_pRecvPacket := pk'\<rparr>)\<rparr>))"
    if a: "open_sessions s client = Some session" "m_pRecvPacket session = pk" "m_uHandlerId session = h"
    for s session
  proof (cases "deliver (body h) ps s")
    case (Inl e)
    then show ?thesis by (simp add: reads_Cons recv_data [OF a(1) c] a run deliver_append)
  next
    case (Inr s1)
    let ?tab = "(open_sessions s)(client \<mapsto> session\<lparr>m_pRecvPacket := pk1\<rparr>)"
    have "open_sessions s1 = open_sessions s" using deliver_sessions [OF Inr] .
    then have "recv (mems (length cs)) client (int (length c)) c s = Inr (s1\<lparr>open_sessions := ?tab\<rparr>)"
      by (simp add: recv_data [OF a(1) c] a run Inr)
    moreover have "reads mems client cs (s1\<lparr>open_sessions := ?tab\<rparr>) =
        bind_res (deliver (body h) (fst (frames (acc1 @ concat cs))) s1)
          (\<lambda>s'. Inr (s'\<lparr>open_sessions := (open_sessions s)(client \<mapsto> session\<lparr>m_pRecvPacket := pk'\<rparr>)\<rparr>))"
      using IH [of "s1\<lparr>open_sessions := ?tab\<rparr>" "session\<lparr>m_pRecvPacket := pk1\<rparr>"] a
      by (simp add: deliver_frame bind_res_assoc)
    ultimately show ?thesis by (simp add: reads_Cons deliver_append Inr)
  qed
  then show ?case
    using pk' unfolding fr fst_conv snd_conv by (intro exI [of _ pk'] conjI allI impI) assumption+
qed

end

end
