(* ===== verification/Center.thy ===== *)
theory Center
  imports LuaNet SessionStream
begin

text \<open>
  The center process: \<^verbatim>\<open>CenterServer\<close> (\<^verbatim>\<open>tcp/center_server.cpp\<close>) and
  \<^verbatim>\<open>TCPSession::CenterServerProcessNetData\<close> (\<^verbatim>\<open>tcp/tcp_session.cpp\<close>). The servers connect to the
  center and register their type through its script; packets for another type of server are
  forwarded to the connection registered for it.
\<close>

section \<open>State\<close>

record 'l center = tcp_base_server +
  m_mapServerTypeToHandler :: "u32 \<rightharpoonup> u32"
  lua_engine :: "'l lua_engine"

text \<open>What the process depends on: the protobuf library, the script and what \<^verbatim>\<open>malloc\<close> returns.\<close>

record 'l center_env =
  center_skip :: "u32 \<Rightarrow> bytes \<Rightarrow> bytes option"
  center_script :: "('l, cnet_call) script"
  center_lua :: "lua_value lua_api"
  package_mem :: junk

text \<open>The object before \<^verbatim>\<open>Init\<close>; \<open>engine\<close> is the state of the Lua engine.\<close>

definition CenterServer_new :: "'l lua_engine \<Rightarrow> 'l center" where
  "CenterServer_new engine =
     tcp_base_server.extend TCPBaseServer_new
       \<lparr>m_mapServerTypeToHandler = Map.empty, lua_engine = engine\<rparr>"

section \<open>Forwarding\<close>

definition CenterServer_TransferToClient :: "u32 \<Rightarrow> bytes \<Rightarrow> u32 \<Rightarrow> 'l center \<Rightarrow> 'l center res" where
  "CenterServer_TransferToClient uHandlerId pBuffer uSize s =
     (case GetHandlerById uHandlerId s of
        None \<Rightarrow> Inr s
      | Some pClientHandler \<Rightarrow>
          bind_res (mem_read pBuffer 0 (unat uSize)) (\<lambda>pvBuffer.
          Inr (uv_do (UvWrite pClientHandler pvBuffer) s)))"

definition SetServerTypeToHandler :: "u32 \<Rightarrow> u32 \<Rightarrow> 'l center \<Rightarrow> 'l center" where
  "SetServerTypeToHandler uServerType uHandlerId s =
     s\<lparr>m_mapServerTypeToHandler := map_insert (m_mapServerTypeToHandler s) uServerType uHandlerId\<rparr>"

definition GetServerTypeToHandler :: "u32 \<Rightarrow> 'l center \<Rightarrow> u32" where
  "GetServerTypeToHandler uServerType s =
     (case m_mapServerTypeToHandler s uServerType of None \<Rightarrow> 0 | Some uHandlerId \<Rightarrow> uHandlerId)"

text \<open>
  The network functions in this process. \<^verbatim>\<open>SendToServer\<close> would use the logic server object, whose
  gateway connection is never set here, and the client of the center, which is \<^verbatim>\<open>NULL\<close>.
\<close>

definition center_call :: "'l center_env \<Rightarrow> cnet_call \<Rightarrow> 'l center \<Rightarrow> 'l center res" where
  "center_call env call s =
     (case call of
        SendToServer args \<Rightarrow>
          LuaNet_SendToServer (center_lua env) (package_mem env) (\<lambda>_ _ _. Inl NullDeref) None args s
      | SendToLogicServer args \<Rightarrow>
          LuaNet_SendToLogicServer (center_lua env) (package_mem env) CenterServer_TransferToClient args s
      | SetServerTypeToHandlerId args \<Rightarrow>
          LuaNet_SetServerTypeToHandlerId (center_lua env) SetServerTypeToHandler args s)"

definition CenterServer_CallLua :: "'l center_env \<Rightarrow> u32 \<Rightarrow> u32 \<Rightarrow> bytes \<Rightarrow> 'l center \<Rightarrow> 'l center res" where
  "CenterServer_CallLua env uHandlerId uEventType pParam s =
     (let nSequenceId = 0 in
      bind_res (CallLua (center_lua env) (center_script env) (center_call env) uHandlerId uEventType nSequenceId
          pParam (lua_engine s, s)) (\<lambda>(engine, s).
      Inr (s\<lparr>lua_engine := engine\<rparr>)))"

text \<open>The body of the receive loop for a finished packet of a session.\<close>

definition center_packet ::
  "'l center_env \<Rightarrow> u32 \<Rightarrow> bytes \<Rightarrow> u32 \<Rightarrow> 'l center \<Rightarrow> 'l center res" where
  "center_packet env uHandlerId pDataBuffer uDataBufferSize s =
     bind_res (CheckNetPacket (ParseFromArray (center_skip env)) pDataBuffer uDataBufferSize) (\<lambda>legal.
     if legal then
       bind_res (GetServerId pDataBuffer) (\<lambda>uServerId.
       if uServerId = server_id CENTER then
         bind_res (GetEventType pDataBuffer) (\<lambda>uEventType.
         case GetNetPackageBody uDataBufferSize of (pNetBodyBuffer, uNetBodySize) \<Rightarrow>
         bind_res (mem_read pDataBuffer pNetBodyBuffer (unat uNetBodySize)) (\<lambda>body.
         case ParseFromArray (center_skip env) body of
           None \<Rightarrow> Inr s
         | Some data \<Rightarrow> CenterServer_CallLua env uHandlerId uEventType (data @ [0]) s))
       else
         let uHandlerId = GetServerTypeToHandler (ucast uServerId) s in
         CenterServer_TransferToClient uHandlerId pDataBuffer uDataBufferSize s)
     else Inr s)"

definition CenterServerProcessNetData ::
  "(nat \<Rightarrow> junk) \<Rightarrow> 'l center_env \<Rightarrow> tcp_session \<Rightarrow> bytes \<Rightarrow> 'l center
     \<Rightarrow> (bool \<times> tcp_session \<times> 'l center) res" where
  "CenterServerProcessNetData mem env session pData s =
     bind_res (process_net_data mem (center_packet env (m_uHandlerId session)) (length pData)
         s (m_pRecvPacket session) pData)
       (\<lambda>(bResult, s, pk). Inr (bResult, session\<lparr>m_pRecvPacket := pk\<rparr>, s))"

text \<open>
  \<^verbatim>\<open>Init\<close>: \<open>config\<close> is the port and the type of the configuration file, \<open>None\<close> if it cannot be read,
  \<open>ret\<close> what \<^verbatim>\<open>uv_listen\<close> returns, \<open>dofile\<close> how the script file loads.
\<close>

definition CenterServer_Init ::
  "'l center_env \<Rightarrow> (bytes \<Rightarrow> 'l \<Rightarrow> cnet_call list \<times> (lua_value list) option \<times> 'l) \<Rightarrow> (u32 \<times> int) option
     \<Rightarrow> int \<Rightarrow> 'l \<Rightarrow> 'l center \<Rightarrow> (int \<times> 'l center) res" where
  "CenterServer_Init env dofile config ret l s =
     (case config of
        None \<Rightarrow> Inr (0, s)
      | Some (port, nLogicServerType) \<Rightarrow>
          let s = SetPort port s in
          if ret \<noteq> 0 then Inl (ProcessExit 1)
          else
            bind_res (InitState dofile (center_script env) (center_call env) nLogicServerType l s)
              (\<lambda>(nResult, engine, s). Inr (ret, s\<lparr>lua_engine := engine\<rparr>)))"

section \<open>Connections\<close>

text \<open>
  As in the gateway, the id is read through an erased iterator; \<open>stale\<close>, which may be any function,
  is what that read gives for the erased value.
\<close>

definition CenterServer_RemoveClient :: "(u32 \<Rightarrow> u32) \<Rightarrow> uv_stream \<Rightarrow> 'l center \<Rightarrow> 'l center" where
  "CenterServer_RemoveClient stale client s =
     (case open_sessions s client of
        None \<Rightarrow> s
      | Some session \<Rightarrow>
          let s = uv_do (UvClose client) s in
          (case m_hander_to_id_map s client of
             None \<Rightarrow> s
           | Some old \<Rightarrow>
               let s = s\<lparr>m_hander_to_id_map := map_erase (m_hander_to_id_map s) client\<rparr>;
                   uSessionId = stale old in
               (case m_id_to_handler_map s uSessionId of
                  None \<Rightarrow> s
                | Some _ \<Rightarrow> s\<lparr>m_id_to_handler_map := map_erase (m_id_to_handler_map s) uSessionId\<rparr>)))"

definition CenterServer_OnConnectionClose :: "uv_stream \<Rightarrow> 'l center \<Rightarrow> 'l center" where
  "CenterServer_OnConnectionClose handle s = s\<lparr>open_sessions := map_erase (open_sessions s) handle\<rparr>"

definition CenterServer_OnNewConnection ::
  "uv_stream \<Rightarrow> u32 \<Rightarrow> int \<Rightarrow> int \<Rightarrow> 'l center \<Rightarrow> 'l center res" where
  "CenterServer_OnNewConnection key junk_id status accept s =
     (if status < 0 then Inr s
      else if accept = 0 then
        AddSession key (TCPSession_new junk_id) (uv_do (UvReadStart key) s)
      else Inr (uv_do (UvClose key) s))"

definition CenterServer_OnMsgRecv ::
  "(nat \<Rightarrow> junk) \<Rightarrow> (u32 \<Rightarrow> u32) \<Rightarrow> 'l center_env \<Rightarrow> uv_stream \<Rightarrow> int \<Rightarrow> bytes
     \<Rightarrow> 'l center \<Rightarrow> 'l center res" where
  "CenterServer_OnMsgRecv mem stale env client uRead base s =
     (case open_sessions s client of
        Some session \<Rightarrow>
          if uRead = UV_EOF then Inr (CenterServer_RemoveClient stale client s)
          else if uRead > 0 then
            bind_res (mem_read base 0 (nat uRead)) (\<lambda>pData.
            bind_res (CenterServerProcessNetData mem env session pData s) (\<lambda>(bResult, session, s).
            Inr (s\<lparr>open_sessions := (open_sessions s)(client \<mapsto> session)\<rparr>)))
          else Inr s
      | None \<Rightarrow> Inr (uv_do (UvReadStop client) s))"

text \<open>The callbacks libuv makes, in any order; \<open>reads\<close> as in the gateway.\<close>

inductive center_step ::
  "'l center_env \<Rightarrow> (u32 \<Rightarrow> u32) set \<Rightarrow> 'l center \<times> uv_stream set \<Rightarrow> 'l center \<times> uv_stream set \<Rightarrow> bool"
  for env :: "'l center_env" and reads :: "(u32 \<Rightarrow> u32) set" where
  center_connection:
    "key \<notin> alloc \<Longrightarrow> CenterServer_OnNewConnection key junk_id status accept s = Inr s' \<Longrightarrow>
       center_step env reads (s, alloc) (s', insert key alloc)"
| center_read:
    "stale \<in> reads \<Longrightarrow> CenterServer_OnMsgRecv mem stale env client uRead base s = Inr s' \<Longrightarrow>
       center_step env reads (s, alloc) (s', alloc)"
| center_close:
    "UvClose handle \<in> set (uv_calls s) \<Longrightarrow>
       center_step env reads (s, alloc) (CenterServer_OnConnectionClose handle s, alloc)"

section \<open>What the handling of a packet may change\<close>

text \<open>
  The session table stays, registrations are only added, and every write goes to a connection
  that an id leads to.
\<close>

definition center_frame :: "'l center \<Rightarrow> 'l center \<Rightarrow> bool" where
  "center_frame s s' \<longleftrightarrow>
     m_nSessionId s' = m_nSessionId s \<and> open_sessions s' = open_sessions s
     \<and> m_id_to_handler_map s' = m_id_to_handler_map s \<and> m_hander_to_id_map s' = m_hander_to_id_map s
     \<and> m_mapServerTypeToHandler s \<subseteq>\<^sub>m m_mapServerTypeToHandler s'
     \<and> (\<exists>w. uv_calls s' = uv_calls s @ w
          \<and> (\<forall>c\<in>set w. \<exists>h p i. c = UvWrite h p \<and> GetHandlerById i s = Some h))"

lemma center_frame_refl [simp]: "center_frame s s"
  by (auto simp: center_frame_def intro: exI [of _ "[]"])

lemma center_frame_engine: "center_frame s s' \<Longrightarrow> center_frame s (s'\<lparr>lua_engine := e\<rparr>)"
  by (simp add: center_frame_def)

lemma TransferToClient_frame:
  assumes "center_frame s0 s" and "CenterServer_TransferToClient i p n s = Inr s'"
  shows "center_frame s0 s'"
proof (cases "GetHandlerById i s")
  case None
  then show ?thesis using assms by (simp add: CenterServer_TransferToClient_def)
next
  case (Some h)
  then obtain q where s': "s' = uv_do (UvWrite h q) s"
    using assms(2) by (auto simp: CenterServer_TransferToClient_def bind_res_eq_Inr)
  obtain w where w: "uv_calls s = uv_calls s0 @ w"
      "\<forall>c\<in>set w. \<exists>h p i. c = UvWrite h p \<and> GetHandlerById i s0 = Some h"
    using assms(1) by (auto simp: center_frame_def)
  have "GetHandlerById i s0 = Some h"
    using Some assms(1) by (simp add: center_frame_def GetHandlerById_def)
  then have "\<forall>c\<in>set (w @ [UvWrite h q]). \<exists>h p i. c = UvWrite h p \<and> GetHandlerById i s0 = Some h"
    using w(2) by auto
  moreover have "uv_calls s' = uv_calls s0 @ (w @ [UvWrite h q])" using w(1) s' by simp
  ultimately show ?thesis
    using assms(1) s' unfolding center_frame_def by (intro conjI exI [of _ "w @ [UvWrite h q]"]) (simp_all add: uv_do_def)
qed

lemma map_insert_le: "m \<subseteq>\<^sub>m map_insert m k v"
  by (auto simp: map_insert_def map_le_def split: option.split)

lemma center_call_frame:
  assumes "center_frame s0 s" and "center_call env c s = Inr s'"
  shows "center_frame s0 s'"
proof (cases c)
  case (SendToServer args)
  then have "s' = s"
    using assms(2) by (auto simp: center_call_def LuaNet_SendToServer_def Let_def bind_res_eq_Inr split: if_splits)
  then show ?thesis using assms(1) by simp
next
  case (SendToLogicServer args)
  then have "s' = s \<or> (\<exists>i p n. CenterServer_TransferToClient i p n s = Inr s')"
    using assms(2) by (auto simp: center_call_def LuaNet_SendToLogicServer_def Let_def bind_res_eq_Inr split: if_splits)
  then show ?thesis using assms(1) TransferToClient_frame by blast
next
  case (SetServerTypeToHandlerId args)
  then have "s' = s \<or> (\<exists>t i. s' = SetServerTypeToHandler t i s)"
    using assms(2) by (auto simp: center_call_def LuaNet_SetServerTypeToHandlerId_def Let_def split: if_splits)
  then show ?thesis
    using assms(1) map_le_trans [OF _ map_insert_le] by (auto simp: center_frame_def SetServerTypeToHandler_def)
qed

lemma CenterServer_CallLua_frame:
  assumes "center_frame s0 s" and "CenterServer_CallLua env h ev (d @ [0]) s = Inr s'"
  shows "center_frame s0 s'"
proof -
  obtain e s1 where call: "CallLua (center_lua env) (center_script env) (center_call env) h ev 0 (d @ [0])
      (lua_engine s, s) = Inr (e, s1)" and s': "s' = s1\<lparr>lua_engine := e\<rparr>"
    using assms(2) by (auto simp: CenterServer_CallLua_def Let_def bind_res_eq_Inr)
  have "center_frame s0 s1"
    using script_call_inv [where I = "center_frame s0", OF call [unfolded CallLua_eq] assms(1)] center_call_frame by blast
  then show ?thesis using s' center_frame_engine by simp
qed

text \<open>A complete packet, by its bytes.\<close>

definition center_legal :: "'l center_env \<Rightarrow> bytes \<Rightarrow> bool" where
  "center_legal env p \<longleftrightarrow> ParseFromArray (center_skip env) (drop 20 p) \<noteq> None"

definition packet_server :: "bytes \<Rightarrow> u16" where
  "packet_server p = dec16 (mslice p 16 2)"

definition packet_event :: "bytes \<Rightarrow> u32" where
  "packet_event p = dec32 (mslice p 4 4)"

lemma center_packet_eq:
  assumes "length p < 2 ^ 32"
  shows "center_packet env h p (word_of_nat (length p)) s =
    (if length p < 20 then Inl OutOfBoundsRead
     else case ParseFromArray (center_skip env) (drop 20 p) of
            None \<Rightarrow> Inr s
          | Some data \<Rightarrow>
              if packet_server p = server_id CENTER
              then CenterServer_CallLua env h (packet_event p) (data @ [0]) s
              else Inr (case GetHandlerById (GetServerTypeToHandler (ucast (packet_server p)) s) s of
                          None \<Rightarrow> s
                        | Some c \<Rightarrow> uv_do (UvWrite c p) s))"
proof -
  have n: "unat (word_of_nat (length p) :: u32) = length p"
    using assms by (simp add: unat_of_nat)
  show ?thesis
  proof (cases "length p < 20")
    case True
    then show ?thesis by (simp add: center_packet_def CheckNetPacket_eq [OF assms])
  next
    case False
    then have "unat (word_of_nat (length p) - 20 :: u32) = length p - 20"
      using n by (simp add: unat_sub word_le_nat_alt)
    then have body: "mem_read p 20 (unat (word_of_nat (length p) - 20 :: u32)) = Inr (drop 20 p)"
      using False by (simp add: mslice_def)
    show ?thesis
      using False n body
      by (simp add: center_packet_def CheckNetPacket_eq [OF assms] GetServerId_def GetEventType_def
          packet_server_def packet_event_def GetNetPackageBody_def CenterServer_TransferToClient_def Let_def
          split: option.split)
  qed
qed

section \<open>The center keeps its session table\<close>

definition center_ok :: "bool \<Rightarrow> uv_stream set \<Rightarrow> 'l center \<Rightarrow> bool" where
  "center_ok e alloc s \<longleftrightarrow> table_ok e alloc s \<and>
     (\<forall>h ss. open_sessions s h = Some ss \<longrightarrow> pk_sized (m_pRecvPacket ss))"

lemma center_ok_new: "center_ok e {} (CenterServer_new engine)"
  using table_ok_new
  by (simp add: center_ok_def CenterServer_new_def) (simp add: tcp_base_server.defs TCPBaseServer_new_def)

lemma center_frame_ok:
  assumes "center_ok e alloc s" and f: "center_frame s s'"
  shows "center_ok e alloc s'"
proof -
  have "UvClose h \<in> set (uv_calls s') \<longleftrightarrow> UvClose h \<in> set (uv_calls s)" for h
    using f by (auto simp: center_frame_def)
  with assms have "table_ok e alloc s'"
    by (intro table_same [of e alloc s s']) (simp_all add: center_ok_def center_frame_def)
  then show ?thesis
    using assms by (simp add: center_ok_def center_frame_def)
qed

lemma center_packet_frame:
  assumes inv: "center_frame s0 s" and p: "length p = unat n" and run: "center_packet env h p n s = Inr s'"
  shows "center_frame s0 s'"
proof -
  have n: "n = word_of_nat (length p)" "length p < 2 ^ 32"
    using p u32_bound [of n] by simp_all
  note eq = center_packet_eq [OF n(2), of env h s, folded n(1)]
  have long: "\<not> length p < 20" using run eq by (auto split: if_splits)
  show ?thesis
  proof (cases "ParseFromArray (center_skip env) (drop 20 p)")
    case None
    then show ?thesis using run eq long inv by simp
  next
    case (Some data)
    show ?thesis
    proof (cases "packet_server p = server_id CENTER")
      case True
      then show ?thesis
        using run eq long Some CenterServer_CallLua_frame [OF inv, of env h "packet_event p" data s'] by simp
    next
      case False
      let ?i = "GetServerTypeToHandler (ucast (packet_server p)) s"
      have "mem_read p 0 (unat n) = Inr p" using p by simp
      then have "CenterServer_TransferToClient ?i p n s = Inr s'"
        using run eq long Some False
        by (simp add: CenterServer_TransferToClient_def split: option.splits)
      then show ?thesis using inv TransferToClient_frame by blast
    qed
  qed
qed

interpretation peer: packet_handler "center_packet env h" "center_frame s0" for env h s0
  by unfold_locales (rule center_packet_frame)

lemma CenterServerProcessNetData_frame:
  assumes "CenterServerProcessNetData mem env session pData s = Inr (r, session', s')"
    and "pk_sized (m_pRecvPacket session)"
  shows "center_frame s s' \<and> (\<exists>pk. pk_sized pk \<and> session' = session\<lparr>m_pRecvPacket := pk\<rparr>)"
  using assms peer.process_inv [OF center_frame_refl assms(2)]
  by (fastforce simp: CenterServerProcessNetData_def bind_res_eq_Inr)

text \<open>What a read callback does: nothing, the removal of the client, or the handling of its packets.\<close>

lemma center_read_cases:
  assumes ok: "center_ok e alloc s" and run: "CenterServer_OnMsgRecv mem stale env client uRead base s = Inr s'"
  obtains "s' = s" | "s' = uv_do (UvReadStop client) s" | "s' = CenterServer_RemoveClient stale client s"
  | session s1 pk where "open_sessions s client = Some session" "center_frame s s1" "pk_sized pk"
      "s' = s1\<lparr>open_sessions := (open_sessions s)(client \<mapsto> session\<lparr>m_pRecvPacket := pk\<rparr>)\<rparr>"
proof (cases "open_sessions s client")
  case None
  then show ?thesis using run that(2) by (simp add: CenterServer_OnMsgRecv_def)
next
  case (Some session)
  show ?thesis
  proof (cases "uRead = UV_EOF \<or> \<not> uRead > 0")
    case True
    then show ?thesis
      using run Some that(1,3) by (auto simp: CenterServer_OnMsgRecv_def split: if_splits)
  next
    case False
    then obtain pData r session1 s1 where
      p: "CenterServerProcessNetData mem env session pData s = Inr (r, session1, s1)"
      and s': "s' = s1\<lparr>open_sessions := (open_sessions s1)(client \<mapsto> session1)\<rparr>"
      using run Some by (auto simp: CenterServer_OnMsgRecv_def bind_res_eq_Inr)
    have "pk_sized (m_pRecvPacket session)" using ok Some by (auto simp: center_ok_def)
    from CenterServerProcessNetData_frame [OF p this] obtain pk where
      f: "center_frame s s1" and pk: "pk_sized pk" "session1 = session\<lparr>m_pRecvPacket := pk\<rparr>" by blast
    moreover have "open_sessions s1 = open_sessions s" using f by (simp add: center_frame_def)
    ultimately show ?thesis using that(4) Some s' by simp
  qed
qed

lemma center_RemoveClient:
  assumes ok: "center_ok e alloc s" and stale: "e \<Longrightarrow> \<forall>i. stale i = i"
  shows "center_ok e alloc (CenterServer_RemoveClient stale client s)"
proof (cases "open_sessions s client")
  case None
  then show ?thesis using ok by (simp add: CenterServer_RemoveClient_def)
next
  case (Some session)
  have t: "table_ok e alloc (CenterServer_RemoveClient stale client s)"
    using table_RemoveClient [of e alloc s client session stale] Some ok stale
    by (simp add: CenterServer_RemoveClient_def center_ok_def)
  have "open_sessions (CenterServer_RemoveClient stale client s) = open_sessions s"
    by (simp add: CenterServer_RemoveClient_def Let_def uv_do_def split: option.split)
  with ok t show ?thesis by (simp add: center_ok_def)
qed

lemma center_step_ok:
  assumes "center_step env reads (s, alloc) (s', alloc')" and ok: "center_ok (exact_reads reads) alloc s"
  shows "center_ok (exact_reads reads) alloc' s'"
  using assms(1)
proof (cases rule: center_step.cases)
  case (center_connection key junk_id status accept)
  have t: "table_ok (exact_reads reads) alloc s" using ok by (simp add: center_ok_def)
  note new = table_OnNewConnection [OF t center_connection(2) center_connection(3) [unfolded CenterServer_OnNewConnection_def]]
  show ?thesis
    using ok new pk_sized_create center_connection(1) by (fastforce simp: center_ok_def TCPSession_new_def)
next
  case (center_read stale mem client uRead base)
  show ?thesis
  proof (rule center_read_cases [OF ok center_read(3)])
    assume "s' = uv_do (UvReadStop client) s"
    then show ?thesis
      using ok table_uv_do [of "exact_reads reads" alloc s "UvReadStop client"] center_read(1) by (simp add: center_ok_def)
  next
    fix session s1 pk
    assume o: "open_sessions s client = Some session" and f: "center_frame s s1" and pk: "pk_sized pk"
      and s': "s' = s1\<lparr>open_sessions := (open_sessions s)(client \<mapsto> session\<lparr>m_pRecvPacket := pk\<rparr>)\<rparr>"
    have ok1: "center_ok (exact_reads reads) alloc s1" and o1: "open_sessions s1 = open_sessions s"
      using center_frame_ok [OF ok f] f by (simp_all add: center_frame_def)
    then have "table_ok (exact_reads reads) alloc s'"
      using table_set_packet [of "exact_reads reads" alloc s1 client session pk] o s' by (simp add: center_ok_def)
    then show ?thesis
      using ok1 pk o1 s' center_read(1) by (auto simp: center_ok_def)
  qed (use ok center_RemoveClient [OF ok, of stale client] center_read(1,2) in \<open>auto simp: exact_reads_def\<close>)
next
  case (center_close handle)
  then show ?thesis
    using ok table_OnConnectionClose [of "exact_reads reads" alloc s handle]
    by (auto simp: center_ok_def CenterServer_OnConnectionClose_def map_erase_def)
qed

interpretation hub: session_server "center_step env reads" "CenterServer_new engine" "center_ok (exact_reads reads)" "exact_reads reads"
  for env reads engine
  by unfold_locales (rule center_ok_new, erule (1) center_step_ok, simp add: center_ok_def)

section \<open>Registrations\<close>

text \<open>An id that has been given out and has no connection any more.\<close>

definition dead_id :: "'l center \<Rightarrow> u32 \<Rightarrow> bool" where
  "dead_id s i \<longleftrightarrow> unat i \<le> unat (m_nSessionId s) \<and> GetHandlerById i s = None"

lemma frame_registration:
  "center_frame s s' \<Longrightarrow> m_mapServerTypeToHandler s \<subseteq>\<^sub>m m_mapServerTypeToHandler s'
     \<and> (dead_id s' i = dead_id s i)"
  by (simp add: center_frame_def dead_id_def GetHandlerById_def)

lemma step_registration:
  assumes "center_step env reads (s, alloc) (s', alloc')" and ok: "center_ok e alloc s"
  shows "m_mapServerTypeToHandler s \<subseteq>\<^sub>m m_mapServerTypeToHandler s' \<and> (dead_id s i \<longrightarrow> dead_id s' i)"
  using assms(1)
proof (cases rule: center_step.cases)
  case (center_connection key junk_id status accept)
  have t: "table_ok e alloc s" using ok by (simp add: center_ok_def)
  have "s' = s \<or> s' = uv_do (UvClose key) s
      \<or> AddSession key (TCPSession_new junk_id) (uv_do (UvReadStart key) s) = Inr s'"
    using center_connection(3) by (simp add: CenterServer_OnNewConnection_def split: if_splits)
  then show ?thesis
  proof (elim disjE)
    assume add: "AddSession key (TCPSession_new junk_id) (uv_do (UvReadStart key) s) = Inr s'"
    then have n: "sint (m_nSessionId s) \<noteq> 2 ^ 31 - 1" by (auto simp: AddSession_def)
    note next_id = table_next_id [OF t n]
    have s': "m_nSessionId s' = m_nSessionId s + 1" "m_mapServerTypeToHandler s' = m_mapServerTypeToHandler s"
      "m_id_to_handler_map s' = map_insert (m_id_to_handler_map s) (m_nSessionId s + 1) key"
      using add n by (auto simp: AddSession_def Let_def) (auto simp: uv_do_def)
    have "i \<noteq> m_nSessionId s + 1" if "dead_id s i"
      using that next_id(1) by (auto simp: dead_id_def)
    then show ?thesis
      using s' next_id by (auto simp: dead_id_def GetHandlerById_def map_insert_def)
  qed (simp_all add: dead_id_def GetHandlerById_def uv_do_def)
next
  case (center_read stale mem client uRead base)
  show ?thesis
  proof (rule center_read_cases [OF ok center_read(3)])
    fix session s1 pk
    assume "center_frame s s1" and "s' = s1\<lparr>open_sessions := (open_sessions s)(client \<mapsto> session\<lparr>m_pRecvPacket := pk\<rparr>)\<rparr>"
    then show ?thesis using frame_registration [of s s1 i] by (simp add: dead_id_def GetHandlerById_def)
  next
    assume "s' = CenterServer_RemoveClient stale client s"
    then show ?thesis
      by (auto simp: CenterServer_RemoveClient_def Let_def dead_id_def GetHandlerById_def uv_do_def map_erase_def
          split: option.splits)
  qed (simp_all add: dead_id_def GetHandlerById_def uv_do_def)
next
  case (center_close handle)
  then show ?thesis by (simp add: CenterServer_OnConnectionClose_def dead_id_def GetHandlerById_def)
qed

lemma steps_registration:
  assumes "(center_step env reads)\<^sup>*\<^sup>* (s, alloc) c'" and "center_ok (exact_reads reads) alloc s"
  shows "center_ok (exact_reads reads) (snd c') (fst c') \<and> m_mapServerTypeToHandler s \<subseteq>\<^sub>m m_mapServerTypeToHandler (fst c')
    \<and> (dead_id s i \<longrightarrow> dead_id (fst c') i)"
  using assms(1)
proof (induction rule: rtranclp_induct)
  case base
  then show ?case using assms(2) by simp
next
  case (step c c')
  obtain s1 a1 s2 a2 where c: "c = (s1, a1)" "c' = (s2, a2)" by (cases c, cases c')
  show ?case
    using step.IH step.hyps(2) center_step_ok [of env reads s1 a1 s2 a2] step_registration [of env reads s1 a1 s2 a2 "exact_reads reads" i]
      map_le_trans by (fastforce simp: c)
qed

section \<open>The stream of a connection\<close>

fun center_reads ::
  "'l center_env \<Rightarrow> (u32 \<Rightarrow> u32) \<Rightarrow> (nat \<Rightarrow> nat \<Rightarrow> junk) \<Rightarrow> uv_stream \<Rightarrow> bytes list \<Rightarrow> 'l center \<Rightarrow> 'l center res" where
  "center_reads env stale mems client [] s = Inr s"
| "center_reads env stale mems client (c # cs) s =
     bind_res (CenterServer_OnMsgRecv (mems (length cs)) stale env client (int (length c)) c s)
       (center_reads env stale mems client cs)"

lemma uv_do_sessions: "uv_do c (s\<lparr>open_sessions := tab\<rparr>) = (uv_do c s)\<lparr>open_sessions := tab\<rparr>"
  by (cases s) (simp add: uv_do_def)

lemma TransferToClient_sessions:
  "CenterServer_TransferToClient i p n (s\<lparr>open_sessions := tab\<rparr>) =
     bind_res (CenterServer_TransferToClient i p n s) (\<lambda>s'. Inr (s'\<lparr>open_sessions := tab\<rparr>))"
  by (simp add: CenterServer_TransferToClient_def GetHandlerById_def bind_res_assoc uv_do_sessions split: option.split)

lemma center_call_sessions:
  "center_call env c (s\<lparr>open_sessions := tab\<rparr>) =
     bind_res (center_call env c s) (\<lambda>s'. Inr (s'\<lparr>open_sessions := tab\<rparr>))"
proof (cases c)
  case (SendToServer args)
  then show ?thesis
    by (simp add: center_call_def LuaNet_SendToServer_def Let_def bind_res_assoc bind_res_if case_prod_unfold cong: if_cong)
next
  case (SendToLogicServer args)
  then show ?thesis
    by (simp add: center_call_def LuaNet_SendToLogicServer_def Let_def bind_res_assoc case_prod_unfold
        TransferToClient_sessions)
next
  case (SetServerTypeToHandlerId args)
  then show ?thesis
    by (simp add: center_call_def LuaNet_SetServerTypeToHandlerId_def SetServerTypeToHandler_def Let_def)
qed

lemma engine_sessions:
  "(s\<lparr>open_sessions := tab\<rparr>)\<lparr>lua_engine := e\<rparr> = (s\<lparr>lua_engine := e\<rparr>)\<lparr>open_sessions := tab\<rparr>"
  by simp

lemma center_packet_sessions:
  "center_packet env h p n (s\<lparr>open_sessions := tab\<rparr>) =
     bind_res (center_packet env h p n s) (\<lambda>s'. Inr (s'\<lparr>open_sessions := tab\<rparr>))"
proof -
  have call: "CenterServer_CallLua env h ev (d @ [0]) (s\<lparr>open_sessions := tab\<rparr>) =
      bind_res (CenterServer_CallLua env h ev (d @ [0]) s) (\<lambda>s'. Inr (s'\<lparr>open_sessions := tab\<rparr>))" for ev d
    by (simp add: script_call_map [where F = "\<lambda>s. s\<lparr>open_sessions := tab\<rparr>" and api = "center_call env",
          OF center_call_sessions] engine_sessions CenterServer_CallLua_def CallLua_eq Let_def bind_res_assoc case_prod_unfold)
  have "GetServerTypeToHandler t (s\<lparr>open_sessions := tab\<rparr>) = GetServerTypeToHandler t s" for t
    by (simp add: GetServerTypeToHandler_def)
  then show ?thesis
    by (simp add: center_packet_def call TransferToClient_sessions Let_def bind_res_assoc bind_res_if case_prod_unfold
        option.case_distrib [of "\<lambda>x. bind_res x _"] cong: if_cong option.case_cong)
qed

lemma center_OnMsgRecv_data:
  assumes "open_sessions s client = Some session" and "c \<noteq> []"
  shows "CenterServer_OnMsgRecv mem stale env client (int (length c)) c s =
    bind_res (process_net_data mem (center_packet env (m_uHandlerId session)) (length c) s
        (m_pRecvPacket session) c)
      (\<lambda>(r, s, pk). Inr (s\<lparr>open_sessions := (open_sessions s)(client \<mapsto> session\<lparr>m_pRecvPacket := pk\<rparr>)\<rparr>))"
  using assms
  by (simp add: CenterServer_OnMsgRecv_def CenterServerProcessNetData_def UV_EOF_def bind_res_assoc case_prod_unfold)

interpretation center_stream: session_stream "center_packet env"
  "\<lambda>mem client. CenterServer_OnMsgRecv mem stale env client" "center_reads env stale"
  for env stale
  by unfold_locales (erule (1) center_OnMsgRecv_data, rule center_packet_sessions, simp_all)

section \<open>A concrete run\<close>

text \<open>
  Two servers: connection 7 with id 1 is registered as logic server (type 2), connection 8
  has id 2. The script does nothing; the packet goes to the logic server.
\<close>

definition demo_center_env :: "unit center_env" where
  "demo_center_env = \<lparr>center_skip = (\<lambda>_ _. None), center_script = (\<lambda>_ _ l. ([], Inr LuaNil, l)),
     center_lua = \<lparr>lua_tonumber = (\<lambda>_. 0), lua_tostring = (\<lambda>_. None)\<rparr>, package_mem = (\<lambda>_. 0)\<rparr>"

definition demo_engine :: "unit lua_engine" where
  "demo_engine = \<lparr>lua_stack = [], lua_state = ()\<rparr>"

definition demo_center :: "unit center" where
  "demo_center = (CenterServer_new demo_engine)
     \<lparr>m_nSessionId := 2,
      open_sessions := [7 \<mapsto> \<lparr>m_uHandlerId = 1, m_pRecvPacket = KG_CreateCommonPackage\<rparr>,
                        8 \<mapsto> \<lparr>m_uHandlerId = 2, m_pRecvPacket = KG_CreateCommonPackage\<rparr>],
      m_id_to_handler_map := [1 \<mapsto> 7, 2 \<mapsto> 8], m_hander_to_id_map := [7 \<mapsto> 1, 8 \<mapsto> 2],
      uv_calls := [UvReadStart 7, UvReadStart 8]\<rparr>"

lemma demo_center_fields:
  "open_sessions demo_center = [7 \<mapsto> \<lparr>m_uHandlerId = 1, m_pRecvPacket = KG_CreateCommonPackage\<rparr>,
      8 \<mapsto> \<lparr>m_uHandlerId = 2, m_pRecvPacket = KG_CreateCommonPackage\<rparr>]"
  "m_id_to_handler_map demo_center = [1 \<mapsto> 7, 2 \<mapsto> 8]" "m_hander_to_id_map demo_center = [7 \<mapsto> 1, 8 \<mapsto> 2]"
  "m_mapServerTypeToHandler demo_center = Map.empty" "m_nSessionId demo_center = 2"
  by (simp_all add: demo_center_def CenterServer_new_def tcp_base_server.defs)

lemma demo_center_reachable:
  "(center_step env reads)\<^sup>*\<^sup>* (CenterServer_new demo_engine, {}) (demo_center, {7, 8})"
proof -
  define mid where "mid = (CenterServer_new demo_engine)
     \<lparr>m_nSessionId := 1,
      open_sessions := [7 \<mapsto> \<lparr>m_uHandlerId = 1, m_pRecvPacket = KG_CreateCommonPackage\<rparr>],
      m_id_to_handler_map := [1 \<mapsto> 7], m_hander_to_id_map := [7 \<mapsto> 1], uv_calls := [UvReadStart 7]\<rparr>"
  have "CenterServer_OnNewConnection 7 0 0 0 (CenterServer_new demo_engine) = Inr mid"
    by (simp add: CenterServer_OnNewConnection_def AddSession_def Let_def uv_do_def mid_def
        CenterServer_new_def TCPBaseServer_new_def tcp_base_server.defs SetHandlerId_def TCPSession_new_def)
  then have 1: "center_step env reads (CenterServer_new demo_engine, {}) (mid, insert 7 {})"
    by (intro center_step.center_connection) simp_all
  have f: "m_nSessionId (uv_do (UvReadStart 8) mid) = 1"
    "open_sessions (uv_do (UvReadStart 8) mid) = [7 \<mapsto> \<lparr>m_uHandlerId = 1, m_pRecvPacket = KG_CreateCommonPackage\<rparr>]"
    "m_id_to_handler_map (uv_do (UvReadStart 8) mid) = [1 \<mapsto> 7]"
    "m_hander_to_id_map (uv_do (UvReadStart 8) mid) = [7 \<mapsto> 1]"
    by (simp_all add: mid_def)
  have "AddSession 8 (TCPSession_new 0) (uv_do (UvReadStart 8) mid) = Inr ((uv_do (UvReadStart 8) mid)
      \<lparr>m_nSessionId := 2, open_sessions := [7 \<mapsto> \<lparr>m_uHandlerId = 1, m_pRecvPacket = KG_CreateCommonPackage\<rparr>,
        8 \<mapsto> \<lparr>m_uHandlerId = 2, m_pRecvPacket = KG_CreateCommonPackage\<rparr>],
       m_id_to_handler_map := [1 \<mapsto> 7, 2 \<mapsto> 8], m_hander_to_id_map := [7 \<mapsto> 1, 8 \<mapsto> 2]\<rparr>)"
    unfolding AddSession_def f by (simp add: Let_def map_insert_def SetHandlerId_def TCPSession_new_def)
  then have "CenterServer_OnNewConnection 8 0 0 0 mid = Inr demo_center"
    by (simp add: CenterServer_OnNewConnection_def) (simp add: demo_center_def mid_def uv_do_def)
  then have "center_step env reads (mid, insert 7 {}) (demo_center, insert 8 (insert 7 {}))"
    by (intro center_step.center_connection) simp_all
  moreover have "insert 8 (insert 7 {}) = {7, 8 :: nat}" by blast
  ultimately show ?thesis using 1 by (metis rtranclp.rtrancl_refl rtranclp.rtrancl_into_rtrancl)
qed

lemma demo_registered_reachable:
  "center_ok (exact_reads reads) {7, 8} (SetServerTypeToHandler 2 1 demo_center)"
  using hub.reachable_ok [OF demo_center_reachable [of undefined reads]]
  by (auto simp: center_ok_def SetServerTypeToHandler_def intro: table_same [of _ _ demo_center])

text \<open>A packet of the kind the demo forwards: for the logic server, with the text "hi".\<close>

definition demo_transfer :: bytes where
  "demo_transfer = net_package 1 0 5 2 0 [104, 105]"

lemma demo_transfer_facts:
  "good_packet demo_transfer" "packet_server demo_transfer = 2" "length demo_transfer = 24"
  "ParseFromArray skip (drop 20 demo_transfer) = Some [104, 105]"
  "frames demo_transfer = ([demo_transfer], [])" "wf_stream demo_transfer" "demo_transfer \<noteq> []"
proof -
  have s: "SerializeToString [104, 105] = [10, 2, 104, 105]" by (simp add: Serialize_small)
  then have p: "demo_transfer = packet 24 1 0 5 2 0 [10, 2, 104, 105]"
    by (simp add: demo_transfer_def net_package_def)
  then have "CreateNetBuffer (\<lambda>_. 0) 1 0 5 2 0 [10, 2, 104, 105] 4 = Inr (demo_transfer, 24)"
    by (simp add: CreateNetBuffer_eq)
  then show g: "good_packet demo_transfer" by (rule good_packet_CreateNetBuffer) simp
  then show "frames demo_transfer = ([demo_transfer], [])" "wf_stream demo_transfer"
    using frames_concat [of "[demo_transfer]"] by simp_all
  show "packet_server demo_transfer = 2" unfolding p by code_simp
  show "ParseFromArray skip (drop 20 demo_transfer) = Some [104, 105]"
    using pb.parse_ser [of "[104, 105]" skip] by (simp add: p drop_packet s)
qed (simp_all add: demo_transfer_def net_package_def Serialize_small)

definition demo_registered :: "unit center" where
  "demo_registered = SetServerTypeToHandler 2 1 demo_center"

lemma demo_registered_facts:
  "center_ok (exact_reads reads) {7, 8} demo_registered" "GetServerTypeToHandler 2 demo_registered = 1"
  "GetHandlerById 1 demo_registered = Some 7" "m_nSessionId demo_registered = 2"
  "open_sessions demo_registered 8 = Some \<lparr>m_uHandlerId = 2, m_pRecvPacket = KG_CreateCommonPackage\<rparr>"
  using demo_registered_reachable demo_center_fields
  by (simp_all add: demo_registered_def SetServerTypeToHandler_def GetServerTypeToHandler_def GetHandlerById_def
      map_insert_def)

lemma uv_do_center [simp]:
  "m_mapServerTypeToHandler (uv_do c s) = m_mapServerTypeToHandler s" "lua_engine (uv_do c s) = lua_engine s"
  by (simp_all add: uv_do_def)

text \<open>A packet for the center itself, and a script that answers every packet by registering the session 1.\<close>

definition demo_register :: bytes where
  "demo_register = net_package 1 0 5 (server_id CENTER) 0 [104, 105]"

lemma demo_register_facts:
  "good_packet demo_register" "packet_server demo_register = server_id CENTER" "length demo_register = 24"
  "ParseFromArray skip (drop 20 demo_register) = Some [104, 105]" "demo_register \<noteq> []"
proof -
  have s: "SerializeToString [104, 105] = [10, 2, 104, 105]" by (simp add: Serialize_small)
  then have p: "demo_register = packet 24 1 0 5 (server_id CENTER) 0 [10, 2, 104, 105]"
    by (simp add: demo_register_def net_package_def)
  then have "CreateNetBuffer (\<lambda>_. 0) 1 0 5 (server_id CENTER) 0 [10, 2, 104, 105] 4 = Inr (demo_register, 24)"
    by (simp add: CreateNetBuffer_eq)
  then show "good_packet demo_register" by (rule good_packet_CreateNetBuffer) simp
  show "packet_server demo_register = server_id CENTER" unfolding p by code_simp
  show "ParseFromArray skip (drop 20 demo_register) = Some [104, 105]"
    using pb.parse_ser [of "[104, 105]" skip] by (simp add: p drop_packet s)
qed (simp_all add: demo_register_def net_package_def Serialize_small)

definition demo_registering_env :: "unit center_env" where
  "demo_registering_env = demo_center_env
     \<lparr>center_script := \<lambda>_ _ l. ([SetServerTypeToHandlerId [LuaNumber 2, LuaNumber 1]], Inr LuaNil, l),
      center_lua := \<lparr>lua_tonumber = (\<lambda>v. case v of LuaNumber n \<Rightarrow> word_of_int n | _ \<Rightarrow> 0), lua_tostring = (\<lambda>_. None)\<rparr>\<rparr>"

section \<open>Properties\<close>

text \<open>A complete packet in the center. A packet without a legal message is dropped; one for
  the center runs the script with the id of the session it came from, its event type, sequence
  id 0 and its text up to the first NUL; any other is written unchanged to the connection
  registered for its server type, or dropped if none is registered or the connection is gone.\<close>

lemma center_routes_packet:
  assumes "20 \<le> length p" and "length p < 2 ^ 32"
  shows "center_packet env h p (word_of_nat (length p)) s =
    (case ParseFromArray (center_skip env) (drop 20 p) of
       None \<Rightarrow> Inr s
     | Some data \<Rightarrow>
         if packet_server p = server_id CENTER
         then bind_res (script_call (center_lua env) (center_script env) (center_call env) ''OnClientRequest''
                [LuaNumber (int (unat h)), LuaNumber (int (unat (packet_event p))), LuaNumber 0,
                 LuaString (takeWhile (\<lambda>b. b \<noteq> 0) data)] (lua_engine s, s))
              (\<lambda>(engine, s). Inr (s\<lparr>lua_engine := engine\<rparr>))
         else Inr (case GetHandlerById (GetServerTypeToHandler (ucast (packet_server p)) s) s of
                     None \<Rightarrow> s
                   | Some c \<Rightarrow> uv_do (UvWrite c p) s))"
  using assms by (simp add: center_packet_eq CenterServer_CallLua_def CallLua_eq Let_def split: option.split)

lemma center_routes_packet_witness:
  "center_packet demo_center_env 2 demo_transfer 24 demo_registered = Inr (uv_do (UvWrite 7 demo_transfer) demo_registered)"
  using center_routes_packet [of demo_transfer demo_center_env 2 demo_registered]
  by (simp add: demo_transfer_facts demo_registered_facts)

text \<open>The center handles the packets of a session's stream in order, exactly once each,
  however the stream is cut into reads; the unfinished rest stays in the packet object of the
  session.\<close>

lemma center_handles_stream:
  assumes "open_sessions s client = Some session" and "pk_ok (m_pRecvPacket session) []"
    and "wf_stream (concat cs)" and "\<forall>c\<in>set cs. c \<noteq> [] \<and> length c < 2 ^ 32"
  shows "\<exists>pk. pk_ok pk (snd (frames (concat cs))) \<and>
    center_reads env stale mems client cs s =
      bind_res (deliver (center_packet env (m_uHandlerId session)) (fst (frames (concat cs))) s)
        (\<lambda>s'. Inr (s'\<lparr>open_sessions := (open_sessions s)(client \<mapsto> session\<lparr>m_pRecvPacket := pk\<rparr>)\<rparr>))"
proof -
  have wf: "wf_stream ([] @ concat cs)" using assms(3) by simp
  show ?thesis
    using center_stream.reads_deliver [where env = env and stale = stale and mems = mems and client = client
        and h = "m_uHandlerId session", OF assms(2) incomplete_Nil wf assms(4)] assms(1) by auto
qed

lemma center_handles_stream_witness:
  "\<exists>s'. center_reads demo_center_env (\<lambda>v. v) (\<lambda>_ _ _. 0) 8 [take 3 demo_transfer, drop 3 demo_transfer] demo_registered
      = Inr s' \<and> uv_calls s' = uv_calls demo_registered @ [UvWrite 7 demo_transfer]"
proof -
  have "center_packet demo_center_env 2 demo_transfer (word_of_nat (length demo_transfer)) demo_registered
      = Inr (uv_do (UvWrite 7 demo_transfer) demo_registered)"
    by (subst center_packet_eq) (simp_all add: demo_transfer_facts demo_registered_facts)
  then show ?thesis
    using center_handles_stream [of demo_registered 8 "\<lparr>m_uHandlerId = 2, m_pRecvPacket = KG_CreateCommonPackage\<rparr>"
        "[take 3 demo_transfer, drop 3 demo_transfer]" demo_center_env "\<lambda>v. v" "\<lambda>_ _ _. 0"]
    by (auto simp: demo_transfer_facts demo_registered_facts pk_ok_create)
qed

text \<open>C17: in every reachable state of the center, whatever a connection sends and whatever the
  script does, each packet that is then written goes to an open connection that has its id and
  is not being closed, as long as the reads through an erased iterator give the erased value, which
  C++ does not promise; otherwise it may also go to a connection that is being closed. Registrations
  are only added.\<close>

theorem center_writes_to_live_sessions:
  assumes "(center_step env reads)\<^sup>*\<^sup>* (CenterServer_new engine, {}) (s, alloc)"
    and "CenterServer_OnMsgRecv mem stale env client uRead base s = Inr s'"
  shows "m_mapServerTypeToHandler s \<subseteq>\<^sub>m m_mapServerTypeToHandler s' \<and>
    (\<exists>w. uv_calls s' = uv_calls s @ w \<and>
      (\<forall>h p. UvWrite h p \<in> set w \<longrightarrow>
        UvClose h \<notin> set (uv_calls s)
          \<and> (\<exists>session. open_sessions s h = Some session \<and> GetHandlerById (m_uHandlerId session) s = Some h)
        \<or> \<not> exact_reads reads \<and> UvClose h \<in> set (uv_calls s)))"
proof -
  have ok: "center_ok (exact_reads reads) alloc s" using hub.reachable_ok [OF assms(1)] by simp
  show ?thesis
  proof (rule center_read_cases [OF ok assms(2)])
    fix session s1 pk
    assume f: "center_frame s s1"
      and s': "s' = s1\<lparr>open_sessions := (open_sessions s)(client \<mapsto> session\<lparr>m_pRecvPacket := pk\<rparr>)\<rparr>"
    obtain w where w: "uv_calls s1 = uv_calls s @ w"
        "\<forall>c\<in>set w. \<exists>h p i. c = UvWrite h p \<and> GetHandlerById i s = Some h"
      using f by (auto simp: center_frame_def)
    have "UvClose h \<notin> set (uv_calls s)
          \<and> (\<exists>session. open_sessions s h = Some session \<and> GetHandlerById (m_uHandlerId session) s = Some h)
        \<or> \<not> exact_reads reads \<and> UvClose h \<in> set (uv_calls s)"
      if "UvWrite h p \<in> set w" for h p
      using w(2) that hub.owner_of_id [OF assms(1)] by fastforce
    then show ?thesis
      using f s' w(1) by (intro conjI exI [of _ w]) (auto simp: center_frame_def)
  next
    assume "s' = CenterServer_RemoveClient stale client s"
    then have "m_mapServerTypeToHandler s' = m_mapServerTypeToHandler s"
      "uv_calls s' = uv_calls s \<or> uv_calls s' = uv_calls s @ [UvClose client]"
      by (auto simp: CenterServer_RemoveClient_def Let_def uv_do_def split: option.split)
    then show ?thesis by auto
  qed (auto simp: uv_do_def)
qed

theorem center_writes_to_live_sessions_witness:
  "\<exists>s'. CenterServer_OnMsgRecv (\<lambda>_ _. 0) (\<lambda>v. v) demo_registering_env 8 48 (demo_register @ demo_transfer) demo_center = Inr s'
     \<and> uv_calls s' = uv_calls demo_center @ [UvWrite 7 demo_transfer]
     \<and> (\<exists>session. open_sessions demo_center 7 = Some session)"
proof -
  let ?env = demo_registering_env
  note ev = demo_registering_env_def demo_center_env_def
  have 1: "center_packet ?env 2 demo_register (word_of_nat (length demo_register)) demo_center = Inr demo_registered"
  proof -
    have "CenterServer_CallLua ?env 2 (packet_event demo_register) ([104, 105] @ [0]) demo_center = Inr demo_registered"
      unfolding CenterServer_CallLua_def Let_def CallLua_eq
      by (simp add: script_call_def ev center_call_def LuaNet_SetServerTypeToHandlerId_def demo_registered_def
          demo_center_def CenterServer_new_def tcp_base_server.defs SetServerTypeToHandler_def)
    then show ?thesis by (subst center_packet_eq) (simp_all add: demo_register_facts)
  qed
  have 2: "center_packet ?env 2 demo_transfer (word_of_nat (length demo_transfer)) demo_registered =
      Inr (uv_do (UvWrite 7 demo_transfer) demo_registered)"
    by (subst center_packet_eq) (simp_all add: demo_transfer_facts demo_registered_facts)
  have fr: "frames (demo_register @ demo_transfer) = ([demo_register, demo_transfer], [])"
      "wf_stream (demo_register @ demo_transfer)"
    using frames_concat [of "[demo_register, demo_transfer]"] demo_register_facts(1) demo_transfer_facts(1) by simp_all
  obtain pk where "process_net_data (\<lambda>_ _. 0) (center_packet ?env 2) 48 demo_center
      KG_CreateCommonPackage (demo_register @ demo_transfer) =
        bind_res (deliver (center_packet ?env 2) [demo_register, demo_transfer] demo_center) (\<lambda>s'. Inr (True, s', pk))"
    using process_net_data_delivers [OF pk_ok_create incomplete_Nil, of "demo_register @ demo_transfer" 48 "\<lambda>_ _. 0"
        "center_packet ?env 2"] fr by (auto simp: demo_transfer_facts demo_register_facts)
  then have "CenterServer_OnMsgRecv (\<lambda>_ _. 0) (\<lambda>v. v) ?env 8 48 (demo_register @ demo_transfer) demo_center =
      Inr ((uv_do (UvWrite 7 demo_transfer) demo_registered)\<lparr>open_sessions := (open_sessions demo_center)
        (8 \<mapsto> \<lparr>m_uHandlerId = 2, m_pRecvPacket = pk\<rparr>)\<rparr>)"
    using center_OnMsgRecv_data [of demo_center 8 "\<lparr>m_uHandlerId = 2, m_pRecvPacket = KG_CreateCommonPackage\<rparr>"
        "demo_register @ demo_transfer" "\<lambda>_ _. 0" "\<lambda>v. v" ?env] 1 2
    by (simp add: demo_transfer_facts demo_register_facts demo_center_fields)
       (simp add: demo_registered_def SetServerTypeToHandler_def demo_center_fields)
  moreover have "uv_calls demo_registered = uv_calls demo_center" by (simp add: demo_registered_def SetServerTypeToHandler_def)
  ultimately obtain s' where s': "CenterServer_OnMsgRecv (\<lambda>_ _. 0) (\<lambda>v. v) ?env 8 48 (demo_register @ demo_transfer) demo_center = Inr s'"
      "uv_calls s' = uv_calls demo_center @ [UvWrite 7 demo_transfer]" by simp
  moreover have "\<exists>session. open_sessions demo_center 7 = Some session"
    using center_writes_to_live_sessions [OF demo_center_reachable [where reads = "{\<lambda>v. v}"] s'(1)] s'(2)
    by (fastforce simp: exact_reads_def)
  ultimately show ?thesis by blast
qed

text \<open>C18: the first registration of a server type is final. When the connection registered for a
  type is lost, then in every later state, also after the server has connected and registered
  again, the type still leads to the lost connection and every packet for it is dropped.\<close>

theorem first_registration_is_final:
  assumes "(center_step env reads)\<^sup>*\<^sup>* (s, alloc) (s', alloc')" and "center_ok (exact_reads reads) alloc s"
    and "m_mapServerTypeToHandler s (ucast (packet_server p)) = Some i"
    and "GetHandlerById i s = None" and "unat i \<le> unat (m_nSessionId s)"
    and "packet_server p \<noteq> server_id CENTER" and "20 \<le> length p" and "length p < 2 ^ 32"
  shows "GetServerTypeToHandler (ucast (packet_server p)) s' = i \<and>
    center_packet env h p (word_of_nat (length p)) s' = Inr s'"
proof -
  have "m_mapServerTypeToHandler s \<subseteq>\<^sub>m m_mapServerTypeToHandler s'" and dead: "GetHandlerById i s' = None"
    using steps_registration [OF assms(1,2), of i] assms(4,5) by (simp_all add: dead_id_def)
  then have "m_mapServerTypeToHandler s' (ucast (packet_server p)) = Some i"
    using assms(3) by (auto simp: map_le_def dom_def)
  then show ?thesis
    using dead assms(6-8) by (simp add: center_packet_eq GetServerTypeToHandler_def split: option.split)
qed

theorem first_registration_is_final_witness:
  "\<exists>s'. CenterServer_OnNewConnection 9 0 0 0 (CenterServer_RemoveClient (\<lambda>v. v) 7 demo_registered) = Inr s'
     \<and> GetServerTypeToHandler 2 (SetServerTypeToHandler 2 3 s') = 1
     \<and> center_packet demo_center_env 2 demo_transfer 24 s' = Inr s'"
proof -
  define s where "s = CenterServer_RemoveClient (\<lambda>v. v) 7 demo_registered"
  have ok: "center_ok (exact_reads {\<lambda>v. v}) {7, 8} s"
    using center_RemoveClient demo_registered_facts(1) by (fastforce simp: s_def)
  have f: "m_mapServerTypeToHandler s 2 = Some 1" "GetHandlerById 1 s = None" "m_nSessionId s = 2"
    by (simp_all add: s_def demo_registered_def SetServerTypeToHandler_def CenterServer_RemoveClient_def Let_def
        demo_center_fields GetHandlerById_def map_insert_def map_erase_def)
  have "\<exists>s'. CenterServer_OnNewConnection 9 0 0 0 s = Inr s'"
    by (simp add: CenterServer_OnNewConnection_def AddSession_def f Let_def)
  then obtain s' where s': "CenterServer_OnNewConnection 9 0 0 0 s = Inr s'" by blast
  then have "(center_step demo_center_env {\<lambda>v. v})\<^sup>*\<^sup>* (s, {7, 8}) (s', insert 9 {7, 8})"
    by (intro r_into_rtranclp center_step.center_connection) simp_all
  from first_registration_is_final [OF this ok, of demo_transfer 1 2]
  have "GetServerTypeToHandler 2 s' = 1 \<and> center_packet demo_center_env 2 demo_transfer 24 s' = Inr s'"
    by (simp add: demo_transfer_facts f)
  then show ?thesis
    using s' by (intro exI [of _ s'])
      (simp add: s_def SetServerTypeToHandler_def GetServerTypeToHandler_def map_insert_def split: option.splits)
qed

end
