(* ===== verification/TcpClient.thy ===== *)
theory TcpClient
  imports LuaNet
begin

text \<open>
  The clients of the servers: \<^verbatim>\<open>TCPClient\<close> (\<^verbatim>\<open>tcp/tcp_client.cpp\<close>) and the client of the center
  that derives from it (\<^verbatim>\<open>tcp/center_client.cpp\<close>). An operation that writes or starts to read gives
  the call of libuv; the process that owns the client keeps the list of its calls. The address
  of the server is kept as a \<^verbatim>\<open>const char*\<close> into a string of the caller; reading it gives what the
  memory \<open>peek\<close> holds there at that time.
\<close>

section \<open>State\<close>

record tcp_client =
  client_m_port :: u32
  client_m_ip :: nat
  client_m_client :: uv_stream
  client_m_pRecvPacket :: knetpackage

definition TCPClient_new :: "nat \<Rightarrow> uv_stream \<Rightarrow> tcp_client" where
  "TCPClient_new junk_ip handle =
     \<lparr>client_m_port = 0, client_m_ip = junk_ip, client_m_client = handle,
      client_m_pRecvPacket = KG_CreateCommonPackage\<rparr>"

definition TCPClient_SetPort :: "u32 \<Rightarrow> 'c tcp_client_scheme \<Rightarrow> 'c tcp_client_scheme" where
  "TCPClient_SetPort port c = c\<lparr>client_m_port := port\<rparr>"

definition TCPClient_GetPort :: "'c tcp_client_scheme \<Rightarrow> u32" where
  "TCPClient_GetPort c = client_m_port c"

definition TCPClient_SetIp :: "nat \<Rightarrow> 'c tcp_client_scheme \<Rightarrow> 'c tcp_client_scheme" where
  "TCPClient_SetIp ip c = c\<lparr>client_m_ip := ip\<rparr>"

definition TCPClient_GetIp :: "'c tcp_client_scheme \<Rightarrow> nat" where
  "TCPClient_GetIp c = client_m_ip c"

section \<open>Operations of the base class\<close>

text \<open>\<open>ret\<close> is what \<^verbatim>\<open>uv_tcp_connect\<close> returns.\<close>

definition TCPClient_Init :: "int \<Rightarrow> nat \<Rightarrow> u32 \<Rightarrow> 'c tcp_client_scheme \<Rightarrow> (int \<times> 'c tcp_client_scheme) res" where
  "TCPClient_Init ret ip port c =
     (let c = TCPClient_SetPort port (TCPClient_SetIp ip c) in
      if ret < 0 then Inl (ProcessExit 1) else Inr (ret, c))"

definition TCPClient_OnConnect :: "int \<Rightarrow> 'c tcp_client_scheme \<Rightarrow> uv_call option res" where
  "TCPClient_OnConnect nStatus c =
     (if nStatus < 0 then Inl (ProcessExit 1)
      else if nStatus = - 1 then Inr None
      else Inr (Some (UvReadStart (client_m_client c))))"

text \<open>What is read is taken for a C string and forgotten.\<close>

definition TCPClient_OnMsgRecv :: "int \<Rightarrow> bytes \<Rightarrow> 'c tcp_client_scheme \<Rightarrow> 'c tcp_client_scheme res" where
  "TCPClient_OnMsgRecv nread base c =
     (if nread = UV_EOF then Inr c
      else if nread > 0 then bind_res (c_string base) (\<lambda>str. Inr c)
      else Inr c)"

text \<open>The first \<^verbatim>\<open>memcpy\<close> takes \<^verbatim>\<open>uMsgSize\<close> bytes from the four of \<^verbatim>\<open>uPacketLen\<close>.\<close>

definition TCPClient_Write :: "bytes \<Rightarrow> 'c tcp_client_scheme \<Rightarrow> uv_call res" where
  "TCPClient_Write message c =
     (let uMsgSize = word_of_nat (length message) :: u32;
          uHeadSize = 4;
          uPacketLen = uHeadSize + uMsgSize;
          pvBuffer = replicate (unat uPacketLen) 0 in
      bind_res (mem_read (enc32 uPacketLen) 0 (unat uMsgSize)) (\<lambda>head.
      bind_res (mem_write pvBuffer 0 head) (\<lambda>pvBuffer.
      bind_res (mem_read message 0 (unat uMsgSize)) (\<lambda>str.
      bind_res (mem_write pvBuffer (unat uMsgSize) str) (\<lambda>pvBuffer.
      Inr (UvWrite (client_m_client c) pvBuffer))))))"

definition TCPClient_ProcessNetData :: "bytes \<Rightarrow> 'c tcp_client_scheme \<Rightarrow> bool" where
  "TCPClient_ProcessNetData pData c = False"

section \<open>The client of the center\<close>

record center_client = tcp_client +
  m_nServerType :: u32

definition SetSeverType :: "u32 \<Rightarrow> center_client \<Rightarrow> center_client" where
  "SetSeverType nServerType c = c\<lparr>m_nServerType := nServerType\<rparr>"

definition GetSeverType :: "center_client \<Rightarrow> u32" where
  "GetSeverType c = m_nServerType c"

definition CenterClient_Init :: "int \<Rightarrow> nat \<Rightarrow> u32 \<Rightarrow> u32 \<Rightarrow> center_client \<Rightarrow> (int \<times> center_client) res" where
  "CenterClient_Init ret ip port nServerType c =
     (let c = TCPClient_SetIp ip c;
          c = TCPClient_SetPort port c;
          c = SetSeverType nServerType c in
      if ret < 0 then Inl (ProcessExit 1) else Inr (ret, c))"

definition TransferToCenterServer :: "bytes \<Rightarrow> nat \<Rightarrow> center_client \<Rightarrow> uv_call res" where
  "TransferToCenterServer pBuffer nRead c =
     bind_res (mem_read pBuffer 0 nRead) (\<lambda>pvBuffer. Inr (UvWrite (client_m_client c) pvBuffer))"

definition SendNetPacket :: "junk \<Rightarrow> u16 \<Rightarrow> u32 \<Rightarrow> bytes \<Rightarrow> u32 \<Rightarrow> center_client \<Rightarrow> uv_call res" where
  "SendNetPacket mem uServerId uEventType pBuffer uMsgSize c =
     (let uErrorCode = 0; uHandlerId = 0; uSequenceId = 0 in
      bind_res (CreateNetBuffer mem uEventType uErrorCode uHandlerId uServerId uSequenceId pBuffer uMsgSize)
        (\<lambda>(pvNetBuffer, uPacketLen).
      TransferToCenterServer pvNetBuffer (unat uPacketLen) c))"

text \<open>\<^verbatim>\<open>sprintf(buffer, "[\"%s\", 8001, %d]", ...)\<close> into a buffer of 100 bytes.\<close>

definition register_text :: "bytes \<Rightarrow> u32 \<Rightarrow> bytes" where
  "register_text ip t = [91, 34] @ ip @ [34] @ ascii '', 8001, '' @ fmt_int t @ [93]"

definition RegisterToCenter :: "junk \<Rightarrow> junk \<Rightarrow> (nat \<Rightarrow> bytes) \<Rightarrow> center_client \<Rightarrow> uv_call res" where
  "RegisterToCenter mem mem' peek c =
     (let buffer = fresh_block mem 100 in
      bind_res (c_string (peek (TCPClient_GetIp c))) (\<lambda>ip.
      let str = register_text ip (GetSeverType c);
          n = length str in
      bind_res (mem_write buffer 0 (str @ [0])) (\<lambda>buffer.
      bind_res (mem_read buffer 0 n) (\<lambda>data.
      let str = SerializeToString data in
      SendNetPacket mem' (server_id CENTER) 3001 str (word_of_nat (length str)) c))))"

text \<open>The method of the class itself, which no callback uses: it drops every packet.\<close>

definition center_client_packet :: "bytes \<Rightarrow> u32 \<Rightarrow> unit \<Rightarrow> unit res" where
  "center_client_packet pDataBuffer uBufferSize u =
     bind_res (GetHandlerId pDataBuffer) (\<lambda>uHandlerId. if uHandlerId > 0 then Inr u else Inr u)"

definition CenterClient_ProcessNetData ::
  "(nat \<Rightarrow> junk) \<Rightarrow> bytes \<Rightarrow> center_client \<Rightarrow> (bool \<times> center_client) res" where
  "CenterClient_ProcessNetData mem pData c =
     bind_res (process_net_data mem center_client_packet (length pData) () (client_m_pRecvPacket c) pData)
       (\<lambda>(bResult, _, pk). Inr (bResult, c\<lparr>client_m_pRecvPacket := pk\<rparr>))"

section \<open>Lemmas\<close>

lemma length_register_text: "length (register_text ip t) = 12 + length ip + length (fmt_int t)"
  by (simp add: register_text_def ascii_def)

lemma RegisterToCenter_eq:
  assumes "c_string (peek (client_m_ip c)) = Inr ip"
  shows "RegisterToCenter mem mem' peek c =
    (if 87 < length ip + length (fmt_int (m_nServerType c)) then Inl HeapOverflow
     else Inr (UvWrite (client_m_client c)
            (net_package 3001 0 0 (server_id CENTER) 0 (register_text ip (m_nServerType c)))))"
proof -
  let ?t = "register_text ip (m_nServerType c)"
  show ?thesis
  proof (cases "87 < length ip + length (fmt_int (m_nServerType c))")
    case True
    then show ?thesis
      using assms by (simp add: RegisterToCenter_def TCPClient_GetIp_def Let_def GetSeverType_def length_register_text)
  next
    case False
    then have len: "length ?t \<le> 99" by (simp add: length_register_text)
    then have w: "mem_write (fresh_block mem 100) 0 (?t @ [0]) = Inr (msplice (fresh_block mem 100) 0 (?t @ [0]))"
      by simp
    have r: "mem_read (msplice (fresh_block mem 100) 0 (?t @ [0])) 0 (length ?t) = Inr ?t"
      using len by (simp add: msplice_def mslice_def)
    have p: "CreateNetPackage mem' 3001 0 0 (server_id CENTER) 0 ?t =
        Inr (net_package 3001 0 0 (server_id CENTER) 0 ?t, 20 + word_of_nat (length (SerializeToString ?t)))"
      "unat (20 + word_of_nat (length (SerializeToString ?t)) :: u32) = 20 + length (SerializeToString ?t)"
      "length (net_package 3001 0 0 (server_id CENTER) 0 ?t) = 20 + length (SerializeToString ?t)"
      using CreateNetPackage_eq [of ?t] len by simp_all
    have "RegisterToCenter mem mem' peek c =
        bind_res (CreateNetPackage mem' 3001 0 0 (server_id CENTER) 0 ?t)
          (\<lambda>(b, n). TransferToCenterServer b (unat n) c)"
      using assms
      by (simp add: RegisterToCenter_def w r GetSeverType_def TCPClient_GetIp_def SendNetPacket_def CreateNetPackage_def Let_def)
    also have "\<dots> = Inr (UvWrite (client_m_client c) (net_package 3001 0 0 (server_id CENTER) 0 ?t))"
      unfolding p(1) using p(2,3) by (simp add: TransferToCenterServer_def)
    finally show ?thesis using False by simp
  qed
qed

section \<open>What \<^verbatim>\<open>Write\<close> sends\<close>

text \<open>\<^verbatim>\<open>TCPClient::Write\<close> reads behind its length variable for every message of more than four
  bytes; a message of exactly four bytes arrives as one packet with the length in front.\<close>

lemma client_write_takes_four_bytes:
  assumes "length message < 2 ^ 31"
  shows "(TCPClient_Write message c = Inl OutOfBoundsRead \<longleftrightarrow> 4 < length message) \<and>
    (length message = 4 \<longrightarrow> TCPClient_Write message c = Inr (UvWrite (client_m_client c) (enc32 8 @ message))
       \<and> frames (enc32 8 @ message) = ([enc32 8 @ message], []))"
proof -
  have n: "unat (word_of_nat (length message) :: u32) = length message"
    "unat (4 + word_of_nat (length message) :: u32) = 4 + length message"
    using assms by (simp_all add: unat_of_nat unat_word_ariths)
  have "TCPClient_Write message c = Inl OutOfBoundsRead \<longleftrightarrow> 4 < length message"
    using n by (auto simp: TCPClient_Write_def Let_def mem_read_def mem_write_def not_le)
  moreover have "TCPClient_Write message c = Inr (UvWrite (client_m_client c) (enc32 8 @ message))"
    and "frames (enc32 8 @ message) = ([enc32 8 @ message], [])" if m: "length message = 4"
  proof -
    show "TCPClient_Write message c = Inr (UvWrite (client_m_client c) (enc32 8 @ message))"
      using n m by (simp add: TCPClient_Write_def Let_def mem_read_def mem_write_def msplice_def mslice_def)
    have "le_dec (enc32 8) = 8" by code_simp
    then show "frames (enc32 8 @ message) = ([enc32 8 @ message], [])"
      using m by (subst frames_complete [of 8]) simp_all
  qed
  ultimately show ?thesis by blast
qed

end
