(* ===== verification/DbRequest.thy ===== *)
theory DbRequest
  imports KgBuffer
begin

text \<open>
  The requests and responses the game thread and the database threads exchange:
  the structures of \<^verbatim>\<open>common/krequest_def.h\<close> and \<^verbatim>\<open>common/db_def.h\<close> as offsets into the data of
  a \<^verbatim>\<open>KG_Buffer\<close> (LP64 layout), and the functions of \<^verbatim>\<open>common/db_buffer.cpp\<close> that build
  and label them. The theory shows for which arguments each constructor stays inside the
  buffer it allocates and what a consumer finds there.
\<close>

section \<open>Layout\<close>

datatype KE_REQUEST_TYPE =
    emREQUEST_SET | emREQUEST_GET | emREQUEST_HSET | emREQUEST_HGET | emREQUEST_SETS | emREQUEST_GETS
  | emREQUEST_HSETS | emREQUEST_HGETS | emREQUEST_HGETALL | emREQUEST_DEL | emREQUEST_DELS
  | emREQUEST_HDEL | emREQUEST_HDELS | emREQUEST_DEL_HASHTABLE | emREQUEST_NUM | emREQUEST_AUTO_EXPIRE

fun request_code :: "KE_REQUEST_TYPE \<Rightarrow> byte" where
  "request_code emREQUEST_SET = 0" | "request_code emREQUEST_GET = 1"
| "request_code emREQUEST_HSET = 2" | "request_code emREQUEST_HGET = 3"
| "request_code emREQUEST_SETS = 4" | "request_code emREQUEST_GETS = 5"
| "request_code emREQUEST_HSETS = 6" | "request_code emREQUEST_HGETS = 7"
| "request_code emREQUEST_HGETALL = 8" | "request_code emREQUEST_DEL = 9"
| "request_code emREQUEST_DELS = 10" | "request_code emREQUEST_HDEL = 11"
| "request_code emREQUEST_HDELS = 12" | "request_code emREQUEST_DEL_HASHTABLE = 13"
| "request_code emREQUEST_NUM = 14" | "request_code emREQUEST_AUTO_EXPIRE = 15"

text \<open>\<^verbatim>\<open>KREQUEST_TYPE\<close> and \<^verbatim>\<open>KREQUEST_HEAD\<close>, in front of every request.\<close>

definition TYPE_byType :: nat where "TYPE_byType = 0"
definition TYPE_byHandleFlag :: nat where "TYPE_byHandleFlag = 2"
definition TYPE_nHash :: nat where "TYPE_nHash = 4"
definition HEAD_lId :: nat where "HEAD_lId = 8"
definition HEAD_nConnectId :: nat where "HEAD_nConnectId = 16"
definition HEAD_bAllowRedisNil :: nat where "HEAD_bAllowRedisNil = 24"
definition HEAD_uUserId :: nat where "HEAD_uUserId = 28"
definition HEAD_uEventType :: nat where "HEAD_uEventType = 32"
definition HEAD_uSquenceId :: nat where "HEAD_uSquenceId = 36"
definition REQUEST_lRef :: nat where "REQUEST_lRef = 40"

text \<open>\<^verbatim>\<open>KREQUEST_SET\<close>; \<^verbatim>\<open>KREQUEST_GET\<close> and \<^verbatim>\<open>KREQUEST_DEL\<close>; \<^verbatim>\<open>KREQUEST_GETS\<close>.\<close>

definition SET_uPrefixLen :: nat where "SET_uPrefixLen = 52"
definition SET_uKeyLen :: nat where "SET_uKeyLen = 56"
definition SET_uValueLen :: nat where "SET_uValueLen = 60"
definition SET_data :: nat where "SET_data = 64"
definition SIZEOF_KREQUEST_SET :: nat where "SIZEOF_KREQUEST_SET = 72"
definition GET_uPrefixLen :: nat where "GET_uPrefixLen = 48"
definition GET_uKeyLen :: nat where "GET_uKeyLen = 52"
definition GET_data :: nat where "GET_data = 56"
definition SIZEOF_KREQUEST_GET :: nat where "SIZEOF_KREQUEST_GET = 64"
definition GETS_uHashKeyLen :: nat where "GETS_uHashKeyLen = 48"
definition GETS_nCount :: nat where "GETS_nCount = 52"
definition GETS_data :: nat where "GETS_data = 56"
definition SIZEOF_KREQUEST_GETS :: nat where "SIZEOF_KREQUEST_GETS = 64"

text \<open>\<^verbatim>\<open>KREQUEST_HSET\<close>; \<^verbatim>\<open>KREQUEST_HGET\<close> and \<^verbatim>\<open>KREQUEST_HDEL\<close>; \<^verbatim>\<open>KREQUEST_EXPIRE\<close>.\<close>

definition HSET_uTableNameLen :: nat where "HSET_uTableNameLen = 48"
definition HSET_uHashKeyLen :: nat where "HSET_uHashKeyLen = 52"
definition HSET_uValueLen :: nat where "HSET_uValueLen = 56"
definition HSET_data :: nat where "HSET_data = 60"
definition SIZEOF_KREQUEST_HSET :: nat where "SIZEOF_KREQUEST_HSET = 64"
definition HGET_uTableNameLen :: nat where "HGET_uTableNameLen = 48"
definition HGET_uHashKeyLen :: nat where "HGET_uHashKeyLen = 52"
definition HGET_data :: nat where "HGET_data = 56"
definition SIZEOF_KREQUEST_HGET :: nat where "SIZEOF_KREQUEST_HGET = 64"
definition EXPIRE_nExpire :: nat where "EXPIRE_nExpire = 12"
definition EXPIRE_data :: nat where "EXPIRE_data = 24"
definition SIZEOF_KREQUEST_EXPIRE :: nat where "SIZEOF_KREQUEST_EXPIRE = 32"

text \<open>\<^verbatim>\<open>KRESOOND_COMMON\<close>, and the packed \<^verbatim>\<open>KP_DBRESPOND_MULTI_DATA\<close>, which starts one byte into
  the buffer.\<close>

definition COMMON_lId :: nat where "COMMON_lId = 0"
definition COMMON_byRequestType :: nat where "COMMON_byRequestType = 8"
definition COMMON_byHandleFlag :: nat where "COMMON_byHandleFlag = 9"
definition COMMON_nRetType :: nat where "COMMON_nRetType = 12"
definition COMMON_nParam :: nat where "COMMON_nParam = 16"
definition COMMON_nDataLen :: nat where "COMMON_nDataLen = 20"
definition COMMON_uUserId :: nat where "COMMON_uUserId = 24"
definition COMMON_uEventType :: nat where "COMMON_uEventType = 28"
definition COMMON_uSqueneceId :: nat where "COMMON_uSqueneceId = 32"
definition COMMON_data :: nat where "COMMON_data = 36"
definition SIZEOF_KRESOOND_COMMON :: nat where "SIZEOF_KRESOOND_COMMON = 40"
definition MULTI_base :: nat where "MULTI_base = 1"
definition MULTI_lRef :: nat where "MULTI_lRef = 0"
definition MULTI_uUserId :: nat where "MULTI_uUserId = 8"
definition MULTI_uEventType :: nat where "MULTI_uEventType = 12"
definition MULTI_uSquenceId :: nat where "MULTI_uSquenceId = 16"
definition MULTI_byHandle :: nat where "MULTI_byHandle = 20"
definition MULTI_byRetType :: nat where "MULTI_byRetType = 21"
definition MULTI_byRequestType :: nat where "MULTI_byRequestType = 22"
definition MULTI_lId :: nat where "MULTI_lId = 24"
definition MULTI_nCount :: nat where "MULTI_nCount = 32"
definition MULTI_data :: nat where "MULTI_data = 36"
definition SIZEOF_KP_DBRESPOND_MULTI_DATA :: nat where "SIZEOF_KP_DBRESPOND_MULTI_DATA = 37"

lemmas request_layout [simp] =
  TYPE_byType_def TYPE_byHandleFlag_def TYPE_nHash_def HEAD_lId_def HEAD_nConnectId_def
  HEAD_bAllowRedisNil_def HEAD_uUserId_def HEAD_uEventType_def HEAD_uSquenceId_def REQUEST_lRef_def
  SET_uPrefixLen_def SET_uKeyLen_def SET_uValueLen_def SET_data_def SIZEOF_KREQUEST_SET_def
  GET_uPrefixLen_def GET_uKeyLen_def GET_data_def SIZEOF_KREQUEST_GET_def
  GETS_uHashKeyLen_def GETS_nCount_def GETS_data_def SIZEOF_KREQUEST_GETS_def
  HSET_uTableNameLen_def HSET_uHashKeyLen_def HSET_uValueLen_def HSET_data_def SIZEOF_KREQUEST_HSET_def
  HGET_uTableNameLen_def HGET_uHashKeyLen_def HGET_data_def SIZEOF_KREQUEST_HGET_def
  EXPIRE_nExpire_def EXPIRE_data_def SIZEOF_KREQUEST_EXPIRE_def

lemmas response_layout [simp] =
  COMMON_lId_def COMMON_byRequestType_def COMMON_byHandleFlag_def COMMON_nRetType_def COMMON_nParam_def
  COMMON_nDataLen_def COMMON_uUserId_def COMMON_uEventType_def COMMON_uSqueneceId_def COMMON_data_def
  SIZEOF_KRESOOND_COMMON_def MULTI_base_def MULTI_lRef_def MULTI_uUserId_def MULTI_uEventType_def
  MULTI_uSquenceId_def MULTI_byHandle_def MULTI_byRetType_def MULTI_byRequestType_def MULTI_lId_def
  MULTI_nCount_def MULTI_data_def SIZEOF_KP_DBRESPOND_MULTI_DATA_def

definition REQUEST_KEY_UNDERLINED :: bytes where "REQUEST_KEY_UNDERLINED = [95]"
definition REQUEST_KEY_UNDERLINED_LEN :: nat where "REQUEST_KEY_UNDERLINED_LEN = 1"

lemmas underline [simp] = REQUEST_KEY_UNDERLINED_def REQUEST_KEY_UNDERLINED_LEN_def

text \<open>Writing into and reading from the data of a buffer.\<close>

definition put :: "nat \<Rightarrow> bytes \<Rightarrow> kg_buffer \<Rightarrow> kg_buffer res" where
  "put off bs b = bind_res (mem_write (pvData b) off bs) (\<lambda>d. Inr (b\<lparr>pvData := d\<rparr>))"

abbreviation "put8 off v \<equiv> put off (enc8 v)"
abbreviation "put32 off v \<equiv> put off (enc32 v)"
abbreviation "put64 off v \<equiv> put off (enc64 v)"

definition get8 :: "nat \<Rightarrow> kg_buffer \<Rightarrow> byte res" where "get8 off b = load8 (pvData b) off"
definition get32 :: "nat \<Rightarrow> kg_buffer \<Rightarrow> u32 res" where "get32 off b = load32 (pvData b) off"
definition get64 :: "nat \<Rightarrow> kg_buffer \<Rightarrow> u64 res" where "get64 off b = load64 (pvData b) off"

section \<open>Operations\<close>

definition DB_SetBufferHead :: "kg_buffer \<Rightarrow> u32 \<Rightarrow> u32 \<Rightarrow> kg_buffer res" where
  "DB_SetBufferHead b uUserId uEventType =
     bind_res (put32 HEAD_uUserId uUserId b) (put32 HEAD_uEventType uEventType)"

definition DB_SetBufferHead_seq :: "kg_buffer \<Rightarrow> u32 \<Rightarrow> u32 \<Rightarrow> u32 \<Rightarrow> kg_buffer res" where
  "DB_SetBufferHead_seq b uUserId uEventType uSquenceId =
     bind_res (put32 HEAD_uUserId uUserId b) (\<lambda>b.
     bind_res (put32 HEAD_uEventType uEventType b) (put32 HEAD_uSquenceId uSquenceId))"

definition DB_SetCommonHead :: "kg_buffer \<Rightarrow> u32 \<Rightarrow> u32 \<Rightarrow> kg_buffer res" where
  "DB_SetCommonHead b uUserId uEventType =
     bind_res (put32 COMMON_uUserId uUserId b) (put32 COMMON_uEventType uEventType)"

definition DB_SetCommonHead_seq :: "kg_buffer \<Rightarrow> u32 \<Rightarrow> u32 \<Rightarrow> u32 \<Rightarrow> kg_buffer res" where
  "DB_SetCommonHead_seq b uUserId uEventType uSquenceId =
     bind_res (put32 COMMON_uUserId uUserId b) (\<lambda>b.
     bind_res (put32 COMMON_uEventType uEventType b) (put32 COMMON_uSqueneceId uSquenceId))"

definition DB_SetMulDataHead :: "kg_buffer \<Rightarrow> u32 \<Rightarrow> u32 \<Rightarrow> kg_buffer res" where
  "DB_SetMulDataHead b uUserId uEventType =
     bind_res (put32 (MULTI_base + MULTI_uUserId) uUserId b)
       (put32 (MULTI_base + MULTI_uEventType) uEventType)"

definition DB_SetMulDataHead_seq :: "kg_buffer \<Rightarrow> u32 \<Rightarrow> u32 \<Rightarrow> u32 \<Rightarrow> kg_buffer res" where
  "DB_SetMulDataHead_seq b uUserId uEventType uSquenceId =
     bind_res (put32 (MULTI_base + MULTI_uUserId) uUserId b) (\<lambda>b.
     bind_res (put32 (MULTI_base + MULTI_uEventType) uEventType b)
       (put32 (MULTI_base + MULTI_uSquenceId) uSquenceId))"

definition DB_CreateRedisExpireBuffer :: "junk \<Rightarrow> bytes \<Rightarrow> u32 \<Rightarrow> kg_buffer res" where
  "DB_CreateRedisExpireBuffer mem szKey nSecond =
     bind_res (DB_MemoryCreateBuffer mem (word_of_nat (SIZEOF_KREQUEST_EXPIRE + length szKey))) (\<lambda>b.
     bind_res (put32 EXPIRE_nExpire nSecond b) (\<lambda>b.
     bind_res (put8 TYPE_byType (request_code emREQUEST_AUTO_EXPIRE) b) (\<lambda>b.
     put EXPIRE_data szKey b)))"

definition DB_CreateSetBuffer :: "junk \<Rightarrow> bytes \<Rightarrow> bytes \<Rightarrow> bytes \<Rightarrow> kg_buffer res" where
  "DB_CreateSetBuffer mem szTable szKey szValue =
     bind_res (DB_MemoryCreateBuffer mem
         (word_of_nat (SIZEOF_KREQUEST_SET + length szKey + length szValue))) (\<lambda>b.
     bind_res (put32 SET_uPrefixLen (word_of_nat (length szTable)) b) (\<lambda>b.
     bind_res (put32 SET_uKeyLen (word_of_nat (length szKey)) b) (\<lambda>b.
     bind_res (put32 SET_uValueLen (word_of_nat (length szValue)) b) (\<lambda>b.
     bind_res (put8 TYPE_byType (request_code emREQUEST_SET) b) (\<lambda>b.
     bind_res (put SET_data szTable b) (\<lambda>b.
     bind_res (put (SET_data + length szTable) REQUEST_KEY_UNDERLINED b) (\<lambda>b.
     bind_res (put (SET_data + length szTable + REQUEST_KEY_UNDERLINED_LEN) szKey b) (\<lambda>b.
     put (SET_data + length szTable + length szKey + REQUEST_KEY_UNDERLINED_LEN) szValue b))))))))"

definition DB_CreateGetBuffer :: "junk \<Rightarrow> bytes \<Rightarrow> bytes \<Rightarrow> kg_buffer res" where
  "DB_CreateGetBuffer mem szTable szKey =
     bind_res (DB_MemoryCreateBuffer mem (word_of_nat (SIZEOF_KREQUEST_GET + length szKey))) (\<lambda>b.
     bind_res (put32 GET_uPrefixLen (word_of_nat (length szTable)) b) (\<lambda>b.
     bind_res (put32 GET_uKeyLen (word_of_nat (length szKey)) b) (\<lambda>b.
     bind_res (put8 TYPE_byType (request_code emREQUEST_GET) b) (\<lambda>b.
     bind_res (put GET_data szTable b) (\<lambda>b.
     bind_res (put (GET_data + length szTable) REQUEST_KEY_UNDERLINED b) (\<lambda>b.
     put (GET_data + length szTable + REQUEST_KEY_UNDERLINED_LEN) szKey b))))))"

definition DB_CreateGetsBuffer :: "junk \<Rightarrow> bytes \<Rightarrow> kg_buffer res" where
  "DB_CreateGetsBuffer mem szKeys =
     bind_res (DB_MemoryCreateBuffer mem (word_of_nat (SIZEOF_KREQUEST_GETS + length szKeys))) (\<lambda>b.
     bind_res (put32 GETS_uHashKeyLen (word_of_nat (length szKeys)) b) (\<lambda>b.
     bind_res (put8 TYPE_byType (request_code emREQUEST_GETS) b) (\<lambda>b.
     bind_res (put GETS_data szKeys b) (\<lambda>b.
     put8 (GETS_data + (length szKeys + 1)) 0 b))))"

definition DB_CreateHSetBuffer :: "junk \<Rightarrow> bytes \<Rightarrow> bytes \<Rightarrow> bytes \<Rightarrow> kg_buffer res" where
  "DB_CreateHSetBuffer mem szKey szField szValue =
     bind_res (DB_MemoryCreateBuffer mem
         (word_of_nat (SIZEOF_KREQUEST_HSET + length szKey + length szField + length szValue))) (\<lambda>b.
     bind_res (put8 TYPE_byType (request_code emREQUEST_HSET) b) (\<lambda>b.
     bind_res (put32 HSET_uTableNameLen (word_of_nat (length szKey)) b) (\<lambda>b.
     bind_res (put32 HSET_uHashKeyLen (word_of_nat (length szField)) b) (\<lambda>b.
     bind_res (put32 HSET_uValueLen (word_of_nat (length szValue)) b) (\<lambda>b.
     bind_res (put HSET_data szKey b) (\<lambda>b.
     bind_res (put (HSET_data + length szKey) szField b) (\<lambda>b.
     put (HSET_data + length szKey + length szField) szValue b)))))))"

definition DB_CreateHgetBuffer :: "junk \<Rightarrow> bytes \<Rightarrow> bytes \<Rightarrow> kg_buffer res" where
  "DB_CreateHgetBuffer mem szKey szField =
     bind_res (DB_MemoryCreateBuffer mem
         (word_of_nat (SIZEOF_KREQUEST_HGET + length szKey + length szField))) (\<lambda>b.
     bind_res (put8 HEAD_bAllowRedisNil 0 b) (\<lambda>b.
     bind_res (put8 TYPE_byType (request_code emREQUEST_HGET) b) (\<lambda>b.
     bind_res (put32 HGET_uTableNameLen (word_of_nat (length szKey)) b) (\<lambda>b.
     bind_res (put32 HGET_uHashKeyLen (word_of_nat (length szField)) b) (\<lambda>b.
     bind_res (put HGET_data szKey b) (\<lambda>b.
     put (HGET_data + length szKey) szField b))))))"

definition DB_CreateDelBuffer :: "junk \<Rightarrow> bytes \<Rightarrow> bytes \<Rightarrow> kg_buffer res" where
  "DB_CreateDelBuffer mem szTable szKey =
     bind_res (DB_MemoryCreateBuffer mem (word_of_nat (SIZEOF_KREQUEST_GET + length szKey))) (\<lambda>b.
     bind_res (put32 GET_uPrefixLen (word_of_nat (length szTable)) b) (\<lambda>b.
     bind_res (put32 GET_uKeyLen (word_of_nat (length szKey)) b) (\<lambda>b.
     bind_res (put8 TYPE_byType (request_code emREQUEST_DEL) b) (\<lambda>b.
     bind_res (put GET_data szTable b) (\<lambda>b.
     bind_res (put (GET_data + length szTable) REQUEST_KEY_UNDERLINED b) (\<lambda>b.
     put (GET_data + length szTable + REQUEST_KEY_UNDERLINED_LEN) szKey b))))))"

definition DB_CreateHdelBuffer :: "junk \<Rightarrow> bytes \<Rightarrow> bytes \<Rightarrow> kg_buffer res" where
  "DB_CreateHdelBuffer mem szTable szKey =
     bind_res (DB_MemoryCreateBuffer mem
         (word_of_nat (SIZEOF_KREQUEST_HGET + length szTable + length szKey))) (\<lambda>b.
     bind_res (put8 HEAD_bAllowRedisNil 0 b) (\<lambda>b.
     bind_res (put8 TYPE_byType (request_code emREQUEST_HDEL) b) (\<lambda>b.
     bind_res (put32 HGET_uTableNameLen (word_of_nat (length szTable)) b) (\<lambda>b.
     bind_res (put32 HGET_uHashKeyLen (word_of_nat (length szKey)) b) (\<lambda>b.
     bind_res (put HGET_data szTable b) (\<lambda>b.
     put (HGET_data + length szTable) szKey b))))))"

section \<open>Lemmas\<close>

lemma put_ok [simp]:
  "off + length bs \<le> length (pvData b) \<Longrightarrow> put off bs b = Inr (b\<lparr>pvData := msplice (pvData b) off bs\<rparr>)"
  by (simp add: put_def)

lemma put_overflow [simp]: "length (pvData b) < off + length bs \<Longrightarrow> put off bs b = Inl HeapOverflow"
  by (simp add: put_def)

lemma get_ok [simp]:
  "off + 1 \<le> length (pvData b) \<Longrightarrow> get8 off b = Inr (dec8 (mslice (pvData b) off 1))"
  "off + 4 \<le> length (pvData b) \<Longrightarrow> get32 off b = Inr (dec32 (mslice (pvData b) off 4))"
  "off + 8 \<le> length (pvData b) \<Longrightarrow> get64 off b = Inr (dec64 (mslice (pvData b) off 8))"
  by (simp_all add: get8_def get32_def get64_def f8.load_ok [simplified])

text \<open>A fresh buffer of a size that does not wrap.\<close>

lemma fresh_buffer:
  assumes "n < 2 ^ 32 - 40"
  obtains b where "DB_MemoryCreateBuffer mem (word_of_nat n) = Inr b" "length (pvData b) = n"
    "length (reserve b) = 8" "m_lRefCount b = 1" "m_uSize b = word_of_nat n"
proof -
  have "unat (word_of_nat n :: u32) = n" using assms by (simp add: unat_of_nat)
  then show thesis
    using create_ok [of "word_of_nat n" mem] assms that by simp
qed

lemma DB_CreateSetBuffer_ok:
  assumes "length t + length k + length v < 2 ^ 31" and "length t \<le> 7"
  shows "\<exists>b. DB_CreateSetBuffer mem t k v = Inr b \<and> length (pvData b) = 72 + length k + length v
    \<and> m_lRefCount b = 1 \<and> length (reserve b) = 8
    \<and> get8 TYPE_byType b = Inr (request_code emREQUEST_SET)
    \<and> get32 SET_uPrefixLen b = Inr (word_of_nat (length t))
    \<and> get32 SET_uKeyLen b = Inr (word_of_nat (length k))
    \<and> get32 SET_uValueLen b = Inr (word_of_nat (length v))
    \<and> mslice (pvData b) SET_data (length t + length k + 1) = t @ [95] @ k
    \<and> mslice (pvData b) (SET_data + (length t + length k + 1)) (length v) = v"
proof -
  obtain b where b: "DB_MemoryCreateBuffer mem (word_of_nat (72 + length k + length v)) = Inr b"
      "length (pvData b) = 72 + length k + length v" "length (reserve b) = 8" "m_lRefCount b = 1"
    by (rule fresh_buffer [of "72 + length k + length v" mem]) (use assms in auto)
  show ?thesis
    using assms b
    by (simp add: DB_CreateSetBuffer_def mem_simps msplice_append slice_msplice_inside del: of_nat_add)
       (simp add: mslice_def)
qed

lemma DB_CreateSetBuffer_overflow:
  assumes "length t + length k + length v < 2 ^ 31" and "7 < length t"
  shows "DB_CreateSetBuffer mem t k v = Inl HeapOverflow"
proof -
  obtain b where b: "DB_MemoryCreateBuffer mem (word_of_nat (72 + length k + length v)) = Inr b"
      "length (pvData b) = 72 + length k + length v"
    by (rule fresh_buffer [of "72 + length k + length v" mem]) (use assms in auto)
  show ?thesis
    using assms b by (simp add: DB_CreateSetBuffer_def put_def mem_write_def del: of_nat_add)
qed

lemma key_request_ok:
  assumes "length t + length k < 2 ^ 31" and "length t \<le> 7"
  shows "\<exists>b. DB_CreateGetBuffer mem t k = Inr b \<and> length (pvData b) = 64 + length k
      \<and> m_lRefCount b = 1 \<and> length (reserve b) = 8
      \<and> get8 TYPE_byType b = Inr (request_code emREQUEST_GET)
      \<and> get32 GET_uPrefixLen b = Inr (word_of_nat (length t))
      \<and> get32 GET_uKeyLen b = Inr (word_of_nat (length k))
      \<and> mslice (pvData b) GET_data (length t + length k + 1) = t @ [95] @ k"
    and "\<exists>b. DB_CreateDelBuffer mem t k = Inr b \<and> length (pvData b) = 64 + length k
      \<and> m_lRefCount b = 1 \<and> length (reserve b) = 8
      \<and> get8 TYPE_byType b = Inr (request_code emREQUEST_DEL)
      \<and> get32 GET_uPrefixLen b = Inr (word_of_nat (length t))
      \<and> get32 GET_uKeyLen b = Inr (word_of_nat (length k))
      \<and> mslice (pvData b) GET_data (length t + length k + 1) = t @ [95] @ k"
proof -
  obtain b where b: "DB_MemoryCreateBuffer mem (word_of_nat (64 + length k)) = Inr b"
      "length (pvData b) = 64 + length k" "length (reserve b) = 8" "m_lRefCount b = 1"
    by (rule fresh_buffer [of "64 + length k" mem]) (use assms in auto)
  note ev = mem_simps msplice_append slice_msplice_inside
  show "\<exists>b. DB_CreateGetBuffer mem t k = Inr b \<and> length (pvData b) = 64 + length k
      \<and> m_lRefCount b = 1 \<and> length (reserve b) = 8
      \<and> get8 TYPE_byType b = Inr (request_code emREQUEST_GET)
      \<and> get32 GET_uPrefixLen b = Inr (word_of_nat (length t))
      \<and> get32 GET_uKeyLen b = Inr (word_of_nat (length k))
      \<and> mslice (pvData b) GET_data (length t + length k + 1) = t @ [95] @ k"
    using assms b
    by (simp add: DB_CreateGetBuffer_def ev del: of_nat_add) (simp add: mslice_def)
  show "\<exists>b. DB_CreateDelBuffer mem t k = Inr b \<and> length (pvData b) = 64 + length k
      \<and> m_lRefCount b = 1 \<and> length (reserve b) = 8
      \<and> get8 TYPE_byType b = Inr (request_code emREQUEST_DEL)
      \<and> get32 GET_uPrefixLen b = Inr (word_of_nat (length t))
      \<and> get32 GET_uKeyLen b = Inr (word_of_nat (length k))
      \<and> mslice (pvData b) GET_data (length t + length k + 1) = t @ [95] @ k"
    using assms b
    by (simp add: DB_CreateDelBuffer_def ev del: of_nat_add) (simp add: mslice_def)
qed

lemma key_request_overflow:
  assumes "length t + length k < 2 ^ 31" and "7 < length t"
  shows "DB_CreateGetBuffer mem t k = Inl HeapOverflow" "DB_CreateDelBuffer mem t k = Inl HeapOverflow"
proof -
  obtain b where b: "DB_MemoryCreateBuffer mem (word_of_nat (64 + length k)) = Inr b"
      "length (pvData b) = 64 + length k"
    by (rule fresh_buffer [of "64 + length k" mem]) (use assms in auto)
  show "DB_CreateGetBuffer mem t k = Inl HeapOverflow"
    using assms b by (simp add: DB_CreateGetBuffer_def put_def mem_write_def del: of_nat_add)
  show "DB_CreateDelBuffer mem t k = Inl HeapOverflow"
    using assms b by (simp add: DB_CreateDelBuffer_def put_def mem_write_def del: of_nat_add)
qed

lemma DB_CreateGetsBuffer_ok:
  assumes "length ks < 2 ^ 31"
  shows "\<exists>b. DB_CreateGetsBuffer mem ks = Inr b \<and> length (pvData b) = 64 + length ks
    \<and> m_lRefCount b = 1 \<and> length (reserve b) = 8
    \<and> get8 TYPE_byType b = Inr (request_code emREQUEST_GETS)
    \<and> get32 GETS_uHashKeyLen b = Inr (word_of_nat (length ks))
    \<and> mslice (pvData b) GETS_data (length ks) = ks"
proof -
  obtain b where b: "DB_MemoryCreateBuffer mem (word_of_nat (64 + length ks)) = Inr b"
      "length (pvData b) = 64 + length ks" "length (reserve b) = 8" "m_lRefCount b = 1"
    by (rule fresh_buffer [of "64 + length ks" mem]) (use assms in auto)
  show ?thesis
    using assms b by (simp add: DB_CreateGetsBuffer_def mem_simps del: of_nat_add)
qed

lemma DB_CreateHSetBuffer_ok:
  assumes "length t + length k + length v < 2 ^ 31"
  shows "\<exists>b. DB_CreateHSetBuffer mem t k v = Inr b \<and> length (pvData b) = 64 + length t + length k + length v
    \<and> m_lRefCount b = 1 \<and> length (reserve b) = 8
    \<and> get8 TYPE_byType b = Inr (request_code emREQUEST_HSET)
    \<and> get32 HSET_uTableNameLen b = Inr (word_of_nat (length t))
    \<and> get32 HSET_uHashKeyLen b = Inr (word_of_nat (length k))
    \<and> get32 HSET_uValueLen b = Inr (word_of_nat (length v))
    \<and> mslice (pvData b) HSET_data (length t) = t
    \<and> mslice (pvData b) (HSET_data + length t) (length k) = k
    \<and> mslice (pvData b) (HSET_data + length t + length k) (length v) = v"
proof -
  obtain b where b: "DB_MemoryCreateBuffer mem (word_of_nat (64 + length t + length k + length v)) = Inr b"
      "length (pvData b) = 64 + length t + length k + length v" "length (reserve b) = 8" "m_lRefCount b = 1"
    by (rule fresh_buffer [of "64 + length t + length k + length v" mem]) (use assms in auto)
  show ?thesis
    using assms b
    by (simp add: DB_CreateHSetBuffer_def mem_simps msplice_append slice_msplice_inside del: of_nat_add)
       (simp add: mslice_def)
qed

lemma hash_request_ok:
  assumes "length t + length k < 2 ^ 31"
  shows "\<exists>b. DB_CreateHgetBuffer mem t k = Inr b \<and> length (pvData b) = 64 + length t + length k
      \<and> m_lRefCount b = 1 \<and> length (reserve b) = 8 \<and> get8 HEAD_bAllowRedisNil b = Inr 0
      \<and> get8 TYPE_byType b = Inr (request_code emREQUEST_HGET)
      \<and> get32 HGET_uTableNameLen b = Inr (word_of_nat (length t))
      \<and> get32 HGET_uHashKeyLen b = Inr (word_of_nat (length k))
      \<and> mslice (pvData b) HGET_data (length t) = t
      \<and> mslice (pvData b) (HGET_data + length t) (length k) = k"
    and "\<exists>b. DB_CreateHdelBuffer mem t k = Inr b \<and> length (pvData b) = 64 + length t + length k
      \<and> m_lRefCount b = 1 \<and> length (reserve b) = 8 \<and> get8 HEAD_bAllowRedisNil b = Inr 0
      \<and> get8 TYPE_byType b = Inr (request_code emREQUEST_HDEL)
      \<and> get32 HGET_uTableNameLen b = Inr (word_of_nat (length t))
      \<and> get32 HGET_uHashKeyLen b = Inr (word_of_nat (length k))
      \<and> mslice (pvData b) HGET_data (length t) = t
      \<and> mslice (pvData b) (HGET_data + length t) (length k) = k"
proof -
  obtain b where b: "DB_MemoryCreateBuffer mem (word_of_nat (64 + length t + length k)) = Inr b"
      "length (pvData b) = 64 + length t + length k" "length (reserve b) = 8" "m_lRefCount b = 1"
    by (rule fresh_buffer [of "64 + length t + length k" mem]) (use assms in auto)
  note ev = mem_simps msplice_append slice_msplice_inside
  show "\<exists>b. DB_CreateHgetBuffer mem t k = Inr b \<and> length (pvData b) = 64 + length t + length k
      \<and> m_lRefCount b = 1 \<and> length (reserve b) = 8 \<and> get8 HEAD_bAllowRedisNil b = Inr 0
      \<and> get8 TYPE_byType b = Inr (request_code emREQUEST_HGET)
      \<and> get32 HGET_uTableNameLen b = Inr (word_of_nat (length t))
      \<and> get32 HGET_uHashKeyLen b = Inr (word_of_nat (length k))
      \<and> mslice (pvData b) HGET_data (length t) = t
      \<and> mslice (pvData b) (HGET_data + length t) (length k) = k"
    using assms b
    by (simp add: DB_CreateHgetBuffer_def ev del: of_nat_add) (simp add: mslice_def)
  show "\<exists>b. DB_CreateHdelBuffer mem t k = Inr b \<and> length (pvData b) = 64 + length t + length k
      \<and> m_lRefCount b = 1 \<and> length (reserve b) = 8 \<and> get8 HEAD_bAllowRedisNil b = Inr 0
      \<and> get8 TYPE_byType b = Inr (request_code emREQUEST_HDEL)
      \<and> get32 HGET_uTableNameLen b = Inr (word_of_nat (length t))
      \<and> get32 HGET_uHashKeyLen b = Inr (word_of_nat (length k))
      \<and> mslice (pvData b) HGET_data (length t) = t
      \<and> mslice (pvData b) (HGET_data + length t) (length k) = k"
    using assms b
    by (simp add: DB_CreateHdelBuffer_def ev del: of_nat_add) (simp add: mslice_def)
qed

lemma DB_CreateRedisExpireBuffer_ok:
  assumes "length k < 2 ^ 31"
  shows "\<exists>b. DB_CreateRedisExpireBuffer mem k n = Inr b \<and> length (pvData b) = 32 + length k
    \<and> get8 TYPE_byType b = Inr (request_code emREQUEST_AUTO_EXPIRE)
    \<and> get32 EXPIRE_nExpire b = Inr n \<and> mslice (pvData b) EXPIRE_data (length k) = k"
proof -
  obtain b where b: "DB_MemoryCreateBuffer mem (word_of_nat (32 + length k)) = Inr b"
      "length (pvData b) = 32 + length k"
    by (rule fresh_buffer [of "32 + length k" mem]) (use assms in auto)
  show ?thesis
    using assms b by (simp add: DB_CreateRedisExpireBuffer_def mem_simps del: of_nat_add)
qed

text \<open>Labelling a request or a response changes the label and nothing behind it.\<close>

lemma DB_SetBufferHead_seq_ok:
  assumes "40 \<le> length (pvData b)"
  shows "\<exists>b'. DB_SetBufferHead_seq b u e q = Inr b' \<and> length (pvData b') = length (pvData b)
    \<and> get32 HEAD_uUserId b' = Inr u \<and> get32 HEAD_uEventType b' = Inr e \<and> get32 HEAD_uSquenceId b' = Inr q
    \<and> take 28 (pvData b') = take 28 (pvData b) \<and> drop 40 (pvData b') = drop 40 (pvData b)
    \<and> m_lRefCount b' = m_lRefCount b \<and> reserve b' = reserve b"
  using assms
  by (simp add: DB_SetBufferHead_seq_def mem_simps msplice_append slice_msplice_inside)
     (simp add: mslice_def msplice_def)

lemma DB_SetBufferHead_ok:
  assumes "40 \<le> length (pvData b)"
  shows "\<exists>b'. DB_SetBufferHead b u e = Inr b' \<and> length (pvData b') = length (pvData b)
    \<and> get32 HEAD_uUserId b' = Inr u \<and> get32 HEAD_uEventType b' = Inr e
    \<and> get32 HEAD_uSquenceId b' = get32 HEAD_uSquenceId b
    \<and> take 28 (pvData b') = take 28 (pvData b) \<and> drop 40 (pvData b') = drop 40 (pvData b)
    \<and> m_lRefCount b' = m_lRefCount b \<and> reserve b' = reserve b"
  using assms
  by (simp add: DB_SetBufferHead_def mem_simps msplice_append slice_msplice_inside)
     (simp add: mslice_def msplice_def)

section \<open>Properties\<close>

text \<open>C32: the size of a set, get or del request leaves out the table name and the underscore, and
  only the 7 bytes of slack of the structure cover them: building the request overruns the
  heap exactly for table names of more than 7 characters.\<close>

theorem table_name_limit:
  assumes "length t + length k + length v < 2 ^ 31"
  shows "(DB_CreateSetBuffer mem t k v = Inl HeapOverflow \<longleftrightarrow> 7 < length t)
    \<and> (DB_CreateGetBuffer mem t k = Inl HeapOverflow \<longleftrightarrow> 7 < length t)
    \<and> (DB_CreateDelBuffer mem t k = Inl HeapOverflow \<longleftrightarrow> 7 < length t)"
  using assms DB_CreateSetBuffer_ok [of t k v mem] DB_CreateSetBuffer_overflow [of t k v mem]
    key_request_ok [of t k mem] key_request_overflow [of t k mem]
  by (cases "7 < length t") auto

theorem table_name_limit_witness:
  "DB_CreateSetBuffer (\<lambda>_. 0) (ascii ''accounts'') [107] [118] = Inl HeapOverflow
     \<and> DB_CreateGetBuffer (\<lambda>_. 0) (ascii ''user'') [107] \<noteq> Inl HeapOverflow"
  using table_name_limit [of "ascii ''accounts''" "[107]" "[118]" "\<lambda>_. 0"]
    table_name_limit [of "ascii ''user''" "[107]" "[118]" "\<lambda>_. 0"] by simp

end
