(* ===== verification/DbClient.thy ===== *)
theory DbClient
  imports DbRequest
begin

text \<open>
  \<^verbatim>\<open>KDBClient\<close> of \<^verbatim>\<open>db_proxy/db_client.cpp\<close>: two queues of reference-counted buffers between the
  game thread and the worker thread of a database client, the loop of the worker and the
  loop the game thread drains the responses with. \<open>kg_heap\<close> has the live buffers. The
  mutex makes each queue operation one step. What a subclass does with a request or
  a response is an argument; the contract it has to keep is a locale.
\<close>

section \<open>State\<close>

text \<open>A buffer pointer is an address in \<open>kg_heap\<close>.\<close>

type_synonym buffer_ref = nat

record db_client =
  m_bDatabaseLost :: bool
  m_bRunFlag :: bool
  m_uSleepTime :: u32
  m_uPingTime :: u64
  m_bMysql :: bool
  m_RequestQueue :: "buffer_ref list"
  m_RespondQueue :: "buffer_ref list"
  kg_heap :: "buffer_ref \<rightharpoonup> kg_buffer"

definition KD_PING_INTERVAL :: u64 where "KD_PING_INTERVAL = 3600 * 1000"

definition KDBClient_new :: "(buffer_ref \<rightharpoonup> kg_buffer) \<Rightarrow> db_client" where
  "KDBClient_new h =
     \<lparr>m_bDatabaseLost = True, m_bRunFlag = False, m_uSleepTime = 5, m_uPingTime = 0, m_bMysql = False,
      m_RequestQueue = [], m_RespondQueue = [], kg_heap = h\<rparr>"

section \<open>Buffers through pointers\<close>

definition heap_get :: "buffer_ref \<Rightarrow> 's db_client_scheme \<Rightarrow> kg_buffer res" where
  "heap_get p c = (case kg_heap c p of None \<Rightarrow> Inl UseAfterFree | Some b \<Rightarrow> Inr b)"

definition heap_set :: "buffer_ref \<Rightarrow> kg_buffer option \<Rightarrow> 's db_client_scheme \<Rightarrow> 's db_client_scheme" where
  "heap_set p b c = c\<lparr>kg_heap := (kg_heap c)(p := b)\<rparr>"

definition AddRef :: "buffer_ref \<Rightarrow> 's db_client_scheme \<Rightarrow> 's db_client_scheme res" where
  "AddRef p c = bind_res (heap_get p c) (\<lambda>b. Inr (heap_set p (Some (snd (KG_Buffer_AddRef b))) c))"

text \<open>\<^verbatim>\<open>SAFE_RELEASE(p)\<close>; the caller's pointer is \<open>NULL\<close> afterwards.\<close>

definition SAFE_RELEASE :: "buffer_ref option \<Rightarrow> 's db_client_scheme \<Rightarrow> 's db_client_scheme res" where
  "SAFE_RELEASE pBuffer c =
     (case pBuffer of
        None \<Rightarrow> Inr c
      | Some p \<Rightarrow>
          bind_res (heap_get p c) (\<lambda>b.
          case KG_Buffer_Release b of (_, b', _) \<Rightarrow> Inr (heap_set p b' c)))"

section \<open>Operations\<close>

definition SetMySQLFlag :: "bool \<Rightarrow> 's db_client_scheme \<Rightarrow> 's db_client_scheme" where
  "SetMySQLFlag bMySQL c = c\<lparr>m_bMysql := bMySQL\<rparr>"

definition SetRunFlag :: "bool \<Rightarrow> 's db_client_scheme \<Rightarrow> 's db_client_scheme" where
  "SetRunFlag bRun c = c\<lparr>m_bRunFlag := bRun\<rparr>"

definition IsOpen :: "'s db_client_scheme \<Rightarrow> bool" where
  "IsOpen c \<longleftrightarrow> \<not> m_bDatabaseLost c"

definition GetNetPacketReserved :: nat where
  "GetNetPacketReserved = 0"

definition PushRequest :: "buffer_ref option \<Rightarrow> 's db_client_scheme \<Rightarrow> 's db_client_scheme res" where
  "PushRequest pBuffer c =
     (case pBuffer of
        None \<Rightarrow> Inr c
      | Some p \<Rightarrow> bind_res (AddRef p c) (\<lambda>c. Inr (c\<lparr>m_RequestQueue := m_RequestQueue c @ [p]\<rparr>)))"

definition PopRequest :: "'s db_client_scheme \<Rightarrow> buffer_ref option \<times> 's db_client_scheme" where
  "PopRequest c =
     (case m_RequestQueue c of
        [] \<Rightarrow> (None, c)
      | p # q \<Rightarrow> (Some p, c\<lparr>m_RequestQueue := q\<rparr>))"

definition PushRespond :: "buffer_ref option \<Rightarrow> 's db_client_scheme \<Rightarrow> 's db_client_scheme res" where
  "PushRespond pBuffer c =
     (case pBuffer of
        None \<Rightarrow> Inr c
      | Some p \<Rightarrow> bind_res (AddRef p c) (\<lambda>c. Inr (c\<lparr>m_RespondQueue := m_RespondQueue c @ [p]\<rparr>)))"

definition PopRespond :: "'s db_client_scheme \<Rightarrow> buffer_ref option \<times> 's db_client_scheme" where
  "PopRespond c =
     (case m_RespondQueue c of
        [] \<Rightarrow> (None, c)
      | p # q \<Rightarrow> (Some p, c\<lparr>m_RespondQueue := q\<rparr>))"

text \<open>
  The loop of \<^verbatim>\<open>DBThreadActivate\<close> with its variable \<open>pPackage\<close>. One unit of fuel is one
  round; a queue of \<open>n\<close> requests takes \<open>n + 1\<close> rounds.
\<close>

fun worker_loop ::
  "(buffer_ref \<Rightarrow> 's db_client_scheme \<Rightarrow> 's db_client_scheme res) \<Rightarrow> nat \<Rightarrow> buffer_ref option
     \<Rightarrow> 's db_client_scheme \<Rightarrow> 's db_client_scheme res" where
  "worker_loop OnRequest 0 pPackage c = Inl OutOfFuel"
| "worker_loop OnRequest (Suc fuel) pPackage c =
     (if IsOpen c then
        bind_res (SAFE_RELEASE pPackage c) (\<lambda>c.
        case PopRequest c of
          (None, c) \<Rightarrow> Inr c
        | (Some p, c) \<Rightarrow> bind_res (OnRequest p c) (worker_loop OnRequest fuel (Some p)))
      else SAFE_RELEASE pPackage c)"

definition DBThreadActivate ::
  "(buffer_ref \<Rightarrow> 's db_client_scheme \<Rightarrow> 's db_client_scheme res)
     \<Rightarrow> ('s db_client_scheme \<Rightarrow> 's db_client_scheme) \<Rightarrow> nat
     \<Rightarrow> 's db_client_scheme \<Rightarrow> 's db_client_scheme res" where
  "DBThreadActivate OnRequest Ping fuel c =
     bind_res (worker_loop OnRequest fuel None c) (\<lambda>c.
     Inr (if m_uPingTime c > KD_PING_INTERVAL then (Ping c)\<lparr>m_uPingTime := 0\<rparr> else c))"

text \<open>\<^verbatim>\<open>ThreadFunction\<close>: one round of its loop, and what it does after the run flag is cleared.\<close>

definition ThreadFunction_round ::
  "(buffer_ref \<Rightarrow> 's db_client_scheme \<Rightarrow> 's db_client_scheme res)
     \<Rightarrow> ('s db_client_scheme \<Rightarrow> 's db_client_scheme) \<Rightarrow> nat
     \<Rightarrow> 's db_client_scheme \<Rightarrow> 's db_client_scheme res" where
  "ThreadFunction_round OnRequest Ping fuel c =
     (if m_bRunFlag c then
        bind_res (DBThreadActivate OnRequest Ping fuel c) (\<lambda>c.
        Inr (c\<lparr>m_uPingTime := m_uPingTime c + ucast (m_uSleepTime c)\<rparr>))
      else if \<not> m_bDatabaseLost c then DBThreadActivate OnRequest Ping fuel c
      else Inr c)"

fun activate_loop ::
  "(buffer_ref \<Rightarrow> 's db_client_scheme \<Rightarrow> 's db_client_scheme res) \<Rightarrow> nat \<Rightarrow> buffer_ref option
     \<Rightarrow> 's db_client_scheme \<Rightarrow> 's db_client_scheme res" where
  "activate_loop OnResponsed 0 pPackage c = Inl OutOfFuel"
| "activate_loop OnResponsed (Suc fuel) pPackage c =
     bind_res (SAFE_RELEASE pPackage c) (\<lambda>c.
     case PopRespond c of
       (None, c) \<Rightarrow> Inr c
     | (Some p, c) \<Rightarrow> bind_res (OnResponsed p c) (activate_loop OnResponsed fuel (Some p)))"

definition Activate ::
  "(buffer_ref \<Rightarrow> 's db_client_scheme \<Rightarrow> 's db_client_scheme res) \<Rightarrow> nat
     \<Rightarrow> 's db_client_scheme \<Rightarrow> 's db_client_scheme res" where
  "Activate OnResponsed fuel c = activate_loop OnResponsed fuel None c"

text \<open>\<^verbatim>\<open>UnInit\<close> after the worker thread has ended: both queues are released.\<close>

fun release_all :: "buffer_ref list \<Rightarrow> 's db_client_scheme \<Rightarrow> 's db_client_scheme res" where
  "release_all [] c = Inr c"
| "release_all (p # ps) c = bind_res (SAFE_RELEASE (Some p) c) (release_all ps)"

definition UnInit :: "'s db_client_scheme \<Rightarrow> 's db_client_scheme res" where
  "UnInit c =
     bind_res (release_all (m_RequestQueue c) (SetRunFlag False c)) (\<lambda>c.
     let c = c\<lparr>m_RequestQueue := []\<rparr> in
     bind_res (release_all (m_RespondQueue c) c) (\<lambda>c. Inr (c\<lparr>m_RespondQueue := []\<rparr>)))"

section \<open>Starting\<close>

text \<open>
  \<^verbatim>\<open>KConnectInfo\<close> is packed: the port, then 46 bytes for the host, 63 for the user and 64 for
  the password. A text that does not fit its array runs into the next one. \<open>KConnectInfo_fill\<close>
  is what the \<^verbatim>\<open>Init\<close> functions of the clients do with a new object; the redis client
  leaves user and password alone.
\<close>

type_synonym connect_info = bytes

definition INFO_szHost :: nat where "INFO_szHost = 4"
definition INFO_szUser :: nat where "INFO_szUser = 50"
definition INFO_szPwd :: nat where "INFO_szPwd = 113"
definition SIZEOF_KConnectInfo :: nat where "SIZEOF_KConnectInfo = 177"

lemmas connect_info_layout [simp] =
  INFO_szHost_def INFO_szUser_def INFO_szPwd_def SIZEOF_KConnectInfo_def

definition KConnectInfo_new :: "junk \<Rightarrow> connect_info res" where
  "KConnectInfo_new mem =
     bind_res (mem_write (fresh_block mem SIZEOF_KConnectInfo) 0 (enc32 0)) (\<lambda>b.
     bind_res (mem_write b (INFO_szHost + 45) [0]) (\<lambda>b.
     bind_res (mem_write b (INFO_szUser + 62) [0]) (\<lambda>b.
     mem_write b (INFO_szPwd + 63) [0])))"

definition copy_text :: "nat \<Rightarrow> bytes option \<Rightarrow> connect_info \<Rightarrow> connect_info res" where
  "copy_text off s b = (case s of None \<Rightarrow> Inr b | Some s \<Rightarrow> mem_write b off s)"

definition end_text :: "nat \<Rightarrow> bytes option \<Rightarrow> connect_info \<Rightarrow> connect_info res" where
  "end_text off s b = (case s of None \<Rightarrow> Inr b | Some s \<Rightarrow> mem_write b (off + length s) [0])"

definition KConnectInfo_fill ::
  "junk \<Rightarrow> bytes \<Rightarrow> u32 \<Rightarrow> bytes option \<Rightarrow> bytes option \<Rightarrow> connect_info res" where
  "KConnectInfo_fill mem sz_ip port sz_user sz_password =
     bind_res (KConnectInfo_new mem) (\<lambda>b.
     bind_res (mem_write b 0 (enc32 port)) (\<lambda>b.
     bind_res (copy_text INFO_szHost (Some sz_ip) b) (\<lambda>b.
     bind_res (copy_text INFO_szUser sz_user b) (\<lambda>b.
     bind_res (copy_text INFO_szPwd sz_password b) (\<lambda>b.
     bind_res (end_text INFO_szHost (Some sz_ip) b) (\<lambda>b.
     bind_res (end_text INFO_szUser sz_user b) (end_text INFO_szPwd sz_password)))))))"

definition szHost :: "connect_info \<Rightarrow> bytes res" where "szHost b = c_string (drop INFO_szHost b)"
definition szUser :: "connect_info \<Rightarrow> bytes res" where "szUser b = c_string (drop INFO_szUser b)"
definition szPwd :: "connect_info \<Rightarrow> bytes res" where "szPwd b = c_string (drop INFO_szPwd b)"

text \<open>\<open>thread_started\<close> is what \<^verbatim>\<open>pthread_create\<close> answers.\<close>

definition KDBClient_Init ::
  "('s db_client_scheme \<Rightarrow> (bool \<times> 's db_client_scheme) res) \<Rightarrow> bool \<Rightarrow> bool
     \<Rightarrow> 's db_client_scheme \<Rightarrow> (bool \<times> 's db_client_scheme) res" where
  "KDBClient_Init ConnectDB thread_started bMySQL c =
     bind_res (ConnectDB (SetMySQLFlag bMySQL c)) (\<lambda>(bRet, c).
     if \<not> bRet then Inr (False, c)
     else
       let c = SetRunFlag True c in
       if thread_started then Inr (True, c) else Inr (False, SetRunFlag False c))"

section \<open>First in, first out\<close>

text \<open>
  The contract of a queue used by two threads, and what it gives for every interleaving:
  an action is a push by one thread or a pop by the other.
\<close>

datatype queue_action = QPush buffer_ref | QPop

locale fifo =
  fixes push :: "buffer_ref \<Rightarrow> 's \<Rightarrow> 's res"
    and pop :: "'s \<Rightarrow> buffer_ref option \<times> 's"
    and view :: "'s \<Rightarrow> buffer_ref list"
  assumes push_view: "push p s = Inr s' \<Longrightarrow> view s' = view s @ [p]"
    and pop_empty: "view s = [] \<Longrightarrow> pop s = (None, s)"
    and pop_view: "view s = p # q \<Longrightarrow> \<exists>s'. pop s = (Some p, s') \<and> view s' = q"

fun run_queue ::
  "(buffer_ref \<Rightarrow> 's \<Rightarrow> 's res) \<Rightarrow> ('s \<Rightarrow> buffer_ref option \<times> 's) \<Rightarrow> queue_action list \<Rightarrow> 's
     \<Rightarrow> (buffer_ref list \<times> 's) res" where
  "run_queue push pop [] s = Inr ([], s)"
| "run_queue push pop (QPush p # as) s = bind_res (push p s) (run_queue push pop as)"
| "run_queue push pop (QPop # as) s =
     (case pop s of
        (None, s) \<Rightarrow> run_queue push pop as s
      | (Some p, s) \<Rightarrow> bind_res (run_queue push pop as s) (\<lambda>(ps, s). Inr (p # ps, s)))"

fun pushed :: "queue_action list \<Rightarrow> buffer_ref list" where
  "pushed [] = []"
| "pushed (QPush p # as) = p # pushed as"
| "pushed (QPop # as) = pushed as"

context fifo
begin

lemma run_fifo:
  "run_queue push pop as s = Inr (popped, s') \<Longrightarrow> popped @ view s' = view s @ pushed as"
proof (induction as arbitrary: s popped)
  case (Cons a as)
  show ?case
  proof (cases a)
    case (QPush p)
    then obtain s1 where "push p s = Inr s1" "run_queue push pop as s1 = Inr (popped, s')"
      using Cons.prems by (auto simp: bind_res_eq_Inr)
    then show ?thesis using Cons.IH push_view QPush by fastforce
  next
    case QPop
    show ?thesis
    proof (cases "view s")
      case Nil
      then show ?thesis using Cons QPop pop_empty by simp
    next
      case (Cons p q)
      then obtain s1 where "pop s = (Some p, s1)" "view s1 = q" using pop_view by blast
      then show ?thesis
        using Cons.prems Cons.IH QPop Cons by (auto simp: bind_res_eq_Inr)
    qed
  qed
qed simp

end

lemma AddRef_queues:
  "AddRef p c = Inr c' \<Longrightarrow> m_RequestQueue c' = m_RequestQueue c \<and> m_RespondQueue c' = m_RespondQueue c"
  by (auto simp: AddRef_def bind_res_eq_Inr heap_set_def)

interpretation requests: fifo "\<lambda>p. PushRequest (Some p)" PopRequest m_RequestQueue
  by unfold_locales
     (auto simp: PushRequest_def PopRequest_def bind_res_eq_Inr dest: AddRef_queues)

interpretation responses: fifo "\<lambda>p. PushRespond (Some p)" PopRespond m_RespondQueue
  by unfold_locales
     (auto simp: PushRespond_def PopRespond_def bind_res_eq_Inr dest: AddRef_queues)

section \<open>What the worker does\<close>

text \<open>The requests of a list handled one after the other, each released after its handler.\<close>

fun handle_all ::
  "(buffer_ref \<Rightarrow> 's db_client_scheme \<Rightarrow> 's db_client_scheme res) \<Rightarrow> buffer_ref list
     \<Rightarrow> 's db_client_scheme \<Rightarrow> 's db_client_scheme res" where
  "handle_all OnRequest [] c = Inr c"
| "handle_all OnRequest (p # ps) c =
     bind_res (OnRequest p c) (\<lambda>c. bind_res (SAFE_RELEASE (Some p) c) (handle_all OnRequest ps))"

lemma SAFE_RELEASE_Some:
  "SAFE_RELEASE (Some p) c =
     (case kg_heap c p of
        None \<Rightarrow> Inl UseAfterFree
      | Some b \<Rightarrow> Inr (heap_set p (fst (snd (KG_Buffer_Release b))) c))"
  by (simp add: SAFE_RELEASE_def heap_get_def split: option.split prod.split)

lemma SAFE_RELEASE_queue:
  "SAFE_RELEASE pp (c\<lparr>m_RequestQueue := q\<rparr>) =
     bind_res (SAFE_RELEASE pp c) (\<lambda>c. Inr (c\<lparr>m_RequestQueue := q\<rparr>))"
  by (cases pp) (simp_all add: SAFE_RELEASE_Some heap_set_def split: option.split, simp add: SAFE_RELEASE_def)

lemma SAFE_RELEASE_frame:
  "SAFE_RELEASE pp c = Inr c' \<Longrightarrow> m_RequestQueue c' = m_RequestQueue c
     \<and> m_RespondQueue c' = m_RespondQueue c \<and> IsOpen c' = IsOpen c"
  by (cases pp) (auto simp: SAFE_RELEASE_Some heap_set_def IsOpen_def split: option.splits,
    auto simp: SAFE_RELEASE_def)

text \<open>
  The contract of a subclass: a handler neither looks at nor changes the queue it was
  popped from, and leaves the client open when it returns.
\<close>

locale db_worker =
  fixes OnRequest :: "buffer_ref \<Rightarrow> 's db_client_scheme \<Rightarrow> 's db_client_scheme res"
  assumes frame: "OnRequest p (c\<lparr>m_RequestQueue := q\<rparr>) =
      bind_res (OnRequest p c) (\<lambda>c'. Inr (c'\<lparr>m_RequestQueue := q\<rparr>))"
    and stays_open: "IsOpen c \<Longrightarrow> OnRequest p c = Inr c' \<Longrightarrow> IsOpen c'"
begin

lemma drains_from:
  "IsOpen c \<Longrightarrow> length (m_RequestQueue c) < fuel \<Longrightarrow>
     worker_loop OnRequest fuel pp c =
       bind_res (SAFE_RELEASE pp c) (\<lambda>c. handle_all OnRequest (m_RequestQueue c) (c\<lparr>m_RequestQueue := []\<rparr>))"
proof (induction fuel arbitrary: pp c)
  case (Suc fuel)
  show ?case
  proof (cases "SAFE_RELEASE pp c")
    case (Inr c1)
    note k = SAFE_RELEASE_frame [OF Inr]
    show ?thesis
    proof (cases "m_RequestQueue c1")
      case Nil
      then show ?thesis using Suc.prems Inr by (simp add: PopRequest_def)
    next
      case (Cons p q)
      have "worker_loop OnRequest (Suc fuel) pp c =
          bind_res (OnRequest p (c1\<lparr>m_RequestQueue := q\<rparr>)) (worker_loop OnRequest fuel (Some p))"
        using Suc.prems Inr Cons by (simp add: PopRequest_def)
      also have "\<dots> = bind_res (OnRequest p c1) (\<lambda>c'.
          worker_loop OnRequest fuel (Some p) (c'\<lparr>m_RequestQueue := q\<rparr>))"
        by (simp add: frame [where c = c1 and q = q] bind_res_assoc)
      also have "\<dots> = bind_res (OnRequest p c1) (\<lambda>c'.
          bind_res (SAFE_RELEASE (Some p) c') (\<lambda>c'. handle_all OnRequest q (c'\<lparr>m_RequestQueue := []\<rparr>)))"
      proof (rule bind_res_cong [OF refl])
        fix c' assume r: "OnRequest p c1 = Inr c'"
        have "IsOpen c'" using stays_open [OF _ r] k Suc.prems by simp
        then show "worker_loop OnRequest fuel (Some p) (c'\<lparr>m_RequestQueue := q\<rparr>) =
            bind_res (SAFE_RELEASE (Some p) c') (\<lambda>c'. handle_all OnRequest q (c'\<lparr>m_RequestQueue := []\<rparr>))"
          using Suc.prems Suc.IH [of "c'\<lparr>m_RequestQueue := q\<rparr>" "Some p"] Cons k
          by (simp add: IsOpen_def SAFE_RELEASE_queue bind_res_assoc)
      qed
      also have "\<dots> = handle_all OnRequest (p # q) (c1\<lparr>m_RequestQueue := []\<rparr>)"
        by (simp add: frame [where c = c1 and q = "[]"] bind_res_assoc SAFE_RELEASE_queue)
      finally show ?thesis using Inr Cons by simp
    qed
  qed (use Suc.prems in simp)
qed simp

lemma drains:
  "IsOpen c \<Longrightarrow> length (m_RequestQueue c) < fuel \<Longrightarrow>
     worker_loop OnRequest fuel None c =
       handle_all OnRequest (m_RequestQueue c) (c\<lparr>m_RequestQueue := []\<rparr>)"
  by (simp add: drains_from) (simp add: SAFE_RELEASE_def)

end

section \<open>Properties\<close>

text \<open>Both queues are first in, first out for every interleaving of the pushes of one thread
  with the pops of the other: what has been popped, followed by what is still queued, is
  what was queued, followed by what has been pushed.\<close>

lemma queues_are_fifo:
  assumes "run_queue (\<lambda>p. PushRequest (Some p)) PopRequest as c = Inr (popped, c')"
    and "run_queue (\<lambda>p. PushRespond (Some p)) PopRespond bs d = Inr (popped', d')"
  shows "popped @ m_RequestQueue c' = m_RequestQueue c @ pushed as
    \<and> popped' @ m_RespondQueue d' = m_RespondQueue d @ pushed bs"
  using requests.run_fifo [OF assms(1)] responses.run_fifo [OF assms(2)] by simp_all

lemma queues_are_fifo_witness:
  "let b = \<lparr>m_lRefCount = 1, m_uOriginSize = 0, m_uSize = 0, reserve = [], pvData = []\<rparr>;
       c = KDBClient_new [1 \<mapsto> b, 2 \<mapsto> b];
       as = [QPop, QPush 1, QPush 2, QPop] in
     (\<exists>c'. run_queue (\<lambda>p. PushRequest (Some p)) PopRequest as c = Inr ([1], c') \<and> m_RequestQueue c' = [2])
   \<and> (\<exists>c'. run_queue (\<lambda>p. PushRespond (Some p)) PopRespond as c = Inr ([1], c') \<and> m_RespondQueue c' = [2])"
proof -
  define b where "b = \<lparr>m_lRefCount = 1, m_uOriginSize = 0, m_uSize = 0, reserve = [], pvData = []\<rparr>"
  define c where "c = KDBClient_new [1 \<mapsto> b, 2 \<mapsto> b]"
  define as where "as = [QPop, QPush 1, QPush 2, QPop]"
  note ev = as_def c_def KDBClient_new_def PushRequest_def PopRequest_def PushRespond_def PopRespond_def
    AddRef_def heap_get_def heap_set_def
  obtain c1 where 1: "run_queue (\<lambda>p. PushRequest (Some p)) PopRequest as c = Inr ([1], c1)"
    by (simp add: ev)
  obtain c2 where 2: "run_queue (\<lambda>p. PushRespond (Some p)) PopRespond as c = Inr ([1], c2)"
    by (simp add: ev)
  show ?thesis
    using queues_are_fifo [OF 1 2] 1 2
    unfolding Let_def b_def [symmetric] c_def [symmetric] as_def [symmetric]
    by (simp add: as_def c_def KDBClient_new_def)
qed

end
