(* ===== verification/RedisClient.thy ===== *)
theory RedisClient
  imports DbClient
begin

text \<open>
  \<^verbatim>\<open>KRedisClient\<close> of \<^verbatim>\<open>db_proxy/redis_client.cpp\<close>: it turns requests into redis commands,
  copies the changes for the mysql client, and turns replies into responses for the
  game thread, which hands them to the script (\<^verbatim>\<open>GameLogicServer::OnDBResponse\<close>,
  \<^verbatim>\<open>LuaEngine::RedisCallLua\<close>). The hiredis library, the allocator, the clock and the
  script are arguments.
\<close>

section \<open>What is outside: hiredis, malloc, the mysql query\<close>

datatype redis_reply =
    ReplyString bytes
  | ReplyArray "redis_reply list"
  | ReplyInteger u64
  | ReplyNil
  | ReplyStatus bytes
  | ReplyError bytes

text \<open>The fields \<^verbatim>\<open>type\<close>, \<^verbatim>\<open>len\<close> (0 unless there is text), \<^verbatim>\<open>str\<close> and \<^verbatim>\<open>elements\<close> of a \<^verbatim>\<open>redisReply\<close>.\<close>

fun reply_type :: "redis_reply \<Rightarrow> nat" where
  "reply_type (ReplyString s) = 1"
| "reply_type (ReplyArray rs) = 2"
| "reply_type (ReplyInteger n) = 3"
| "reply_type ReplyNil = 4"
| "reply_type (ReplyStatus s) = 5"
| "reply_type (ReplyError s) = 6"

fun reply_str :: "redis_reply \<Rightarrow> bytes" where
  "reply_str (ReplyString s) = s"
| "reply_str (ReplyStatus s) = s"
| "reply_str (ReplyError s) = s"
| "reply_str _ = []"

fun reply_element :: "redis_reply \<Rightarrow> redis_reply list" where
  "reply_element (ReplyArray rs) = rs"
| "reply_element _ = []"

definition REDIS_REPLY_STRING :: nat where "REDIS_REPLY_STRING = 1"
definition REDIS_REPLY_ARRAY :: nat where "REDIS_REPLY_ARRAY = 2"
definition REDIS_REPLY_NIL :: nat where "REDIS_REPLY_NIL = 4"
definition REDIS_REPLY_ERROR :: nat where "REDIS_REPLY_ERROR = 6"

lemmas reply_types [simp] =
  REDIS_REPLY_STRING_def REDIS_REPLY_ARRAY_def REDIS_REPLY_NIL_def REDIS_REPLY_ERROR_def

text \<open>The variable arguments of a command: \<^verbatim>\<open>%b\<close>, \<^verbatim>\<open>%s\<close>, \<^verbatim>\<open>%d\<close>; a connection is named by its address.\<close>

datatype redis_arg = ArgB bytes | ArgS bytes | ArgD u32

type_synonym redis_context = nat

datatype redis_call =
    Command redis_context bytes "redis_arg list"
  | Connect nat
  | Free redis_context

datatype connect_result = ConnectNull | ConnectErr redis_context | ConnectOk redis_context

text \<open>
  The environment sees the calls made so far, the last one being the one it answers.
  \<open>redisvCommand\<close> gives the reply, \<open>None\<close> for \<^verbatim>\<open>NULL\<close>, and whether \<^verbatim>\<open>err\<close> of the context is
  \<^verbatim>\<open>REDIS_ERR_IO\<close> afterwards. \<open>va_next\<close> is what a \<^verbatim>\<open>va_list\<close> gives that has been used up by
  an earlier attempt. \<open>mysql_query\<close> is \<^verbatim>\<open>KMysqlClient::OnRequestQuery\<close>.
\<close>

record redis_env =
  redisvCommand :: "redis_call list \<Rightarrow> redis_reply option \<times> bool"
  redisConnect :: "redis_call list \<Rightarrow> connect_result"
  va_next :: "nat \<Rightarrow> redis_arg list"
  elapsed :: "redis_call list \<Rightarrow> u32"
  malloc :: "(buffer_ref \<rightharpoonup> kg_buffer) \<Rightarrow> buffer_ref"
  malloc_mem :: "(buffer_ref \<rightharpoonup> kg_buffer) \<Rightarrow> junk"
  mysql_query :: "kg_buffer \<Rightarrow> kg_buffer option"
  command_fuel :: nat

section \<open>State\<close>

text \<open>
  \<open>hiredis_calls\<close> is the history of the environment; \<open>m_vecMysqlClients\<close> has the request queue
  of each mysql client, all that this client touches of \<^verbatim>\<open>g_pDBClientMgr\<close>.
\<close>

record redis_client = db_client +
  m_vecRedisContext :: "redis_context option list"
  m_nQueryCount :: u32
  m_ulAverageUSec :: u64
  hiredis_calls :: "redis_call list"
  m_vecMysqlClients :: "buffer_ref list list"

definition RESPOND_FLAG_COMMON :: byte where "RESPOND_FLAG_COMMON = 1"
definition RESPOND_FLAG_NET_FULL :: byte where "RESPOND_FLAG_NET_FULL = 2"
definition RESPOND_FLAG_NET_PART1 :: byte where "RESPOND_FLAG_NET_PART1 = 3"
definition RESPOND_FLAG_NET_PART2 :: byte where "RESPOND_FLAG_NET_PART2 = 4"
definition DB_FLAG_REDIS :: byte where "DB_FLAG_REDIS = 1"
definition DB_WAIT_FLAG_REDIS :: byte where "DB_WAIT_FLAG_REDIS = 4"
definition PROXY2DRIVE_DATA_GETS :: byte where "PROXY2DRIVE_DATA_GETS = 6"

lemmas redis_flags [simp] =
  RESPOND_FLAG_COMMON_def RESPOND_FLAG_NET_FULL_def RESPOND_FLAG_NET_PART1_def RESPOND_FLAG_NET_PART2_def
  DB_FLAG_REDIS_def DB_WAIT_FLAG_REDIS_def PROXY2DRIVE_DATA_GETS_def

text \<open>\<^verbatim>\<open>DB_MemoryCreateBuffer\<close> on the heap, and a change of a buffer through its pointer.\<close>

definition NewBuffer :: "redis_env \<Rightarrow> u32 \<Rightarrow> 's db_client_scheme \<Rightarrow> (buffer_ref \<times> 's db_client_scheme) res" where
  "NewBuffer env uSize c =
     bind_res (DB_MemoryCreateBuffer (malloc_mem env (kg_heap c)) uSize) (\<lambda>b.
     Inr (malloc env (kg_heap c), heap_set (malloc env (kg_heap c)) (Some b) c))"

definition on_buffer ::
  "buffer_ref \<Rightarrow> (kg_buffer \<Rightarrow> kg_buffer res) \<Rightarrow> 's db_client_scheme \<Rightarrow> 's db_client_scheme res" where
  "on_buffer p f c = bind_res (heap_get p c) (\<lambda>b. bind_res (f b) (\<lambda>b. Inr (heap_set p (Some b) c)))"

text \<open>A write into the reserved bytes in front of the data: \<^verbatim>\<open>(char*)GetData() - (8 - off)\<close>.\<close>

definition put_reserve :: "nat \<Rightarrow> bytes \<Rightarrow> kg_buffer \<Rightarrow> kg_buffer res" where
  "put_reserve off bs b = bind_res (mem_write (reserve b) off bs) (\<lambda>r. Inr (b\<lparr>reserve := r\<rparr>))"

section \<open>Connections and commands\<close>

definition log_call :: "redis_call \<Rightarrow> 's redis_client_scheme \<Rightarrow> 's redis_client_scheme" where
  "log_call k c = c\<lparr>hiredis_calls := hiredis_calls c @ [k]\<rparr>"

definition context_at :: "nat \<Rightarrow> 's redis_client_scheme \<Rightarrow> redis_context option res" where
  "context_at nIndex c =
     (if nIndex < length (m_vecRedisContext c) then Inr (m_vecRedisContext c ! nIndex) else Inl OutOfBoundsRead)"

definition set_context :: "nat \<Rightarrow> redis_context option \<Rightarrow> 's redis_client_scheme \<Rightarrow> 's redis_client_scheme" where
  "set_context nIndex x c = c\<lparr>m_vecRedisContext := (m_vecRedisContext c)[nIndex := x]\<rparr>"

text \<open>
  \<^verbatim>\<open>Reconnect\<close>: the loop runs once, its checks are commented out. The result is the value
  returned and the state.
\<close>

definition Redis_Reconnect ::
  "redis_env \<Rightarrow> nat \<Rightarrow> 's redis_client_scheme \<Rightarrow> (bool \<times> 's redis_client_scheme) res" where
  "Redis_Reconnect env nIndex c =
     bind_res (context_at nIndex c) (\<lambda>pRedisContext.
     let c = (case pRedisContext of
                None \<Rightarrow> c
              | Some ctx \<Rightarrow> set_context nIndex None (log_call (Free ctx) c));
         c = log_call (Connect nIndex) c in
     case redisConnect env (hiredis_calls c) of
       ConnectNull \<Rightarrow> Inl NullDeref
     | ConnectErr ctx \<Rightarrow>
         let c = (set_context nIndex None (log_call (Free ctx) c))\<lparr>m_bDatabaseLost := False\<rparr>
         in Inr (\<not> m_bDatabaseLost c, c)
     | ConnectOk ctx \<Rightarrow>
         let c = (set_context nIndex (Some ctx) c)\<lparr>m_bDatabaseLost := False\<rparr>
         in Inr (\<not> m_bDatabaseLost c, c))"

text \<open>
  The loop of \<^verbatim>\<open>RedisCommand\<close>: \<open>attempt\<close> counts the calls, and all but the first read the
  used \<^verbatim>\<open>va_list\<close>. hiredis reads through the context it is given.
\<close>

fun command_loop ::
  "redis_env \<Rightarrow> nat \<Rightarrow> nat \<Rightarrow> bytes \<Rightarrow> redis_arg list \<Rightarrow> nat \<Rightarrow> nat \<Rightarrow> redis_context option
     \<Rightarrow> 's redis_client_scheme \<Rightarrow> (redis_reply option \<times> 's redis_client_scheme) res" where
  "command_loop env 0 nIndex format ap attempt nIOTryp pRedisContext c = Inl OutOfFuel"
| "command_loop env (Suc fuel) nIndex format ap attempt nIOTryp pRedisContext c =
     bind_res (deref pRedisContext) (\<lambda>ctx.
     let c = log_call (Command ctx format (if attempt = 0 then ap else va_next env attempt)) c in
     case redisvCommand env (hiredis_calls c) of
       (None, err) \<Rightarrow>
         bind_res (Redis_Reconnect env nIndex (c\<lparr>m_bDatabaseLost := True\<rparr>)) (\<lambda>(bRet, c).
         if bRet then
           bind_res (context_at nIndex c) (\<lambda>pRedisContext.
           command_loop env fuel nIndex format ap (Suc attempt) nIOTryp pRedisContext c)
         else Inl (ProcessExit 0))
     | (Some pReply, err) \<Rightarrow>
         if reply_type pReply = REDIS_REPLY_ERROR \<and> err \<and> nIOTryp < 5 then
           command_loop env fuel nIndex format ap (Suc attempt) (Suc nIOTryp) pRedisContext c
         else Inr (Some pReply, c))"

definition RedisCommand ::
  "redis_env \<Rightarrow> nat \<Rightarrow> bytes \<Rightarrow> redis_arg list \<Rightarrow> 's redis_client_scheme
     \<Rightarrow> (redis_reply option \<times> 's redis_client_scheme) res" where
  "RedisCommand env nIndex format ap c =
     (let c = c\<lparr>m_nQueryCount := m_nQueryCount c + 1\<rparr> in
      bind_res (context_at nIndex c) (\<lambda>pRedisContext.
      bind_res (command_loop env (command_fuel env) nIndex format ap 0 0 pRedisContext c) (\<lambda>(pReply, c).
      Inr (pReply, c\<lparr>m_ulAverageUSec := m_ulAverageUSec c + ucast (elapsed env (hiredis_calls c))\<rparr>))))"

text \<open>\<^verbatim>\<open>ConnectDB\<close>; \<open>n\<close> is the number of connections it opens. A failed one closes them all.\<close>

definition Redis_CloseAll :: "'s redis_client_scheme \<Rightarrow> 's redis_client_scheme" where
  "Redis_CloseAll c =
     (fold (\<lambda>ctx. case ctx of None \<Rightarrow> id | Some ctx \<Rightarrow> log_call (Free ctx)) (m_vecRedisContext c) c)
       \<lparr>m_vecRedisContext := []\<rparr>"

fun connect_loop :: "redis_env \<Rightarrow> nat \<Rightarrow> nat \<Rightarrow> 's redis_client_scheme \<Rightarrow> bool \<times> 's redis_client_scheme" where
  "connect_loop env i 0 c = (True, c\<lparr>m_bDatabaseLost := False\<rparr>)"
| "connect_loop env i (Suc n) c =
     (let c = log_call (Connect i) c in
      case redisConnect env (hiredis_calls c) of
        ConnectErr ctx \<Rightarrow> (False, Redis_CloseAll (log_call (Free ctx) c))
      | ConnectNull \<Rightarrow> connect_loop env (Suc i) n (c\<lparr>m_vecRedisContext := m_vecRedisContext c @ [None]\<rparr>)
      | ConnectOk ctx \<Rightarrow> connect_loop env (Suc i) n (c\<lparr>m_vecRedisContext := m_vecRedisContext c @ [Some ctx]\<rparr>))"

definition Redis_ConnectDB ::
  "redis_env \<Rightarrow> connect_info list \<Rightarrow> 's redis_client_scheme \<Rightarrow> (bool \<times> 's redis_client_scheme) res" where
  "Redis_ConnectDB env infos c = Inr (connect_loop env 0 (length infos) c)"

text \<open>\<^verbatim>\<open>Init\<close> with the values of the configuration file.\<close>

definition Redis_Init ::
  "redis_env \<Rightarrow> junk \<Rightarrow> bool \<Rightarrow> bytes \<Rightarrow> u32 \<Rightarrow> 's redis_client_scheme
     \<Rightarrow> (bool \<times> 's redis_client_scheme) res" where
  "Redis_Init env mem thread_started szIp nPort c =
     bind_res (KConnectInfo_fill mem szIp nPort None None) (\<lambda>connectInfo.
     KDBClient_Init (Redis_ConnectDB env [connectInfo]) thread_started False c)"

definition Redis_UnInit :: "'s redis_client_scheme \<Rightarrow> 's redis_client_scheme res" where
  "Redis_UnInit c = bind_res (UnInit c) (\<lambda>c. Inr (Redis_CloseAll c))"

section \<open>Responses\<close>

definition respond_head ::
  "u64 \<Rightarrow> byte \<Rightarrow> u32 \<Rightarrow> u32 \<Rightarrow> u32 \<Rightarrow> kg_buffer \<Rightarrow> kg_buffer res" where
  "respond_head lId byType nRetType nParam nDataLen b =
     bind_res (put64 COMMON_lId lId b) (\<lambda>b.
     bind_res (put8 COMMON_byHandleFlag DB_WAIT_FLAG_REDIS b) (\<lambda>b.
     bind_res (put8 COMMON_byRequestType byType b) (\<lambda>b.
     bind_res (put32 COMMON_nRetType nRetType b) (\<lambda>b.
     bind_res (put32 COMMON_nParam nParam b) (\<lambda>b.
     put32 COMMON_nDataLen nDataLen b)))))"

text \<open>Consecutive \<^verbatim>\<open>int\<close>s from an offset.\<close>

fun put_ints :: "nat \<Rightarrow> u32 list \<Rightarrow> kg_buffer \<Rightarrow> kg_buffer res" where
  "put_ints off [] b = Inr b"
| "put_ints off (n # ns) b = bind_res (put32 off n b) (put_ints (off + 4) ns)"

definition fill_common :: "u64 \<Rightarrow> byte \<Rightarrow> redis_reply \<Rightarrow> kg_buffer \<Rightarrow> kg_buffer res" where
  "fill_common lId byType pReply b =
     (let ty = word_of_nat (reply_type pReply); str = reply_str pReply; len = length str in
      if reply_type pReply = REDIS_REPLY_ERROR then
        bind_res (respond_head lId byType ty 0 (word_of_nat len) b) (\<lambda>b.
        bind_res (put COMMON_data str b) (\<lambda>b.
        put8 (COMMON_data + len) 0 b))
      else if reply_type pReply = REDIS_REPLY_ARRAY then
        bind_res (respond_head lId byType ty (word_of_nat (length (reply_element pReply))) 0 b) (\<lambda>b.
        put_ints COMMON_data (map (\<lambda>e. word_of_nat (reply_type e)) (reply_element pReply)) b)
      else
        bind_res (respond_head lId byType ty 0 (word_of_nat len) b) (\<lambda>b.
        bind_res (put COMMON_data (replicate (len + 1) 0) b) (\<lambda>b.
        put COMMON_data str b)))"

definition common_size :: "redis_reply \<Rightarrow> nat" where
  "common_size pReply =
     (if reply_type pReply = REDIS_REPLY_ARRAY
      then SIZEOF_KRESOOND_COMMON + length (reply_element pReply) * 4 - 1
      else SIZEOF_KRESOOND_COMMON + length (reply_str pReply))"

definition Redis_GenCommonRespond ::
  "redis_env \<Rightarrow> u64 \<Rightarrow> byte \<Rightarrow> redis_reply option \<Rightarrow> 's redis_client_scheme
     \<Rightarrow> (buffer_ref \<times> 's redis_client_scheme) res" where
  "Redis_GenCommonRespond env lId byType pReply c =
     bind_res (deref pReply) (\<lambda>pReply.
     bind_res (NewBuffer env (word_of_nat (common_size pReply)) c) (\<lambda>(pBuffer, c).
     bind_res (on_buffer pBuffer (fill_common lId byType pReply) c) (\<lambda>c.
     bind_res (on_buffer pBuffer (put_reserve 7 (enc8 RESPOND_FLAG_COMMON)) c) (\<lambda>c.
     Inr (pBuffer, c)))))"

text \<open>\<^verbatim>\<open>_GenMultiDataNetRespond\<close>: the value lengths, -1 for an element without a value, then the values.\<close>

definition has_value :: "redis_reply \<Rightarrow> bool" where
  "has_value e \<longleftrightarrow> reply_type e = REDIS_REPLY_STRING \<or> reply_type e = REDIS_REPLY_ARRAY"

fun put_values :: "nat \<Rightarrow> nat \<Rightarrow> redis_reply list \<Rightarrow> kg_buffer \<Rightarrow> kg_buffer res" where
  "put_values pnValueLen pTmp [] b = Inr b"
| "put_values pnValueLen pTmp (e # es) b =
     (if has_value e then
        bind_res (put32 pnValueLen (word_of_nat (length (reply_str e))) b) (\<lambda>b.
        bind_res (put pTmp (reply_str e) b)
          (put_values (pnValueLen + 4) (pTmp + length (reply_str e)) es))
      else
        bind_res (put32 pnValueLen (- 1) b) (put_values (pnValueLen + 4) pTmp es))"

definition multi_size :: "redis_reply \<Rightarrow> nat" where
  "multi_size pReply =
     SIZEOF_KP_DBRESPOND_MULTI_DATA + 4 * length (reply_element pReply) + GetNetPacketReserved +
     (if reply_type pReply = REDIS_REPLY_ERROR then length (reply_str pReply) + 1
      else (\<Sum>e\<leftarrow>reply_element pReply.
              if reply_type e = REDIS_REPLY_STRING then length (reply_str e) else 0))"

definition multi_has_nil :: "redis_reply \<Rightarrow> bool" where
  "multi_has_nil pReply \<longleftrightarrow> reply_type pReply \<noteq> REDIS_REPLY_ERROR \<and>
     (\<exists>e\<in>set (reply_element pReply). reply_type e \<noteq> REDIS_REPLY_STRING)"

definition fill_multi ::
  "bool \<Rightarrow> u64 \<Rightarrow> u64 \<Rightarrow> byte \<Rightarrow> byte \<Rightarrow> u32 \<Rightarrow> redis_reply \<Rightarrow> kg_buffer \<Rightarrow> kg_buffer res" where
  "fill_multi bAllowNil lId lRef byProtocolId byRequestType nConnectId pReply b =
     bind_res (put_reserve 7 (enc8 (if multi_has_nil pReply \<and> \<not> bAllowNil
                                    then RESPOND_FLAG_NET_PART1 else RESPOND_FLAG_NET_FULL)) b) (\<lambda>b.
     bind_res (put_reserve 3 (enc32 nConnectId) b) (\<lambda>b.
     bind_res (put8 0 byProtocolId b) (\<lambda>b.
     bind_res (put8 (MULTI_base + MULTI_byHandle) DB_FLAG_REDIS b) (\<lambda>b.
     bind_res (put8 (MULTI_base + MULTI_byRetType) (word_of_nat (reply_type pReply)) b) (\<lambda>b.
     bind_res (put8 (MULTI_base + MULTI_byRequestType) byRequestType b) (\<lambda>b.
     bind_res (put32 (MULTI_base + MULTI_nCount) (word_of_nat (length (reply_element pReply))) b) (\<lambda>b.
     bind_res (put64 (MULTI_base + MULTI_lRef) lRef b) (\<lambda>b.
     bind_res (put64 (MULTI_base + MULTI_lId) lId b) (\<lambda>b.
     if reply_type pReply = REDIS_REPLY_ERROR then
       bind_res (put (MULTI_base + MULTI_data) (reply_str pReply) b) (\<lambda>b.
       put8 (MULTI_base + MULTI_data + length (reply_str pReply)) 0 b)
     else
       put_values (MULTI_base + MULTI_data) (MULTI_base + MULTI_data + 4 * length (reply_element pReply))
         (reply_element pReply) b)))))))))"

definition Redis_GenMultiDataNetRespond ::
  "redis_env \<Rightarrow> bool \<Rightarrow> u64 \<Rightarrow> u64 \<Rightarrow> byte \<Rightarrow> byte \<Rightarrow> u32 \<Rightarrow> redis_reply option \<Rightarrow> 's redis_client_scheme
     \<Rightarrow> (buffer_ref \<times> 's redis_client_scheme) res" where
  "Redis_GenMultiDataNetRespond env bAllowNil lId lRef byProtocolId byRequestType nConnectId pReply c =
     bind_res (deref pReply) (\<lambda>pReply.
     bind_res (NewBuffer env (word_of_nat (multi_size pReply)) c) (\<lambda>(pPackatBuffer, c).
     bind_res (on_buffer pPackatBuffer
         (fill_multi bAllowNil lId lRef byProtocolId byRequestType nConnectId pReply) c) (\<lambda>c.
     Inr (pPackatBuffer, c))))"

section \<open>Requests\<close>

text \<open>\<^verbatim>\<open>KDBClientMgr::PushMysqlRequest\<close>.\<close>

definition PushMysqlRequest ::
  "u32 \<Rightarrow> buffer_ref \<Rightarrow> 's redis_client_scheme \<Rightarrow> 's redis_client_scheme res" where
  "PushMysqlRequest nDBType pBuffer c =
     (if sint nDBType \<le> 0 then Inl (ProcessExit 1)
      else if length (m_vecMysqlClients c) \<le> unat (nDBType - 1) then Inl OutOfBoundsRead
      else bind_res (AddRef pBuffer c) (\<lambda>c.
        Inr (c\<lparr>m_vecMysqlClients := (m_vecMysqlClients c)[unat (nDBType - 1) :=
               m_vecMysqlClients c ! unat (nDBType - 1) @ [pBuffer]]\<rparr>)))"

text \<open>The copy of a request for the mysql client: a new buffer, filled with as many bytes as it has.\<close>

definition CopyRequest ::
  "redis_env \<Rightarrow> nat \<Rightarrow> kg_buffer \<Rightarrow> 's redis_client_scheme \<Rightarrow> (buffer_ref \<times> 's redis_client_scheme) res" where
  "CopyRequest env nSize pRequest c =
     bind_res (NewBuffer env (word_of_nat nSize) c) (\<lambda>(pBuffer, c).
     bind_res (on_buffer pBuffer (\<lambda>b.
         bind_res (mem_read (pvData pRequest) 0 (unat (m_uSize b))) (\<lambda>bs. put 0 bs b)) c) (\<lambda>c.
     Inr (pBuffer, c)))"

definition CopyToMysql ::
  "redis_env \<Rightarrow> nat \<Rightarrow> nat \<Rightarrow> redis_reply option \<Rightarrow> kg_buffer \<Rightarrow> 's redis_client_scheme
     \<Rightarrow> 's redis_client_scheme res" where
  "CopyToMysql env nIndex nSize pReply pRequest c =
     (case pReply of
        None \<Rightarrow> Inr c
      | Some _ \<Rightarrow>
          bind_res (CopyRequest env nSize pRequest c) (\<lambda>(pBuffer, c).
          PushMysqlRequest (word_of_nat (nIndex + 1)) pBuffer c))"

text \<open>The common response to a request with the request's label, pushed and released.\<close>

definition RespondCommon ::
  "redis_env \<Rightarrow> kg_buffer \<Rightarrow> redis_reply option \<Rightarrow> 's redis_client_scheme \<Rightarrow> 's redis_client_scheme res" where
  "RespondCommon env pRequest pReply c =
     bind_res (get64 HEAD_lId pRequest) (\<lambda>lId.
     bind_res (get8 TYPE_byType pRequest) (\<lambda>byType.
     bind_res (Redis_GenCommonRespond env lId byType pReply c) (\<lambda>(pCommonBuffer, c).
     bind_res (get32 HEAD_uUserId pRequest) (\<lambda>uUserId.
     bind_res (get32 HEAD_uEventType pRequest) (\<lambda>uEventType.
     bind_res (get32 HEAD_uSquenceId pRequest) (\<lambda>uSquenceId.
     bind_res (on_buffer pCommonBuffer (\<lambda>b. DB_SetCommonHead_seq b uUserId uEventType uSquenceId) c) (\<lambda>c.
     bind_res (PushRespond (Some pCommonBuffer) c) (SAFE_RELEASE (Some pCommonBuffer)))))))))"

text \<open>A \<^verbatim>\<open>%b\<close> argument: hiredis copies the bytes out of the request.\<close>

definition arg_b :: "nat \<Rightarrow> nat \<Rightarrow> kg_buffer \<Rightarrow> redis_arg res" where
  "arg_b off len b = bind_res (mem_read (pvData b) off len) (\<lambda>bs. Inr (ArgB bs))"

definition Redis_OnRequestSet ::
  "redis_env \<Rightarrow> nat \<Rightarrow> kg_buffer \<Rightarrow> 's redis_client_scheme \<Rightarrow> 's redis_client_scheme res" where
  "Redis_OnRequestSet env nIndex pRequestSet c =
     bind_res (get32 SET_uPrefixLen pRequestSet) (\<lambda>uPrefixLen.
     bind_res (get32 SET_uKeyLen pRequestSet) (\<lambda>uKeyLen.
     bind_res (get32 SET_uValueLen pRequestSet) (\<lambda>uValueLen.
     let uSetKeyLen = unat uPrefixLen + unat uKeyLen + REQUEST_KEY_UNDERLINED_LEN in
     bind_res (arg_b SET_data uSetKeyLen pRequestSet) (\<lambda>key.
     bind_res (arg_b (SET_data + uSetKeyLen) (unat uValueLen) pRequestSet) (\<lambda>val.
     bind_res (RedisCommand env nIndex (ascii ''set %b %b'') [key, val] c) (\<lambda>(pReply, c).
     bind_res (CopyToMysql env nIndex (SIZEOF_KREQUEST_HSET + uSetKeyLen + unat uValueLen) pReply pRequestSet c)
       (RespondCommon env pRequestSet pReply)))))))"

definition Redis_OnRequestGet ::
  "redis_env \<Rightarrow> nat \<Rightarrow> kg_buffer \<Rightarrow> 's redis_client_scheme \<Rightarrow> 's redis_client_scheme res" where
  "Redis_OnRequestGet env nIndex pRequestGet c =
     bind_res (get32 GET_uPrefixLen pRequestGet) (\<lambda>uPrefixLen.
     bind_res (get32 GET_uKeyLen pRequestGet) (\<lambda>uKeyLen.
     let uGetKeyLen = unat uPrefixLen + unat uKeyLen + REQUEST_KEY_UNDERLINED_LEN in
     bind_res (arg_b GET_data uGetKeyLen pRequestGet) (\<lambda>key.
     bind_res (RedisCommand env nIndex (ascii ''get %b'') [key] c) (\<lambda>(pReply, c).
     RespondCommon env pRequestGet pReply c))))"

text \<open>The keys of a \<^verbatim>\<open>mget\<close> are the format itself, up to its first NUL.\<close>

definition Redis_OnRequestGets ::
  "redis_env \<Rightarrow> nat \<Rightarrow> kg_buffer \<Rightarrow> 's redis_client_scheme \<Rightarrow> 's redis_client_scheme res" where
  "Redis_OnRequestGets env nIndex pRequestGets c =
     bind_res (get32 GETS_uHashKeyLen pRequestGets) (\<lambda>uHashKeyLen.
     bind_res (mem_read (pvData pRequestGets) GETS_data (unat uHashKeyLen)) (\<lambda>keys.
     bind_res (c_string (ascii ''mget '' @ keys @ [0])) (\<lambda>szCmd.
     bind_res (RedisCommand env nIndex szCmd [] c) (\<lambda>(pReply, c).
     bind_res (get8 HEAD_bAllowRedisNil pRequestGets) (\<lambda>bAllowRedisNil.
     bind_res (get64 HEAD_lId pRequestGets) (\<lambda>lId.
     bind_res (get64 REQUEST_lRef pRequestGets) (\<lambda>lRef.
     bind_res (get8 TYPE_byType pRequestGets) (\<lambda>byType.
     bind_res (get32 HEAD_nConnectId pRequestGets) (\<lambda>nConnectId.
     bind_res (Redis_GenMultiDataNetRespond env (bAllowRedisNil \<noteq> 0) lId lRef PROXY2DRIVE_DATA_GETS byType
         nConnectId pReply c) (\<lambda>(pPackatBuffer, c).
     bind_res (get32 HEAD_uUserId pRequestGets) (\<lambda>uUserId.
     bind_res (get32 HEAD_uEventType pRequestGets) (\<lambda>uEventType.
     bind_res (get32 HEAD_uSquenceId pRequestGets) (\<lambda>uSquenceId.
     bind_res (on_buffer pPackatBuffer (\<lambda>b. DB_SetMulDataHead_seq b uUserId uEventType uSquenceId) c)
       (PushRespond (Some pPackatBuffer))))))))))))))) "

definition Redis_OnRequestExpire ::
  "redis_env \<Rightarrow> nat \<Rightarrow> kg_buffer \<Rightarrow> 's redis_client_scheme \<Rightarrow> 's redis_client_scheme res" where
  "Redis_OnRequestExpire env nIndex pRequestExpire c =
     bind_res (c_string (drop EXPIRE_data (pvData pRequestExpire))) (\<lambda>key.
     bind_res (get32 EXPIRE_nExpire pRequestExpire) (\<lambda>nExpire.
     bind_res (RedisCommand env nIndex (ascii ''expire %s %d'') [ArgS key, ArgD nExpire] c) (\<lambda>(pReply, c).
     Inr c)))"

definition Redis_OnRequestHSet ::
  "redis_env \<Rightarrow> nat \<Rightarrow> kg_buffer \<Rightarrow> 's redis_client_scheme \<Rightarrow> 's redis_client_scheme res" where
  "Redis_OnRequestHSet env nIndex pRequestHSet c =
     bind_res (get32 HSET_uTableNameLen pRequestHSet) (\<lambda>uTableNameLen.
     bind_res (get32 HSET_uHashKeyLen pRequestHSet) (\<lambda>uHashKeyLen.
     bind_res (get32 HSET_uValueLen pRequestHSet) (\<lambda>uValueLen.
     let t = unat uTableNameLen; k = unat uHashKeyLen; v = unat uValueLen in
     bind_res (arg_b HSET_data t pRequestHSet) (\<lambda>table.
     bind_res (arg_b (HSET_data + t) k pRequestHSet) (\<lambda>key.
     bind_res (arg_b (HSET_data + t + k) v pRequestHSet) (\<lambda>val.
     bind_res (RedisCommand env nIndex (ascii ''hset %b %b %b'') [table, key, val] c) (\<lambda>(pReply, c).
     bind_res (CopyToMysql env nIndex (SIZEOF_KREQUEST_HSET + t + k + v) pReply pRequestHSet c)
       (RespondCommon env pRequestHSet pReply))))))))"

text \<open>
  \<^verbatim>\<open>KDBClientMgr::RequestMySQLQuery\<close>: the mysql query runs on the redis thread; its result
  is read for the log. What \<^verbatim>\<open>KMysqlClient::OnRequestQuery\<close> returns is the parameter \<open>mysql_query\<close>: no function of
  the scripts builds such a request, so that the redis client never gets one.
\<close>

definition RequestMySQLQuery ::
  "redis_env \<Rightarrow> u32 \<Rightarrow> buffer_ref \<Rightarrow> 's redis_client_scheme \<Rightarrow> (buffer_ref \<times> 's redis_client_scheme) res" where
  "RequestMySQLQuery env nDBType pBuffer c =
     (if sint nDBType \<le> 0 then Inl (ProcessExit 1)
      else if length (m_vecMysqlClients c) \<le> unat (nDBType - 1) then Inl OutOfBoundsRead
      else
        bind_res (heap_get pBuffer c) (\<lambda>b.
        bind_res (deref (mysql_query env b)) (\<lambda>r.
        bind_res (get32 COMMON_uEventType r) (\<lambda>_.
        bind_res (get32 COMMON_nDataLen r) (\<lambda>_.
        Inr (malloc env (kg_heap c), heap_set (malloc env (kg_heap c)) (Some r) c))))))"

text \<open>A value that redis does not have is looked up in mysql; the second response has no label.\<close>

definition Redis_OnRequestHGet ::
  "redis_env \<Rightarrow> nat \<Rightarrow> kg_buffer \<Rightarrow> 's redis_client_scheme \<Rightarrow> 's redis_client_scheme res" where
  "Redis_OnRequestHGet env nIndex pRequestHGet c =
     bind_res (get32 HGET_uTableNameLen pRequestHGet) (\<lambda>uTableNameLen.
     bind_res (get32 HGET_uHashKeyLen pRequestHGet) (\<lambda>uHashKeyLen.
     let t = unat uTableNameLen; k = unat uHashKeyLen in
     bind_res (arg_b HGET_data t pRequestHGet) (\<lambda>table.
     bind_res (arg_b (HGET_data + t) k pRequestHGet) (\<lambda>key.
     bind_res (RedisCommand env nIndex (ascii ''hget %b %b'') [table, key] c) (\<lambda>(pReply, c).
     bind_res (deref pReply) (\<lambda>reply.
     bind_res (get8 HEAD_bAllowRedisNil pRequestHGet) (\<lambda>bAllowRedisNil.
     bind_res
       (if reply_type reply = REDIS_REPLY_NIL \<and> bAllowRedisNil = 0 then
          bind_res (CopyRequest env (SIZEOF_KREQUEST_HGET + t + k) pRequestHGet c) (\<lambda>(pBuffer, c).
          bind_res (RequestMySQLQuery env (word_of_nat (nIndex + 1)) pBuffer c) (\<lambda>(pPacketBuffer, c).
          bind_res (get32 HEAD_uUserId pRequestHGet) (\<lambda>uUserId.
          bind_res (get32 HEAD_uEventType pRequestHGet) (\<lambda>uEventType.
          bind_res (get32 HEAD_uSquenceId pRequestHGet) (\<lambda>uSquenceId.
          bind_res (on_buffer pPacketBuffer (\<lambda>b. DB_SetCommonHead_seq b uUserId uEventType uSquenceId) c)
            (PushRespond (Some pPacketBuffer)))))))
        else Inr c) (\<lambda>c.
     bind_res (get64 HEAD_lId pRequestHGet) (\<lambda>lId.
     bind_res (get8 TYPE_byType pRequestHGet) (\<lambda>byType.
     bind_res (Redis_GenCommonRespond env lId byType pReply c) (\<lambda>(pCommonBuffer, c).
     bind_res (PushRespond (Some pCommonBuffer) c) (SAFE_RELEASE (Some pCommonBuffer)))))))))))))"

definition Redis_OnRequestDel ::
  "redis_env \<Rightarrow> nat \<Rightarrow> kg_buffer \<Rightarrow> 's redis_client_scheme \<Rightarrow> 's redis_client_scheme res" where
  "Redis_OnRequestDel env nIndex pRequestDel c =
     bind_res (get32 GET_uPrefixLen pRequestDel) (\<lambda>uPrefixLen.
     bind_res (get32 GET_uKeyLen pRequestDel) (\<lambda>uKeyLen.
     let uDelKeyLen = unat uPrefixLen + unat uKeyLen + REQUEST_KEY_UNDERLINED_LEN in
     bind_res (arg_b GET_data uDelKeyLen pRequestDel) (\<lambda>key.
     bind_res (RedisCommand env nIndex (ascii ''del %b'') [key] c) (\<lambda>(pReply, c).
     CopyToMysql env nIndex (SIZEOF_KREQUEST_GET + uDelKeyLen) pReply pRequestDel c))))"

definition Redis_OnRequestHDel ::
  "redis_env \<Rightarrow> nat \<Rightarrow> kg_buffer \<Rightarrow> 's redis_client_scheme \<Rightarrow> 's redis_client_scheme res" where
  "Redis_OnRequestHDel env nIndex pRequestHDel c =
     bind_res (get32 HGET_uTableNameLen pRequestHDel) (\<lambda>uTableNameLen.
     bind_res (get32 HGET_uHashKeyLen pRequestHDel) (\<lambda>uHashKeyLen.
     let t = unat uTableNameLen; k = unat uHashKeyLen in
     bind_res (arg_b HGET_data t pRequestHDel) (\<lambda>table.
     bind_res (arg_b (HGET_data + t) k pRequestHDel) (\<lambda>key.
     bind_res (RedisCommand env nIndex (ascii ''hdel %b %b'') [table, key] c) (\<lambda>(pReply, c).
     CopyToMysql env nIndex (SIZEOF_KREQUEST_HGET + t + k) pReply pRequestHDel c)))))"

text \<open>A request of an unknown type only prints a message.\<close>

definition Redis_OnRequest ::
  "redis_env \<Rightarrow> buffer_ref \<Rightarrow> 's redis_client_scheme \<Rightarrow> 's redis_client_scheme res" where
  "Redis_OnRequest env pBuffer c =
     bind_res (heap_get pBuffer c) (\<lambda>b.
     bind_res (get32 TYPE_nHash b) (\<lambda>nHash.
     if m_vecRedisContext c = [] then Inl DivByZero
     else
       bind_res (get8 TYPE_byType b) (\<lambda>byType.
       let nIndex = unat nHash mod length (m_vecRedisContext c) in
       if byType = request_code emREQUEST_SET then Redis_OnRequestSet env nIndex b c
       else if byType = request_code emREQUEST_GET then Redis_OnRequestGet env nIndex b c
       else if byType = request_code emREQUEST_AUTO_EXPIRE then Redis_OnRequestExpire env nIndex b c
       else if byType = request_code emREQUEST_HSET then Redis_OnRequestHSet env nIndex b c
       else if byType = request_code emREQUEST_HGET then Redis_OnRequestHGet env nIndex b c
       else if byType = request_code emREQUEST_DEL then Redis_OnRequestDel env nIndex b c
       else if byType = request_code emREQUEST_HDEL then Redis_OnRequestHDel env nIndex b c
       else if byType = request_code emREQUEST_GETS then Redis_OnRequestGets env nIndex b c
       else Inr c)))"

section \<open>Responses on the game thread\<close>

text \<open>The call of a script function, with its arguments.\<close>

datatype lua_call =
    OnRedisRespone u32 u32 u32 bytes
  | OnRedisMulDataRespone u32 u32 u32 "bytes list"

text \<open>
  \<^verbatim>\<open>GameLogicServer::OnDBResponse(KRESOOND_COMMON*)\<close> and \<^verbatim>\<open>LuaEngine::RedisCallLua\<close>: the text
  goes through \<^verbatim>\<open>std::string(const char*)\<close> and ends at its first NUL.
\<close>

definition OnDBResponse_common :: "kg_buffer \<Rightarrow> lua_call res" where
  "OnDBResponse_common b =
     bind_res (get32 COMMON_nDataLen b) (\<lambda>n.
     let nDataLen = (if sint n < 0 then 0 else nat (sint n)) in
     bind_res (mem_read (pvData b) COMMON_data nDataLen) (\<lambda>bs.
     bind_res (c_string (bs @ [0])) (\<lambda>szData.
     bind_res (get32 COMMON_uSqueneceId b) (\<lambda>uSqueneceId.
     bind_res (get32 COMMON_uUserId b) (\<lambda>uUserId.
     bind_res (get32 COMMON_uEventType b) (\<lambda>uEventType.
     Inr (OnRedisRespone uSqueneceId uUserId uEventType szData)))))))"

text \<open>The loop that fills the table; \<^verbatim>\<open>lua_pushlstring\<close> takes the length as a \<^verbatim>\<open>size_t\<close>.\<close>

fun lua_table :: "nat \<Rightarrow> nat \<Rightarrow> nat \<Rightarrow> kg_buffer \<Rightarrow> bytes list res" where
  "lua_table pnValueLen pTmp 0 b = Inr []"
| "lua_table pnValueLen pTmp (Suc n) b =
     bind_res (get32 pnValueLen b) (\<lambda>len.
     bind_res (mem_read (pvData b) pTmp (unat (scast len :: u64))) (\<lambda>s.
     bind_res (lua_table (pnValueLen + 4) (pTmp + unat (scast len :: u64)) n b) (\<lambda>ss.
     Inr (s # ss))))"

definition OnDBResponse_multi :: "kg_buffer \<Rightarrow> lua_call res" where
  "OnDBResponse_multi b =
     bind_res (get32 (MULTI_base + MULTI_nCount) b) (\<lambda>n.
     let nParamCount = (if sint n < 0 then 0 else nat (sint n)) in
     bind_res (get32 (MULTI_base + MULTI_uSquenceId) b) (\<lambda>uSquenceId.
     bind_res (get32 (MULTI_base + MULTI_uUserId) b) (\<lambda>uUserId.
     bind_res (get32 (MULTI_base + MULTI_uEventType) b) (\<lambda>uEventType.
     bind_res (lua_table (MULTI_base + MULTI_data) (MULTI_base + MULTI_data + 4 * nParamCount) nParamCount b)
       (\<lambda>szData.
     Inr (OnRedisMulDataRespone uSquenceId uUserId uEventType szData))))))"

definition Redis_OnResponsed ::
  "(lua_call \<Rightarrow> 's db_client_scheme \<Rightarrow> 's db_client_scheme res) \<Rightarrow> buffer_ref
     \<Rightarrow> 's db_client_scheme \<Rightarrow> 's db_client_scheme res" where
  "Redis_OnResponsed lua pBuffer c =
     bind_res (heap_get pBuffer c) (\<lambda>b.
     bind_res (load8 (reserve b) 7) (\<lambda>byPacketType.
     if byPacketType = RESPOND_FLAG_COMMON then
       bind_res (OnDBResponse_common b) (\<lambda>call. lua call c)
     else if byPacketType = RESPOND_FLAG_NET_PART1 \<or> byPacketType = RESPOND_FLAG_NET_PART2
          \<or> byPacketType = RESPOND_FLAG_NET_FULL then
       bind_res (OnDBResponse_multi b) (\<lambda>call. lua call c)
     else Inr c))"

section \<open>The queue of the worker is left alone\<close>

named_theorems queue_frame \<open>operations commute with a change of the request queue\<close>

lemma frame_basic [queue_frame]:
  "heap_get p (c\<lparr>m_RequestQueue := q\<rparr>) = heap_get p c"
  "heap_set p b (c\<lparr>m_RequestQueue := q\<rparr>) = (heap_set p b c)\<lparr>m_RequestQueue := q\<rparr>"
  "c\<lparr>m_RequestQueue := q, m_RespondQueue := r\<rparr> = c\<lparr>m_RespondQueue := r, m_RequestQueue := q\<rparr>"
  "c\<lparr>m_RequestQueue := q, m_bDatabaseLost := l\<rparr> = c\<lparr>m_bDatabaseLost := l, m_RequestQueue := q\<rparr>"
  by (simp_all add: heap_get_def heap_set_def)

lemma frame_buffers [queue_frame]:
  "AddRef p (c\<lparr>m_RequestQueue := q\<rparr>) = bind_res (AddRef p c) (\<lambda>c. Inr (c\<lparr>m_RequestQueue := q\<rparr>))"
  "NewBuffer env n (c\<lparr>m_RequestQueue := q\<rparr>) =
     bind_res (NewBuffer env n c) (\<lambda>r. Inr (fst r, (snd r)\<lparr>m_RequestQueue := q\<rparr>))"
  "on_buffer p f (c\<lparr>m_RequestQueue := q\<rparr>) = bind_res (on_buffer p f c) (\<lambda>c. Inr (c\<lparr>m_RequestQueue := q\<rparr>))"
  "SAFE_RELEASE pp (c\<lparr>m_RequestQueue := q\<rparr>) =
     bind_res (SAFE_RELEASE pp c) (\<lambda>c. Inr (c\<lparr>m_RequestQueue := q\<rparr>))"
  "PushRespond pp (c\<lparr>m_RequestQueue := q\<rparr>) =
     bind_res (PushRespond pp c) (\<lambda>c. Inr (c\<lparr>m_RequestQueue := q\<rparr>))"
  by (simp_all add: AddRef_def NewBuffer_def on_buffer_def frame_basic bind_res_assoc SAFE_RELEASE_queue
      PushRespond_def split: option.split)

lemma frame_redis [queue_frame]:
  "log_call k (c\<lparr>m_RequestQueue := q\<rparr>) = (log_call k c)\<lparr>m_RequestQueue := q\<rparr>"
  "context_at n (c\<lparr>m_RequestQueue := q\<rparr>) = context_at n c"
  "set_context n x (c\<lparr>m_RequestQueue := q\<rparr>) = (set_context n x c)\<lparr>m_RequestQueue := q\<rparr>"
  by (simp_all add: log_call_def context_at_def set_context_def)

lemma frame_Reconnect [queue_frame]:
  "Redis_Reconnect env n (c\<lparr>m_RequestQueue := q\<rparr>) =
     bind_res (Redis_Reconnect env n c) (\<lambda>r. Inr (fst r, (snd r)\<lparr>m_RequestQueue := q\<rparr>))"
proof (cases "context_at n c")
  case (Inr x)
  then show ?thesis
    by (cases x) (simp_all add: Redis_Reconnect_def frame_redis frame_basic Let_def split: connect_result.split)
qed (simp add: Redis_Reconnect_def frame_redis)

lemma frame_loop [queue_frame]:
  "command_loop env fuel n fmt ap k io x (c\<lparr>m_RequestQueue := q\<rparr>) =
     bind_res (command_loop env fuel n fmt ap k io x c) (\<lambda>r. Inr (fst r, (snd r)\<lparr>m_RequestQueue := q\<rparr>))"
proof (induction fuel arbitrary: k io x c)
  case (Suc fuel)
  show ?case
  proof (cases x)
    case (Some ctx)
    define c1 where "c1 = log_call (Command ctx fmt (if k = 0 then ap else va_next env k)) c"
    show ?thesis
      by (cases "redisvCommand env (hiredis_calls c1)"; cases "fst (redisvCommand env (hiredis_calls c1))")
        (simp_all add: Some Let_def queue_frame c1_def [symmetric] bind_res_assoc split_beta Suc.IH if_distrib [of "\<lambda>m. bind_res m f" for f] cong: if_cong)
  qed simp
qed simp

lemma frame_RedisCommand [queue_frame]:
  "RedisCommand env n fmt ap (c\<lparr>m_RequestQueue := q\<rparr>) =
     bind_res (RedisCommand env n fmt ap c) (\<lambda>r. Inr (fst r, (snd r)\<lparr>m_RequestQueue := q\<rparr>))"
proof -
  have u: "c\<lparr>m_RequestQueue := q, m_nQueryCount := k\<rparr> = c\<lparr>m_nQueryCount := k, m_RequestQueue := q\<rparr>"
    "c\<lparr>m_RequestQueue := q, m_ulAverageUSec := l\<rparr> = c\<lparr>m_ulAverageUSec := l, m_RequestQueue := q\<rparr>" for k l and c :: "'a redis_client_scheme"
    by simp_all
  show ?thesis
    by (simp add: RedisCommand_def Let_def u queue_frame bind_res_assoc split_beta)
qed

lemma frame_PushMysqlRequest [queue_frame]:
  "PushMysqlRequest n p (c\<lparr>m_RequestQueue := q\<rparr>) =
     bind_res (PushMysqlRequest n p c) (\<lambda>c. Inr (c\<lparr>m_RequestQueue := q\<rparr>))"
proof -
  have u: "c\<lparr>m_RequestQueue := q, m_vecMysqlClients := v\<rparr> = c\<lparr>m_vecMysqlClients := v, m_RequestQueue := q\<rparr>"
    for v and c :: "'a redis_client_scheme"
    by simp
  show ?thesis by (simp add: PushMysqlRequest_def u queue_frame bind_res_assoc)
qed

lemma frame_responses [queue_frame]:
  "Redis_GenCommonRespond env l t r (c\<lparr>m_RequestQueue := q\<rparr>) =
     bind_res (Redis_GenCommonRespond env l t r c) (\<lambda>r. Inr (fst r, (snd r)\<lparr>m_RequestQueue := q\<rparr>))"
  "Redis_GenMultiDataNetRespond env a l f i t n r (c\<lparr>m_RequestQueue := q\<rparr>) =
     bind_res (Redis_GenMultiDataNetRespond env a l f i t n r c) (\<lambda>r. Inr (fst r, (snd r)\<lparr>m_RequestQueue := q\<rparr>))"
  by (simp_all add: Redis_GenCommonRespond_def Redis_GenMultiDataNetRespond_def queue_frame bind_res_assoc split_beta)

lemma frame_mysql [queue_frame]:
  "RequestMySQLQuery env n p (c\<lparr>m_RequestQueue := q\<rparr>) =
     bind_res (RequestMySQLQuery env n p c) (\<lambda>r. Inr (fst r, (snd r)\<lparr>m_RequestQueue := q\<rparr>))"
  "CopyRequest env k b (c\<lparr>m_RequestQueue := q\<rparr>) =
     bind_res (CopyRequest env k b c) (\<lambda>r. Inr (fst r, (snd r)\<lparr>m_RequestQueue := q\<rparr>))"
  by (simp_all add: RequestMySQLQuery_def CopyRequest_def queue_frame bind_res_assoc split_beta)

lemma frame_parts [queue_frame]:
  "CopyToMysql env n k r b (c\<lparr>m_RequestQueue := q\<rparr>) =
     bind_res (CopyToMysql env n k r b c) (\<lambda>c. Inr (c\<lparr>m_RequestQueue := q\<rparr>))"
  "RespondCommon env b r (c\<lparr>m_RequestQueue := q\<rparr>) =
     bind_res (RespondCommon env b r c) (\<lambda>c. Inr (c\<lparr>m_RequestQueue := q\<rparr>))"
  by (simp_all add: CopyToMysql_def RespondCommon_def queue_frame bind_res_assoc split_beta split: option.split)

lemma frame_handlers [queue_frame]:
  "Redis_OnRequestSet env n b (c\<lparr>m_RequestQueue := q\<rparr>) =
     bind_res (Redis_OnRequestSet env n b c) (\<lambda>c. Inr (c\<lparr>m_RequestQueue := q\<rparr>))"
  "Redis_OnRequestGet env n b (c\<lparr>m_RequestQueue := q\<rparr>) =
     bind_res (Redis_OnRequestGet env n b c) (\<lambda>c. Inr (c\<lparr>m_RequestQueue := q\<rparr>))"
  "Redis_OnRequestExpire env n b (c\<lparr>m_RequestQueue := q\<rparr>) =
     bind_res (Redis_OnRequestExpire env n b c) (\<lambda>c. Inr (c\<lparr>m_RequestQueue := q\<rparr>))"
  "Redis_OnRequestHSet env n b (c\<lparr>m_RequestQueue := q\<rparr>) =
     bind_res (Redis_OnRequestHSet env n b c) (\<lambda>c. Inr (c\<lparr>m_RequestQueue := q\<rparr>))"
  "Redis_OnRequestDel env n b (c\<lparr>m_RequestQueue := q\<rparr>) =
     bind_res (Redis_OnRequestDel env n b c) (\<lambda>c. Inr (c\<lparr>m_RequestQueue := q\<rparr>))"
  "Redis_OnRequestHDel env n b (c\<lparr>m_RequestQueue := q\<rparr>) =
     bind_res (Redis_OnRequestHDel env n b c) (\<lambda>c. Inr (c\<lparr>m_RequestQueue := q\<rparr>))"
  "Redis_OnRequestGets env n b (c\<lparr>m_RequestQueue := q\<rparr>) =
     bind_res (Redis_OnRequestGets env n b c) (\<lambda>c. Inr (c\<lparr>m_RequestQueue := q\<rparr>))"
  by (simp_all add: Redis_OnRequestSet_def Redis_OnRequestGet_def Redis_OnRequestExpire_def Redis_OnRequestHSet_def
      Redis_OnRequestDel_def Redis_OnRequestHDel_def Redis_OnRequestGets_def Let_def queue_frame bind_res_assoc split_beta)

lemma frame_HGet [queue_frame]:
  "Redis_OnRequestHGet env n b (c\<lparr>m_RequestQueue := q\<rparr>) =
     bind_res (Redis_OnRequestHGet env n b c) (\<lambda>c. Inr (c\<lparr>m_RequestQueue := q\<rparr>))"
  by (simp add: Redis_OnRequestHGet_def Let_def queue_frame bind_res_assoc split_beta bind_res_if cong: if_cong)

lemma frame_OnRequest:
  "Redis_OnRequest env p (c\<lparr>m_RequestQueue := q\<rparr>) =
     bind_res (Redis_OnRequest env p c) (\<lambda>c. Inr (c\<lparr>m_RequestQueue := q\<rparr>))"
  by (simp add: Redis_OnRequest_def Let_def queue_frame bind_res_assoc bind_res_if cong: if_cong)

section \<open>What a command changes\<close>

text \<open>
  Apart from the connection a command changes nothing of the client, it does not close it,
  and it only returns with a reply.
\<close>

definition same_queues :: "'s redis_client_scheme \<Rightarrow> 's redis_client_scheme \<Rightarrow> bool" where
  "same_queues c c' \<longleftrightarrow> kg_heap c' = kg_heap c \<and> m_RequestQueue c' = m_RequestQueue c
     \<and> m_RespondQueue c' = m_RespondQueue c \<and> m_vecMysqlClients c' = m_vecMysqlClients c
     \<and> length (m_vecRedisContext c') = length (m_vecRedisContext c) \<and> (IsOpen c \<longrightarrow> IsOpen c')"

lemma same_queues_refl [simp]: "same_queues c c"
  by (simp add: same_queues_def)

lemma same_queues_trans: "same_queues a b \<Longrightarrow> same_queues b c \<Longrightarrow> same_queues a c"
  by (auto simp: same_queues_def)

lemma Reconnect_same:
  assumes "Redis_Reconnect env n (c\<lparr>m_bDatabaseLost := True\<rparr>) = Inr (r, c')"
  shows "r \<and> same_queues c c'"
proof -
  obtain x where x: "context_at n (c\<lparr>m_bDatabaseLost := True\<rparr>) = Inr x"
    using assms by (auto simp: Redis_Reconnect_def bind_res_eq_Inr)
  show ?thesis
    using assms x
    by (cases x) (auto simp: Redis_Reconnect_def Let_def same_queues_def IsOpen_def set_context_def
        log_call_def split: connect_result.splits)
qed

lemma command_loop_same:
  "command_loop env fuel n fmt ap k io x c = Inr (r, c') \<Longrightarrow> r \<noteq> None \<and> same_queues c c'"
proof (induction fuel arbitrary: k io x c)
  case (Suc fuel)
  from Suc.prems obtain ctx where x: "x = Some ctx" by (cases x) simp_all
  define c1 where "c1 = log_call (Command ctx fmt (if k = 0 then ap else va_next env k)) c"
  have c1: "same_queues c c1" by (simp add: c1_def log_call_def same_queues_def IsOpen_def)
  obtain rep err where e: "redisvCommand env (hiredis_calls c1) = (rep, err)" by fastforce
  have step: "command_loop env (Suc fuel) n fmt ap k io x c =
      (case rep of
         None \<Rightarrow> bind_res (Redis_Reconnect env n (c1\<lparr>m_bDatabaseLost := True\<rparr>)) (\<lambda>(bRet, c).
           if bRet then bind_res (context_at n c) (\<lambda>y. command_loop env fuel n fmt ap (Suc k) io y c)
           else Inl (ProcessExit 0))
       | Some pReply \<Rightarrow> if reply_type pReply = 6 \<and> err \<and> io < 5
           then command_loop env fuel n fmt ap (Suc k) (Suc io) x c1 else Inr (Some pReply, c1))"
    using e unfolding c1_def by (simp add: x Let_def split: option.split)
  show ?case
  proof (cases rep)
    case None
    obtain z where re: "Redis_Reconnect env n (c1\<lparr>m_bDatabaseLost := True\<rparr>) = Inr z"
      and z: "(case z of (bRet, c) \<Rightarrow>
           if bRet then bind_res (context_at n c) (\<lambda>y. command_loop env fuel n fmt ap (Suc k) io y c)
           else Inl (ProcessExit 0)) = Inr (r, c')"
      using Suc.prems unfolding step None option.case by (rule bind_res_InrE)
    obtain b c2 where b: "z = (b, c2)" by fastforce
    then have "b" using z by (simp split: if_splits)
    then obtain y where run: "command_loop env fuel n fmt ap (Suc k) io y c2 = Inr (r, c')"
      using z b by (auto simp: bind_res_eq_Inr)
    note re = re [unfolded b]
    show ?thesis
      using Reconnect_same [OF re] Suc.IH [OF run] c1 by (blast intro: same_queues_trans)
  next
    case (Some reply)
    show ?thesis
    proof (cases "reply_type reply = 6 \<and> err \<and> io < 5")
      case True
      then have run: "command_loop env fuel n fmt ap (Suc k) (Suc io) x c1 = Inr (r, c')"
        using Suc.prems unfolding step Some option.case by (simp only: if_True simp_thms)
      show ?thesis using Suc.IH [OF run] c1 by (blast intro: same_queues_trans)
    next
      case False
      then have "r = Some reply \<and> c' = c1"
        using Suc.prems unfolding step Some option.case by (simp only: if_False) simp
      then show ?thesis using c1 by simp
    qed
  qed
qed simp

lemma RedisCommand_same:
  assumes "RedisCommand env n fmt ap c = Inr (r, c')"
  shows "r \<noteq> None \<and> same_queues c c'"
proof -
  obtain x c1 where run: "command_loop env (command_fuel env) n fmt ap 0 0 x
      (c\<lparr>m_nQueryCount := m_nQueryCount c + 1\<rparr>) = Inr (r, c1)"
    and c': "c' = c1\<lparr>m_ulAverageUSec := m_ulAverageUSec c1 + ucast (elapsed env (hiredis_calls c1))\<rparr>"
    using assms by (auto simp: RedisCommand_def Let_def bind_res_eq_Inr)
  show ?thesis
    using command_loop_same [OF run] by (simp add: c' same_queues_def IsOpen_def)
qed

lemma RedisCommand_answered:
  assumes "n < length (m_vecRedisContext c)" and "m_vecRedisContext c ! n = Some ctx" and "0 < command_fuel env"
    and "redisvCommand env (hiredis_calls c @ [Command ctx fmt ap]) = (Some reply, err)"
    and "reply_type reply \<noteq> 6 \<or> \<not> err"
  shows "\<exists>c'. RedisCommand env n fmt ap c = Inr (Some reply, c') \<and> same_queues c c'
    \<and> hiredis_calls c' = hiredis_calls c @ [Command ctx fmt ap] \<and> m_vecRedisContext c' = m_vecRedisContext c"
proof -
  obtain f where f: "command_fuel env = Suc f" using assms(3) by (cases "command_fuel env") simp_all
  show ?thesis
    using assms
    by (auto simp: RedisCommand_def Let_def context_at_def f log_call_def same_queues_def IsOpen_def)
qed

section \<open>The client stays open\<close>

lemma open_parts:
  "AddRef p c = Inr c' \<Longrightarrow> IsOpen c' = IsOpen c"
  "NewBuffer env n c = Inr (p, c') \<Longrightarrow> IsOpen c' = IsOpen c"
  "on_buffer p f c = Inr c' \<Longrightarrow> IsOpen c' = IsOpen c"
  "PushRespond pp c = Inr c' \<Longrightarrow> IsOpen c' = IsOpen c"
  "SAFE_RELEASE pp c = Inr c' \<Longrightarrow> IsOpen c' = IsOpen c"
  by (auto simp: AddRef_def NewBuffer_def on_buffer_def PushRespond_def bind_res_eq_Inr heap_set_def IsOpen_def
      dest: SAFE_RELEASE_frame split: option.splits)

lemma open_redis:
  "PushMysqlRequest n p d = Inr d' \<Longrightarrow> IsOpen d' = IsOpen d"
  "Redis_GenCommonRespond env l t r d = Inr (p, d') \<Longrightarrow> IsOpen d' = IsOpen d"
  "Redis_GenMultiDataNetRespond env a l f i t k r d = Inr (p, d') \<Longrightarrow> IsOpen d' = IsOpen d"
  "RequestMySQLQuery env n q d = Inr (p, d') \<Longrightarrow> IsOpen d' = IsOpen d"
  "CopyRequest env j b d = Inr (p, d') \<Longrightarrow> IsOpen d' = IsOpen d"
  by (auto simp: PushMysqlRequest_def Redis_GenCommonRespond_def Redis_GenMultiDataNetRespond_def
      RequestMySQLQuery_def CopyRequest_def bind_res_eq_Inr heap_set_def IsOpen_def
      dest!: open_parts [unfolded IsOpen_def] split: if_splits)

lemma open_common:
  "CopyToMysql env n j r b d = Inr d' \<Longrightarrow> IsOpen d' = IsOpen d"
  "RespondCommon env b r d = Inr d' \<Longrightarrow> IsOpen d' = IsOpen d"
  by (auto simp: CopyToMysql_def RespondCommon_def bind_res_eq_Inr dest!: open_redis open_parts split: option.splits)

lemma open_command: "RedisCommand env n fmt ap c = Inr (r, c') \<Longrightarrow> IsOpen c \<Longrightarrow> IsOpen c'"
  using RedisCommand_same by (fastforce simp: same_queues_def)

lemma Redis_OnRequest_open:
  assumes "IsOpen c" and "Redis_OnRequest env p c = Inr c'"
  shows "IsOpen c'"
  using assms
  by (auto simp: Redis_OnRequest_def Redis_OnRequestSet_def Redis_OnRequestGet_def Redis_OnRequestExpire_def
      Redis_OnRequestHSet_def Redis_OnRequestDel_def Redis_OnRequestHDel_def Redis_OnRequestGets_def
      Redis_OnRequestHGet_def Let_def bind_res_eq_Inr
      dest!: open_command open_redis open_parts open_common split: if_splits)

interpretation redis_worker: db_worker "Redis_OnRequest env" for env
  by unfold_locales (rule frame_OnRequest, rule Redis_OnRequest_open)

section \<open>Responses, from the reply to the script\<close>

lemma fill_common_ok:
  assumes "reply_type reply \<noteq> 2" and "length (pvData b) = 40 + length (reply_str reply)"
    and "length (reply_str reply) < 2 ^ 31"
  shows "\<exists>b'. fill_common lId byType reply b = Inr b' \<and> length (pvData b') = length (pvData b)
    \<and> m_lRefCount b' = m_lRefCount b \<and> reserve b' = reserve b
    \<and> get32 COMMON_nDataLen b' = Inr (word_of_nat (length (reply_str reply)))
    \<and> mslice (pvData b') COMMON_data (length (reply_str reply)) = reply_str reply"
  using assms
  by (simp add: fill_common_def respond_head_def Let_def mem_simps)

lemma DB_SetCommonHead_seq_ok:
  assumes "40 \<le> length (pvData b)"
  shows "\<exists>b'. DB_SetCommonHead_seq b u e q = Inr b' \<and> length (pvData b') = length (pvData b)
    \<and> get32 COMMON_uUserId b' = Inr u \<and> get32 COMMON_uEventType b' = Inr e
    \<and> get32 COMMON_uSqueneceId b' = Inr q \<and> get32 COMMON_nDataLen b' = get32 COMMON_nDataLen b
    \<and> (\<forall>n. mslice (pvData b') COMMON_data n = mslice (pvData b) COMMON_data n)
    \<and> m_lRefCount b' = m_lRefCount b \<and> reserve b' = reserve b"
  using assms by (simp add: DB_SetCommonHead_seq_def mem_simps)

lemma second_reference:
  assumes "m_lRefCount b = 1"
  shows "snd (KG_Buffer_AddRef b) = b\<lparr>m_lRefCount := 2\<rparr>"
    and "KG_Buffer_Release (b\<lparr>m_lRefCount := 2\<rparr>) = (1, Some b, False)"
proof -
  show "snd (KG_Buffer_AddRef b) = b\<lparr>m_lRefCount := 2\<rparr>"
    using increment_of_nat [of 1] assms by (simp add: KG_Buffer_AddRef_def)
  have "b\<lparr>m_lRefCount := 1\<rparr> = b" using assms by (cases b) simp
  then show "KG_Buffer_Release (b\<lparr>m_lRefCount := 2\<rparr>) = (1, Some b, False)"
    using release_more [of "b\<lparr>m_lRefCount := 2\<rparr>" 1] by simp
qed

text \<open>What the game thread makes of a response.\<close>

definition common_response :: "kg_buffer \<Rightarrow> u32 \<Rightarrow> u32 \<Rightarrow> u32 \<Rightarrow> bytes \<Rightarrow> bool" where
  "common_response b seq user event str \<longleftrightarrow>
     m_lRefCount b = 1 \<and> load8 (reserve b) 7 = Inr RESPOND_FLAG_COMMON
     \<and> OnDBResponse_common b = Inr (OnRedisRespone seq user event (takeWhile (\<lambda>x. x \<noteq> 0) str))"

lemma OnDBResponse_common_eq:
  assumes "length (pvData b) = 40 + length str" and "length str < 2 ^ 31"
    and "get32 COMMON_nDataLen b = Inr (word_of_nat (length str))"
    and "mslice (pvData b) COMMON_data (length str) = str"
    and "get32 COMMON_uUserId b = Inr u" "get32 COMMON_uEventType b = Inr e"
    and "get32 COMMON_uSqueneceId b = Inr q"
  shows "OnDBResponse_common b = Inr (OnRedisRespone q u e (takeWhile (\<lambda>x. x \<noteq> 0) str))"
proof -
  have "sint (word_of_nat (length str) :: u32) = int (length str)"
    using assms(2) by (rule u32_sint_of_nat)
  moreover have "takeWhile (\<lambda>x. x \<noteq> 0) (str @ [0]) = takeWhile (\<lambda>x. x \<noteq> 0) (str :: bytes)"
    by (induction str) simp_all
  ultimately show ?thesis
    using assms by (simp add: OnDBResponse_common_def Let_def c_string_def)
qed

lemma RespondCommon_ok:
  assumes rt: "reply_type reply \<noteq> 2" and len: "length (reply_str reply) < 2 ^ 31"
    and fresh: "kg_heap c (malloc env (kg_heap c)) = None"
    and req: "40 \<le> length (pvData req)"
    and label: "get32 HEAD_uUserId req = Inr u" "get32 HEAD_uEventType req = Inr e"
      "get32 HEAD_uSquenceId req = Inr q"
  shows "\<exists>b'. RespondCommon env req (Some reply) c =
      Inr (c\<lparr>kg_heap := (kg_heap c)(malloc env (kg_heap c) \<mapsto> b'),
             m_RespondQueue := m_RespondQueue c @ [malloc env (kg_heap c)]\<rparr>)
    \<and> common_response b' q u e (reply_str reply)"
proof -
  define r where "r = malloc env (kg_heap c)"
  let ?s = "reply_str reply"
  have cs: "common_size reply = 40 + length ?s" using rt by (simp add: common_size_def)
  obtain b0 where b0: "DB_MemoryCreateBuffer (malloc_mem env (kg_heap c)) (word_of_nat (common_size reply)) = Inr b0"
      "length (pvData b0) = 40 + length ?s" "length (reserve b0) = 8" "m_lRefCount b0 = 1"
    by (rule fresh_buffer [of "common_size reply" "malloc_mem env (kg_heap c)"]) (use len cs in auto)
  obtain lId where lId: "get64 HEAD_lId req = Inr lId" using req by simp
  obtain ty where ty: "get8 TYPE_byType req = Inr ty" using req by simp
  obtain b1 where b1: "fill_common lId ty reply b0 = Inr b1" "length (pvData b1) = 40 + length ?s"
      "m_lRefCount b1 = 1" "length (reserve b1) = 8"
      "get32 COMMON_nDataLen b1 = Inr (word_of_nat (length ?s))" "mslice (pvData b1) COMMON_data (length ?s) = ?s"
    using fill_common_ok [OF rt b0(2) len, of lId ty] b0 by auto
  define b2 where "b2 = b1\<lparr>reserve := msplice (reserve b1) 7 (enc8 RESPOND_FLAG_COMMON)\<rparr>"
  have b2: "put_reserve 7 (enc8 RESPOND_FLAG_COMMON) b1 = Inr b2"
    using b1 by (simp add: put_reserve_def b2_def)
  have b2f: "length (pvData b2) = 40 + length ?s" "m_lRefCount b2 = 1" "load8 (reserve b2) 7 = Inr 1"
      "pvData b2 = pvData b1" "get32 COMMON_nDataLen b2 = get32 COMMON_nDataLen b1"
    using b1 by (simp_all add: b2_def mem_simps get32_def f8.load_ok [simplified])
  obtain b3 where b3: "DB_SetCommonHead_seq b2 u e q = Inr b3" "length (pvData b3) = 40 + length ?s"
      "get32 COMMON_uUserId b3 = Inr u" "get32 COMMON_uEventType b3 = Inr e"
      "get32 COMMON_uSqueneceId b3 = Inr q" "get32 COMMON_nDataLen b3 = Inr (word_of_nat (length ?s))"
      "mslice (pvData b3) COMMON_data (length ?s) = ?s" "m_lRefCount b3 = 1" "load8 (reserve b3) 7 = Inr 1"
    using DB_SetCommonHead_seq_ok [of b2 u e q] b2f b1 by auto
  note add = second_reference(1) [OF b3(8)] and rel = second_reference(2) [OF b3(8)]
  have gen: "Redis_GenCommonRespond env lId ty (Some reply) c = Inr (r, heap_set r (Some b2) c)"
    using b0 b1(1) b2
    by (simp add: Redis_GenCommonRespond_def NewBuffer_def on_buffer_def heap_get_def r_def [symmetric])
       (simp add: heap_set_def)
  have set: "on_buffer r (\<lambda>b. DB_SetCommonHead_seq b u e q) (heap_set r (Some b2) c) = Inr (heap_set r (Some b3) c)"
    using b3(1) by (simp add: on_buffer_def heap_get_def heap_set_def)
  have push: "bind_res (PushRespond (Some r) (heap_set r (Some b3) c)) (SAFE_RELEASE (Some r)) =
      Inr (c\<lparr>kg_heap := (kg_heap c)(r \<mapsto> b3), m_RespondQueue := m_RespondQueue c @ [r]\<rparr>)"
    by (simp add: PushRespond_def AddRef_def heap_get_def heap_set_def add SAFE_RELEASE_Some rel)
  have "RespondCommon env req (Some reply) c =
      Inr (c\<lparr>kg_heap := (kg_heap c)(r \<mapsto> b3), m_RespondQueue := m_RespondQueue c @ [r]\<rparr>)"
    unfolding RespondCommon_def
    by (simp only: lId ty gen label set push bind_res_Inr prod.case)
  moreover have "common_response b3 q u e ?s"
    using b3 OnDBResponse_common_eq [OF b3(2) len b3(6,7,3,4,5)] by (simp add: common_response_def)
  ultimately show ?thesis by (auto simp: r_def)
qed

section \<open>Properties\<close>

text \<open>\<^verbatim>\<open>malloc\<close> returns an address that is not in use.\<close>

definition fresh_malloc :: "redis_env \<Rightarrow> bool" where
  "fresh_malloc env \<longleftrightarrow> (\<forall>h. finite (dom h) \<longrightarrow> h (malloc env h) = None)"

text \<open>An environment and an idle client.\<close>

definition demo_env :: "redis_reply \<Rightarrow> redis_env" where
  "demo_env reply =
     \<lparr>redisvCommand = \<lambda>_. (Some reply, False), redisConnect = \<lambda>_. ConnectOk 1, va_next = \<lambda>_. [],
      elapsed = \<lambda>_. 0, malloc = \<lambda>h. Suc (Max (insert 0 (dom h))), malloc_mem = \<lambda>_ _. 0,
      mysql_query = \<lambda>_. None, command_fuel = 6\<rparr>"

lemma demo_env_fresh: "fresh_malloc (demo_env reply)"
proof (unfold fresh_malloc_def, intro allI impI)
  fix h :: "nat \<rightharpoonup> kg_buffer"
  assume "finite (dom h)"
  then have "n \<in> dom h \<Longrightarrow> n < Suc (Max (insert 0 (dom h)))" for n
    by (simp add: less_Suc_eq_le)
  then have "Suc (Max (insert 0 (dom h))) \<notin> dom h" by blast
  then show "h (malloc (demo_env reply) h) = None" by (simp add: demo_env_def domIff)
qed

definition demo_client :: redis_client where
  "demo_client = db_client.extend ((KDBClient_new Map.empty)\<lparr>m_bDatabaseLost := False\<rparr>)
     \<lparr>m_vecRedisContext = [Some 1], m_nQueryCount = 0, m_ulAverageUSec = 0, hiredis_calls = [],
      m_vecMysqlClients = [[]]\<rparr>"

lemma demo_client_fields [simp]:
  "IsOpen demo_client" "m_RequestQueue demo_client = []" "m_RespondQueue demo_client = []"
  "m_vecRedisContext demo_client = [Some 1]" "hiredis_calls demo_client = []"
  "kg_heap demo_client = Map.empty" "m_vecMysqlClients demo_client = [[]]"
  by (simp_all add: demo_client_def db_client.extend_def KDBClient_new_def IsOpen_def)

text \<open>One activation of the redis worker handles every queued request, in the order of
  the queue, and releases each after its handler, whatever redis answers; it faults only
  where one of these handlers or releases does.\<close>

lemma worker_handles_in_order:
  assumes "IsOpen c" and "length (m_RequestQueue c) < fuel"
  shows "worker_loop (Redis_OnRequest env) fuel None c =
    handle_all (Redis_OnRequest env) (m_RequestQueue c) (c\<lparr>m_RequestQueue := []\<rparr>)"
  by (rule redis_worker.drains [OF assms])

lemma worker_handles_in_order_witness:
  "worker_loop (Redis_OnRequest (demo_env ReplyNil)) 3 None (demo_client\<lparr>m_RequestQueue := [4, 5]\<rparr>) =
     handle_all (Redis_OnRequest (demo_env ReplyNil)) [4, 5] (demo_client\<lparr>m_RequestQueue := []\<rparr>)"
  using worker_handles_in_order [of "demo_client\<lparr>m_RequestQueue := [4, 5]\<rparr>" 3 "demo_env ReplyNil"]
    demo_client_fields(1)
  by (simp add: IsOpen_def)

text \<open>A connection that is lost and cannot be made again stops the process with an access through
  a null pointer: \<^verbatim>\<open>Reconnect\<close> reads \<^verbatim>\<open>err\<close> through a null context, or reports success with
  a null context in the vector, which the next command is sent to.\<close>

lemma failed_reconnect_crashes:
  assumes "nIndex < length (m_vecRedisContext c)" "m_vecRedisContext c ! nIndex = Some ctx"
    and "1 < command_fuel env"
    and "redisvCommand env (hiredis_calls c @ [Command ctx format ap]) = (None, err)"
    and "\<forall>x. redisConnect env (hiredis_calls c @ [Command ctx format ap, Free ctx, Connect nIndex]) \<noteq> ConnectOk x"
  shows "RedisCommand env nIndex format ap c = Inl NullDeref"
proof -
  obtain f where f: "command_fuel env = Suc (Suc f)" using assms(3) by (cases "command_fuel env"; cases "command_fuel env - 1") auto
  show ?thesis
    using assms
    by (cases "redisConnect env (hiredis_calls c @ [Command ctx format ap, Free ctx, Connect nIndex])")
       (simp_all add: RedisCommand_def Let_def context_at_def f log_call_def Redis_Reconnect_def set_context_def)
qed

lemma Reconnect_accepted:
  assumes "nIndex < length (m_vecRedisContext c)" and "\<forall>log. \<exists>x. redisConnect env log = ConnectOk x"
  shows "\<exists>y d. Redis_Reconnect env nIndex c = Inr (True, d)
    \<and> nIndex < length (m_vecRedisContext d) \<and> m_vecRedisContext d ! nIndex = Some y"
proof (cases "m_vecRedisContext c ! nIndex")
  case None
  obtain x where "redisConnect env (hiredis_calls c @ [Connect nIndex]) = ConnectOk x"
    using assms(2) by blast
  then show ?thesis
    using None assms(1) by (simp add: Redis_Reconnect_def context_at_def log_call_def set_context_def Let_def)
next
  case (Some ctx)
  obtain x where "redisConnect env (hiredis_calls c @ [Free ctx, Connect nIndex]) = ConnectOk x"
    using assms(2) by blast
  then show ?thesis
    using Some assms(1) by (simp add: Redis_Reconnect_def context_at_def log_call_def set_context_def Let_def)
qed

lemma command_loop_unanswered:
  assumes silent: "\<forall>log. fst (redisvCommand env log) = None"
    and accepted: "\<forall>log. \<exists>x. redisConnect env log = ConnectOk x"
  shows "nIndex < length (m_vecRedisContext c) \<Longrightarrow>
    command_loop env f nIndex format ap k io (Some x) c = Inl OutOfFuel"
proof (induction f arbitrary: k x c)
  case (Suc f)
  define c1 where "c1 = log_call (Command x format (if k = 0 then ap else va_next env k)) c"
  obtain e where r: "redisvCommand env (hiredis_calls c1) = (None, e)"
    using silent by (metis prod.collapse)
  obtain y d where re: "Redis_Reconnect env nIndex (c1\<lparr>m_bDatabaseLost := True\<rparr>) = Inr (True, d)"
      "nIndex < length (m_vecRedisContext d)" "m_vecRedisContext d ! nIndex = Some y"
    using Reconnect_accepted [of nIndex "c1\<lparr>m_bDatabaseLost := True\<rparr>" env] Suc.prems accepted
    by (auto simp: c1_def log_call_def)
  have "command_loop env (Suc f) nIndex format ap k io (Some x) c =
      command_loop env f nIndex format ap (Suc k) io (Some y) d"
    using r re unfolding c1_def by (simp add: Let_def context_at_def)
  then show ?case using Suc.IH re by simp
qed simp

text \<open>C35: as long as redis accepts connections but answers no command, the command is sent again
  without end: no amount of fuel gives a result.\<close>

theorem unanswered_command_never_returns:
  assumes "nIndex < length (m_vecRedisContext c)" "m_vecRedisContext c ! nIndex \<noteq> None"
    and "\<forall>log. fst (redisvCommand env log) = None" and "\<forall>log. \<exists>x. redisConnect env log = ConnectOk x"
  shows "\<forall>fuel. RedisCommand (env\<lparr>command_fuel := fuel\<rparr>) nIndex format ap c = Inl OutOfFuel"
proof
  fix fuel
  obtain x where "m_vecRedisContext c ! nIndex = Some x" using assms(2) by blast
  then show "RedisCommand (env\<lparr>command_fuel := fuel\<rparr>) nIndex format ap c = Inl OutOfFuel"
    using assms command_loop_unanswered [of "env\<lparr>command_fuel := fuel\<rparr>" nIndex
        "c\<lparr>m_nQueryCount := m_nQueryCount c + 1\<rparr>"]
    by (simp add: RedisCommand_def Let_def context_at_def)
qed

theorem unanswered_command_never_returns_witness:
  "\<forall>fuel. RedisCommand ((demo_env ReplyNil)\<lparr>redisvCommand := \<lambda>_. (None, True), command_fuel := fuel\<rparr>)
     0 (ascii ''get %b'') [ArgB [107]] demo_client = Inl OutOfFuel"
  using unanswered_command_never_returns [of 0 demo_client "(demo_env ReplyNil)\<lparr>redisvCommand := \<lambda>_. (None, True)\<rparr>"]
  by (simp add: demo_env_def)

lemma command_loop_answered:
  assumes answers: "\<forall>log. fst (redisvCommand env log) \<noteq> None"
  shows "5 - io < f \<Longrightarrow> \<exists>reply c'. command_loop env f nIndex format ap k io (Some x) c = Inr (Some reply, c')
    \<and> same_queues c c' \<and> m_vecRedisContext c' = m_vecRedisContext c
    \<and> length (hiredis_calls c') \<le> length (hiredis_calls c) + 1 + (5 - io)"
proof (induction f arbitrary: k io c)
  case (Suc f)
  define c1 where "c1 = log_call (Command x format (if k = 0 then ap else va_next env k)) c"
  obtain reply e where r: "redisvCommand env (hiredis_calls c1) = (Some reply, e)"
    using answers by (metis option.exhaust prod.collapse)
  have c1: "same_queues c c1" "m_vecRedisContext c1 = m_vecRedisContext c"
      "length (hiredis_calls c1) = length (hiredis_calls c) + 1"
    by (simp_all add: c1_def log_call_def same_queues_def IsOpen_def)
  have step: "command_loop env (Suc f) nIndex format ap k io (Some x) c =
      (if reply_type reply = 6 \<and> e \<and> io < 5 then command_loop env f nIndex format ap (Suc k) (Suc io) (Some x) c1
       else Inr (Some reply, c1))"
    using r unfolding c1_def by (simp add: Let_def)
  show ?case
  proof (cases "reply_type reply = 6 \<and> e \<and> io < 5")
    case True
    have "5 - Suc io < f" using Suc.prems True by linarith
    from Suc.IH [OF this, of "Suc k" c1]
    obtain rep c' where c': "command_loop env f nIndex format ap (Suc k) (Suc io) (Some x) c1 = Inr (Some rep, c')"
        "same_queues c1 c'" "m_vecRedisContext c' = m_vecRedisContext c1"
        "length (hiredis_calls c') \<le> length (hiredis_calls c1) + 1 + (5 - Suc io)"
      by blast
    have "length (hiredis_calls c') \<le> length (hiredis_calls c) + 1 + (5 - io)"
      using c'(4) c1(3) True by linarith
    then show ?thesis unfolding step using True c' c1 same_queues_trans [OF c1(1) c'(2)] by simp
  next
    case False
    then show ?thesis unfolding step if_not_P [OF False] using c1 by simp
  qed
qed simp

text \<open>C34: as long as redis gives some reply to every command, error replies on a broken connection
  included, \<^verbatim>\<open>RedisCommand\<close> returns: it sends the command at most six times, changes no
  queue and no buffer, and its result is a reply, never \<^verbatim>\<open>NULL\<close>.\<close>

theorem answered_command_returns:
  assumes "nIndex < length (m_vecRedisContext c)" "m_vecRedisContext c ! nIndex \<noteq> None"
    and "\<forall>log. fst (redisvCommand env log) \<noteq> None" and "6 \<le> command_fuel env"
  shows "\<exists>reply c'. RedisCommand env nIndex format ap c = Inr (Some reply, c') \<and> same_queues c c'
    \<and> length (hiredis_calls c') \<le> length (hiredis_calls c) + 6"
proof -
  obtain x where x: "m_vecRedisContext c ! nIndex = Some x" using assms(2) by blast
  let ?c = "c\<lparr>m_nQueryCount := m_nQueryCount c + 1\<rparr>"
  obtain reply c' where c': "command_loop env (command_fuel env) nIndex format ap 0 0 (Some x) ?c = Inr (Some reply, c')"
      "same_queues ?c c'" "length (hiredis_calls c') \<le> length (hiredis_calls ?c) + 1 + (5 - 0)"
    using command_loop_answered [OF assms(3), of 0 "command_fuel env" nIndex format ap 0 x ?c] assms(4) by auto
  then show ?thesis
    using assms(1) x by (simp add: RedisCommand_def Let_def context_at_def same_queues_def IsOpen_def)
qed

theorem answered_command_returns_witness:
  "\<exists>reply c'. RedisCommand ((demo_env (ReplyError []))\<lparr>redisvCommand := \<lambda>_. (Some (ReplyError []), True)\<rparr>)
      0 (ascii ''get %b'') [ArgB [107]] demo_client = Inr (Some reply, c') \<and> length (hiredis_calls c') \<le> 6"
  using answered_command_returns [of 0 demo_client
      "(demo_env (ReplyError []))\<lparr>redisvCommand := \<lambda>_. (Some (ReplyError []), True)\<rparr>" "ascii ''get %b''" "[ArgB [107]]"]
  by (auto simp: demo_env_def)

lemma unat_scast_len: "n < 2 ^ 31 \<Longrightarrow> unat (scast (word_of_nat n :: u32) :: u64) = n"
proof -
  assume n: "n < 2 ^ 31"
  have "sint (word_of_nat n :: u32) = int n" using n by (rule u32_sint_of_nat)
  then have "(scast (word_of_nat n :: u32) :: u64) = word_of_nat n"
    by (simp only: scast_eq) simp
  then show ?thesis using n by (simp add: unat_of_nat)
qed

text \<open>\<open>put_values\<close> writes the length table and the values, and nothing else.\<close>

fun values_len :: "redis_reply list \<Rightarrow> nat" where
  "values_len [] = 0"
| "values_len (e # es) = (if has_value e then length (reply_str e) else 0) + values_len es"

lemma put_values_ok:
  "lens + 4 * length es \<le> tmp \<Longrightarrow> tmp + values_len es \<le> length (pvData b) \<Longrightarrow>
     \<exists>b'. put_values lens tmp es b = Inr b' \<and> length (pvData b') = length (pvData b)
       \<and> m_lRefCount b' = m_lRefCount b \<and> reserve b' = reserve b
       \<and> (\<forall>off n. off + n \<le> lens \<or> (lens + 4 * length es \<le> off \<and> off + n \<le> tmp) \<longrightarrow>
            mslice (pvData b') off n = mslice (pvData b) off n)"
proof (induction es arbitrary: lens tmp b)
  case (Cons e es)
  define b1 where "b1 = b\<lparr>pvData := msplice (pvData b) lens
      (enc32 (if has_value e then word_of_nat (length (reply_str e)) else - 1))\<rparr>"
  define b2 where "b2 = (if has_value e then b1\<lparr>pvData := msplice (pvData b1) tmp (reply_str e)\<rparr> else b1)"
  define tmp' where "tmp' = tmp + (if has_value e then length (reply_str e) else 0)"
  have l1: "length (pvData b1) = length (pvData b)" using Cons.prems by (simp add: b1_def)
  have l2: "length (pvData b2) = length (pvData b)"
    using Cons.prems l1 by (cases "has_value e") (simp_all add: b2_def)
  have step: "put_values lens tmp (e # es) b = put_values (lens + 4) tmp' es b2"
    using Cons.prems l1 by (cases "has_value e") (simp_all add: b2_def b1_def tmp'_def)
  obtain b' where b': "put_values (lens + 4) tmp' es b2 = Inr b'" "length (pvData b') = length (pvData b2)"
      "m_lRefCount b' = m_lRefCount b2" "reserve b' = reserve b2"
      "\<And>off n. off + n \<le> lens + 4 \<or> (lens + 4 + 4 * length es \<le> off \<and> off + n \<le> tmp') \<Longrightarrow>
            mslice (pvData b') off n = mslice (pvData b2) off n"
    using Cons.IH [of "lens + 4" tmp' b2] Cons.prems l2 by (auto simp: tmp'_def split: if_splits)
  have "mslice (pvData b') off n = mslice (pvData b) off n"
    if "off + n \<le> lens \<or> (lens + 4 * length (e # es) \<le> off \<and> off + n \<le> tmp)" for off n
  proof -
    have "mslice (pvData b2) off n = mslice (pvData b1) off n"
      using that Cons.prems l1 by (auto simp: b2_def slice_msplice_before)
    moreover have "mslice (pvData b1) off n = mslice (pvData b) off n"
      using that Cons.prems by (auto simp: b1_def slice_msplice_before slice_msplice_after)
    moreover have "mslice (pvData b') off n = mslice (pvData b2) off n"
      using that by (intro b'(5)) (auto simp: tmp'_def)
    ultimately show ?thesis by simp
  qed
  moreover have "m_lRefCount b2 = m_lRefCount b" "reserve b2 = reserve b" by (simp_all add: b2_def b1_def)
  ultimately show ?case using b' step l2 by auto
qed simp

text \<open>The table the script gets: the values, or a read far behind the buffer at the first nil.\<close>

lemma lua_table_put_values:
  "lens + 4 * length es \<le> tmp \<Longrightarrow> tmp + values_len es \<le> length (pvData b) \<Longrightarrow> length (pvData b) < 2 ^ 32 \<Longrightarrow>
   \<forall>e\<in>set es. has_value e \<longrightarrow> length (reply_str e) < 2 ^ 31 \<Longrightarrow> put_values lens tmp es b = Inr b' \<Longrightarrow>
     lua_table lens tmp (length es) b' =
       (if \<forall>e\<in>set es. has_value e then Inr (map reply_str es) else Inl OutOfBoundsRead)"
proof (induction es arbitrary: lens tmp b)
  case (Cons e es)
  define b1 where "b1 = b\<lparr>pvData := msplice (pvData b) lens
      (enc32 (if has_value e then word_of_nat (length (reply_str e)) else - 1))\<rparr>"
  define b2 where "b2 = (if has_value e then b1\<lparr>pvData := msplice (pvData b1) tmp (reply_str e)\<rparr> else b1)"
  define tmp' where "tmp' = tmp + (if has_value e then length (reply_str e) else 0)"
  have l1: "length (pvData b1) = length (pvData b)" using Cons.prems by (simp add: b1_def)
  have l2: "length (pvData b2) = length (pvData b)"
    using Cons.prems l1 by (cases "has_value e") (simp_all add: b2_def)
  have step: "put_values lens tmp (e # es) b = put_values (lens + 4) tmp' es b2"
    using Cons.prems l1 by (cases "has_value e") (simp_all add: b2_def b1_def tmp'_def)
  have pre: "lens + 4 + 4 * length es \<le> tmp'" "tmp' + values_len es \<le> length (pvData b2)"
    using Cons.prems l2 by (auto simp: tmp'_def)
  have run: "put_values (lens + 4) tmp' es b2 = Inr b'" using Cons.prems step by simp
  have keep: "length (pvData b') = length (pvData b)"
      "\<And>off n. off + n \<le> lens + 4 \<or> (lens + 4 + 4 * length es \<le> off \<and> off + n \<le> tmp') \<Longrightarrow>
            mslice (pvData b') off n = mslice (pvData b2) off n"
    using put_values_ok [OF pre] run l2 by auto
  have IH: "lua_table (lens + 4) tmp' (length es) b' =
      (if \<forall>e\<in>set es. has_value e then Inr (map reply_str es) else Inl OutOfBoundsRead)"
    using Cons.IH [OF pre _ _ run] Cons.prems l2 by simp
  have "mslice (pvData b2) lens 4 = mslice (pvData b1) lens 4"
    using Cons.prems l1 by (auto simp: b2_def slice_msplice_before)
  then have len: "get32 lens b' = Inr (if has_value e then word_of_nat (length (reply_str e)) else - 1)"
    using keep(2) [of lens 4] keep(1) Cons.prems by (simp add: b1_def slice_msplice_same)
  show ?case
  proof (cases "has_value e")
    case True
    then have "mslice (pvData b') tmp (length (reply_str e)) = reply_str e"
      using keep(2) [of tmp "length (reply_str e)"] Cons.prems l1
      by (simp add: tmp'_def b2_def slice_msplice_same)
    moreover have "tmp + length (reply_str e) \<le> length (pvData b')" using Cons.prems True keep by simp
    ultimately show ?thesis
      using True len IH Cons.prems(4) by (simp add: unat_scast_len tmp'_def)
  next
    case False
    have "unat (scast (- 1 :: u32) :: u64) = 18446744073709551615" by (simp add: unsigned_minus_1_eq_mask mask_eq_exp_minus_1)
    then show ?thesis using False len keep(1) Cons.prems(3) by simp
  qed
qed simp

lemma multi_size_values: "multi_size (ReplyArray es) = 37 + 4 * length es + values_len es"
proof -
  have "(\<Sum>e\<leftarrow>es. if reply_type e = 1 then length (reply_str e) else 0) = values_len es"
  proof (induction es)
    case (Cons e es)
    then show ?case by (cases e) (simp_all add: has_value_def)
  qed simp
  then show ?thesis by (simp add: multi_size_def GetNetPacketReserved_def)
qed

lemma fill_multi_ok:
  assumes "length (pvData b) = multi_size (ReplyArray es)" "length (reserve b) = 8"
    and size: "multi_size (ReplyArray es) < 2 ^ 31"
  shows "\<exists>b' d. fill_multi a l f i t n (ReplyArray es) b = Inr b' \<and> length (pvData b') = length (pvData b)
    \<and> get32 (MULTI_base + MULTI_nCount) b' = Inr (word_of_nat (length es))
    \<and> (\<exists>fl. load8 (reserve b') 7 = Inr fl \<and> fl \<in> {RESPOND_FLAG_NET_PART1, RESPOND_FLAG_NET_FULL})
    \<and> m_lRefCount b' = m_lRefCount b
    \<and> put_values 37 (37 + 4 * length es) es d = Inr b' \<and> length (pvData d) = length (pvData b)"
proof -
  have len: "length (pvData b) = 37 + 4 * length es + values_len es"
    using assms(1) by (simp add: multi_size_values)
  define fl where "fl = (if multi_has_nil (ReplyArray es) \<and> \<not> a then RESPOND_FLAG_NET_PART1 else RESPOND_FLAG_NET_FULL)"
  define b1 where "b1 = b\<lparr>reserve := msplice (msplice (reserve b) 7 (enc8 fl)) 3 (enc32 n)\<rparr>"
  have b1: "load8 (reserve b1) 7 = Inr fl" "pvData b1 = pvData b" "length (reserve b1) = 8"
    using assms(2) by (simp_all add: b1_def mem_simps f8.load_ok [simplified])
  define d where "d = b1\<lparr>pvData :=
      msplice (msplice (msplice (msplice (msplice (msplice (msplice (pvData b)
        0 (enc8 i)) 21 (enc8 DB_FLAG_REDIS)) 22 (enc8 (word_of_nat 2))) 23 (enc8 t))
        33 (enc32 (word_of_nat (length es)))) 1 (enc64 f)) 25 (enc64 l)\<rparr>"
  have d: "length (pvData d) = length (pvData b)" "reserve d = reserve b1" "m_lRefCount d = m_lRefCount b"
    using len by (simp_all add: d_def b1_def)
  have count: "mslice (pvData d) 33 4 = enc32 (word_of_nat (length es))"
    using len by (simp add: d_def mem_simps)
  have run: "fill_multi a l f i t n (ReplyArray es) b = put_values 37 (37 + 4 * length es) es d"
    using len assms(2) by (simp add: fill_multi_def put_reserve_def d_def b1_def fl_def)
  obtain b' where b': "put_values 37 (37 + 4 * length es) es d = Inr b'" "length (pvData b') = length (pvData d)"
      "m_lRefCount b' = m_lRefCount d" "reserve b' = reserve d"
      "\<And>off n. off + n \<le> 37 \<or> (37 + 4 * length es \<le> off \<and> off + n \<le> 37 + 4 * length es) \<Longrightarrow>
         mslice (pvData b') off n = mslice (pvData d) off n"
    using put_values_ok [of 37 es "37 + 4 * length es" d] len d by auto
  have "get32 (MULTI_base + MULTI_nCount) b' = Inr (word_of_nat (length es))"
    using b'(5) [of 33 4] count len d b'(2) by simp
  moreover have "fl \<in> {RESPOND_FLAG_NET_PART1, RESPOND_FLAG_NET_FULL}" by (simp add: fl_def)
  ultimately show ?thesis
    using run b' d b1 by (intro exI [of _ b'] exI [of _ d]) auto
qed

lemma lua_table_cong:
  assumes "length (pvData b') = length (pvData b)" and "\<And>off n. k \<le> off \<Longrightarrow> mslice (pvData b') off n = mslice (pvData b) off n"
  shows "k \<le> lens \<Longrightarrow> k \<le> tmp \<Longrightarrow> lua_table lens tmp n b' = lua_table lens tmp n b"
proof (induction n arbitrary: lens tmp)
  case (Suc n)
  have get: "get32 lens b' = get32 lens b"
    using assms Suc.prems by (simp add: get32_def load_def mem_read_def)
  have read: "mem_read (pvData b') tmp j = mem_read (pvData b) tmp j" for j
    using assms Suc.prems by (simp add: mem_read_def)
  show ?case
    using Suc by (simp add: get read)
qed simp

lemma DB_SetMulDataHead_seq_ok:
  assumes "37 \<le> length (pvData b)"
  shows "\<exists>b'. DB_SetMulDataHead_seq b u e q = Inr b' \<and> length (pvData b') = length (pvData b)
    \<and> get32 (MULTI_base + MULTI_uUserId) b' = Inr u \<and> get32 (MULTI_base + MULTI_uEventType) b' = Inr e
    \<and> get32 (MULTI_base + MULTI_uSquenceId) b' = Inr q
    \<and> (\<forall>off n. 25 \<le> off \<longrightarrow> mslice (pvData b') off n = mslice (pvData b) off n) \<and> reserve b' = reserve b"
  using assms by (simp add: DB_SetMulDataHead_seq_def mem_simps)

lemma multi_delivered:
  assumes "length (pvData b) = multi_size (ReplyArray es)" "length (reserve b) = 8"
    and size: "multi_size (ReplyArray es) < 2 ^ 31"
  shows "\<exists>b1 b2 fl. fill_multi a l f i t n (ReplyArray es) b = Inr b1
    \<and> DB_SetMulDataHead_seq b1 u e q = Inr b2
    \<and> load8 (reserve b2) 7 = Inr fl \<and> fl \<in> {RESPOND_FLAG_NET_PART1, RESPOND_FLAG_NET_FULL}
    \<and> OnDBResponse_multi b2 =
      (if \<forall>x\<in>set es. has_value x then Inr (OnRedisMulDataRespone q u e (map reply_str es))
       else Inl OutOfBoundsRead)"
proof -
  obtain b1 d fl where b1: "fill_multi a l f i t n (ReplyArray es) b = Inr b1"
      "length (pvData b1) = length (pvData b)"
      "get32 (MULTI_base + MULTI_nCount) b1 = Inr (word_of_nat (length es))"
      "load8 (reserve b1) 7 = Inr fl" "fl \<in> {RESPOND_FLAG_NET_PART1, RESPOND_FLAG_NET_FULL}"
      "put_values 37 (37 + 4 * length es) es d = Inr b1" "length (pvData d) = length (pvData b)"
    using fill_multi_ok [OF assms, of a l f i t n] by blast
  have len: "length (pvData b) = 37 + 4 * length es + values_len es"
    using assms(1) by (simp add: multi_size_values)
  obtain b2 where b2: "DB_SetMulDataHead_seq b1 u e q = Inr b2" "length (pvData b2) = length (pvData b1)"
      "get32 (MULTI_base + MULTI_uUserId) b2 = Inr u" "get32 (MULTI_base + MULTI_uEventType) b2 = Inr e"
      "get32 (MULTI_base + MULTI_uSquenceId) b2 = Inr q"
      "\<And>off n. 25 \<le> off \<Longrightarrow> mslice (pvData b2) off n = mslice (pvData b1) off n" "reserve b2 = reserve b1"
    using DB_SetMulDataHead_seq_ok [of b1 u e q] b1(2) len by auto
  have small: "length es < 2 ^ 31" "values_len es < 2 ^ 31"
    using size assms(1) len by simp_all
  have "\<forall>x\<in>set es. length (reply_str x) \<le> values_len es \<or> \<not> has_value x"
    by (induction es) auto
  then have strs: "\<forall>x\<in>set es. has_value x \<longrightarrow> length (reply_str x) < 2 ^ 31"
    using small by fastforce
  have table: "lua_table 37 (37 + 4 * length es) (length es) b2 =
      (if \<forall>x\<in>set es. has_value x then Inr (map reply_str es) else Inl OutOfBoundsRead)"
    using lua_table_put_values [OF _ _ _ strs b1(6)] lua_table_cong [of b2 b1 37] b2 b1(2,7) len size assms(1)
    by simp
  have count: "get32 (MULTI_base + MULTI_nCount) b2 = Inr (word_of_nat (length es))"
    using b1(2,3) b2(2,6) len by (simp add: get32_def load_def mem_read_def)
  have sint: "sint (word_of_nat (length es) :: u32) = int (length es)"
    using small(1) by (rule u32_sint_of_nat)
  have "OnDBResponse_multi b2 =
      (if \<forall>x\<in>set es. has_value x then Inr (OnRedisMulDataRespone q u e (map reply_str es)) else Inl OutOfBoundsRead)"
    using count b2(3,4,5) sint table by (simp add: OnDBResponse_multi_def Let_def)
  then show ?thesis using b1(1,4,5) b2(1,7) by auto
qed

text \<open>C33: the response to a \<^verbatim>\<open>mget\<close> gives the script the values in order, under the numbers of the
  request, if redis has a value for every key; with a nil among the elements the game
  thread reads 18446744073709551615 bytes from the buffer.\<close>

theorem mget_values_or_crash:
  fixes c :: "'s redis_client_scheme"
  assumes size: "multi_size (ReplyArray es) < 2 ^ 31"
  shows "\<exists>r c1 c2. Redis_GenMultiDataNetRespond env a l f i t n (Some (ReplyArray es)) c = Inr (r, c1)
    \<and> on_buffer r (\<lambda>b. DB_SetMulDataHead_seq b u e q) c1 = Inr c2
    \<and> (\<forall>lua. Redis_OnResponsed lua r c2 =
          (if \<forall>x\<in>set es. has_value x then lua (OnRedisMulDataRespone q u e (map reply_str es)) c2
           else Inl OutOfBoundsRead))"
proof -
  define r where "r = malloc env (kg_heap c)"
  obtain b where b: "DB_MemoryCreateBuffer (malloc_mem env (kg_heap c)) (word_of_nat (multi_size (ReplyArray es))) = Inr b"
      "length (pvData b) = multi_size (ReplyArray es)" "length (reserve b) = 8"
    by (rule fresh_buffer [of "multi_size (ReplyArray es)" "malloc_mem env (kg_heap c)"]) (use size in auto)
  obtain b1 b2 fl where b12: "fill_multi a l f i t n (ReplyArray es) b = Inr b1"
      "DB_SetMulDataHead_seq b1 u e q = Inr b2"
      "load8 (reserve b2) 7 = Inr fl" "fl \<in> {RESPOND_FLAG_NET_PART1, RESPOND_FLAG_NET_FULL}"
      "OnDBResponse_multi b2 =
        (if \<forall>x\<in>set es. has_value x then Inr (OnRedisMulDataRespone q u e (map reply_str es))
         else Inl OutOfBoundsRead)"
    using multi_delivered [OF b(2,3) size, of a l f i t n u e q] by blast
  have del: "Redis_OnResponsed lua r (heap_set r (Some b2) c) =
      (if \<forall>x\<in>set es. has_value x
       then lua (OnRedisMulDataRespone q u e (map reply_str es)) (heap_set r (Some b2) c)
       else Inl OutOfBoundsRead)" for lua
    using b12(3,4,5) by (auto simp: Redis_OnResponsed_def heap_get_def heap_set_def)
  have "Redis_GenMultiDataNetRespond env a l f i t n (Some (ReplyArray es)) c = Inr (r, heap_set r (Some b1) c)"
    using b(1) b12(1)
    by (simp add: Redis_GenMultiDataNetRespond_def NewBuffer_def on_buffer_def heap_get_def r_def [symmetric])
       (simp add: heap_set_def)
  moreover have "on_buffer r (\<lambda>b. DB_SetMulDataHead_seq b u e q) (heap_set r (Some b1) c) = Inr (heap_set r (Some b2) c)"
    using b12(2) by (simp add: on_buffer_def heap_get_def heap_set_def)
  ultimately show ?thesis using del by blast
qed

theorem mget_values_or_crash_witness:
  "(\<exists>r c1 c2. Redis_GenMultiDataNetRespond (demo_env ReplyNil) False 0 0 6 5 0
        (Some (ReplyArray [ReplyString [65], ReplyString []])) demo_client = Inr (r, c1)
      \<and> on_buffer r (\<lambda>b. DB_SetMulDataHead_seq b 1 2 3) c1 = Inr c2
      \<and> (\<forall>lua. Redis_OnResponsed lua r c2 = lua (OnRedisMulDataRespone 3 1 2 [[65], []]) c2))
   \<and> (\<exists>r c1 c2. Redis_GenMultiDataNetRespond (demo_env ReplyNil) False 0 0 6 5 0
        (Some (ReplyArray [ReplyString [65], ReplyNil])) demo_client = Inr (r, c1)
      \<and> on_buffer r (\<lambda>b. DB_SetMulDataHead_seq b 1 2 3) c1 = Inr c2
      \<and> (\<forall>lua. Redis_OnResponsed lua r c2 = Inl OutOfBoundsRead))"
proof -
  note m = mget_values_or_crash [of _ "demo_env ReplyNil" False 0 0 6 5 0 demo_client 1 2 3]
  show ?thesis
    using m [of "[ReplyString [65], ReplyString []]"] m [of "[ReplyString [65], ReplyNil]"]
    by (simp add: multi_size_values has_value_def)
qed

end
