(* ===== verification/LuaRedis.thy ===== *)
theory LuaRedis
  imports RedisClient LuaEngine
begin

text \<open>
  The functions the scripts call to reach redis (\<^verbatim>\<open>vm/lua_redis.cpp\<close>), and the whole way of
  a request: from the script through the queue to the worker, to redis, and back as a
  call of the script. What \<^verbatim>\<open>lua_tonumber\<close> and \<^verbatim>\<open>lua_tostring\<close> make of a script value is an argument.
\<close>

section \<open>The script interface\<close>

text \<open>\<^verbatim>\<open>KDBClientMgr::PushRedisRequest\<close>; the manager has one redis client.\<close>

definition PushRedisRequest ::
  "nat \<Rightarrow> buffer_ref \<Rightarrow> 's redis_client_scheme \<Rightarrow> 's redis_client_scheme res" where
  "PushRedisRequest nDBType pBuffer c =
     (if nDBType - 1 = 0 then PushRequest (Some pBuffer) c else Inl OutOfBoundsRead)"

text \<open>A buffer that a \<^verbatim>\<open>DB_Create...Buffer\<close> function has built gets its address.\<close>

definition place :: "redis_env \<Rightarrow> kg_buffer \<Rightarrow> 's db_client_scheme \<Rightarrow> buffer_ref \<times> 's db_client_scheme" where
  "place env b c = (malloc env (kg_heap c), heap_set (malloc env (kg_heap c)) (Some b) c)"

definition PushRedisSet ::
  "'v lua_api \<Rightarrow> redis_env \<Rightarrow> 'v list \<Rightarrow> 's redis_client_scheme \<Rightarrow> 's redis_client_scheme res" where
  "PushRedisSet api env args c =
     (if length args \<noteq> 5 then Inr c
      else
        bind_res (lua_string api (args ! 2)) (\<lambda>szTableName.
        bind_res (lua_string api (args ! 3)) (\<lambda>szKey.
        bind_res (lua_string api (args ! 4)) (\<lambda>szValue.
        bind_res (DB_CreateSetBuffer (malloc_mem env (kg_heap c)) szTableName szKey szValue) (\<lambda>b.
        bind_res (DB_SetBufferHead b (lua_tonumber api (args ! 0)) (lua_tonumber api (args ! 1))) (\<lambda>b.
        case place env b c of (pBuffer, c) \<Rightarrow> PushRedisRequest 1 pBuffer c))))))"

definition PushRedisGet ::
  "'v lua_api \<Rightarrow> redis_env \<Rightarrow> 'v list \<Rightarrow> 's redis_client_scheme \<Rightarrow> 's redis_client_scheme res" where
  "PushRedisGet api env args c =
     (if length args \<noteq> 5 then Inr c
      else
        bind_res (lua_string api (args ! 3)) (\<lambda>szTableName.
        bind_res (lua_string api (args ! 4)) (\<lambda>szKey.
        bind_res (DB_CreateGetBuffer (malloc_mem env (kg_heap c)) szTableName szKey) (\<lambda>b.
        bind_res (DB_SetBufferHead_seq b (lua_tonumber api (args ! 1)) (lua_tonumber api (args ! 2))
            (lua_tonumber api (args ! 0))) (\<lambda>b.
        case place env b c of (pBuffer, c) \<Rightarrow> PushRedisRequest 1 pBuffer c)))))"

definition PushRedisGets ::
  "'v lua_api \<Rightarrow> redis_env \<Rightarrow> 'v list \<Rightarrow> 's redis_client_scheme \<Rightarrow> 's redis_client_scheme res" where
  "PushRedisGets api env args c =
     (if length args \<noteq> 4 then Inr c
      else
        bind_res (lua_string api (args ! 3)) (\<lambda>szKeys.
        bind_res (DB_CreateGetsBuffer (malloc_mem env (kg_heap c)) szKeys) (\<lambda>b.
        bind_res (DB_SetBufferHead_seq b (lua_tonumber api (args ! 1)) (lua_tonumber api (args ! 2))
            (lua_tonumber api (args ! 0))) (\<lambda>b.
        case place env b c of (pBuffer, c) \<Rightarrow> PushRedisRequest 1 pBuffer c))))"

definition PushRedisDel ::
  "'v lua_api \<Rightarrow> redis_env \<Rightarrow> 'v list \<Rightarrow> 's redis_client_scheme \<Rightarrow> 's redis_client_scheme res" where
  "PushRedisDel api env args c =
     (if length args \<noteq> 4 then Inr c
      else
        bind_res (lua_string api (args ! 2)) (\<lambda>szTableName.
        bind_res (lua_string api (args ! 3)) (\<lambda>szKey.
        bind_res (DB_CreateDelBuffer (malloc_mem env (kg_heap c)) szTableName szKey) (\<lambda>b.
        bind_res (DB_SetBufferHead b (lua_tonumber api (args ! 0)) (lua_tonumber api (args ! 1))) (\<lambda>b.
        case place env b c of (pBuffer, c) \<Rightarrow> PushRedisRequest 1 pBuffer c)))))"

definition PushRedisHSet ::
  "'v lua_api \<Rightarrow> redis_env \<Rightarrow> 'v list \<Rightarrow> 's redis_client_scheme \<Rightarrow> 's redis_client_scheme res" where
  "PushRedisHSet api env args c =
     (if length args \<noteq> 5 then Inr c
      else
        bind_res (lua_string api (args ! 2)) (\<lambda>szTableName.
        bind_res (lua_string api (args ! 3)) (\<lambda>szKey.
        bind_res (lua_string api (args ! 4)) (\<lambda>szValue.
        bind_res (DB_CreateHSetBuffer (malloc_mem env (kg_heap c)) szTableName szKey szValue) (\<lambda>b.
        bind_res (DB_SetBufferHead b (lua_tonumber api (args ! 0)) (lua_tonumber api (args ! 1))) (\<lambda>b.
        case place env b c of (pBuffer, c) \<Rightarrow> PushRedisRequest 1 pBuffer c))))))"

section \<open>Lemmas\<close>

text \<open>One request in an idle client.\<close>

lemma one_request:
  assumes "m_RequestQueue c = []" and "IsOpen c" and "m_lRefCount b = 1"
    and fresh: "kg_heap c p = None"
  shows "\<exists>c1. PushRedisRequest 1 p (heap_set p (Some b) c) = Inr c1
    \<and> worker_loop (Redis_OnRequest env) 2 None c1 =
        bind_res (Redis_OnRequest env p (c\<lparr>kg_heap := (kg_heap c)(p \<mapsto> b\<lparr>m_lRefCount := 2\<rparr>)\<rparr>))
          (SAFE_RELEASE (Some p))"
proof -
  let ?c = "c\<lparr>kg_heap := (kg_heap c)(p \<mapsto> b\<lparr>m_lRefCount := 2\<rparr>)\<rparr>"
  let ?c1 = "?c\<lparr>m_RequestQueue := [p]\<rparr>"
  have "PushRedisRequest 1 p (heap_set p (Some b) c) = Inr ?c1"
    using assms by (simp add: PushRedisRequest_def PushRequest_def AddRef_def heap_get_def heap_set_def
        second_reference(1))
  moreover have "?c1\<lparr>m_RequestQueue := []\<rparr> = ?c"
    using assms(1) by (cases c) simp
  then have "worker_loop (Redis_OnRequest env) 2 None ?c1 = handle_all (Redis_OnRequest env) [p] ?c"
    using redis_worker.drains [of ?c1 2 env] assms(2) by (simp add: IsOpen_def)
  ultimately show ?thesis by (intro exI [of _ ?c1]) (simp add: bind_res_def split: sum.split)
qed

text \<open>The worker's part of a \<^verbatim>\<open>get\<close>.\<close>

lemma OnRequest_get:
  assumes "m_vecRedisContext c = [Some ctx]" and "0 < command_fuel env"
    and heap: "kg_heap c p = Some b" and len: "64 \<le> length (pvData b)"
    and b: "get8 TYPE_byType b = Inr (request_code emREQUEST_GET)"
      "get32 GET_uPrefixLen b = Inr (word_of_nat (length t))" "get32 GET_uKeyLen b = Inr (word_of_nat (length k))"
      "mslice (pvData b) GET_data (length t + length k + 1) = t @ [95] @ k"
      "56 + (length t + length k + 1) \<le> length (pvData b)"
      "get32 HEAD_uUserId b = Inr u" "get32 HEAD_uEventType b = Inr e" "get32 HEAD_uSquenceId b = Inr q"
    and small: "length t + length k < 2 ^ 31"
    and redis: "redisvCommand env (hiredis_calls c @ [Command ctx (ascii ''get %b'') [ArgB (t @ [95] @ k)]])
      = (Some reply, err)"
    and reply: "reply_type reply \<noteq> 2" "reply_type reply \<noteq> 6 \<or> \<not> err" "length (reply_str reply) < 2 ^ 31"
    and fresh: "kg_heap c (malloc env (kg_heap c)) = None"
  shows "\<exists>c' b'. Redis_OnRequest env p c = Inr c'
    \<and> hiredis_calls c' = hiredis_calls c @ [Command ctx (ascii ''get %b'') [ArgB (t @ [95] @ k)]]
    \<and> kg_heap c' = (kg_heap c)(malloc env (kg_heap c) \<mapsto> b')
    \<and> m_RespondQueue c' = m_RespondQueue c @ [malloc env (kg_heap c)] \<and> m_RequestQueue c' = m_RequestQueue c
    \<and> m_vecMysqlClients c' = m_vecMysqlClients c \<and> m_vecRedisContext c' = m_vecRedisContext c
    \<and> common_response b' q u e (reply_str reply)"
proof -
  let ?cmd = "RedisCommand env 0 (ascii ''get %b'') [ArgB (t @ [95] @ k)] c"
  obtain c1 where c1: "?cmd = Inr (Some reply, c1)" "same_queues c c1"
      "hiredis_calls c1 = hiredis_calls c @ [Command ctx (ascii ''get %b'') [ArgB (t @ [95] @ k)]]"
      "m_vecRedisContext c1 = m_vecRedisContext c"
    using RedisCommand_answered [of 0 c ctx env "ascii ''get %b''" "[ArgB (t @ [95] @ k)]" reply err] assms by auto
  have hp: "kg_heap c1 = kg_heap c" using c1(2) by (simp add: same_queues_def)
  obtain b' where resp: "RespondCommon env b (Some reply) c1 =
      Inr (c1\<lparr>kg_heap := (kg_heap c)(malloc env (kg_heap c) \<mapsto> b'),
             m_RespondQueue := m_RespondQueue c1 @ [malloc env (kg_heap c)]\<rparr>)"
      "common_response b' q u e (reply_str reply)"
    using RespondCommon_ok [of reply c1 env b u e q] reply fresh hp len b by auto
  have key: "arg_b GET_data (length t + length k + 1) b = Inr (ArgB (t @ [95] @ k))"
    using b by (simp add: arg_b_def)
  have un: "unat (word_of_nat (length t) :: u32) = length t" "unat (word_of_nat (length k) :: u32) = length k"
    using small by (simp_all add: unat_of_nat)
  obtain hash where hash: "get32 TYPE_nHash b = Inr hash" using len by simp
  have get: "Redis_OnRequestGet env 0 b c = RespondCommon env b (Some reply) c1"
    unfolding Redis_OnRequestGet_def underline Let_def
    by (simp only: b un key c1 bind_res_Inr prod.case)
  have "Redis_OnRequest env p c = Redis_OnRequestGet env 0 b c"
    using assms(1) heap b hash by (simp add: Redis_OnRequest_def heap_get_def Let_def)
  then show ?thesis
    using resp c1 get by (auto simp: same_queues_def)
qed

text \<open>Labelling leaves the rest of a request alone.\<close>

lemma slice_of_drop: "40 \<le> off \<Longrightarrow> mslice m off n = mslice (drop 40 m) (off - 40) n"
  by (simp add: mslice_def)

lemma slice_of_take: "off + n \<le> 28 \<Longrightarrow> mslice m off n = mslice (take 28 m) off n"
  by (simp add: mslice_def drop_take min_def)

lemma label_keeps:
  assumes "take 28 d' = take 28 d" and "drop 40 d' = drop 40 d"
  shows "40 \<le> off \<Longrightarrow> mslice d' off n = mslice d off n" "off + n \<le> 28 \<Longrightarrow> mslice d' off n = mslice d off n"
  using assms slice_of_drop [of off d' n] slice_of_drop [of off d n]
    slice_of_take [of off n d'] slice_of_take [of off n d] by simp_all

lemma labelled_get:
  assumes "length t + length k < 2 ^ 31" and "length t \<le> 7"
  shows "\<exists>b. bind_res (DB_CreateGetBuffer mem t k) (\<lambda>b. DB_SetBufferHead_seq b u e q) = Inr b
    \<and> length (pvData b) = 64 + length k \<and> m_lRefCount b = 1
    \<and> get8 TYPE_byType b = Inr (request_code emREQUEST_GET)
    \<and> get32 GET_uPrefixLen b = Inr (word_of_nat (length t)) \<and> get32 GET_uKeyLen b = Inr (word_of_nat (length k))
    \<and> mslice (pvData b) GET_data (length t + length k + 1) = t @ [95] @ k
    \<and> get32 HEAD_uUserId b = Inr u \<and> get32 HEAD_uEventType b = Inr e \<and> get32 HEAD_uSquenceId b = Inr q"
proof -
  obtain b where b: "DB_CreateGetBuffer mem t k = Inr b" "length (pvData b) = 64 + length k" "m_lRefCount b = 1"
      "get8 TYPE_byType b = Inr (request_code emREQUEST_GET)"
      "get32 GET_uPrefixLen b = Inr (word_of_nat (length t))" "get32 GET_uKeyLen b = Inr (word_of_nat (length k))"
      "mslice (pvData b) GET_data (length t + length k + 1) = t @ [95] @ k"
    using key_request_ok(1) [OF assms, of mem] by auto
  obtain b' where b': "DB_SetBufferHead_seq b u e q = Inr b'" "length (pvData b') = length (pvData b)"
      "get32 HEAD_uUserId b' = Inr u" "get32 HEAD_uEventType b' = Inr e" "get32 HEAD_uSquenceId b' = Inr q"
      "take 28 (pvData b') = take 28 (pvData b)" "drop 40 (pvData b') = drop 40 (pvData b)"
      "m_lRefCount b' = m_lRefCount b"
    using DB_SetBufferHead_seq_ok [of b u e q] b(2) by auto
  show ?thesis
    using b b' by (simp add: label_keeps [OF b'(6,7)])
qed

lemma SAFE_RELEASE_second:
  assumes "kg_heap c p = Some (b\<lparr>m_lRefCount := 2\<rparr>)" and "m_lRefCount b = 1"
  shows "SAFE_RELEASE (Some p) c = Inr (c\<lparr>kg_heap := (kg_heap c)(p \<mapsto> b)\<rparr>)"
  using assms by (simp add: SAFE_RELEASE_Some second_reference(2) heap_set_def)

lemma get_round_trip_core:
  assumes api: "length args = 5" "lua_tostring api (args ! 3) = Some t" "lua_tostring api (args ! 4) = Some k"
      "0 \<notin> set t" "0 \<notin> set k" "length t \<le> 7" "length t + length k < 2 ^ 31"
    and idle: "IsOpen c" "m_RequestQueue c = []" "m_RespondQueue c = []" "m_vecRedisContext c = [Some ctx]"
    and env: "fresh_malloc env" "finite (dom (kg_heap c))" "0 < command_fuel env"
    and redis: "redisvCommand env (hiredis_calls c @ [Command ctx (ascii ''get %b'') [ArgB (t @ [95] @ k)]])
      = (Some reply, err)"
    and reply: "reply_type reply \<noteq> 2" "reply_type reply \<noteq> 6 \<or> \<not> err" "length (reply_str reply) < 2 ^ 31"
  obtains c1 c2 r b' p b where "PushRedisGet api env args c = Inr c1"
    and "worker_loop (Redis_OnRequest env) 2 None c1 = Inr c2"
    and "m_RequestQueue c2 = []" "m_RespondQueue c2 = [r]" "kg_heap c2 = (kg_heap c)(p \<mapsto> b, r \<mapsto> b')"
    and "kg_heap c p = None" "r \<noteq> p" "m_lRefCount b = 1" "m_vecMysqlClients c2 = m_vecMysqlClients c"
    and "m_vecRedisContext c2 = m_vecRedisContext c"
    and "common_response b' (lua_tonumber api (args ! 0)) (lua_tonumber api (args ! 1))
      (lua_tonumber api (args ! 2)) (reply_str reply)"
proof -
  define q where "q = lua_tonumber api (args ! 0)"
  define u where "u = lua_tonumber api (args ! 1)"
  define e where "e = lua_tonumber api (args ! 2)"
  obtain b where bb: "bind_res (DB_CreateGetBuffer (malloc_mem env (kg_heap c)) t k)
        (\<lambda>b. DB_SetBufferHead_seq b u e q) = Inr b"
    and b: "length (pvData b) = 64 + length k" "m_lRefCount b = 1"
      "get8 TYPE_byType b = Inr (request_code emREQUEST_GET)"
      "get32 GET_uPrefixLen b = Inr (word_of_nat (length t))" "get32 GET_uKeyLen b = Inr (word_of_nat (length k))"
      "mslice (pvData b) GET_data (length t + length k + 1) = t @ [95] @ k"
      "get32 HEAD_uUserId b = Inr u" "get32 HEAD_uEventType b = Inr e" "get32 HEAD_uSquenceId b = Inr q"
    using labelled_get [OF api(7,6), of "malloc_mem env (kg_heap c)" u e q] by auto
  define p where "p = malloc env (kg_heap c)"
  have p: "kg_heap c p = None" using env(1,2) by (simp add: p_def fresh_malloc_def)
  define b2 where "b2 = b\<lparr>m_lRefCount := 2\<rparr>"
  define d where "d = c\<lparr>kg_heap := (kg_heap c)(p \<mapsto> b2)\<rparr>"
  obtain c1 where c1: "PushRedisRequest 1 p (heap_set p (Some b) c) = Inr c1"
      "worker_loop (Redis_OnRequest env) 2 None c1 = bind_res (Redis_OnRequest env p d) (SAFE_RELEASE (Some p))"
    using one_request [OF idle(2,1) b(2) p, of env] by (auto simp: d_def b2_def)
  have push: "PushRedisGet api env args c = Inr c1"
  proof -
    have "PushRedisGet api env args c =
        bind_res (bind_res (DB_CreateGetBuffer (malloc_mem env (kg_heap c)) t k)
          (\<lambda>b. DB_SetBufferHead_seq b u e q)) (\<lambda>b. PushRedisRequest 1 p (heap_set p (Some b) c))"
      using api by (simp add: PushRedisGet_def lua_string_ok place_def p_def q_def u_def e_def bind_res_assoc)
    then show ?thesis using c1(1) by (simp add: bb)
  qed
  define r where "r = malloc env (kg_heap d)"
  have new: "kg_heap d (malloc env (kg_heap d)) = None"
  proof -
    have "finite (dom (kg_heap d))" using env(2) by (simp add: d_def)
    then show ?thesis using env(1) by (simp add: fresh_malloc_def)
  qed
  then have r: "r \<noteq> p" by (auto simp: r_def d_def)
  have getb2: "get8 i b2 = get8 i b" "get32 i b2 = get32 i b" "pvData b2 = pvData b" for i
    by (simp_all add: b2_def get8_def get32_def)
  obtain c' b' where c': "Redis_OnRequest env p d = Inr c'"
      "kg_heap c' = (kg_heap d)(malloc env (kg_heap d) \<mapsto> b')"
      "m_RespondQueue c' = m_RespondQueue d @ [malloc env (kg_heap d)]" "m_RequestQueue c' = m_RequestQueue d"
      "m_vecMysqlClients c' = m_vecMysqlClients d" "m_vecRedisContext c' = m_vecRedisContext d" "common_response b' q u e (reply_str reply)"
    using OnRequest_get [of d ctx env p b2 t k u e q reply err] new idle env api redis reply b getb2
    by (auto simp: d_def)
  have new: "kg_heap d (malloc env (kg_heap d)) = None"
  proof -
    have "finite (dom (kg_heap d))" using env(2) by (simp add: d_def)
    then show ?thesis using env(1) by (simp add: fresh_malloc_def)
  qed
  then have r: "r \<noteq> p" by (auto simp: r_def d_def)
  define c2 where "c2 = c'\<lparr>kg_heap := (kg_heap c')(p \<mapsto> b)\<rparr>"
  have "SAFE_RELEASE (Some p) c' = Inr c2"
    unfolding c2_def using c' r b(2) by (intro SAFE_RELEASE_second) (simp_all add: d_def b2_def r_def)
  then have run: "worker_loop (Redis_OnRequest env) 2 None c1 = Inr c2" using c1 c' by simp
  have heap: "kg_heap c2 = (kg_heap c)(p \<mapsto> b, r \<mapsto> b')"
    using c' r by (auto simp: c2_def d_def r_def fun_eq_iff)
  have queues: "m_RequestQueue c2 = []" "m_RespondQueue c2 = [r]" "m_vecMysqlClients c2 = m_vecMysqlClients c"
      "m_vecRedisContext c2 = m_vecRedisContext c"
    unfolding c2_def r_def using c' idle by (simp_all add: d_def)
  show thesis
    by (rule that [OF push run queues(1,2) heap p r b(2) queues(3,4) c'(7) [unfolded q_def u_def e_def]])
qed

section \<open>Properties\<close>

text \<open>Script values as numbers and strings.\<close>

definition demo_api :: "(u32 + bytes) lua_api" where
  "demo_api = \<lparr>lua_tonumber = (\<lambda>v. case v of Inl n \<Rightarrow> n | Inr _ \<Rightarrow> 0),
               lua_tostring = (\<lambda>v. case v of Inl _ \<Rightarrow> None | Inr s \<Rightarrow> Some s)\<rparr>"

text \<open>A script's \<^verbatim>\<open>PushRedisGet\<close> reaches redis as \<^verbatim>\<open>get\<close> of the table name, an underscore and the
  key, and what redis answers comes back to the script under the sequence, user and event
  number of the request: one response is queued, and handling it is the call of the
  script with those numbers and the text of the reply up to its first NUL.\<close>

lemma redis_get_round_trip:
  assumes "length args = 5" "lua_tostring api (args ! 3) = Some t" "lua_tostring api (args ! 4) = Some k"
      "0 \<notin> set t" "0 \<notin> set k" "length t \<le> 7" "length t + length k < 2 ^ 31"
    and "IsOpen c" "m_RequestQueue c = []" "m_RespondQueue c = []" "m_vecRedisContext c = [Some ctx]"
    and "fresh_malloc env" "finite (dom (kg_heap c))" "0 < command_fuel env"
    and "redisvCommand env (hiredis_calls c @ [Command ctx (ascii ''get %b'') [ArgB (t @ [95] @ k)]])
      = (Some reply, err)"
    and "reply_type reply \<noteq> 2" "reply_type reply \<noteq> 6 \<or> \<not> err" "length (reply_str reply) < 2 ^ 31"
  shows "\<exists>c1 c2 r. PushRedisGet api env args c = Inr c1
    \<and> worker_loop (Redis_OnRequest env) 2 None c1 = Inr c2
    \<and> m_RequestQueue c2 = [] \<and> m_RespondQueue c2 = [r]
    \<and> (\<forall>lua. Redis_OnResponsed lua r c2 =
          lua (OnRedisRespone (lua_tonumber api (args ! 0)) (lua_tonumber api (args ! 1))
            (lua_tonumber api (args ! 2)) (takeWhile (\<lambda>x. x \<noteq> 0) (reply_str reply))) c2)"
proof -
  obtain c1 c2 r b' p b where *: "PushRedisGet api env args c = Inr c1"
      "worker_loop (Redis_OnRequest env) 2 None c1 = Inr c2" "m_RequestQueue c2 = []" "m_RespondQueue c2 = [r]"
      "kg_heap c2 = (kg_heap c)(p \<mapsto> b, r \<mapsto> b')"
      "common_response b' (lua_tonumber api (args ! 0)) (lua_tonumber api (args ! 1))
        (lua_tonumber api (args ! 2)) (reply_str reply)"
    by (rule get_round_trip_core [OF assms])
  then show ?thesis
    by (auto simp: Redis_OnResponsed_def heap_get_def common_response_def)
qed

lemma redis_get_round_trip_witness:
  "\<exists>c1 c2 r. PushRedisGet demo_api (demo_env (ReplyString [118])) [Inl 7, Inl 1001, Inl 2, Inr (ascii ''user''), Inr [107]]
      demo_client = Inr c1
    \<and> worker_loop (Redis_OnRequest (demo_env (ReplyString [118]))) 2 None c1 = Inr c2
    \<and> m_RequestQueue c2 = [] \<and> m_RespondQueue c2 = [r]
    \<and> (\<forall>lua. Redis_OnResponsed lua r c2 = lua (OnRedisRespone 7 1001 2 [118]) c2)"
proof -
  have "0 \<notin> set (ascii ''user'')" by (simp add: ascii_def)
  then show ?thesis
    using redis_get_round_trip
      [of "[Inl 7, Inl 1001, Inl 2, Inr (ascii ''user''), Inr [107]]" demo_api "ascii ''user''" "[107]"
          demo_client 1 "demo_env (ReplyString [118])" "ReplyString [118]" False]
    by (simp add: demo_env_fresh) (simp add: demo_api_def demo_env_def)
qed

text \<open>The worker gives back the reference of the queue, but nobody gives back the one a request
  is born with: after the response has been queued the request of the script is still
  allocated with one reference and reachable from no queue.\<close>

lemma script_requests_leak:
  assumes "length args = 5" "lua_tostring api (args ! 3) = Some t" "lua_tostring api (args ! 4) = Some k"
      "0 \<notin> set t" "0 \<notin> set k" "length t \<le> 7" "length t + length k < 2 ^ 31"
    and "IsOpen c" "m_RequestQueue c = []" "m_RespondQueue c = []" "m_vecRedisContext c = [Some ctx]"
    and "fresh_malloc env" "finite (dom (kg_heap c))" "0 < command_fuel env"
    and "redisvCommand env (hiredis_calls c @ [Command ctx (ascii ''get %b'') [ArgB (t @ [95] @ k)]])
      = (Some reply, err)"
    and "reply_type reply \<noteq> 2" "reply_type reply \<noteq> 6 \<or> \<not> err" "length (reply_str reply) < 2 ^ 31"
  shows "\<exists>c1 c2 p b. PushRedisGet api env args c = Inr c1
    \<and> worker_loop (Redis_OnRequest env) 2 None c1 = Inr c2
    \<and> kg_heap c p = None \<and> kg_heap c2 p = Some b \<and> m_lRefCount b = 1
    \<and> p \<notin> set (m_RequestQueue c2) \<and> p \<notin> set (m_RespondQueue c2)"
proof -
  obtain c1 c2 r b' p b where "PushRedisGet api env args c = Inr c1"
      "worker_loop (Redis_OnRequest env) 2 None c1 = Inr c2" "m_RequestQueue c2 = []" "m_RespondQueue c2 = [r]"
      "kg_heap c2 = (kg_heap c)(p \<mapsto> b, r \<mapsto> b')" "kg_heap c p = None" "r \<noteq> p" "m_lRefCount b = 1"
    by (rule get_round_trip_core [OF assms])
  then show ?thesis by (intro exI [of _ c1] exI [of _ c2] exI [of _ p] exI [of _ b]) simp
qed

lemma script_requests_leak_witness:
  "\<exists>c1 c2 p b. PushRedisGet demo_api (demo_env ReplyNil) [Inl 7, Inl 1001, Inl 2, Inr [116], Inr [107]]
      demo_client = Inr c1
    \<and> worker_loop (Redis_OnRequest (demo_env ReplyNil)) 2 None c1 = Inr c2
    \<and> kg_heap c2 p = Some b \<and> m_lRefCount b = 1 \<and> p \<notin> set (m_RequestQueue c2) \<and> p \<notin> set (m_RespondQueue c2)"
  using script_requests_leak
      [of "[Inl 7, Inl 1001, Inl 2, Inr [116], Inr [107]]" demo_api "[116]" "[107]"
          demo_client 1 "demo_env ReplyNil" ReplyNil False]
  by (simp add: demo_env_fresh) (simp add: demo_api_def demo_env_def)

section \<open>Changes\<close>

lemma CopyRequest_eq:
  assumes "nSize < 2 ^ 32 - 40"
  shows "if nSize \<le> length (pvData b)
    then \<exists>m. pvData m = take nSize (pvData b) \<and> m_lRefCount m = 1 \<and> CopyRequest env nSize b c =
        Inr (malloc env (kg_heap c), heap_set (malloc env (kg_heap c)) (Some m) c)
    else CopyRequest env nSize b c = Inl OutOfBoundsRead"
proof -
  obtain m where m: "DB_MemoryCreateBuffer (malloc_mem env (kg_heap c)) (word_of_nat nSize) = Inr m"
      "length (pvData m) = nSize" "m_lRefCount m = 1" "m_uSize m = word_of_nat nSize"
    by (rule fresh_buffer [OF assms, of "malloc_mem env (kg_heap c)"])
  have n: "unat (word_of_nat nSize :: u32) = nSize" using assms by (simp add: unat_of_nat)
  have "CopyRequest env nSize b c =
      bind_res (bind_res (mem_read (pvData b) 0 nSize) (\<lambda>bs. put 0 bs m)) (\<lambda>m.
        Inr (malloc env (kg_heap c), heap_set (malloc env (kg_heap c)) (Some m) c))"
    using m n by (simp add: CopyRequest_def NewBuffer_def on_buffer_def heap_get_def bind_res_assoc)
      (simp add: heap_set_def)
  moreover have "bind_res (mem_read (pvData b) 0 nSize) (\<lambda>bs. put 0 bs m) =
      (if nSize \<le> length (pvData b) then Inr (m\<lparr>pvData := take nSize (pvData b)\<rparr>) else Inl OutOfBoundsRead)"
    using m by (simp add: mslice_def msplice_def)
  ultimately show ?thesis
    using m by (auto intro!: exI [of _ "m\<lparr>pvData := take nSize (pvData b)\<rparr>"])
qed

text \<open>A labelled request for a change.\<close>

lemma labelled_set:
  assumes "length t + length k + length v < 2 ^ 31" and "length t \<le> 7"
  shows "\<exists>b. bind_res (DB_CreateSetBuffer mem t k v) (\<lambda>b. DB_SetBufferHead b u e) = Inr b
    \<and> length (pvData b) = 72 + length k + length v \<and> m_lRefCount b = 1
    \<and> get8 TYPE_byType b = Inr (request_code emREQUEST_SET)
    \<and> get32 SET_uPrefixLen b = Inr (word_of_nat (length t)) \<and> get32 SET_uKeyLen b = Inr (word_of_nat (length k))
    \<and> get32 SET_uValueLen b = Inr (word_of_nat (length v))
    \<and> mslice (pvData b) SET_data (length t + length k + 1) = t @ [95] @ k
    \<and> mslice (pvData b) (SET_data + (length t + length k + 1)) (length v) = v
    \<and> get32 HEAD_uUserId b = Inr u \<and> get32 HEAD_uEventType b = Inr e"
proof -
  obtain b where b: "DB_CreateSetBuffer mem t k v = Inr b" "length (pvData b) = 72 + length k + length v"
      "m_lRefCount b = 1" "get8 TYPE_byType b = Inr (request_code emREQUEST_SET)"
      "get32 SET_uPrefixLen b = Inr (word_of_nat (length t))" "get32 SET_uKeyLen b = Inr (word_of_nat (length k))"
      "get32 SET_uValueLen b = Inr (word_of_nat (length v))"
      "mslice (pvData b) SET_data (length t + length k + 1) = t @ [95] @ k"
      "mslice (pvData b) (SET_data + (length t + length k + 1)) (length v) = v"
    using DB_CreateSetBuffer_ok [OF assms, of mem] by auto
  obtain b' where b': "DB_SetBufferHead b u e = Inr b'" "length (pvData b') = length (pvData b)"
      "get32 HEAD_uUserId b' = Inr u" "get32 HEAD_uEventType b' = Inr e"
      "take 28 (pvData b') = take 28 (pvData b)" "drop 40 (pvData b') = drop 40 (pvData b)"
      "m_lRefCount b' = m_lRefCount b"
    using DB_SetBufferHead_ok [of b u e] b(2) by auto
  show ?thesis
    using b b' by (simp add: label_keeps [OF b'(5,6)])
qed

lemma PushMysql_first:
  assumes "m_vecMysqlClients c = [ms]" and "kg_heap c p = Some b"
  shows "PushMysqlRequest (word_of_nat (0 + 1)) p c =
    Inr (c\<lparr>kg_heap := (kg_heap c)(p \<mapsto> snd (KG_Buffer_AddRef b)), m_vecMysqlClients := [ms @ [p]]\<rparr>)"
  using assms by (simp add: PushMysqlRequest_def AddRef_def heap_get_def heap_set_def)

lemma set_core:
  assumes len: "length t + length k + length v < 2 ^ 31 - 100" "length t \<le> 7"
    and req: "bind_res (DB_CreateSetBuffer mem t k v) (\<lambda>b. DB_SetBufferHead b u e) = Inr b"
    and client: "m_vecRedisContext c = [Some ctx]" "m_vecMysqlClients c = [ms]" "finite (dom (kg_heap c))"
    and env: "fresh_malloc env" "0 < command_fuel env"
    and redis: "redisvCommand env (hiredis_calls c @ [Command ctx (ascii ''set %b %b'') [ArgB (t @ [95] @ k), ArgB v]])
      = (Some reply, err)"
    and reply: "reply_type reply \<noteq> 2" "reply_type reply \<noteq> 6 \<or> \<not> err" "length (reply_str reply) < 2 ^ 31"
  shows "\<exists>c' m mb r b' q. Redis_OnRequestSet env 0 b c = Inr c'
    \<and> hiredis_calls c' = hiredis_calls c @ [Command ctx (ascii ''set %b %b'') [ArgB (t @ [95] @ k), ArgB v]]
    \<and> m_vecMysqlClients c' = [ms @ [m]] \<and> kg_heap c' m = Some mb \<and> m_lRefCount mb = 2
    \<and> pvData mb = take (64 + length t + 1 + length k + length v) (pvData b)
    \<and> m_RespondQueue c' = m_RespondQueue c @ [r] \<and> kg_heap c' r = Some b'
    \<and> common_response b' q u e (reply_str reply)"
proof -
  have b: "length (pvData b) = 72 + length k + length v"
      "get8 TYPE_byType b = Inr (request_code emREQUEST_SET)"
      "get32 SET_uPrefixLen b = Inr (word_of_nat (length t))" "get32 SET_uKeyLen b = Inr (word_of_nat (length k))"
      "get32 SET_uValueLen b = Inr (word_of_nat (length v))"
      "mslice (pvData b) SET_data (length t + length k + 1) = t @ [95] @ k"
      "mslice (pvData b) (SET_data + (length t + length k + 1)) (length v) = v"
      "get32 HEAD_uUserId b = Inr u" "get32 HEAD_uEventType b = Inr e"
    using labelled_set [of t k v mem u e] len req by auto
  obtain q where q: "get32 HEAD_uSquenceId b = Inr q" using b(1) by simp
  let ?args = "[ArgB (t @ [95] @ k), ArgB v]"
  obtain c1 where c1: "RedisCommand env 0 (ascii ''set %b %b'') ?args c = Inr (Some reply, c1)" "same_queues c c1"
      "hiredis_calls c1 = hiredis_calls c @ [Command ctx (ascii ''set %b %b'') ?args]"
    using RedisCommand_answered [of 0 c ctx env "ascii ''set %b %b''" ?args reply err] client env redis reply by auto
  have hp: "kg_heap c1 = kg_heap c" "m_vecMysqlClients c1 = [ms]" "m_RespondQueue c1 = m_RespondQueue c"
    using c1(2) client by (simp_all add: same_queues_def)
  let ?n = "64 + (length t + length k + 1) + length v"
  define m where "m = malloc env (kg_heap c)"
  have "?n \<le> length (pvData b)" "?n < 2 ^ 32 - 40" using b(1) len by simp_all
  then obtain mb where mb: "pvData mb = take ?n (pvData b)" "m_lRefCount mb = 1"
      "CopyRequest env ?n b c1 = Inr (m, heap_set m (Some mb) c1)"
    using CopyRequest_eq [of ?n b env c1] by (auto simp: hp m_def)
  define c2 where "c2 = c1\<lparr>kg_heap := (kg_heap c)(m \<mapsto> snd (KG_Buffer_AddRef mb)), m_vecMysqlClients := [ms @ [m]]\<rparr>"
  have copy: "CopyToMysql env 0 ?n (Some reply) b c1 = Inr c2"
    using mb PushMysql_first [of "heap_set m (Some mb) c1" ms m mb]
    by (simp add: CopyToMysql_def c2_def heap_set_def hp)
  define r where "r = malloc env (kg_heap c2)"
  have "finite (dom (kg_heap c2))" using client(3) by (simp add: c2_def)
  then have fresh: "kg_heap c2 r = None" using env(1) by (simp add: fresh_malloc_def r_def)
  then have rm: "r \<noteq> m" by (auto simp: c2_def)
  obtain b' where resp: "RespondCommon env b (Some reply) c2 =
      Inr (c2\<lparr>kg_heap := (kg_heap c2)(r \<mapsto> b'), m_RespondQueue := m_RespondQueue c2 @ [r]\<rparr>)"
      "common_response b' q u e (reply_str reply)"
    using RespondCommon_ok [of reply c2 env b u e q] reply fresh b q by (auto simp: r_def)
  have un: "unat (word_of_nat (length t) :: u32) = length t" "unat (word_of_nat (length k) :: u32) = length k"
      "unat (word_of_nat (length v) :: u32) = length v"
    using len by (simp_all add: unat_of_nat)
  have args: "arg_b SET_data (length t + length k + 1) b = Inr (ArgB (t @ [95] @ k))"
      "arg_b (SET_data + (length t + length k + 1)) (length v) b = Inr (ArgB v)"
    using b len by (simp_all add: arg_b_def)
  have "Redis_OnRequestSet env 0 b c = RespondCommon env b (Some reply) c2"
    unfolding Redis_OnRequestSet_def underline Let_def SIZEOF_KREQUEST_HSET_def
    by (simp only: b un args c1(1) copy bind_res_Inr prod.case)
  moreover define c3 where "c3 = c2\<lparr>kg_heap := (kg_heap c2)(r \<mapsto> b'), m_RespondQueue := m_RespondQueue c2 @ [r]\<rparr>"
  ultimately have "Redis_OnRequestSet env 0 b c = Inr c3" using resp(1) by simp
  moreover have "hiredis_calls c3 = hiredis_calls c @ [Command ctx (ascii ''set %b %b'') ?args]"
      "m_vecMysqlClients c3 = [ms @ [m]]" "kg_heap c3 m = Some (snd (KG_Buffer_AddRef mb))"
      "m_RespondQueue c3 = m_RespondQueue c @ [r]" "kg_heap c3 r = Some b'"
    using rm not_sym [OF rm] c1(3) hp by (simp_all add: c3_def c2_def)
  moreover have "pvData (snd (KG_Buffer_AddRef mb)) = take (64 + length t + 1 + length k + length v) (pvData b)"
    using mb(1) by (simp add: KG_Buffer_AddRef_def split_beta add.assoc add.left_commute)
  moreover have "m_lRefCount (snd (KG_Buffer_AddRef mb)) = 2"
    using second_reference(1) [OF mb(2)] by simp
  ultimately show ?thesis using resp(2) by blast
qed

text \<open>The handler of a script's set request sends \<^verbatim>\<open>set\<close> with the table name, an underscore and
  the key, and the value; it queues for mysql a copy of the request that ends with the
  value, and for the script one response with the user and event number of the request.\<close>

lemma set_reaches_redis_and_mysql:
  assumes len: "length t + length k + length v < 2 ^ 31 - 100" "length t \<le> 7"
    and req: "bind_res (DB_CreateSetBuffer mem t k v) (\<lambda>b. DB_SetBufferHead b u e) = Inr b"
    and client: "m_vecRedisContext c = [Some ctx]" "m_vecMysqlClients c = [ms]" "finite (dom (kg_heap c))"
    and env: "fresh_malloc env" "0 < command_fuel env"
    and redis: "redisvCommand env (hiredis_calls c @ [Command ctx (ascii ''set %b %b'') [ArgB (t @ [95] @ k), ArgB v]])
      = (Some reply, err)"
    and reply: "reply_type reply \<noteq> 2" "reply_type reply \<noteq> 6 \<or> \<not> err" "length (reply_str reply) < 2 ^ 31"
  shows "\<exists>c' m mb r b' q. Redis_OnRequestSet env 0 b c = Inr c'
    \<and> hiredis_calls c' = hiredis_calls c @ [Command ctx (ascii ''set %b %b'') [ArgB (t @ [95] @ k), ArgB v]]
    \<and> m_vecMysqlClients c' = [ms @ [m]] \<and> kg_heap c' m = Some mb
    \<and> pvData mb = take (64 + length t + 1 + length k + length v) (pvData b)
    \<and> m_RespondQueue c' = m_RespondQueue c @ [r] \<and> kg_heap c' r = Some b'
    \<and> common_response b' q u e (reply_str reply)"
  using set_core [OF assms] by blast

lemma set_reaches_redis_and_mysql_witness:
  "\<exists>b c' m mb. bind_res (DB_CreateSetBuffer (\<lambda>_. 0) [116] [107] [118]) (\<lambda>b. DB_SetBufferHead b 1 2) = Inr b
    \<and> Redis_OnRequestSet (demo_env (ReplyStatus [])) 0 b demo_client = Inr c'
    \<and> hiredis_calls c' = [Command 1 (ascii ''set %b %b'') [ArgB [116, 95, 107], ArgB [118]]]
    \<and> m_vecMysqlClients c' = [[m]] \<and> kg_heap c' m = Some mb \<and> pvData mb = take 68 (pvData b)"
proof -
  obtain b where b: "bind_res (DB_CreateSetBuffer (\<lambda>_. 0) [116] [107] [118]) (\<lambda>b. DB_SetBufferHead b 1 2) = Inr b"
    using labelled_set [of "[116]" "[107]" "[118]" "\<lambda>_. 0" 1 2] by auto
  have "redisvCommand (demo_env (ReplyStatus [])) log = (Some (ReplyStatus []), False)" for log
    by (simp add: demo_env_def)
  then show ?thesis
    using set_reaches_redis_and_mysql [OF _ _ b, of demo_client 1 "[]" "demo_env (ReplyStatus [])" "ReplyStatus []" False] b
    by (simp add: demo_env_fresh) (simp add: demo_env_def, blast)
qed

text \<open>C36: every delete a script asks for makes the redis worker read behind the request: the copy
  for mysql is larger than the request by the table name and the underscore.\<close>

theorem delete_reads_behind_request:
  assumes len: "length t + length k < 2 ^ 31 - 100"
    and req: "DB_CreateDelBuffer mem t k = Inr b"
    and client: "m_vecRedisContext c = [Some ctx]"
    and env: "0 < command_fuel env"
    and redis: "redisvCommand env (hiredis_calls c @ [Command ctx (ascii ''del %b'') [ArgB (t @ [95] @ k)]])
      = (Some reply, err)" "reply_type reply \<noteq> 6 \<or> \<not> err"
  shows "Redis_OnRequestDel env 0 b c = Inl OutOfBoundsRead"
proof -
  have t: "length t \<le> 7"
    using req key_request_overflow(2) [of t k mem] len by (cases "7 < length t") auto
  have b: "length (pvData b) = 64 + length k" "get32 GET_uPrefixLen b = Inr (word_of_nat (length t))"
      "get32 GET_uKeyLen b = Inr (word_of_nat (length k))"
      "mslice (pvData b) GET_data (length t + length k + 1) = t @ [95] @ k"
    using key_request_ok(2) [of t k mem] t len req by auto
  obtain c1 where c1: "RedisCommand env 0 (ascii ''del %b'') [ArgB (t @ [95] @ k)] c = Inr (Some reply, c1)"
    using RedisCommand_answered [of 0 c ctx env "ascii ''del %b''" "[ArgB (t @ [95] @ k)]" reply err] client env redis
    by auto
  have un: "unat (word_of_nat (length t) :: u32) = length t" "unat (word_of_nat (length k) :: u32) = length k"
    using len by (simp_all add: unat_of_nat)
  have key: "arg_b GET_data (length t + length k + 1) b = Inr (ArgB (t @ [95] @ k))"
    using b t by (simp add: arg_b_def)
  have "CopyRequest env (64 + (length t + length k + 1)) b c1 = Inl OutOfBoundsRead"
    using CopyRequest_eq [of "64 + (length t + length k + 1)" b env c1] b(1) len by simp
  then have "CopyToMysql env 0 (64 + (length t + length k + 1)) (Some reply) b c1 = Inl OutOfBoundsRead"
    by (simp add: CopyToMysql_def)
  then show ?thesis
    unfolding Redis_OnRequestDel_def underline Let_def SIZEOF_KREQUEST_GET_def
    by (simp only: b un key c1 bind_res_Inr prod.case)
qed

theorem delete_reads_behind_request_witness:
  "\<exists>b. DB_CreateDelBuffer (\<lambda>_. 0) [116] [107] = Inr b
    \<and> Redis_OnRequestDel (demo_env (ReplyInteger 1)) 0 b demo_client = Inl OutOfBoundsRead"
proof -
  obtain b where b: "DB_CreateDelBuffer (\<lambda>_. 0) [116] [107] = Inr b"
    using key_request_ok(2) [of "[116]" "[107]" "\<lambda>_. 0"] by auto
  show ?thesis
    using delete_reads_behind_request [OF _ b, of demo_client 1 "demo_env (ReplyInteger 1)" "ReplyInteger 1" False] b
    by (simp add: demo_env_def)
qed

end
