(* ===== verification/LogicServer.thy ===== *)
theory LogicServer
  imports TcpClient LuaRedis SessionStream
begin

text \<open>
  The logic process: \<^verbatim>\<open>GameLogicServer\<close> (\<^verbatim>\<open>tcp/game_logic_server.cpp\<close>), the callbacks of the
  client that connects it to the center (\<^verbatim>\<open>tcp/center_client.cpp\<close>) and the start of the process
  (\<^verbatim>\<open>logic/main.cpp\<close>). Packets of the gateways and of the center run the script; the script sends
  packets and queues redis requests; responses of redis run the script again.
\<close>

section \<open>State\<close>

text \<open>\<open>m_pServerPacket\<close> of the base class is the only packet object; \<open>logic_db\<close> is the redis client of the process.\<close>

record 'l logic_server = tcp_base_server +
  m_lua_timer_span :: u32
  m_pGatewayClient :: "uv_stream option"
  logic_engine :: "'l lua_engine"
  g_pCenterLogicClient :: "center_client option"
  logic_db :: redis_client

text \<open>The functions a script of this process can call.\<close>

datatype logic_call =
    CNet cnet_call
  | CRedis_PushRedisSet "lua_value list"
  | CRedis_PushRedisGet "lua_value list"
  | CRedis_PushRedisGets "lua_value list"
  | CRedis_PushRedisDel "lua_value list"
  | CRedis_PushRedisHSet "lua_value list"

record 'l logic_env =
  logic_skip :: "u32 \<Rightarrow> bytes \<Rightarrow> bytes option"
  logic_script :: "('l, logic_call) script"
  logic_lua :: "lua_value lua_api"
  logic_mem :: junk
  logic_redis :: redis_env

text \<open>
  The constructor sets the span of the timer only; the object is static, so the pointer to the
  gateway connection starts as \<^verbatim>\<open>NULL\<close>.
\<close>

definition GameLogicServer_new :: "'l lua_engine \<Rightarrow> redis_client \<Rightarrow> 'l logic_server" where
  "GameLogicServer_new engine db =
     tcp_base_server.extend TCPBaseServer_new
       \<lparr>m_lua_timer_span = 100, m_pGatewayClient = None, logic_engine = engine,
        g_pCenterLogicClient = None, logic_db = db\<rparr>"

section \<open>Sending\<close>

definition SendDataToGateway :: "bytes \<Rightarrow> u32 \<Rightarrow> 'l logic_server \<Rightarrow> 'l logic_server res" where
  "SendDataToGateway pBuffer uSize s =
     bind_res (mem_read pBuffer 0 (unat uSize)) (\<lambda>pvBuffer.
     bind_res (deref (m_pGatewayClient s)) (\<lambda>client.
     Inr (uv_do (UvWrite client pvBuffer) s)))"

definition logic_TransferToCenterServer ::
  "center_client \<Rightarrow> bytes \<Rightarrow> u32 \<Rightarrow> 'l logic_server \<Rightarrow> 'l logic_server res" where
  "logic_TransferToCenterServer c pBuffer uSize s =
     bind_res (TransferToCenterServer pBuffer (unat uSize) c) (\<lambda>call. Inr (uv_do call s))"

text \<open>An operation on the redis client of the process.\<close>

definition on_db :: "(redis_client \<Rightarrow> redis_client res) \<Rightarrow> 'l logic_server \<Rightarrow> 'l logic_server res" where
  "on_db f s = bind_res (f (logic_db s)) (\<lambda>db. Inr (s\<lparr>logic_db := db\<rparr>))"

text \<open>
  What the calls of a script do. The center object of this process has no connections and no
  reader of its registrations, so \<^verbatim>\<open>SendToLogicServer\<close> only builds its packet and
  \<^verbatim>\<open>SetServerTypeToHandlerId\<close> has no effect that is seen.
\<close>

definition logic_api :: "'l logic_env \<Rightarrow> logic_call \<Rightarrow> 'l logic_server \<Rightarrow> 'l logic_server res" where
  "logic_api env call s =
     (case call of
        CNet (SendToServer args) \<Rightarrow>
          LuaNet_SendToServer (logic_lua env) (logic_mem env) SendDataToGateway
            (map_option logic_TransferToCenterServer (g_pCenterLogicClient s)) args s
      | CNet (SendToLogicServer args) \<Rightarrow>
          LuaNet_SendToLogicServer (logic_lua env) (logic_mem env) (\<lambda>_ _ _ s. Inr s) args s
      | CNet (SetServerTypeToHandlerId args) \<Rightarrow>
          LuaNet_SetServerTypeToHandlerId (logic_lua env) (\<lambda>_ _ s. s) args s
      | CRedis_PushRedisSet args \<Rightarrow> on_db (PushRedisSet (logic_lua env) (logic_redis env) args) s
      | CRedis_PushRedisGet args \<Rightarrow> on_db (PushRedisGet (logic_lua env) (logic_redis env) args) s
      | CRedis_PushRedisGets args \<Rightarrow> on_db (PushRedisGets (logic_lua env) (logic_redis env) args) s
      | CRedis_PushRedisDel args \<Rightarrow> on_db (PushRedisDel (logic_lua env) (logic_redis env) args) s
      | CRedis_PushRedisHSet args \<Rightarrow> on_db (PushRedisHSet (logic_lua env) (logic_redis env) args) s)"

section \<open>Running the script\<close>

text \<open>A call of the engine from the process.\<close>

definition with_engine ::
  "('l lua_engine \<times> 'l logic_server \<Rightarrow> ('l lua_engine \<times> 'l logic_server) res) \<Rightarrow> 'l logic_server
     \<Rightarrow> 'l logic_server res" where
  "with_engine call s =
     bind_res (call (logic_engine s, s)) (\<lambda>(engine, s). Inr (s\<lparr>logic_engine := engine\<rparr>))"

text \<open>The division is one of integers: the span of 100 milliseconds is reported as 0 seconds.\<close>

definition UpdateLuaTimer :: "'l logic_env \<Rightarrow> 'l logic_server \<Rightarrow> 'l logic_server res" where
  "UpdateLuaTimer env s =
     with_engine (UpdateTimer (logic_lua env) (logic_script env) (logic_api env)
       (int (unat (m_lua_timer_span s)) div 1000)) s"

definition GameLogicServer_OnDBResponse :: "'l logic_env \<Rightarrow> kg_buffer \<Rightarrow> 'l logic_server \<Rightarrow> 'l logic_server res" where
  "GameLogicServer_OnDBResponse env b s =
     bind_res (OnDBResponse_common b) (\<lambda>call.
     case call of
       OnRedisRespone q u ev szData \<Rightarrow>
         with_engine (RedisCallLua (logic_lua env) (logic_script env) (logic_api env) q u ev szData) s
     | OnRedisMulDataRespone q u ev values \<Rightarrow> Inr s)"

definition GameLogicServer_OnDBResponse_multi ::
  "'l logic_env \<Rightarrow> kg_buffer \<Rightarrow> 'l logic_server \<Rightarrow> 'l logic_server res" where
  "GameLogicServer_OnDBResponse_multi env b s =
     bind_res (OnDBResponse_multi b) (\<lambda>call.
     case call of
       OnRedisMulDataRespone q u ev values \<Rightarrow>
         with_engine (RedisCallLua_table (logic_lua env) (logic_script env) (logic_api env) q u ev values) s
     | OnRedisRespone q u ev szData \<Rightarrow> Inr s)"

text \<open>
  The body of the receive loop for a finished packet: the header is not checked, the message
  runs the script. The buffer of the packet is not freed.
\<close>

definition logic_packet ::
  "'l logic_env \<Rightarrow> u16 \<Rightarrow> bytes \<Rightarrow> u32 \<Rightarrow> 'l logic_server \<Rightarrow> 'l logic_server res" where
  "logic_packet env uServerFrom pDataBuffer uDataBufferSize s =
     bind_res (GetEventType pDataBuffer) (\<lambda>uEventType.
     bind_res (GetHandlerId pDataBuffer) (\<lambda>uHandlerId.
     bind_res (GetSequenceId pDataBuffer) (\<lambda>uSequenceId.
     case GetNetPackageBody uDataBufferSize of (pNetBodyBuffer, uNetBodySize) \<Rightarrow>
     bind_res (mem_read pDataBuffer pNetBodyBuffer (unat uNetBodySize)) (\<lambda>body.
     case ParseFromArray (logic_skip env) body of
       None \<Rightarrow> Inr s
     | Some data \<Rightarrow>
         if uServerFrom = server_id LOGIC \<or> uServerFrom = server_id GATEWAY then
           with_engine (CallLua (logic_lua env) (logic_script env) (logic_api env)
             uHandlerId uEventType uSequenceId (data @ [0])) s
         else if uServerFrom = server_id CENTER then
           with_engine (CallCenterRequestLua (logic_lua env) (logic_script env) (logic_api env)
             uHandlerId uEventType uSequenceId (data @ [0])) s
         else Inr s))))"

definition GameLogicServer_ProcessNetData ::
  "(nat \<Rightarrow> junk) \<Rightarrow> 'l logic_env \<Rightarrow> bytes \<Rightarrow> u16 \<Rightarrow> 'l logic_server \<Rightarrow> (bool \<times> 'l logic_server) res" where
  "GameLogicServer_ProcessNetData mem env pData uServerFrom s =
     bind_res (process_net_data mem (logic_packet env uServerFrom) (length pData) s (m_pServerPacket s) pData)
       (\<lambda>(bResult, s, pk). Inr (bResult, s\<lparr>m_pServerPacket := pk\<rparr>))"

section \<open>Connections\<close>

text \<open>The id maps keep the entry of a lost connection.\<close>

definition GameLogicServer_RemoveClient :: "uv_stream \<Rightarrow> 'l logic_server \<Rightarrow> 'l logic_server" where
  "GameLogicServer_RemoveClient client s =
     (case open_sessions s client of
        None \<Rightarrow> s
      | Some session \<Rightarrow> uv_do (UvClose client) s)"

definition GameLogicServer_OnConnectionClose :: "uv_stream \<Rightarrow> 'l logic_server \<Rightarrow> 'l logic_server" where
  "GameLogicServer_OnConnectionClose handle s = s\<lparr>open_sessions := map_erase (open_sessions s) handle\<rparr>"

definition GameLogicServer_OnNewConnection ::
  "uv_stream \<Rightarrow> u32 \<Rightarrow> int \<Rightarrow> int \<Rightarrow> 'l logic_server \<Rightarrow> 'l logic_server res" where
  "GameLogicServer_OnNewConnection key junk_id status accept s =
     (if status < 0 then Inr s
      else if accept = 0 then
        let s = uv_do (UvReadStart key) s;
            s = s\<lparr>m_pGatewayClient := Some key\<rparr> in
        AddSession key (TCPSession_new junk_id) s
      else Inr (uv_do (UvClose key) s))"

definition GameLogicServer_OnMsgRecv ::
  "(nat \<Rightarrow> junk) \<Rightarrow> 'l logic_env \<Rightarrow> uv_stream \<Rightarrow> int \<Rightarrow> bytes \<Rightarrow> 'l logic_server \<Rightarrow> 'l logic_server res" where
  "GameLogicServer_OnMsgRecv mem env client nread base s =
     (case open_sessions s client of
        Some session \<Rightarrow>
          if nread = UV_EOF then Inr (GameLogicServer_RemoveClient client s)
          else if nread > 0 then
            bind_res (mem_read base 0 (nat nread)) (\<lambda>pData.
            bind_res (GameLogicServer_ProcessNetData mem env pData (server_id GATEWAY) s) (\<lambda>(bResult, s).
            Inr s))
          else Inr s
      | None \<Rightarrow> Inr (uv_do (UvReadStop client) s))"

section \<open>The connection to the center\<close>

text \<open>
  The callbacks run on the static object of \<^verbatim>\<open>GetInstance()\<close>, the registration is sent by the
  object \<^verbatim>\<open>main\<close> created; reading from the center shares the packet object of the gateways.
\<close>

definition CenterClient_OnConnect ::
  "junk \<Rightarrow> junk \<Rightarrow> (nat \<Rightarrow> bytes) \<Rightarrow> uv_stream \<Rightarrow> int \<Rightarrow> 'l logic_server \<Rightarrow> 'l logic_server res" where
  "CenterClient_OnConnect mem mem' peek handle nStatus s =
     (if nStatus < 0 then Inl (ProcessExit 1)
      else if nStatus = - 1 then Inr s
      else
        let s = uv_do (UvReadStart handle) s in
        bind_res (deref (g_pCenterLogicClient s)) (\<lambda>c.
        bind_res (RegisterToCenter mem mem' peek c) (\<lambda>call. Inr (uv_do call s))))"

definition CenterClient_OnMsgRecv ::
  "(nat \<Rightarrow> junk) \<Rightarrow> 'l logic_env \<Rightarrow> int \<Rightarrow> bytes \<Rightarrow> 'l logic_server \<Rightarrow> 'l logic_server res" where
  "CenterClient_OnMsgRecv mem env nread base s =
     (if nread = UV_EOF then Inr s
      else if nread > 0 then
        bind_res (mem_read base 0 (nat nread)) (\<lambda>pData.
        bind_res (GameLogicServer_ProcessNetData mem env pData (server_id CENTER) s) (\<lambda>(bResult, s). Inr s))
      else Inr s)"

text \<open>
  \<^verbatim>\<open>Init\<close> and \<^verbatim>\<open>main\<close>. \<open>config\<close> has the port and the type of the server; without it \<^verbatim>\<open>Init\<close> returns 0
  and the process goes on. \<open>center\<close> is the address, the port and the handle of the center client.
\<close>

definition GameLogicServer_Init ::
  "'l logic_env \<Rightarrow> (bytes \<Rightarrow> 'l \<Rightarrow> logic_call list \<times> (lua_value list) option \<times> 'l) \<Rightarrow> (u32 \<times> int) option
     \<Rightarrow> int \<Rightarrow> 'l \<Rightarrow> 'l logic_server \<Rightarrow> (int \<times> 'l logic_server) res" where
  "GameLogicServer_Init env dofile config r l s =
     (case config of
        None \<Rightarrow> Inr (0, s)
      | Some (port, nLogicServerType) \<Rightarrow>
          let s = SetPort port s in
          if r \<noteq> 0 then Inl (ProcessExit 1)
          else
            bind_res (InitState dofile (logic_script env) (logic_api env) nLogicServerType l s)
              (\<lambda>(nResult, engine, s). Inr (1, s\<lparr>logic_engine := engine\<rparr>)))"

definition logic_main ::
  "'l logic_env \<Rightarrow> (bytes \<Rightarrow> 'l \<Rightarrow> logic_call list \<times> (lua_value list) option \<times> 'l) \<Rightarrow> (u32 \<times> u32) option
     \<Rightarrow> int \<Rightarrow> (nat \<times> u32 \<times> uv_stream \<times> int) option \<Rightarrow> 'l \<Rightarrow> 'l logic_server \<Rightarrow> 'l logic_server res" where
  "logic_main env dofile config r center l s =
     (case config of
        None \<Rightarrow> Inl (ProcessExit 1)
      | Some (port, nServerType) \<Rightarrow>
          bind_res (GameLogicServer_Init env dofile (Some (port, sint nServerType)) r l s) (\<lambda>(_, s).
          case center of
            None \<Rightarrow> Inr s
          | Some (ip, center_port, handle, ret) \<Rightarrow>
              let c = tcp_client.extend (TCPClient_new ip handle) \<lparr>m_nServerType = 0\<rparr> in
              bind_res (CenterClient_Init ret ip center_port nServerType c) (\<lambda>(_, c).
              Inr (s\<lparr>g_pCenterLogicClient := Some c\<rparr>))))"

section \<open>Packets do not touch the connections\<close>

text \<open>The fields of a process that the handling of a packet leaves alone, and commutes with.\<close>

lemma uv_do_server_packet: "uv_do c (s\<lparr>m_pServerPacket := pk\<rparr>) = (uv_do c s)\<lparr>m_pServerPacket := pk\<rparr>"
  by (cases s) (simp add: uv_do_def)

lemma db_packet: "(s\<lparr>m_pServerPacket := pk\<rparr>)\<lparr>logic_db := db\<rparr> = (s\<lparr>logic_db := db\<rparr>)\<lparr>m_pServerPacket := pk\<rparr>"
  by simp

lemma on_db_packet:
  "on_db f (s\<lparr>m_pServerPacket := pk\<rparr>) = bind_res (on_db f s) (\<lambda>s. Inr (s\<lparr>m_pServerPacket := pk\<rparr>))"
  by (simp add: on_db_def db_packet bind_res_assoc)

lemma SendDataToGateway_packet:
  "SendDataToGateway p n (s\<lparr>m_pServerPacket := pk\<rparr>) =
     bind_res (SendDataToGateway p n s) (\<lambda>s. Inr (s\<lparr>m_pServerPacket := pk\<rparr>))"
  by (simp add: SendDataToGateway_def uv_do_server_packet bind_res_assoc)

lemma TransferToCenter_packet:
  "logic_TransferToCenterServer c p n (s\<lparr>m_pServerPacket := pk\<rparr>) =
     bind_res (logic_TransferToCenterServer c p n s) (\<lambda>s. Inr (s\<lparr>m_pServerPacket := pk\<rparr>))"
  by (simp add: logic_TransferToCenterServer_def uv_do_server_packet bind_res_assoc)

lemma logic_api_packet:
  "logic_api env call (s\<lparr>m_pServerPacket := pk\<rparr>) =
     bind_res (logic_api env call s) (\<lambda>s. Inr (s\<lparr>m_pServerPacket := pk\<rparr>))"
proof (cases call)
  case (CNet c)
  then show ?thesis
    by (cases c; cases "g_pCenterLogicClient s")
       (simp_all add: logic_api_def LuaNet_SendToServer_def LuaNet_SendToLogicServer_def
          LuaNet_SetServerTypeToHandlerId_def Let_def bind_res_assoc bind_res_if case_prod_unfold
          SendDataToGateway_packet TransferToCenter_packet cong: if_cong)
qed (simp_all add: logic_api_def on_db_packet)

lemma engine_packet: "(s\<lparr>m_pServerPacket := pk\<rparr>)\<lparr>logic_engine := e\<rparr> = (s\<lparr>logic_engine := e\<rparr>)\<lparr>m_pServerPacket := pk\<rparr>"
  by simp

lemma script_call_packet:
  "with_engine (script_call lua script (logic_api env) f args) (s\<lparr>m_pServerPacket := pk\<rparr>) =
     bind_res (with_engine (script_call lua script (logic_api env) f args) s) (\<lambda>s. Inr (s\<lparr>m_pServerPacket := pk\<rparr>))"
  by (simp add: with_engine_def engine_packet bind_res_assoc case_prod_unfold
      script_call_map [where F = "\<lambda>s. s\<lparr>m_pServerPacket := pk\<rparr>" and api = "logic_api env", OF logic_api_packet])

lemma with_engine_calls:
  "with_engine (CallLua lua script api h ev q (d @ [0])) = with_engine (script_call lua script api ''OnClientRequest''
     [LuaNumber (int (unat h)), LuaNumber (int (unat ev)), LuaNumber (int (unat q)),
      LuaString (takeWhile (\<lambda>b. b \<noteq> 0) d)])"
  "with_engine (CallCenterRequestLua lua script api h ev q (d @ [0])) = with_engine (script_call lua script api ''OnCenterRequest''
     [LuaNumber (int (unat h)), LuaNumber (int (unat ev)), LuaNumber (int (unat q)),
      LuaString (takeWhile (\<lambda>b. b \<noteq> 0) d)])"
  by (rule ext, simp add: with_engine_def CallLua_eq CallCenterRequestLua_eq)+

lemma logic_packet_packet:
  "logic_packet env from p n (s\<lparr>m_pServerPacket := pk\<rparr>) =
     bind_res (logic_packet env from p n s) (\<lambda>s. Inr (s\<lparr>m_pServerPacket := pk\<rparr>))"
  by (simp add: logic_packet_def with_engine_calls script_call_packet bind_res_assoc bind_res_if case_prod_unfold
      option.case_distrib [of "\<lambda>x. bind_res x _"] cong: if_cong option.case_cong)

text \<open>The session table stays.\<close>

lemma logic_api_sessions:
  "logic_api env call s = Inr s' \<Longrightarrow> open_sessions s' = open_sessions s \<and> m_pServerPacket s' = m_pServerPacket s"
  by (cases call; (rename_tac c; case_tac c)?)
     (auto simp: logic_api_def LuaNet_SendToServer_def LuaNet_SendToLogicServer_def on_db_def
        LuaNet_SetServerTypeToHandlerId_def Let_def bind_res_eq_Inr SendDataToGateway_def
        logic_TransferToCenterServer_def split: if_splits option.splits)

section \<open>The one packet object\<close>

text \<open>A run of reads, each from the connection it names.\<close>

fun logic_reads ::
  "'l logic_env \<Rightarrow> (nat \<Rightarrow> nat \<Rightarrow> junk) \<Rightarrow> (uv_stream \<times> bytes) list \<Rightarrow> 'l logic_server \<Rightarrow> 'l logic_server res" where
  "logic_reads env mems [] s = Inr s"
| "logic_reads env mems (cc # ccs) s =
     bind_res (GameLogicServer_OnMsgRecv (mems (length ccs)) env (fst cc) (int (length (snd cc))) (snd cc) s)
       (logic_reads env mems ccs)"

lemma logic_OnMsgRecv_data:
  assumes "open_sessions s client \<noteq> None" and "c \<noteq> []"
  shows "GameLogicServer_OnMsgRecv mem env client (int (length c)) c s =
    bind_res (process_net_data mem (logic_packet env (server_id GATEWAY)) (length c) s (m_pServerPacket s) c)
      (\<lambda>(r, s, pk). Inr (s\<lparr>m_pServerPacket := pk\<rparr>))"
  using assms
  by (auto simp: GameLogicServer_OnMsgRecv_def GameLogicServer_ProcessNetData_def UV_EOF_def bind_res_assoc
      case_prod_unfold)

lemma with_engine_sessions:
  assumes "with_engine (script_call lua script (logic_api env) f args) s = Inr s'"
  shows "open_sessions s' = open_sessions s"
proof -
  obtain e s1 where c: "script_call lua script (logic_api env) f args (logic_engine s, s) = Inr (e, s1)"
    and s': "s' = s1\<lparr>logic_engine := e\<rparr>"
    using assms by (auto simp: with_engine_def bind_res_eq_Inr)
  have "open_sessions s1 = open_sessions s"
    using script_call_inv [where I = "\<lambda>t. open_sessions t = open_sessions s", OF c] logic_api_sessions by fastforce
  then show ?thesis using s' by simp
qed

text \<open>A complete packet, by its bytes: the script gets the numbers of the header and the text.\<close>

definition packet_handler_id :: "bytes \<Rightarrow> u32" where
  "packet_handler_id p = dec32 (mslice p 12 4)"

definition packet_event_type :: "bytes \<Rightarrow> u32" where
  "packet_event_type p = dec32 (mslice p 4 4)"

definition packet_sequence :: "bytes \<Rightarrow> u16" where
  "packet_sequence p = dec16 (mslice p 18 2)"

definition request_args :: "bytes \<Rightarrow> bytes \<Rightarrow> lua_value list" where
  "request_args p data = [LuaNumber (int (unat (packet_handler_id p))), LuaNumber (int (unat (packet_event_type p))),
     LuaNumber (int (unat (packet_sequence p))), LuaString (takeWhile (\<lambda>b. b \<noteq> 0) data)]"

lemma logic_packet_eq:
  assumes "length p < 2 ^ 32"
  shows "logic_packet env from p (word_of_nat (length p)) s =
    (if length p < 20 then Inl OutOfBoundsRead
     else case ParseFromArray (logic_skip env) (drop 20 p) of
            None \<Rightarrow> Inr s
          | Some data \<Rightarrow>
              if from = server_id LOGIC \<or> from = server_id GATEWAY then
                with_engine (script_call (logic_lua env) (logic_script env) (logic_api env) ''OnClientRequest''
                  (request_args p data)) s
              else if from = server_id CENTER then
                with_engine (script_call (logic_lua env) (logic_script env) (logic_api env) ''OnCenterRequest''
                  (request_args p data)) s
              else Inr s)"
proof -
  have n: "unat (word_of_nat (length p) :: u32) = length p"
    using assms by (simp add: unat_of_nat)
  show ?thesis
  proof (cases "length p < 20")
    case True
    then have "unat (word_of_nat (length p) - 20 :: u32) = length p + 2 ^ 32 - 20"
      using n by (simp add: unat_sub_if_size word_le_nat_alt word_size)
    then have "mem_read p 20 (unat (word_of_nat (length p) - 20 :: u32)) = Inl OutOfBoundsRead"
      by (simp add: mem_read_def)
    then show ?thesis
      using True
      by (auto simp: logic_packet_def GetEventType_def GetHandlerId_def GetSequenceId_def GetNetPackageBody_def
          load_def mem_read_def bind_res_def)
  next
    case False
    then have "unat (word_of_nat (length p) - 20 :: u32) = length p - 20"
      using n by (simp add: unat_sub word_le_nat_alt)
    then have body: "mem_read p 20 (unat (word_of_nat (length p) - 20 :: u32)) = Inr (drop 20 p)"
      using False by (simp add: mslice_def)
    then show ?thesis
      using False body
      by (simp add: with_engine_calls logic_packet_def GetEventType_def GetHandlerId_def GetSequenceId_def GetNetPackageBody_def
          request_args_def packet_handler_id_def packet_event_type_def packet_sequence_def split: option.split)
  qed
qed

lemma logic_packet_sessions:
  assumes "length p = unat n" and run: "logic_packet env from p n s = Inr s'"
  shows "open_sessions s' = open_sessions s"
proof -
  have n: "n = word_of_nat (length p)" "length p < 2 ^ 32"
    using assms(1) u32_bound [of n] by simp_all
  show ?thesis
    using run logic_packet_eq [OF n(2), of env "from" s, folded n(1)] with_engine_sessions
    by (auto split: if_splits option.splits)
qed

interpretation gateway_link: packet_handler "logic_packet env from" "\<lambda>s. open_sessions s = tab"
  for env "from" tab
  by unfold_locales (simp add: logic_packet_sessions)

lemma logic_reads_recv:
  "pk_sized (m_pServerPacket s) \<Longrightarrow> \<forall>(client, c)\<in>set ccs. open_sessions s client \<noteq> None \<and> c \<noteq> [] \<Longrightarrow>
     logic_reads env mems ccs s =
       bind_res (recv_reads mems (logic_packet env (server_id GATEWAY)) s (m_pServerPacket s) (map snd ccs))
         (\<lambda>(s', pk). Inr (s'\<lparr>m_pServerPacket := pk\<rparr>))"
proof (induction ccs arbitrary: s)
  case Nil
  then show ?case by simp
next
  case (Cons cc ccs)
  let ?body = "logic_packet env (server_id GATEWAY)"
  obtain client c where cc: "cc = (client, c)" by (cases cc)
  have open_c: "open_sessions s client \<noteq> None" "c \<noteq> []" using Cons.prems(2) by (auto simp: cc)
  note step = logic_OnMsgRecv_data [where mem = "mems (length ccs)" and env = env, OF open_c]
  show ?case
  proof (cases "process_net_data (mems (length ccs)) ?body (length c) s (m_pServerPacket s) c")
    case (Inl e)
    then show ?thesis using step by (simp add: cc)
  next
    case (Inr x)
    obtain r s1 pk1 where x: "x = (r, s1, pk1)" by (cases x)
    have "open_sessions s1 = open_sessions s"
      and sized: "pk_sized (m_pServerPacket (s1\<lparr>m_pServerPacket := pk1\<rparr>))"
      using gateway_link.process_inv [OF refl Cons.prems(1) Inr [unfolded x]] by simp_all
    with Cons.prems(2) have "\<forall>(client, c)\<in>set ccs. open_sessions (s1\<lparr>m_pServerPacket := pk1\<rparr>) client \<noteq> None \<and> c \<noteq> []"
      by auto
    note IH = Cons.IH [OF sized this]
    have "recv_reads mems ?body (s1\<lparr>m_pServerPacket := pk1\<rparr>) pk1 (map snd ccs) =
        bind_res (recv_reads mems ?body s1 pk1 (map snd ccs)) (\<lambda>(s, pk). Inr (s\<lparr>m_pServerPacket := pk1\<rparr>, pk))"
      by (rule recv_reads_map [where F = "\<lambda>s. s\<lparr>m_pServerPacket := pk1\<rparr>" and body = ?body, OF logic_packet_packet])
    then show ?thesis
      using step Inr IH by (simp add: cc x bind_res_assoc case_prod_unfold)
  qed
qed

lemma logic_reads_deliver:
  assumes "pk_ok (m_pServerPacket s) []" and "pk_sized (m_pServerPacket s)" and "wf_stream (concat (map snd ccs))"
    and "\<forall>(client, c)\<in>set ccs. open_sessions s client \<noteq> None \<and> c \<noteq> [] \<and> length c < 2 ^ 32"
  shows "\<exists>pk. pk_ok pk (snd (frames (concat (map snd ccs)))) \<and>
    logic_reads env mems ccs s =
      bind_res (deliver (logic_packet env (server_id GATEWAY)) (fst (frames (concat (map snd ccs)))) s)
        (\<lambda>s'. Inr (s'\<lparr>m_pServerPacket := pk\<rparr>))"
proof -
  have chunks: "\<forall>c\<in>set (map snd ccs). c \<noteq> [] \<and> length c < 2 ^ 32" using assms(4) by auto
  have wf: "wf_stream ([] @ concat (map snd ccs))" using assms(3) by simp
  obtain pk where pk: "pk_ok pk (snd (frames (concat (map snd ccs))))"
    "recv_reads mems (logic_packet env (server_id GATEWAY)) s (m_pServerPacket s) (map snd ccs) =
      bind_res (deliver (logic_packet env (server_id GATEWAY)) (fst (frames (concat (map snd ccs)))) s)
        (\<lambda>s'. Inr (s', pk))"
    using recv_reads_delivers [OF assms(1) incomplete_Nil wf chunks, of mems "logic_packet env (server_id GATEWAY)"]
    by (simp only: append_Nil) blast
  have "\<forall>(client, c)\<in>set ccs. open_sessions s client \<noteq> None \<and> c \<noteq> []" using assms(4) by auto
  from logic_reads_recv [OF assms(2) this] pk show ?thesis
    by (intro exI [of _ pk]) (simp add: bind_res_assoc)
qed

section \<open>Answers of the script\<close>

lemma SendToServer_gateway:
  assumes "length args = 6" and "lua_tonumber (logic_lua env) (args ! 0) = 4"
    and "lua_tostring (logic_lua env) (args ! 5) = Some str" and "0 \<notin> set str" and "length str < 2 ^ 31"
    and "m_pGatewayClient s = Some gw"
  shows "logic_api env (CNet (SendToServer args)) s =
    Inr (uv_do (UvWrite gw (net_package (lua_tonumber (logic_lua env) (args ! 2)) (lua_tonumber (logic_lua env) (args ! 3))
      (lua_tonumber (logic_lua env) (args ! 4)) 4 (ucast (lua_tonumber (logic_lua env) (args ! 1))) str)) s)"
  using assms CreateNetPackage_eq [OF assms(5)]
  by (simp add: logic_api_def LuaNet_SendToServer_def Let_def lua_string_ok SendDataToGateway_def)

lemma SendToServer_center:
  assumes "length args = 6" and "lua_tonumber (logic_lua env) (args ! 0) = t" and "t < 4"
    and "lua_tostring (logic_lua env) (args ! 5) = Some str" and "0 \<notin> set str" and "length str < 2 ^ 31"
    and "g_pCenterLogicClient s = Some c"
  shows "logic_api env (CNet (SendToServer args)) s =
    Inr (uv_do (UvWrite (client_m_client c) (net_package (lua_tonumber (logic_lua env) (args ! 2))
      (lua_tonumber (logic_lua env) (args ! 3)) (lua_tonumber (logic_lua env) (args ! 4)) (ucast t)
      (ucast (lua_tonumber (logic_lua env) (args ! 1))) str)) s)"
proof -
  have "t = 0 \<or> t = 1 \<or> t = 2 \<or> t = 3"
    using assms(3) by (simp add: word_less_nat_alt word_unat_eq_iff) arith
  then have "(ucast t :: u16) \<noteq> 4 \<and> ((ucast t :: u16) = 3 \<or> (ucast t :: u16) = 2 \<or> (ucast t :: u16) = 1 \<or> (ucast t :: u16) = 0)"
    by auto
  then show ?thesis
    using assms CreateNetPackage_eq [OF assms(6)]
    by (simp add: logic_api_def LuaNet_SendToServer_def Let_def lua_string_ok logic_TransferToCenterServer_def
        TransferToCenterServer_def)
qed

text \<open>A script run that makes one call and succeeds.\<close>

lemma one_call:
  assumes "script (LuaFunction (ascii f)) args (lua_state (logic_engine s)) = ([call], Inr v, l)"
    and "logic_api env call s = Inr s1"
  shows "with_engine (script_call lua script (logic_api env) f args) s =
    Inr (s1\<lparr>logic_engine := (logic_engine s)\<lparr>lua_state := l\<rparr>\<rparr>)"
  using assms by (simp add: with_engine_def script_call_def)

lemma uv_do_logic [simp]:
  "logic_engine (uv_do c s) = logic_engine s" "m_pGatewayClient (uv_do c s) = m_pGatewayClient s"
  "(uv_do c s)\<lparr>logic_engine := logic_engine s\<rparr> = uv_do c s"
  by (simp_all add: uv_do_def)

section \<open>A concrete process\<close>

text \<open>
  The script answers a client request with "ok" under the numbers of the request. Connections
  7 and 8 are gateways, 8 came last; connection 20 leads to the center.
\<close>

definition plain_lua :: "lua_value lua_api" where
  "plain_lua = \<lparr>lua_tonumber = (\<lambda>v. case v of LuaNumber n \<Rightarrow> word_of_int n | _ \<Rightarrow> 0),
     lua_tostring = (\<lambda>v. case v of LuaString s \<Rightarrow> Some s | _ \<Rightarrow> None)\<rparr>"

definition demo_logic_env :: "unit logic_env" where
  "demo_logic_env = \<lparr>logic_skip = (\<lambda>_ _. None),
     logic_script = (\<lambda>f args l.
       ([CNet (SendToServer [LuaNumber 4, args ! 2, args ! 1, LuaNumber 0, args ! 0, LuaString (ascii ''ok'')])],
        Inr LuaNil, l)),
     logic_lua = plain_lua, logic_mem = (\<lambda>_. 0), logic_redis = demo_env ReplyNil\<rparr>"

definition demo_logic :: "unit logic_server" where
  "demo_logic = (GameLogicServer_new \<lparr>lua_stack = [], lua_state = ()\<rparr> demo_client)
     \<lparr>m_nSessionId := 2,
      open_sessions := [7 \<mapsto> \<lparr>m_uHandlerId = 1, m_pRecvPacket = KG_CreateCommonPackage\<rparr>,
                        8 \<mapsto> \<lparr>m_uHandlerId = 2, m_pRecvPacket = KG_CreateCommonPackage\<rparr>],
      m_id_to_handler_map := [1 \<mapsto> 7, 2 \<mapsto> 8], m_hander_to_id_map := [7 \<mapsto> 1, 8 \<mapsto> 2],
      m_pGatewayClient := Some 8\<rparr>"

lemma demo_logic_fields [simp]:
  "open_sessions demo_logic = [7 \<mapsto> \<lparr>m_uHandlerId = 1, m_pRecvPacket = KG_CreateCommonPackage\<rparr>,
      8 \<mapsto> \<lparr>m_uHandlerId = 2, m_pRecvPacket = KG_CreateCommonPackage\<rparr>]"
  "m_pServerPacket demo_logic = KG_CreateCommonPackage" "m_pGatewayClient demo_logic = Some 8"
  "logic_engine demo_logic = \<lparr>lua_stack = [], lua_state = ()\<rparr>" "uv_calls demo_logic = []"
  by (simp_all add: demo_logic_def GameLogicServer_new_def tcp_base_server.defs TCPBaseServer_new_def)

text \<open>A request of player 5 with sequence id 3 and the text "hi".\<close>

definition demo_request :: bytes where
  "demo_request = net_package 1 0 5 2 3 [104, 105]"

lemma demo_request_facts:
  "good_packet demo_request" "length demo_request = 24"
  "ParseFromArray skip (drop 20 demo_request) = Some [104, 105]"
  "frames demo_request = ([demo_request], [])" "wf_stream demo_request" "demo_request \<noteq> []"
  "request_args demo_request [104, 105] = [LuaNumber 5, LuaNumber 1, LuaNumber 3, LuaString [104, 105]]"
proof -
  have s: "SerializeToString [104, 105] = [10, 2, 104, 105]" by (simp add: Serialize_small)
  then have p: "demo_request = packet 24 1 0 5 2 3 [10, 2, 104, 105]"
    by (simp add: demo_request_def net_package_def)
  then have "CreateNetBuffer (\<lambda>_. 0) 1 0 5 2 3 [10, 2, 104, 105] 4 = Inr (demo_request, 24)"
    by (simp add: CreateNetBuffer_eq)
  then show g: "good_packet demo_request" by (rule good_packet_CreateNetBuffer) simp
  then show "frames demo_request = ([demo_request], [])" "wf_stream demo_request"
    using frames_concat [of "[demo_request]"] by simp_all
  show "ParseFromArray skip (drop 20 demo_request) = Some [104, 105]"
    using pb.parse_ser [of "[104, 105]" skip] by (simp add: p drop_packet s)
  show "request_args demo_request [104, 105] = [LuaNumber 5, LuaNumber 1, LuaNumber 3, LuaString [104, 105]]"
    by (simp add: p request_args_def packet_handler_id_def packet_event_type_def packet_sequence_def slice_packet)
qed (simp_all add: demo_request_def net_package_def Serialize_small)

lemma demo_logic_answers:
  "logic_packet demo_logic_env (server_id GATEWAY) demo_request 24 demo_logic =
     Inr (uv_do (UvWrite 8 (net_package 1 0 5 4 3 (ascii ''ok''))) demo_logic)"
proof -
  let ?args = "[LuaNumber 4, LuaNumber 3, LuaNumber 1, LuaNumber 0, LuaNumber 5, LuaString (ascii ''ok'')]"
  have "logic_api demo_logic_env (CNet (SendToServer ?args)) demo_logic =
      Inr (uv_do (UvWrite 8 (net_package 1 0 5 4 3 (ascii ''ok''))) demo_logic)"
    by (subst SendToServer_gateway [of _ _ "ascii ''ok''" _ 8])
       (simp_all add: demo_logic_env_def plain_lua_def ascii_def)
  from one_call [OF _ this, of "logic_script demo_logic_env" "''OnClientRequest''"
      "[LuaNumber 5, LuaNumber 1, LuaNumber 3, LuaString [104, 105]]"]
  have "with_engine (script_call (logic_lua demo_logic_env) (logic_script demo_logic_env) (logic_api demo_logic_env)
      ''OnClientRequest'' [LuaNumber 5, LuaNumber 1, LuaNumber 3, LuaString [104, 105]]) demo_logic =
      Inr ((uv_do (UvWrite 8 (net_package 1 0 5 4 3 (ascii ''ok''))) demo_logic)\<lparr>logic_engine := logic_engine demo_logic\<rparr>)"
    by (simp add: demo_logic_env_def)
  then have "with_engine (script_call (logic_lua demo_logic_env) (logic_script demo_logic_env) (logic_api demo_logic_env)
      ''OnClientRequest'' [LuaNumber 5, LuaNumber 1, LuaNumber 3, LuaString [104, 105]]) demo_logic =
      Inr (uv_do (UvWrite 8 (net_package 1 0 5 4 3 (ascii ''ok''))) demo_logic)"
    by (simp only: uv_do_logic)
  then show ?thesis
    using logic_packet_eq [of demo_request demo_logic_env "server_id GATEWAY" demo_logic]
    by (simp add: demo_request_facts)
qed

section \<open>Properties\<close>

text \<open>C19: the logic server has one packet object for all its connections. Whatever connections
  the reads come from, the effect is that of the packets of all bytes in the order they were
  read: an unfinished packet of one gateway is completed with bytes of another.\<close>

theorem logic_server_mixes_streams:
  assumes "pk_ok (m_pServerPacket s) []" and "pk_sized (m_pServerPacket s)" and "wf_stream (concat (map snd ccs))"
    and "\<forall>(client, c)\<in>set ccs. open_sessions s client \<noteq> None \<and> c \<noteq> [] \<and> length c < 2 ^ 32"
  shows "\<exists>pk. pk_ok pk (snd (frames (concat (map snd ccs)))) \<and>
    logic_reads env mems ccs s =
      bind_res (deliver (logic_packet env (server_id GATEWAY)) (fst (frames (concat (map snd ccs)))) s)
        (\<lambda>s'. Inr (s'\<lparr>m_pServerPacket := pk\<rparr>))"
  by (rule logic_reads_deliver [OF assms])

theorem logic_server_mixes_streams_witness:
  "\<exists>s'. logic_reads demo_logic_env (\<lambda>_ _ _. 0) [(7, take 10 demo_request), (8, drop 10 demo_request)] demo_logic = Inr s'
     \<and> uv_calls s' = [UvWrite 8 (net_package 1 0 5 4 3 (ascii ''ok''))]"
  using logic_server_mixes_streams [of demo_logic "[(7, take 10 demo_request), (8, drop 10 demo_request)]"
      demo_logic_env "\<lambda>_ _ _. 0"] demo_logic_answers
  by (auto simp: demo_request_facts pk_ok_create pk_sized_create)

end
