(* ===== verification/System.thy ===== *)
theory System
  imports Gateway Center LogicServer
begin

text \<open>
  The processes together. What one process writes to a connection is what the process at the
  other end reads; the theorems follow a packet from process to process. A connection has an
  address in each of the two processes.
\<close>

section \<open>Packages\<close>

lemma good_packet_stamp:
  assumes "good_packet p" and "20 \<le> length p"
  shows "good_packet (stamp h p)"
proof -
  have "take 4 (stamp h p) = take 4 (take 12 (stamp h p))" by simp
  also have "\<dots> = take 4 p" using stamp_ok [of p h] assms(2) by simp
  finally show ?thesis
    using assms stamp_ok [of p h] by (simp add: good_packet_def)
qed

lemma good_packet_net_package:
  assumes "length str < 2 ^ 31"
  shows "good_packet (net_package ev err hid sid seq str)"
proof -
  have "length (SerializeToString str) < 2 ^ 32 - 60"
    using length_Serialize [OF assms] assms by simp
  then have n: "unat (word_of_nat (length (SerializeToString str)) :: u32) = length (SerializeToString str)"
    "length (SerializeToString str) < 2 ^ 32 - 60"
    by (simp_all add: unat_of_nat)
  then have "CreateNetBuffer (\<lambda>_. 0) ev err hid sid seq (SerializeToString str)
      (word_of_nat (length (SerializeToString str))) = Inr (net_package ev err hid sid seq str,
        20 + word_of_nat (length (SerializeToString str)))"
    by (simp add: CreateNetBuffer_eq net_package_def)
  then show ?thesis by (rule good_packet_CreateNetBuffer) (use n in simp_all)
qed

lemma net_package_fields:
  "take 4 (drop 12 (net_package ev err hid sid seq str)) = enc32 hid"
  "packet_server (net_package ev err hid sid seq str) = sid"
  "packet_event (net_package ev err hid sid seq str) = ev"
  "drop 20 (net_package ev err hid sid seq str) = SerializeToString str"
  "20 \<le> length (net_package ev err hid sid seq str)"
  using slice_packet
  by (simp_all add: net_package_def packet_server_def packet_event_def drop_packet mslice_def)

section \<open>One packet through each server\<close>

lemma gateway_forwards_one:
  assumes "open_sessions g client = Some session" and "pk_ok (m_pRecvPacket session) []"
    and "good_packet p" and "20 \<le> length p" and "legal skip_field p" and "GetGatewayClient (server_of p) g = Some link"
  shows "\<exists>session'. m_uHandlerId session' = m_uHandlerId session \<and>
    GatewayServer_OnMsgRecv mem stale skip_field client (int (length p)) p g =
      Inr (g\<lparr>uv_calls := uv_calls g @ [UvWrite link (stamp (m_uHandlerId session) p)],
             open_sessions := (open_sessions g)(client \<mapsto> session')\<rparr>)"
proof -
  have fr: "frames p = ([p], [])" "wf_stream p"
    using frames_concat [of "[p]"] assms(3) by simp_all
  have ne: "p \<noteq> []" and b: "length p < 2 ^ 32" using assms(3,4) good_packet_bound by auto
  obtain session' where s': "m_uHandlerId session' = m_uHandlerId session"
    "player_sends (\<lambda>_. mem) stale skip_field client [p] g =
       Inr (g\<lparr>uv_calls := uv_calls g @ forward_spec skip_field g (m_uHandlerId session) p,
              open_sessions := (open_sessions g)(client \<mapsto> session')\<rparr>)"
    using player_sends_eq [of g client session "[]" "[p]" skip_field "\<lambda>_. mem" stale] assms fr ne b
    by (auto simp: routable_def)
  then show ?thesis
    using assms(5,6) by (intro exI [of _ session']) (simp add: forward_spec_def bind_res_eq_Inr)
qed

lemma process_one:
  assumes "pk_ok pk []" and "good_packet p"
  obtains pk' where "process_net_data mem body (length p) s pk p =
    bind_res (body p (word_of_nat (length p)) s) (\<lambda>s'. Inr (True, s', pk'))"
proof -
  have fr: "frames p = ([p], [])" "wf_stream p"
    using frames_concat [of "[p]"] assms(2) by simp_all
  have ne: "p \<noteq> []" and b: "length p < 2 ^ 32"
    using assms(2) good_packet_bound by (auto simp: good_packet_def good_len_def)
  show thesis
    using process_net_data_delivers [OF assms(1) incomplete_Nil ne b, of "length p" mem body] fr that
    by (auto simp: bind_res_assoc)
qed

lemma gateway_delivers_one:
  assumes "pk_ok (m_pClientPacket g) []" and "good_packet p" and "20 \<le> length p"
    and "dec32 (mslice p 12 4) = i" and "i \<noteq> 0" and "GetHandlerById i g = Some h"
  shows "\<exists>pk. GatewayClient_OnMsgRecv pmem mem mem' (int (length p)) p g =
    Inr ((uv_do (UvWrite h p) g)\<lparr>m_pClientPacket := pk\<rparr>)"
proof -
  have ne: "p \<noteq> []" and b: "length p < 2 ^ 32" using assms(2,3) good_packet_bound by auto
  have "client_packet mem mem' p (word_of_nat (length p)) g = Inr (uv_do (UvWrite h p) g)"
    using client_packet_eq [OF b, of mem mem' g] assms(3-6) by (simp add: Let_def)
  moreover obtain pk where "process_net_data pmem (client_packet mem mem') (length p) g (m_pClientPacket g) p =
      bind_res (client_packet mem mem' p (word_of_nat (length p)) g) (\<lambda>s'. Inr (True, s', pk))"
    using process_one [OF assms(1,2)] .
  ultimately show ?thesis
    using ne by (auto simp: GatewayClient_OnMsgRecv_def GatewayClient_ProcessNetData_def UV_EOF_def)
qed

lemma center_reads_one:
  assumes "open_sessions s client = Some session" and "pk_ok (m_pRecvPacket session) []"
    and "good_packet p" and "20 \<le> length p"
    and "center_packet env (m_uHandlerId session) p (word_of_nat (length p)) s = Inr s1"
  shows "\<exists>pk. CenterServer_OnMsgRecv mem stale env client (int (length p)) p s =
    Inr (s1\<lparr>open_sessions := (open_sessions s1)(client \<mapsto> session\<lparr>m_pRecvPacket := pk\<rparr>)\<rparr>)"
proof -
  have ne: "p \<noteq> []" using assms(4) by auto
  obtain pk where "process_net_data mem (center_packet env (m_uHandlerId session)) (length p) s (m_pRecvPacket session) p =
      bind_res (center_packet env (m_uHandlerId session) p (word_of_nat (length p)) s) (\<lambda>s'. Inr (True, s', pk))"
    using process_one [OF assms(2,3)] .
  then show ?thesis
    using center_OnMsgRecv_data [OF assms(1) ne, of mem stale env] assms(5) by auto
qed

lemma logic_reads_one:
  assumes "open_sessions s client \<noteq> None" and "pk_ok (m_pServerPacket s) []"
    and "good_packet p" and "20 \<le> length p"
    and "logic_packet env (server_id GATEWAY) p (word_of_nat (length p)) s = Inr s1"
  shows "\<exists>pk. GameLogicServer_OnMsgRecv mem env client (int (length p)) p s = Inr (s1\<lparr>m_pServerPacket := pk\<rparr>)"
proof -
  have ne: "p \<noteq> []" using assms(4) by auto
  obtain pk where "process_net_data mem (logic_packet env (server_id GATEWAY)) (length p) s (m_pServerPacket s) p =
      bind_res (logic_packet env (server_id GATEWAY) p (word_of_nat (length p)) s) (\<lambda>s'. Inr (True, s', pk))"
    using process_one [OF assms(2,3)] .
  then show ?thesis
    using logic_OnMsgRecv_data [OF assms(1) ne, of mem env] assms(5) by auto
qed

section \<open>A request and its answer\<close>

lemma request_args_stamp:
  assumes "20 \<le> length p"
  shows "request_args (stamp h p) data = LuaNumber (int (unat h)) # tl (request_args p data)"
    and "drop 20 (stamp h p) = drop 20 p"
proof -
  have s: "take 12 (stamp h p) = take 12 p" "drop 16 (stamp h p) = drop 16 p" "length (stamp h p) = length p"
    using stamp_ok [OF assms, of h] by auto
  have "mslice (stamp h p) 4 4 = take 4 (drop 4 (take 12 (stamp h p)))" by (simp add: mslice_def drop_take)
  then have 4: "mslice (stamp h p) 4 4 = mslice p 4 4" unfolding s by (simp add: mslice_def drop_take)
  have "mslice (stamp h p) 18 2 = take 2 (drop 2 (drop 16 (stamp h p)))" by (simp add: mslice_def)
  then have 18: "mslice (stamp h p) 18 2 = mslice p 18 2" unfolding s by (simp add: mslice_def)
  have "mslice (stamp h p) 12 4 = enc32 h"
    using assms by (simp add: stamp_def mem_simps)
  then show "request_args (stamp h p) data = LuaNumber (int (unat h)) # tl (request_args p data)"
    using 4 18 by (simp add: request_args_def packet_handler_id_def packet_event_type_def packet_sequence_def)
  have "drop 20 (stamp h p) = drop 4 (drop 16 (stamp h p))" by simp
  then show "drop 20 (stamp h p) = drop 20 p" unfolding s by simp
qed

section \<open>Properties\<close>

text \<open>C1: the way of a request. A player's request for the logic server, complete and legal, is sent
  to the logic server under the id of the player's session; there the script is called with that
  id, the event, the sequence number and the text; if it answers through \<^verbatim>\<open>SendToServer\<close> to that
  id, the answer goes to the gateway, and the gateway writes exactly it to the connection of the
  player who asked.\<close>

theorem request_is_answered_to_its_player:
  assumes reach: "(gateway_step reads skip_field)\<^sup>*\<^sup>* (gateway_main l c r, {}) (g, alloc)"
    and player: "GetHandlerById h g = Some client" "open_sessions g client = Some session"
      "pk_ok (m_pRecvPacket session) []" "pk_ok (m_pClientPacket g) []"
    and link: "g_pGameLogicClient g = Some logic_link"
    and p: "good_packet p" "20 \<le> length p" "ParseFromArray skip_field (drop 20 p) = Some data"
      "server_of p = server_id LOGIC"
    and logic: "open_sessions s conn \<noteq> None" "pk_ok (m_pServerPacket s) []" "m_pGatewayClient s = Some gateway_link"
      "logic_skip env = skip_field"
    and script: "logic_script env (LuaFunction (ascii ''OnClientRequest''))
        (LuaNumber (int (unat h)) # tl (request_args p data)) (lua_state (logic_engine s)) =
          ([CNet (SendToServer args)], Inr v, l')"
      "map (lua_tonumber (logic_lua env)) (take 5 args) = [4, seq, ev, err, h]" "length args = 6"
      "lua_tostring (logic_lua env) (args ! 5) = Some str" "0 \<notin> set str" "length str < 2 ^ 31"
  shows "\<exists>g1 s1 g2.
    GatewayServer_OnMsgRecv mem stale skip_field client (int (length p)) p g = Inr g1 \<and>
    uv_calls g1 = uv_calls g @ [UvWrite logic_link (stamp h p)] \<and>
    GameLogicServer_OnMsgRecv mem2 env conn (int (length p)) (stamp h p) s = Inr s1 \<and>
    uv_calls s1 = uv_calls s @ [UvWrite gateway_link (net_package ev err h (server_id GATEWAY) (ucast seq) str)] \<and>
    GatewayClient_OnMsgRecv mem3 mem4 mem5
      (int (length (net_package ev err h (server_id GATEWAY) (ucast seq) str)))
      (net_package ev err h (server_id GATEWAY) (ucast seq) str) g1 = Inr g2 \<and>
    uv_calls g2 = uv_calls g1 @ [UvWrite client (net_package ev err h (server_id GATEWAY) (ucast seq) str)]"
proof -
  let ?a = "net_package ev err h (server_id GATEWAY) (ucast seq) str"
  have own: "h \<noteq> 0" "m_uHandlerId session = h"
    using gw.owner_of_id [OF reach player(1)] player(2) by auto
  have leg: "legal skip_field p" "GetGatewayClient (server_of p) g = Some logic_link"
    using p(3,4) link by (simp_all add: legal_def GetGatewayClient_def)
  obtain session' where g1: "GatewayServer_OnMsgRecv mem stale skip_field client (int (length p)) p g =
      Inr (g\<lparr>uv_calls := uv_calls g @ [UvWrite logic_link (stamp h p)],
             open_sessions := (open_sessions g)(client \<mapsto> session')\<rparr>)" (is "_ = Inr ?g1")
    using gateway_forwards_one [OF player(2,3) p(1,2) leg, of mem stale] own(2) by auto
  have st: "good_packet (stamp h p)" "length (stamp h p) = length p" "length p < 2 ^ 32"
    using good_packet_stamp [OF p(1,2)] stamp_ok [OF p(2), of h] good_packet_bound [OF p(1)] by auto
  have idx: "lua_tonumber (logic_lua env) (args ! 0) = 4" "lua_tonumber (logic_lua env) (args ! 1) = seq"
    "lua_tonumber (logic_lua env) (args ! 2) = ev" "lua_tonumber (logic_lua env) (args ! 3) = err"
    "lua_tonumber (logic_lua env) (args ! 4) = h"
    using script(2,3) by (auto simp: list_eq_iff_nth_eq nth_Cons')
  have "logic_api env (CNet (SendToServer args)) s = Inr (uv_do (UvWrite gateway_link ?a) s)"
    using SendToServer_gateway [OF script(3) idx(1) script(4-6) logic(3)] idx by simp
  from one_call [where script = "logic_script env" and env = env and s = s, OF script(1) this]
  have "with_engine (script_call (logic_lua env) (logic_script env) (logic_api env) ''OnClientRequest''
      (request_args (stamp h p) data)) s =
      Inr ((uv_do (UvWrite gateway_link ?a) s)\<lparr>logic_engine := (logic_engine s)\<lparr>lua_state := l'\<rparr>\<rparr>)"
    by (simp only: request_args_stamp [OF p(2)])
  then have "logic_packet env (server_id GATEWAY) (stamp h p) (word_of_nat (length (stamp h p))) s =
      Inr ((uv_do (UvWrite gateway_link ?a) s)\<lparr>logic_engine := (logic_engine s)\<lparr>lua_state := l'\<rparr>\<rparr>)"
    using logic_packet_eq [of "stamp h p" env "server_id GATEWAY" s] st p(2,3) request_args_stamp(2) [OF p(2)]
    by (simp add: logic(4))
  then obtain pk where s1: "GameLogicServer_OnMsgRecv mem2 env conn (int (length (stamp h p))) (stamp h p) s =
      Inr ((uv_do (UvWrite gateway_link ?a) s)\<lparr>logic_engine := (logic_engine s)\<lparr>lua_state := l'\<rparr>,
        m_pServerPacket := pk\<rparr>)"
    using logic_reads_one [OF logic(1,2) st(1)] p(2) st(2) by fastforce
  have "dec32 (mslice ?a 12 4) = h" "GetHandlerById h ?g1 = Some client" "pk_ok (m_pClientPacket ?g1) []"
    using net_package_fields(1) player(1,4) by (simp_all add: mslice_def GetHandlerById_def)
  then obtain pk2 where g2: "GatewayClient_OnMsgRecv mem3 mem4 mem5 (int (length ?a)) ?a ?g1 =
      Inr ((uv_do (UvWrite client ?a) ?g1)\<lparr>m_pClientPacket := pk2\<rparr>)"
    using gateway_delivers_one [of ?g1 ?a h client mem3 mem4 mem5] good_packet_net_package [OF script(6)]
      net_package_fields(5) own(1) by blast
  show ?thesis
    using g1 s1 g2 st(2) by (intro exI conjI) (assumption, simp, simp, simp, assumption, simp)
qed

theorem request_is_answered_to_its_player_witness:
  "\<exists>g1 s1 g2.
    GatewayServer_OnMsgRecv (\<lambda>_ _. 0) (\<lambda>v. v) (\<lambda>_ _. None) 7 24 demo_packet demo = Inr g1 \<and>
    GameLogicServer_OnMsgRecv (\<lambda>_ _. 0) demo_logic_env 8 24 (stamp 1 demo_packet) demo_logic = Inr s1 \<and>
    uv_calls s1 = [UvWrite 8 (net_package 1 0 1 4 0 (ascii ''ok''))] \<and>
    GatewayClient_OnMsgRecv (\<lambda>_ _. 0) (\<lambda>_. 0) (\<lambda>_. 0)
      (int (length (net_package 1 0 1 4 0 (ascii ''ok'')))) (net_package 1 0 1 4 0 (ascii ''ok'')) g1 = Inr g2 \<and>
    uv_calls g2 = uv_calls g1 @ [UvWrite 7 (net_package 1 0 1 4 0 (ascii ''ok''))]"
proof -
  have data: "ParseFromArray (\<lambda>_ _. None) (drop 20 demo_packet) = Some [104, 105]"
    using pb.parse_ser [of "[104, 105]" "\<lambda>_ _. None"]
    by (simp add: demo_packet_def drop_packet Serialize_small)
  have args: "tl (request_args demo_packet [104, 105]) = [LuaNumber 1, LuaNumber 0, LuaString [104, 105]]"
    by (simp add: request_args_def packet_handler_id_def packet_event_type_def packet_sequence_def slice_packet
        demo_packet_def)
  have "logic_script demo_logic_env (LuaFunction (ascii ''OnClientRequest''))
        (LuaNumber (int (unat (1 :: u32))) # tl (request_args demo_packet [104, 105])) (lua_state (logic_engine demo_logic)) =
      ([CNet (SendToServer [LuaNumber 4, LuaNumber 0, LuaNumber 1, LuaNumber 0, LuaNumber 1, LuaString (ascii ''ok'')])],
       Inr LuaNil, ())"
    unfolding args by (simp add: demo_logic_env_def)
  from request_is_answered_to_its_player [OF demo_reachable _ _ _ _ _ _ _ data _ _ _ _ _ this,
      of 7 "\<lparr>m_uHandlerId = 1, m_pRecvPacket = KG_CreateCommonPackage\<rparr>" 12 8 8 0 1 0 "ascii ''ok''"
        "\<lambda>_ _. 0" "\<lambda>v. v" "\<lambda>_ _. 0" "\<lambda>_ _. 0" "\<lambda>_. 0" "\<lambda>_. 0"]
  show ?thesis
    by (auto simp: demo_fields demo_packet_facts pk_ok_create GetHandlerById_def demo_logic_env_def plain_lua_def
        ascii_def)
qed

section \<open>The registration of a server\<close>

lemma register_text_no_nul: "0 \<notin> set ip \<Longrightarrow> 0 \<notin> set (register_text ip t)"
  using fmt_nat_no_nul by (auto simp: register_text_def fmt_int_def ascii_def)

lemma c_string_no_nul: "c_string m = Inr s \<Longrightarrow> 0 \<notin> set s"
  by (auto simp: c_string_def dest: set_takeWhileD split: if_splits)

text \<open>The packet that a process sends to the center when the connection is up.\<close>

definition register_packet :: "bytes \<Rightarrow> u32 \<Rightarrow> bytes" where
  "register_packet ip t = net_package 3001 0 0 (server_id CENTER) 0 (register_text ip t)"

lemma OnConnect_registers:
  assumes "g_pCenterLogicClient s = Some c" and "c_string (peek (client_m_ip c)) = Inr ip"
    and "length ip + length (fmt_int (m_nServerType c)) \<le> 87"
  shows "CenterClient_OnConnect mem mem2 peek handle 0 s =
    Inr (uv_do (UvWrite (client_m_client c) (register_packet ip (m_nServerType c))) (uv_do (UvReadStart handle) s))"
proof -
  have "g_pCenterLogicClient (uv_do (UvReadStart handle) s) = Some c"
    using assms(1) by (simp add: uv_do_def)
  then show ?thesis
    using assms(2,3) by (simp add: CenterClient_OnConnect_def RegisterToCenter_eq Let_def register_packet_def)
qed

lemma register_packet_facts:
  assumes "0 \<notin> set ip" and "length ip + length (fmt_int t) \<le> 87"
  shows "good_packet (register_packet ip t)" "20 \<le> length (register_packet ip t)" "length (register_packet ip t) < 2 ^ 32"
    and "ParseFromArray skip (drop 20 (register_packet ip t)) = Some (register_text ip t)"
    and "takeWhile (\<lambda>b. b \<noteq> 0) (register_text ip t) = register_text ip t"
    and "packet_server (register_packet ip t) = server_id CENTER" "packet_event (register_packet ip t) = 3001"
proof -
  have len: "length (register_text ip t) < 2 ^ 31" using assms(2) by (simp add: length_register_text)
  show g: "good_packet (register_packet ip t)" "20 \<le> length (register_packet ip t)"
    using good_packet_net_package [OF len] net_package_fields(5) by (simp_all add: register_packet_def)
  show "length (register_packet ip t) < 2 ^ 32" using good_packet_bound [OF g(1)] .
  show "ParseFromArray skip (drop 20 (register_packet ip t)) = Some (register_text ip t)"
    using len by (simp add: register_packet_def net_package_fields pb.parse_ser)
  show "takeWhile (\<lambda>b. b \<noteq> 0) (register_text ip t) = register_text ip t"
    using register_text_no_nul [OF assms(1)] by (auto simp: takeWhile_eq_all_conv)
qed (simp_all add: register_packet_def net_package_fields)

text \<open>A server makes itself reachable. When the connection to the center is up, the process
  writes one packet with its address and its type; in the center this packet calls the script
  with the id of the new session, and when the script registers the type under that id, as
  \<^verbatim>\<open>net_base_logic.lua\<close> does, every later packet for that type of server is written unchanged to
  this connection.\<close>

lemma registration_opens_a_route:
  assumes server: "g_pCenterLogicClient s = Some c" "c_string (peek (client_m_ip c)) = Inr ip"
      "length ip + length (fmt_int (m_nServerType c)) \<le> 87"
    and center: "open_sessions k conn = Some session" "pk_ok (m_pRecvPacket session) []"
      "GetHandlerById (m_uHandlerId session) k = Some conn"
      "m_mapServerTypeToHandler k (m_nServerType c) = None"
    and script: "center_script env (LuaFunction (ascii ''OnClientRequest''))
        [LuaNumber (int (unat (m_uHandlerId session))), LuaNumber 3001, LuaNumber 0,
         LuaString (register_text ip (m_nServerType c))] (lua_state (lua_engine k)) =
          ([SetServerTypeToHandlerId args], Inr v, l)"
      "map (lua_tonumber (center_lua env)) args = [m_nServerType c, m_uHandlerId session]"
  shows "\<exists>s1 k1 reg.
    CenterClient_OnConnect mem mem2 peek handle 0 s = Inr s1 \<and>
    uv_calls s1 = uv_calls s @ [UvReadStart handle, UvWrite (client_m_client c) reg] \<and>
    CenterServer_OnMsgRecv mem3 stale env conn (int (length reg)) reg k = Inr k1 \<and>
    GetServerTypeToHandler (m_nServerType c) k1 = m_uHandlerId session \<and>
    (\<forall>p h. 20 \<le> length p \<longrightarrow> length p < 2 ^ 32 \<longrightarrow> center_legal env p \<longrightarrow> packet_server p \<noteq> server_id CENTER \<longrightarrow>
       ucast (packet_server p) = m_nServerType c \<longrightarrow>
       center_packet env h p (word_of_nat (length p)) k1 = Inr (uv_do (UvWrite conn p) k1))"
proof -
  let ?t = "register_text ip (m_nServerType c)" and ?i = "m_uHandlerId session"
  let ?reg = "register_packet ip (m_nServerType c)"
  have s1: "CenterClient_OnConnect mem mem2 peek handle 0 s =
      Inr (uv_do (UvWrite (client_m_client c) ?reg) (uv_do (UvReadStart handle) s))" (is "_ = Inr ?s1")
    by (rule OnConnect_registers) (rule server)+
  note reg = register_packet_facts [OF c_string_no_nul [OF server(2)] server(3)]
  let ?k = "SetServerTypeToHandler (m_nServerType c) ?i k"
  have args: "length args = 2" "lua_tonumber (center_lua env) (args ! 0) = m_nServerType c"
    "lua_tonumber (center_lua env) (args ! 1) = ?i"
    using script(2) by (auto simp: list_eq_iff_nth_eq nth_Cons')
  have "script_call (center_lua env) (center_script env) (center_call env) ''OnClientRequest''
      [LuaNumber (int (unat ?i)), LuaNumber 3001, LuaNumber 0, LuaString ?t] (lua_engine k, k) =
      Inr ((lua_engine k)\<lparr>lua_state := l\<rparr>, ?k)"
    using script(1) args by (simp add: script_call_def center_call_def LuaNet_SetServerTypeToHandlerId_def)
  then have call: "CenterServer_CallLua env ?i 3001 (?t @ [0]) k = Inr (?k\<lparr>lua_engine := (lua_engine k)\<lparr>lua_state := l\<rparr>\<rparr>)"
    by (simp add: CenterServer_CallLua_def CallLua_eq reg(5))
  have pkt: "center_packet env ?i ?reg (word_of_nat (length ?reg)) k = Inr (?k\<lparr>lua_engine := (lua_engine k)\<lparr>lua_state := l\<rparr>\<rparr>)"
    using reg call by (simp add: center_packet_eq reg(4))
  obtain pk where k1: "CenterServer_OnMsgRecv mem3 stale env conn (int (length ?reg)) ?reg k =
      Inr ((?k\<lparr>lua_engine := (lua_engine k)\<lparr>lua_state := l\<rparr>\<rparr>)\<lparr>open_sessions :=
        (open_sessions (?k\<lparr>lua_engine := (lua_engine k)\<lparr>lua_state := l\<rparr>\<rparr>))(conn \<mapsto> session\<lparr>m_pRecvPacket := pk\<rparr>)\<rparr>)"
      (is "_ = Inr ?k1")
    using center_reads_one [OF center(1,2) reg(1,2) pkt] by blast
  have route: "GetServerTypeToHandler (m_nServerType c) ?k1 = ?i" "GetHandlerById ?i ?k1 = Some conn"
    using center(3,4) by (simp_all add: GetServerTypeToHandler_def SetServerTypeToHandler_def map_insert_def GetHandlerById_def)
  have "center_packet env h p (word_of_nat (length p)) ?k1 = Inr (uv_do (UvWrite conn p) ?k1)"
    if "20 \<le> length p" "length p < 2 ^ 32" "center_legal env p" "packet_server p \<noteq> server_id CENTER"
      "ucast (packet_server p) = m_nServerType c" for p h
    using that route by (auto simp: center_packet_eq center_legal_def)
  then show ?thesis
    using s1 k1 route(1) by (intro exI [of _ ?s1] exI [of _ ?k1] exI [of _ ?reg]) simp
qed

text \<open>A logic process that connects to the center over connection 20, and a script of the center that registers.\<close>

definition demo_register_env :: "unit center_env" where
  "demo_register_env = \<lparr>center_skip = (\<lambda>_ _. None),
     center_script = (\<lambda>f args l. ([SetServerTypeToHandlerId [LuaNumber 2, args ! 0]], Inr LuaNil, l)),
     center_lua = plain_lua, package_mem = (\<lambda>_. 0)\<rparr>"

definition demo_center_client :: center_client where
  "demo_center_client = tcp_client.extend (TCPClient_new 0 20) \<lparr>m_nServerType = 2\<rparr>"

lemma demo_center_client_fields [simp]:
  "client_m_ip demo_center_client = 0" "m_nServerType demo_center_client = 2" "client_m_client demo_center_client = 20"
  by (simp_all add: demo_center_client_def TCPClient_new_def tcp_client.defs)

lemma registration_opens_a_route_witness:
  "\<exists>s1 k1 reg.
    CenterClient_OnConnect (\<lambda>_. 0) (\<lambda>_. 0) (\<lambda>_. [49, 0]) 20 0 (demo_logic\<lparr>g_pCenterLogicClient := Some demo_center_client\<rparr>)
      = Inr s1 \<and>
    uv_calls s1 = [UvReadStart 20, UvWrite 20 reg] \<and>
    CenterServer_OnMsgRecv (\<lambda>_ _. 0) (\<lambda>v. v) demo_register_env 8 (int (length reg)) reg demo_center = Inr k1 \<and>
    GetServerTypeToHandler 2 k1 = 2 \<and>
    center_packet demo_register_env 1 demo_transfer 24 k1 = Inr (uv_do (UvWrite 8 demo_transfer) k1)"
proof -
  have f: "fmt_int 2 = [50]" by (simp add: fmt_int_def fmt_nat.simps)
  have script: "center_script demo_register_env (LuaFunction (ascii ''OnClientRequest''))
        [LuaNumber (int (unat (2 :: u32))), LuaNumber 3001, LuaNumber 0, LuaString (register_text [49] 2)]
        (lua_state (lua_engine demo_center)) =
      ([SetServerTypeToHandlerId [LuaNumber 2, LuaNumber 2]], Inr LuaNil, ())"
    by (simp add: demo_register_env_def)
  have legal: "center_legal demo_register_env demo_transfer"
    by (simp add: center_legal_def demo_transfer_facts)
  have lua: "map (lua_tonumber (center_lua demo_register_env)) [LuaNumber 2, LuaNumber 2] = [2, 2]"
    by (simp add: demo_register_env_def plain_lua_def)
  obtain s1 k1 reg where
    "CenterClient_OnConnect (\<lambda>_. 0) (\<lambda>_. 0) (\<lambda>_. [49, 0]) 20 0 (demo_logic\<lparr>g_pCenterLogicClient := Some demo_center_client\<rparr>)
      = Inr s1" "uv_calls s1 = [UvReadStart 20, UvWrite 20 reg]"
    "CenterServer_OnMsgRecv (\<lambda>_ _. 0) (\<lambda>v. v) demo_register_env 8 (int (length reg)) reg demo_center = Inr k1"
    "GetServerTypeToHandler 2 k1 = 2"
    "\<And>p h. 20 \<le> length p \<Longrightarrow> length p < 2 ^ 32 \<Longrightarrow> center_legal demo_register_env p \<Longrightarrow>
       packet_server p \<noteq> server_id CENTER \<Longrightarrow> ucast (packet_server p) = (2 :: u32) \<Longrightarrow>
       center_packet demo_register_env h p (word_of_nat (length p)) k1 = Inr (uv_do (UvWrite 8 p) k1)"
    using registration_opens_a_route [of "demo_logic\<lparr>g_pCenterLogicClient := Some demo_center_client\<rparr>" demo_center_client
        "\<lambda>_. [49, 0]" "[49]" demo_center 8 "\<lparr>m_uHandlerId = 2, m_pRecvPacket = KG_CreateCommonPackage\<rparr>" demo_register_env
        "[LuaNumber 2, LuaNumber 2]" LuaNil "()" "\<lambda>_. 0" "\<lambda>_. 0" 20 "\<lambda>_ _. 0" "\<lambda>v. v"] script lua
    by (auto simp: f c_string_def demo_center_fields pk_ok_create GetHandlerById_def)
  from this(1-4) this(5) [of demo_transfer 1] show ?thesis
    using legal by (intro exI [of _ s1] exI [of _ k1] exI [of _ reg]) (simp add: demo_transfer_facts)
qed

end
