(* ===== verification/LuaScript.thy ===== *)
theory LuaScript
  imports LuaNet
begin

text \<open>
  The part of the Lua scripts that the servers share: the table of events
  (\<^verbatim>\<open>script/manager/event_manager.lua\<close>), the sessions and pending requests
  (\<^verbatim>\<open>script/manager/net_manager.lua\<close>) and the functions the engine calls for a packet
  (\<^verbatim>\<open>script/module/protocol.lua\<close>). A function of a script takes the global objects and gives the
  C++ functions it calls, in order, a result or an error, and the changed objects. The codec of
  \<^verbatim>\<open>json.lua\<close>, which is vendored, and the constants of \<^verbatim>\<open>dev_share\<close>, a submodule, are arguments.
\<close>

section \<open>Values\<close>

text \<open>
  A table has an array part and fields with texts as keys; \<open>SUserData\<close> is an object of that class, by its address.
  Numbers are doubles in Lua; here they are integers, because the scripts compute with ids, codes and counts only, which
  come from words of 32 bits and are exact as doubles. A table is its contents: the tables of the modelled scripts are
  changed only by the function that made them or took them out of a queue.
\<close>

datatype script_value =
    SNil
  | SBool bool
  | SNumber int
  | SString bytes
  | STab "script_value list" "(bytes \<times> script_value) list"
  | SUserData nat

abbreviation STable :: "script_value list \<Rightarrow> script_value" where
  "STable vs \<equiv> STab vs []"

definition truthy :: "script_value \<Rightarrow> bool" where
  "truthy v \<longleftrightarrow> v \<noteq> SNil \<and> v \<noteq> SBool False"

fun IsNumber :: "script_value \<Rightarrow> bool" where
  "IsNumber (SNumber _) = True"
| "IsNumber _ = False"

fun IsString :: "script_value \<Rightarrow> bool" where
  "IsString (SString _) = True"
| "IsString _ = False"

fun IsTable :: "script_value \<Rightarrow> bool" where
  "IsTable (STab _ _) = True"
| "IsTable (SUserData _) = True"
| "IsTable _ = False"

text \<open>A parameter that was not given is nil.\<close>

definition param :: "nat \<Rightarrow> script_value list \<Rightarrow> script_value" where
  "param i vs = (if i < length vs then vs ! i else SNil)"

fun from_lua :: "lua_value \<Rightarrow> script_value" where
  "from_lua (LuaNumber n) = SNumber n"
| "from_lua (LuaString s) = SString s"
| "from_lua (LuaTable vs) = STable (map SString vs)"
| "from_lua _ = SNil"

fun to_lua :: "script_value \<Rightarrow> lua_value" where
  "to_lua (SNumber n) = LuaNumber n"
| "to_lua (SString s) = LuaString s"
| "to_lua (STab _ _) = LuaTable []"
| "to_lua (SUserData _) = LuaTable []"
| "to_lua _ = LuaNil"

datatype script_error = NilIndexed | BadArgument | NilConcatenated | JsonError

text \<open>
  \<open>other_text\<close> is \<^verbatim>\<open>tostring\<close> of what is no text, no nil and no number below \<open>10 ^ 14\<close>, which is
  printed in full; \<open>error_text\<close> is the message of an error. The other values are the constants of
  the submodule: the event of a lost connection, the error codes, the types of servers.
\<close>

record script_env =
  json_decode :: "bytes \<Rightarrow> script_value option"
  json_encode :: "script_value \<Rightarrow> bytes"
  other_text :: "script_value \<Rightarrow> bytes"
  error_text :: "script_error \<Rightarrow> bytes"
  USER_DISCONNECT :: int
  SYSTEM_OK :: script_value
  PARAMTER_ERROR :: script_value
  EVENT_ID_ERROR :: script_value
  SERVER_TYPE_DEF :: "server_type \<Rightarrow> int"

definition tostring :: "'e script_env_scheme \<Rightarrow> script_value \<Rightarrow> bytes" where
  "tostring env v =
     (case v of
        SNil \<Rightarrow> ascii ''nil''
      | SString s \<Rightarrow> s
      | SNumber n \<Rightarrow>
          if \<bar>n\<bar> < 10 ^ 14 then (if n < 0 then 45 # fmt_nat (nat (- n)) else fmt_nat (nat n))
          else other_text env v
      | _ \<Rightarrow> other_text env v)"

section \<open>Functions of a script\<close>

type_synonym ('c, 'g, 'a) lua = "'g \<Rightarrow> 'c list \<times> (script_error + 'a) \<times> 'g"

definition lua_ret :: "'a \<Rightarrow> ('c, 'g, 'a) lua" where
  "lua_ret a g = ([], Inr a, g)"

definition lua_error :: "script_error \<Rightarrow> ('c, 'g, 'a) lua" where
  "lua_error e g = ([], Inl e, g)"

definition lua_bind :: "('c, 'g, 'a) lua \<Rightarrow> ('a \<Rightarrow> ('c, 'g, 'b) lua) \<Rightarrow> ('c, 'g, 'b) lua" where
  "lua_bind m f g =
     (case m g of (cs, out, g) \<Rightarrow>
        (case out of
           Inl e \<Rightarrow> (cs, Inl e, g)
         | Inr a \<Rightarrow> (case f a g of (cs', out, g) \<Rightarrow> (cs @ cs', out, g))))"

definition lua_get :: "('g \<Rightarrow> 'a) \<Rightarrow> ('c, 'g, 'a) lua" where
  "lua_get f g = ([], Inr (f g), g)"

definition lua_set :: "('g \<Rightarrow> 'g) \<Rightarrow> ('c, 'g, unit) lua" where
  "lua_set f g = ([], Inr (), f g)"

definition lua_do :: "'c \<Rightarrow> ('c, 'g, unit) lua" where
  "lua_do c g = ([c], Inr (), g)"

text \<open>\<^verbatim>\<open>xpcall\<close> with a handler that only prints; the result is its first value, the status.\<close>

definition lua_xpcall :: "('c, 'g, 'a) lua \<Rightarrow> ('c, 'g, bool) lua" where
  "lua_xpcall m g =
     (case m g of (cs, out, g) \<Rightarrow> (cs, Inr (case out of Inl _ \<Rightarrow> False | Inr _ \<Rightarrow> True), g))"

definition lua_run :: "'e script_env_scheme \<Rightarrow> ('c, 'g, script_value) lua \<Rightarrow> 'g \<Rightarrow> 'c list \<times> (lua_value + lua_value) \<times> 'g" where
  "lua_run env m g =
     (case m g of (cs, out, g) \<Rightarrow>
        (cs, case out of Inl e \<Rightarrow> Inl (LuaString (error_text env e)) | Inr v \<Rightarrow> Inr (to_lua v), g))"

named_theorems lua_exec \<open>evaluation of script functions on a state\<close>

lemma lua_basic [lua_exec]:
  "lua_ret a g = ([], Inr a, g)"
  "lua_error e g = ([], Inl e, g)"
  "lua_get f g = ([], Inr (f g), g)"
  "lua_set u g = ([], Inr (), u g)"
  "lua_do c g = ([c], Inr (), g)"
  by (simp_all add: lua_ret_def lua_error_def lua_get_def lua_set_def lua_do_def)

lemma lua_bind_basic [lua_exec]:
  "lua_bind (lua_ret a) k g = k a g"
  "lua_bind (lua_error e) k g = ([], Inl e, g)"
  "lua_bind (lua_get f) k g = k (f g) g"
  "lua_bind (lua_set u) k' g = k' () (u g)"
  "lua_bind (lua_do c) k' g = (case k' () g of (cs, out, g) \<Rightarrow> (c # cs, out, g))"
  by (simp_all add: lua_bind_def lua_basic split: prod.split)

text \<open>A function whose run is known.\<close>

lemma lua_bind_Inr: "m g = (cs, Inr a, g') \<Longrightarrow> lua_bind m k g = (case k a g' of (cs', out, g) \<Rightarrow> (cs @ cs', out, g))"
  by (simp add: lua_bind_def)

lemma lua_bind_Inl: "m g = (cs, Inl e, g') \<Longrightarrow> lua_bind m k g = (cs, Inl e, g')"
  by (simp add: lua_bind_def)

lemma lua_xpcall_run:
  "m g = (cs, out, g') \<Longrightarrow> lua_xpcall m g = (cs, Inr (case out of Inl _ \<Rightarrow> False | Inr _ \<Rightarrow> True), g')"
  by (simp add: lua_xpcall_def)

text \<open>A property that a function keeps, on every branch and also when it ends in an error.\<close>

definition lua_keeps :: "('g \<Rightarrow> bool) \<Rightarrow> ('c, 'g, 'a) lua \<Rightarrow> bool" where
  "lua_keeps I m \<longleftrightarrow> (\<forall>g cs out g'. I g \<longrightarrow> m g = (cs, out, g') \<longrightarrow> I g')"

named_theorems lua_keep \<open>functions keep properties\<close>

lemma lua_keeps_basic [lua_keep]:
  "lua_keeps I (lua_ret a)" "lua_keeps I (lua_error e)" "lua_keeps I (lua_get f)" "lua_keeps I (lua_do c)"
  "(\<And>g. I g \<Longrightarrow> I (u g)) \<Longrightarrow> lua_keeps I (lua_set u)"
  by (simp_all add: lua_keeps_def lua_basic)

lemma lua_keeps_bind [lua_keep]:
  assumes "lua_keeps I m" and "\<And>a. lua_keeps I (k a)"
  shows "lua_keeps I (lua_bind m k)"
  unfolding lua_keeps_def
proof (intro allI impI)
  fix g cs out g'
  assume I: "I g" and run: "lua_bind m k g = (cs, out, g')"
  obtain cs1 out1 g1 where m: "m g = (cs1, out1, g1)" by (rule prod_cases3)
  then have "I g1" using assms(1) I by (auto simp: lua_keeps_def)
  then show "I g'"
    using assms(2) run m
    by (cases out1) (auto simp: lua_keeps_def lua_bind_def split: prod.splits)
qed

text \<open>What is read is known to be a value of a state with the property.\<close>

lemma lua_keeps_bind_get:
  assumes "\<And>g. I g \<Longrightarrow> lua_keeps I (k (f g))"
  shows "lua_keeps I (lua_bind (lua_get f) k)"
  using assms unfolding lua_keeps_def lua_bind_basic by blast

lemma lua_keeps_xpcall [lua_keep]: "lua_keeps I m \<Longrightarrow> lua_keeps I (lua_xpcall m)"
  by (fastforce simp: lua_keeps_def lua_xpcall_def split: prod.splits)

lemma lua_keeps_run: "lua_keeps I m \<Longrightarrow> I g \<Longrightarrow> lua_run env m g = (cs, out, g') \<Longrightarrow> I g'"
  by (fastforce simp: lua_keeps_def lua_run_def split: prod.splits)

section \<open>Events\<close>

text \<open>
  The objects \<open>G_EventManager\<close> and \<open>G_NetManager\<close>. A callback is the name of a method, of type \<open>'h\<close>.
  The pending requests of a connection are pairs of a sequence number and the parameter.
\<close>

record 'h script_globals =
  m_tbRegisterEvent :: "int \<rightharpoonup> 'h"
  m_tbUserHanderIdMap :: "bytes \<rightharpoonup> int"
  m_tbHanderIdUserMap :: "bytes \<rightharpoonup> script_value"
  m_tbRequestSquence :: "bytes \<rightharpoonup> (int \<times> script_value) list"
  m_nCurrentHandlerId :: script_value

definition Register :: "int option \<Rightarrow> 'h \<Rightarrow> ('h, 'z) script_globals_scheme \<Rightarrow> ('h, 'z) script_globals_scheme" where
  "Register strEventType callback g =
     (case strEventType of
        None \<Rightarrow> g
      | Some e \<Rightarrow>
          if m_tbRegisterEvent g e \<noteq> None then g
          else g\<lparr>m_tbRegisterEvent := (m_tbRegisterEvent g)(e \<mapsto> callback)\<rparr>)"

definition unpack :: "script_value \<Rightarrow> ('c, 'g, script_value list) lua" where
  "unpack v =
     (case v of
        STab vs _ \<Rightarrow> lua_ret vs
      | SUserData _ \<Rightarrow> lua_ret []
      | _ \<Rightarrow> lua_error BadArgument)"

definition DispatcherEvent ::
  "'e script_env_scheme \<Rightarrow> ('h \<Rightarrow> script_value list \<Rightarrow> ('c, ('h, 'z) script_globals_scheme, script_value list) lua) \<Rightarrow> int \<Rightarrow> script_value
     \<Rightarrow> ('c, ('h, 'z) script_globals_scheme, script_value list) lua" where
  "DispatcherEvent env callback nEventId tbParam =
     lua_bind (lua_get m_tbRegisterEvent) (\<lambda>tb.
     case tb nEventId of
       None \<Rightarrow> lua_ret [EVENT_ID_ERROR env]
     | Some tbEvent \<Rightarrow> lua_bind (unpack tbParam) (callback tbEvent))"

definition PostEvent ::
  "('h \<Rightarrow> script_value list \<Rightarrow> ('c, ('h, 'z) script_globals_scheme, script_value list) lua) \<Rightarrow> int \<Rightarrow> script_value
     \<Rightarrow> ('c, ('h, 'z) script_globals_scheme, script_value list) lua" where
  "PostEvent callback nEventId tbParam =
     lua_bind (lua_get m_tbRegisterEvent) (\<lambda>tb.
     case tb nEventId of
       None \<Rightarrow> lua_ret []
     | Some tbEvent \<Rightarrow> callback tbEvent [tbParam])"

text \<open>\<^verbatim>\<open>{f(...)}\<close> followed by \<^verbatim>\<open>table.remove(tbRet, 1)\<close>.\<close>

definition first_result :: "script_value list \<Rightarrow> script_value \<times> script_value" where
  "first_result vs = (param 0 vs, STable (tl vs))"

section \<open>Sessions\<close>

definition NetManager_GetHandlerId :: "'e script_env_scheme \<Rightarrow> script_value \<Rightarrow> ('h, 'z) script_globals_scheme \<Rightarrow> int option" where
  "NetManager_GetHandlerId env nUserId g = m_tbUserHanderIdMap g (tostring env nUserId)"

definition NetManager_GetUserId :: "'e script_env_scheme \<Rightarrow> int \<Rightarrow> ('h, 'z) script_globals_scheme \<Rightarrow> script_value" where
  "NetManager_GetUserId env nHandlerId g =
     (case m_tbHanderIdUserMap g (tostring env (SNumber nHandlerId)) of None \<Rightarrow> SNil | Some v \<Rightarrow> v)"

definition NetManager_SetHandlerId :: "'e script_env_scheme \<Rightarrow> script_value \<Rightarrow> int \<Rightarrow> ('h, 'z) script_globals_scheme \<Rightarrow> ('h, 'z) script_globals_scheme" where
  "NetManager_SetHandlerId env nUserId nHandlerId g =
     (if nHandlerId > 0 then g\<lparr>m_tbUserHanderIdMap := (m_tbUserHanderIdMap g)(tostring env nUserId \<mapsto> nHandlerId)\<rparr> else g)"

text \<open>Assigning nil removes the entry.\<close>

definition NetManager_SetUserId :: "'e script_env_scheme \<Rightarrow> int \<Rightarrow> script_value \<Rightarrow> ('h, 'z) script_globals_scheme \<Rightarrow> ('h, 'z) script_globals_scheme" where
  "NetManager_SetUserId env nHandlerId nUserId g =
     (if nHandlerId > 0
      then g\<lparr>m_tbHanderIdUserMap := (m_tbHanderIdUserMap g)
               (tostring env (SNumber nHandlerId) := if nUserId = SNil then None else Some nUserId)\<rparr>
      else g)"

definition ReleaseUserId :: "'e script_env_scheme \<Rightarrow> int \<Rightarrow> ('h, 'z) script_globals_scheme \<Rightarrow> ('h, 'z) script_globals_scheme" where
  "ReleaseUserId env nHandlerId = NetManager_SetUserId env nHandlerId SNil"

definition ReleaseHandler :: "'e script_env_scheme \<Rightarrow> script_value \<Rightarrow> ('h, 'z) script_globals_scheme \<Rightarrow> ('h, 'z) script_globals_scheme" where
  "ReleaseHandler env nUserId g =
     (case NetManager_GetHandlerId env nUserId g of
        None \<Rightarrow> g
      | Some _ \<Rightarrow> g\<lparr>m_tbUserHanderIdMap := (m_tbUserHanderIdMap g)(tostring env nUserId := None)\<rparr>)"

definition ExistOldHanlder :: "'e script_env_scheme \<Rightarrow> script_value \<Rightarrow> ('h, 'z) script_globals_scheme \<Rightarrow> bool" where
  "ExistOldHanlder env nUserId g \<longleftrightarrow> NetManager_GetHandlerId env nUserId g \<noteq> None"

definition UserIsOnline :: "'e script_env_scheme \<Rightarrow> script_value \<Rightarrow> ('h, 'z) script_globals_scheme \<Rightarrow> bool" where
  "UserIsOnline env nUserId g \<longleftrightarrow> NetManager_GetHandlerId env nUserId g \<noteq> None"

definition UpdateHandlerIdAndUserId ::
  "'e script_env_scheme \<Rightarrow> script_value \<Rightarrow> int \<Rightarrow> ('h, 'z) script_globals_scheme \<Rightarrow> ('h, 'z) script_globals_scheme" where
  "UpdateHandlerIdAndUserId env nUserId nHandlerId g =
     (let nTempHandlerId = (if ExistOldHanlder env nUserId g then NetManager_GetHandlerId env nUserId g else None);
          g = (if ExistOldHanlder env nUserId g then ReleaseHandler env nUserId g else g);
          g = (case nTempHandlerId of
                 None \<Rightarrow> g
               | Some h \<Rightarrow> if h \<noteq> nHandlerId then ReleaseUserId env h g else g) in
      NetManager_SetUserId env nHandlerId nUserId (NetManager_SetHandlerId env nUserId nHandlerId g))"

definition SetCurrentHandlerId :: "script_value \<Rightarrow> ('h, 'z) script_globals_scheme \<Rightarrow> ('h, 'z) script_globals_scheme" where
  "SetCurrentHandlerId nHandlerId g = g\<lparr>m_nCurrentHandlerId := nHandlerId\<rparr>"

text \<open>\<open>release\<close> is \<^verbatim>\<open>G_UserManager:ReleaseUserObject\<close>.\<close>

definition OnUserDisconnect ::
  "'e script_env_scheme \<Rightarrow> (script_value \<Rightarrow> ('c, ('h, 'z) script_globals_scheme, unit) lua) \<Rightarrow> script_value
     \<Rightarrow> ('c, ('h, 'z) script_globals_scheme, script_value list) lua" where
  "OnUserDisconnect env release nHandlerId =
     (case nHandlerId of
        SNumber h \<Rightarrow>
          lua_bind (lua_get (NetManager_GetUserId env h)) (\<lambda>nUserId.
          if \<not> IsNumber nUserId then lua_ret [SNumber 0]
          else
            lua_bind (lua_set (ReleaseUserId env h)) (\<lambda>_.
            lua_bind (lua_set (ReleaseHandler env nUserId)) (\<lambda>_.
            lua_bind (release nUserId) (\<lambda>_. lua_ret [SNumber 0]))))
      | _ \<Rightarrow> lua_ret [SNumber 0])"

section \<open>Pending requests\<close>

definition PushRequestToSquence ::
  "'e script_env_scheme \<Rightarrow> script_value \<Rightarrow> int \<Rightarrow> script_value \<Rightarrow> ('h, 'z) script_globals_scheme \<Rightarrow> ('h, 'z) script_globals_scheme" where
  "PushRequestToSquence env nHandlerId nSequenceId tbParam g =
     (let key = tostring env nHandlerId;
          q = (case m_tbRequestSquence g key of None \<Rightarrow> [] | Some q \<Rightarrow> q) in
      g\<lparr>m_tbRequestSquence := (m_tbRequestSquence g)(key \<mapsto> q @ [(nSequenceId, tbParam)])\<rparr>)"

text \<open>\<^verbatim>\<open>table.remove\<close> of nil is an error, and so is the field of the request when there is none.\<close>

definition PopRequestFromSquence ::
  "'e script_env_scheme \<Rightarrow> script_value \<Rightarrow> ('c, ('h, 'z) script_globals_scheme, int option) lua" where
  "PopRequestFromSquence env nHandlerId =
     (if \<not> truthy nHandlerId then lua_ret None
      else
        let key = tostring env nHandlerId in
        lua_bind (lua_get m_tbRequestSquence) (\<lambda>tb.
        case tb key of
          None \<Rightarrow> lua_error BadArgument
        | Some q \<Rightarrow>
            lua_bind (lua_set (\<lambda>g. g\<lparr>m_tbRequestSquence := (m_tbRequestSquence g)
                (key := if tl q = [] then None else Some (tl q))\<rparr>)) (\<lambda>_.
            case q of
              [] \<Rightarrow> lua_error NilIndexed
            | r # _ \<Rightarrow> lua_ret (Some (fst r)))))"

definition GetSquenceIdFromSquence :: "'e script_env_scheme \<Rightarrow> script_value \<Rightarrow> ('h, 'z) script_globals_scheme \<Rightarrow> int" where
  "GetSquenceIdFromSquence env nHandlerId g =
     (if \<not> truthy nHandlerId then 0
      else case m_tbRequestSquence g (tostring env nHandlerId) of
        None \<Rightarrow> 0
      | Some [] \<Rightarrow> 0
      | Some (r # _) \<Rightarrow> fst r)"

section \<open>Sending\<close>

text \<open>What the senders do with their text: a table is encoded, nothing becomes the empty text.\<close>

definition ret_text :: "'e script_env_scheme \<Rightarrow> script_value \<Rightarrow> script_value" where
  "ret_text env v =
     (if \<not> truthy v then SString []
      else if \<not> IsString v then SString (json_encode env v) else v)"

definition NetManager_SendToServer ::
  "'e script_env_scheme \<Rightarrow> (cnet_call \<Rightarrow> 'c) \<Rightarrow> script_value \<Rightarrow> script_value \<Rightarrow> script_value \<Rightarrow> script_value \<Rightarrow> script_value \<Rightarrow> script_value
     \<Rightarrow> ('c, 'g, unit) lua" where
  "NetManager_SendToServer env net nServerType nSequenceId nEventType nErrorCode nHandlerId strRetParam =
     (case nServerType of
        SNumber t \<Rightarrow>
          if t < SERVER_TYPE_DEF env CENTER \<or> t > SERVER_TYPE_DEF env GATEWAY then lua_ret ()
          else
            lua_do (net (SendToServer (map to_lua [nServerType, nSequenceId, nEventType, nErrorCode, nHandlerId,
              if truthy strRetParam then strRetParam else SString []])))
      | _ \<Rightarrow> lua_ret ())"

definition SendToGateway ::
  "'e script_env_scheme \<Rightarrow> (cnet_call \<Rightarrow> 'c) \<Rightarrow> script_value \<Rightarrow> script_value \<Rightarrow> script_value \<Rightarrow> script_value \<Rightarrow> script_value
     \<Rightarrow> ('c, ('h, 'z) script_globals_scheme, unit) lua" where
  "SendToGateway env net nSequenceId nEventType nErrorCode nHandlerId strRetParam =
     (let strRetParam = ret_text env strRetParam in
      lua_bind (PopRequestFromSquence env nHandlerId) (\<lambda>_.
      NetManager_SendToServer env net (SNumber (SERVER_TYPE_DEF env GATEWAY)) nSequenceId nEventType nErrorCode nHandlerId strRetParam))"

definition SendToRoomServerFromLogic ::
  "'e script_env_scheme \<Rightarrow> (cnet_call \<Rightarrow> 'c) \<Rightarrow> script_value \<Rightarrow> script_value \<Rightarrow> script_value \<Rightarrow> script_value \<Rightarrow> script_value
     \<Rightarrow> ('c, ('h, 'z) script_globals_scheme, unit) lua" where
  "SendToRoomServerFromLogic env net nSequenceId nEventType nErrorCode nHandlerId strRetParam =
     (let strRetParam = ret_text env strRetParam in
      lua_bind (PopRequestFromSquence env nHandlerId) (\<lambda>_.
      NetManager_SendToServer env net (SNumber (SERVER_TYPE_DEF env ROOM)) nSequenceId nEventType nErrorCode nHandlerId strRetParam))"

definition NetManager_SendToLogicServer ::
  "'e script_env_scheme \<Rightarrow> (cnet_call \<Rightarrow> 'c) \<Rightarrow> script_value \<Rightarrow> script_value \<Rightarrow> script_value \<Rightarrow> script_value \<Rightarrow> script_value
     \<Rightarrow> ('c, ('h, 'z) script_globals_scheme, unit) lua" where
  "NetManager_SendToLogicServer env net nSequenceId nEventType nErrorCode nHandlerId strRetParam =
     (let strRetParam = ret_text env strRetParam in
      lua_bind (PopRequestFromSquence env nHandlerId) (\<lambda>_.
      lua_do (net (SendToLogicServer (map to_lua [nSequenceId, nEventType, nErrorCode, nHandlerId, strRetParam])))))"

definition NetManager_SetServerTypeToHandlerId ::
  "(cnet_call \<Rightarrow> 'c) \<Rightarrow> script_value \<Rightarrow> script_value \<Rightarrow> ('c, 'g, unit) lua" where
  "NetManager_SetServerTypeToHandlerId net nServerType nHandlerId =
     (if \<not> IsNumber nServerType \<or> \<not> IsNumber nHandlerId then lua_ret ()
      else lua_do (net (SetServerTypeToHandlerId (map to_lua [nServerType, nHandlerId]))))"

definition SendNoticeToUser ::
  "'e script_env_scheme \<Rightarrow> (cnet_call \<Rightarrow> 'c) \<Rightarrow> script_value \<Rightarrow> script_value \<Rightarrow> script_value \<Rightarrow> script_value
     \<Rightarrow> ('c, ('h, 'z) script_globals_scheme, unit) lua" where
  "SendNoticeToUser env net nEventType nErrorCode nUserId strRetParam =
     lua_bind (lua_get (NetManager_GetHandlerId env nUserId)) (\<lambda>nHandlerId.
     case nHandlerId of
       None \<Rightarrow> lua_ret ()
     | Some h \<Rightarrow>
         NetManager_SendToServer env net (SNumber (SERVER_TYPE_DEF env GATEWAY)) (SNumber 0) nEventType nErrorCode
           (SNumber h) (ret_text env strRetParam))"

section \<open>Entry points\<close>

text \<open>An operand of \<^verbatim>\<open>..\<close> is a text or a number.\<close>

definition concat_text :: "'e script_env_scheme \<Rightarrow> script_value \<Rightarrow> ('c, 'g, bytes) lua" where
  "concat_text env v = (if IsString v \<or> IsNumber v then lua_ret (tostring env v) else lua_error NilConcatenated)"

definition decode_text :: "'e script_env_scheme \<Rightarrow> bytes \<Rightarrow> ('c, 'g, script_value) lua" where
  "decode_text env s = (case json_decode env s of None \<Rightarrow> lua_error JsonError | Some v \<Rightarrow> lua_ret v)"

text \<open>
  \<open>ClientRequest\<close> is the function that each server defines for itself. The function that is passed
  to \<^verbatim>\<open>xpcall\<close> is a definition of its own.
\<close>

definition OnClientRequest_body ::
  "'e script_env_scheme \<Rightarrow> (int \<Rightarrow> int \<Rightarrow> int \<Rightarrow> script_value \<Rightarrow> ('c, ('h, 'z) script_globals_scheme, unit) lua)
     \<Rightarrow> script_value \<Rightarrow> script_value \<Rightarrow> script_value \<Rightarrow> script_value \<Rightarrow> ('c, ('h, 'z) script_globals_scheme, unit) lua" where
  "OnClientRequest_body env ClientRequest nHandlerId nEventId nSequenceId strJson =
     lua_bind (concat_text env strJson) (\<lambda>s.
     case (nHandlerId, nEventId, nSequenceId) of
       (SNumber h, SNumber ev, SNumber q) \<Rightarrow>
         lua_bind (decode_text env s) (\<lambda>tbParam.
         if \<not> IsTable tbParam then lua_ret ()
         else
           lua_bind (lua_set (PushRequestToSquence env nHandlerId q tbParam)) (\<lambda>_.
           ClientRequest h ev q tbParam))
     | _ \<Rightarrow> lua_ret ())"

definition OnClientRequest ::
  "'e script_env_scheme \<Rightarrow> (int \<Rightarrow> int \<Rightarrow> int \<Rightarrow> script_value \<Rightarrow> ('c, ('h, 'z) script_globals_scheme, unit) lua)
     \<Rightarrow> script_value \<Rightarrow> script_value \<Rightarrow> script_value \<Rightarrow> script_value \<Rightarrow> ('c, ('h, 'z) script_globals_scheme, script_value) lua" where
  "OnClientRequest env ClientRequest nHandlerId nEventId nSequenceId strJson =
     lua_bind (lua_xpcall (OnClientRequest_body env ClientRequest nHandlerId nEventId nSequenceId strJson)) (\<lambda>bRet.
     if \<not> bRet then lua_bind (PopRequestFromSquence env nHandlerId) (\<lambda>_. lua_ret SNil)
     else lua_ret SNil)"

definition CenterRequest ::
  "'e script_env_scheme \<Rightarrow> ('h \<Rightarrow> script_value list \<Rightarrow> ('c, ('h, 'z) script_globals_scheme, script_value list) lua)
     \<Rightarrow> int \<Rightarrow> int \<Rightarrow> script_value \<Rightarrow> ('c, ('h, 'z) script_globals_scheme, unit) lua" where
  "CenterRequest env callback nHandlerId nEventId tbParam =
     (if \<not> IsTable tbParam then lua_ret ()
      else
        lua_bind (DispatcherEvent env callback nEventId tbParam) (\<lambda>tbRet.
        lua_bind (PopRequestFromSquence env (SNumber nHandlerId)) (\<lambda>_. lua_ret ())))"

definition OnCenterRequest_body ::
  "'e script_env_scheme \<Rightarrow> ('h \<Rightarrow> script_value list \<Rightarrow> ('c, ('h, 'z) script_globals_scheme, script_value list) lua)
     \<Rightarrow> script_value \<Rightarrow> script_value \<Rightarrow> script_value \<Rightarrow> script_value \<Rightarrow> ('c, ('h, 'z) script_globals_scheme, unit) lua" where
  "OnCenterRequest_body env callback nHandlerId nEventId nSequenceId strJson =
     lua_bind (concat_text env strJson) (\<lambda>s.
     case (nHandlerId, nEventId, nSequenceId) of
       (SNumber h, SNumber ev, SNumber q) \<Rightarrow>
         lua_bind (decode_text env s) (\<lambda>tbParam.
         lua_bind (lua_set (PushRequestToSquence env nHandlerId q tbParam)) (\<lambda>_.
         CenterRequest env callback h ev tbParam))
     | _ \<Rightarrow> lua_ret ())"

definition OnCenterRequest ::
  "'e script_env_scheme \<Rightarrow> ('h \<Rightarrow> script_value list \<Rightarrow> ('c, ('h, 'z) script_globals_scheme, script_value list) lua)
     \<Rightarrow> script_value \<Rightarrow> script_value \<Rightarrow> script_value \<Rightarrow> script_value \<Rightarrow> ('c, ('h, 'z) script_globals_scheme, script_value) lua" where
  "OnCenterRequest env callback nHandlerId nEventId nSequenceId strJson =
     lua_bind (lua_xpcall (OnCenterRequest_body env callback nHandlerId nEventId nSequenceId strJson)) (\<lambda>bRet.
     if \<not> bRet then lua_bind (PopRequestFromSquence env nHandlerId) (\<lambda>_. lua_ret SNil)
     else lua_ret SNil)"

section \<open>The queue of a connection\<close>

lemma pop_only:
  assumes "m_tbRequestSquence g = [tostring env (SNumber h) \<mapsto> [r]]"
  shows "PopRequestFromSquence env (SNumber h) g = ([], Inr (Some (fst r)), g\<lparr>m_tbRequestSquence := Map.empty\<rparr>)"
  using assms by (simp add: PopRequestFromSquence_def truthy_def Let_def lua_exec)

lemma pop_none:
  assumes "m_tbRequestSquence g (tostring env (SNumber h)) = None"
  shows "PopRequestFromSquence env (SNumber h) g = ([], Inl BadArgument, g)"
  using assms by (simp add: PopRequestFromSquence_def truthy_def Let_def lua_exec)

lemma push_first:
  assumes "m_tbRequestSquence g = Map.empty"
  shows "PushRequestToSquence env h q v g = g\<lparr>m_tbRequestSquence := [tostring env h \<mapsto> [(q, v)]]\<rparr>"
  using assms by (simp add: PushRequestToSquence_def Let_def)

text \<open>
  A text that is not JSON. The error is caught, but nothing was pushed yet, so the handling of the
  error takes the request from a queue that is not there, and this error is not caught.
\<close>

lemma OnClientRequest_bad:
  assumes "json_decode env s = None" and "m_tbRequestSquence g (tostring env (SNumber h)) = None"
  shows "OnClientRequest env request (SNumber h) (SNumber ev) (SNumber q) (SString s) g = ([], Inl BadArgument, g)"
  using assms(1)
  by (simp add: pop_none [OF assms(2)] OnClientRequest_def OnClientRequest_body_def lua_bind_def lua_basic lua_xpcall_def
      concat_text_def decode_text_def tostring_def)

lemma OnClientRequest_ok:
  assumes "json_decode env s = Some (STab vs fs)"
    and "request h ev q (STab vs fs) (PushRequestToSquence env (SNumber h) q (STab vs fs) g) = (cs, Inr (), g')"
  shows "OnClientRequest env request (SNumber h) (SNumber ev) (SNumber q) (SString s) g = (cs, Inr SNil, g')"
  using assms
  by (simp add: OnClientRequest_def OnClientRequest_body_def lua_bind_def lua_basic lua_xpcall_def concat_text_def
      decode_text_def tostring_def)

section \<open>Texts of numbers\<close>

lemma fmt_nat_eq: "fmt_nat m = fmt_nat n \<longleftrightarrow> m = n"
proof (induction m arbitrary: n rule: fmt_nat.induct)
  case (1 m)
  have digit: "(word_of_nat (48 + i) :: byte) = word_of_nat (48 + j) \<longleftrightarrow> i = j" if "i < 10" "j < 10" for i j :: nat
    using that by (simp add: word_unat_eq_iff unat_of_nat del: of_nat_add)
  have ne: "fmt_nat k \<noteq> []" "[] \<noteq> fmt_nat k" for k
    using length_fmt_nat_pos [of k] by auto
  show ?case
  proof (cases "m < 10"; cases "n < 10")
    assume "m < 10" "n < 10"
    then show ?thesis using digit [of m n] by (simp add: fmt_nat.simps [of m] fmt_nat.simps [of n] del: of_nat_add)
  next
    assume *: "\<not> m < 10" "\<not> n < 10"
    have "fmt_nat m = fmt_nat n \<longleftrightarrow> fmt_nat (m div 10) = fmt_nat (n div 10) \<and> m mod 10 = n mod 10"
      using * digit [of "m mod 10" "n mod 10"] by (simp add: fmt_nat.simps [of m] fmt_nat.simps [of n] del: of_nat_add)
    also have "\<dots> \<longleftrightarrow> m = n"
      unfolding "1.IH" [OF *(1)] by (metis div_mult_mod_eq)
    finally show ?thesis .
  qed (use ne in \<open>auto simp: fmt_nat.simps [of m] fmt_nat.simps [of n] simp del: of_nat_add\<close>)
qed

lemma tostring_number: "0 \<le> n \<Longrightarrow> n < 10 ^ 14 \<Longrightarrow> tostring env (SNumber n) = fmt_nat (nat n)"
  by (simp add: tostring_def)

lemma tostring_id: "tostring env (SNumber (int (unat (h :: u32)))) = fmt_nat (unat h)"
proof -
  have "int (unat h) < 10 ^ 14" using zless_nat_conj uint_lt2p [of h] by simp
  from tostring_number [OF _ this, of env] show ?thesis by (simp only: nat_int of_nat_0_le_iff)
qed

text \<open>What \<open>%.14g\<close> prints for a number from \<open>10 ^ 14\<close> on is never digits alone.\<close>

definition number_texts :: "'e script_env_scheme \<Rightarrow> bool" where
  "number_texts env \<longleftrightarrow> (\<forall>n k. 10 ^ 14 \<le> \<bar>n\<bar> \<longrightarrow> other_text env (SNumber n) \<noteq> fmt_nat k)"

lemma fmt_nat_digits: "b \<in> set (fmt_nat n) \<Longrightarrow> b \<noteq> 45"
proof (induction n rule: fmt_nat.induct)
  case (1 n)
  have "(word_of_nat (48 + k) :: byte) \<noteq> 45" if "k < 10" for k :: nat
    using that by (simp add: word_unat_eq_iff unat_of_nat del: of_nat_add)
  then show ?case
    using 1 by (cases "n < 10") (auto simp: fmt_nat.simps [of n] simp del: of_nat_add)
qed

lemma tostring_number_eq:
  assumes "number_texts env" and "0 \<le> h" and "h < 10 ^ 14"
  shows "tostring env (SNumber n) = tostring env (SNumber h) \<longleftrightarrow> n = h"
proof -
  have "(45 :: byte) # ds \<noteq> fmt_nat k" for ds k
    using fmt_nat_digits [of 45 k] by (metis list.set_intros(1))
  then show ?thesis
    using assms by (auto simp: tostring_def number_texts_def fmt_nat_eq)
qed

section \<open>The Lua library\<close>

text \<open>
  What the theorems need of \<^verbatim>\<open>lua_tonumber\<close> and \<^verbatim>\<open>lua_tostring\<close>: numbers that fit the width of the
  variables and texts are read as they are.
\<close>

definition lua_reads :: "lua_value lua_api \<Rightarrow> bool" where
  "lua_reads lua \<longleftrightarrow> (\<forall>n. 0 \<le> n \<and> n < 2 ^ 32 \<longrightarrow> lua_tonumber lua (LuaNumber n) = word_of_int n)
     \<and> (\<forall>str. lua_tostring lua (LuaString str) = Some str)"

lemma lua_reads_number:
  "lua_reads lua \<Longrightarrow> lua_tonumber lua (LuaNumber (uint (i :: u32))) = i"
  "lua_reads lua \<Longrightarrow> 0 \<le> n \<Longrightarrow> n < 2 ^ 32 \<Longrightarrow> lua_tonumber lua (LuaNumber n) = word_of_int n"
  "lua_reads lua \<Longrightarrow> lua_tostring lua (LuaString str) = Some str"
  using uint_lt2p [of i] by (simp_all add: lua_reads_def)

end
