(* ===== verification/LogicScript.thy ===== *)
theory LogicScript
  imports System LuaScript
begin

text \<open>
  The scripts of the logic process around its game modules: the pending asynchronous requests
  (\<^verbatim>\<open>script/manager/async_manager.lua\<close>), the interface to redis (\<^verbatim>\<open>script/manager/redis_manager.lua\<close>), the
  pool of users (\<^verbatim>\<open>script/manager/user_manager.lua\<close>) and the handling of requests and responses
  (\<^verbatim>\<open>script/module/logic_protocol.lua\<close>). The game modules and the class of the users, which is in the
  submodule, are arguments.
\<close>

section \<open>State\<close>

text \<open>The methods that are registered for events: the one for a lost connection, and those of the modules.\<close>

datatype 'h logic_handler = DisconnectMethod | GameMethod 'h

record 'h logic_lua = "'h logic_handler script_globals" +
  m_tbSquence :: "bytes \<rightharpoonup> script_value"
  m_tbSquenceIdToTableName :: "int \<rightharpoonup> bytes"
  m_nSquenceId :: int
  m_tbUserDataPool :: "bytes \<rightharpoonup> nat"
  m_objCurrentUser :: "nat option"

type_synonym ('h, 'z, 'a) logic_fun = "(logic_call, ('h, 'z) logic_lua_scheme, 'a) lua"

text \<open>Constants of the submodule: events, error codes, and names of tables and fields.\<close>

record logic_consts = script_env +
  ENTER_GAME :: int
  LOGIC_GET_GAME_DATA :: int
  GET_USER_GLOBAL_ID :: int
  ASYN_EVENT :: script_value
  LOGIC_TO_ROOM_SERVER :: script_value
  USER_DATA_NIL :: script_value
  USER_NO_REGISTER :: script_value
  ASYNC_EVENT_MAP_TO_SOURCE_EVENT :: "int \<rightharpoonup> int"
  GAME_DATA :: bytes
  BASE_INFO :: bytes
  USER_ID :: bytes

text \<open>What is not in the tree, or belongs to the game: the modules, the class of the users, the configuration.\<close>

record ('h, 'z) logic_modules =
  game_method :: "'h \<Rightarrow> script_value list \<Rightarrow> ('h, 'z, script_value list) logic_fun"
  UserData_new :: "script_value \<Rightarrow> ('h, 'z, nat) logic_fun"
  UserData_GetUserId :: "nat \<Rightarrow> ('h, 'z) logic_lua_scheme \<Rightarrow> script_value"
  UserData_GetGameData :: "nat \<Rightarrow> ('h, 'z) logic_lua_scheme \<Rightarrow> script_value"
  UserData_IsDirty :: "nat \<Rightarrow> ('h, 'z) logic_lua_scheme \<Rightarrow> bool"
  UserData_SetDirty :: "nat \<Rightarrow> bool \<Rightarrow> ('h, 'z, unit) logic_fun"
  GetGameList :: "('h, 'z) logic_lua_scheme \<Rightarrow> script_value"
  SetUserGlobalId :: "script_value \<Rightarrow> bool \<Rightarrow> ('h, 'z, unit) logic_fun"
  Timer_update :: "script_value \<Rightarrow> ('h, 'z, unit) logic_fun"

section \<open>Asynchronous requests\<close>

definition IncrementSquenceId :: "('h, 'z) logic_lua_scheme \<Rightarrow> ('h, 'z) logic_lua_scheme" where
  "IncrementSquenceId g =
     (let nTempId = (m_nSquenceId g + 1) mod 10000000 in
      g\<lparr>m_nSquenceId := if nTempId = 0 then 1 else nTempId\<rparr>)"

definition SetSquenceIdToTableName :: "int \<Rightarrow> bytes \<Rightarrow> ('h, 'z) logic_lua_scheme \<Rightarrow> ('h, 'z) logic_lua_scheme" where
  "SetSquenceIdToTableName nSquenceId strTableName g =
     g\<lparr>m_tbSquenceIdToTableName := (m_tbSquenceIdToTableName g)(nSquenceId \<mapsto> strTableName)\<rparr>"

definition SetSquenceIdToTableNameNil :: "script_value \<Rightarrow> ('h, 'z) logic_lua_scheme \<Rightarrow> ('h, 'z) logic_lua_scheme" where
  "SetSquenceIdToTableNameNil nSquenceId g =
     (case nSquenceId of
        SNumber n \<Rightarrow> g\<lparr>m_tbSquenceIdToTableName := (m_tbSquenceIdToTableName g)(n := None)\<rparr>
      | _ \<Rightarrow> g)"

definition AsyncManager_Push :: "'e script_env_scheme \<Rightarrow> script_value \<Rightarrow> ('h, 'z, int) logic_fun" where
  "AsyncManager_Push env tbParameters =
     lua_bind (lua_get m_nSquenceId) (\<lambda>nSquenceId.
     lua_bind (lua_set (\<lambda>g. IncrementSquenceId (g\<lparr>m_tbSquence := (m_tbSquence g)
       (tostring env (SNumber nSquenceId) \<mapsto> if truthy tbParameters then tbParameters else STable [])\<rparr>))) (\<lambda>_.
     lua_ret nSquenceId))"

definition SetParameter :: "'e script_env_scheme \<Rightarrow> script_value \<Rightarrow> bytes \<Rightarrow> ('h, 'z, int) logic_fun" where
  "SetParameter env tbParameters strTableName =
     lua_bind (AsyncManager_Push env tbParameters) (\<lambda>nSquenceId.
     lua_bind (lua_set (SetSquenceIdToTableName nSquenceId strTableName)) (\<lambda>_. lua_ret nSquenceId))"

definition AsyncManager_Pop :: "'e script_env_scheme \<Rightarrow> script_value \<Rightarrow> ('h, 'z, script_value) logic_fun" where
  "AsyncManager_Pop env nSquenceId =
     (if \<not> IsNumber nSquenceId then lua_ret SNil
      else
        let key = tostring env nSquenceId in
        lua_bind (lua_get m_tbSquence) (\<lambda>tb.
        lua_bind (lua_set (\<lambda>g. g\<lparr>m_tbSquence := (m_tbSquence g)(key := None)\<rparr>)) (\<lambda>_.
        lua_ret (case tb key of None \<Rightarrow> SNil | Some v \<Rightarrow> v))))"

section \<open>The interface to redis\<close>

text \<open>\<open>strTableName\<close> is the name the object was made with. Keys and values become texts.\<close>

definition redis_text :: "'e script_env_scheme \<Rightarrow> script_value \<Rightarrow> script_value" where
  "redis_text env v =
     (if IsNumber v then SString (tostring env v)
      else if IsTable v then SString (json_encode env v) else v)"

definition RedisInterface_GetValue ::
  "'e script_env_scheme \<Rightarrow> bytes \<Rightarrow> script_value \<Rightarrow> int \<Rightarrow> script_value \<Rightarrow> script_value \<Rightarrow> ('h, 'z, unit) logic_fun" where
  "RedisInterface_GetValue env strTableName nUserId nEventType strKey tbParameters =
     (let strKey = redis_text env strKey in
      lua_bind (SetParameter env tbParameters strTableName) (\<lambda>nAsyncSquenceId.
      lua_do (CRedis_PushRedisGet (map to_lua
        [SNumber nAsyncSquenceId, nUserId, SNumber nEventType, SString strTableName, strKey]))))"

text \<open>The keys, none of them nil, are separated by spaces.\<close>

fun mget_keys :: "'e script_env_scheme \<Rightarrow> bytes \<Rightarrow> script_value list \<Rightarrow> bytes" where
  "mget_keys env strTableName [] = []"
| "mget_keys env strTableName [k] = strTableName @ [95] @ tostring env k"
| "mget_keys env strTableName (k # ks) = strTableName @ [95] @ tostring env k @ [32] @ mget_keys env strTableName ks"

definition RedisInterface_MGetValue ::
  "'e script_env_scheme \<Rightarrow> bytes \<Rightarrow> script_value \<Rightarrow> int \<Rightarrow> script_value list \<Rightarrow> script_value \<Rightarrow> ('h, 'z, unit) logic_fun" where
  "RedisInterface_MGetValue env strTableName nUserId nEventType tbKeys tbParameters =
     (if tbKeys = [] then lua_ret ()
      else
        lua_bind (SetParameter env tbParameters strTableName) (\<lambda>nAsyncSquenceId.
        lua_do (CRedis_PushRedisGets (map to_lua
          [SNumber nAsyncSquenceId, nUserId, SNumber nEventType, SString (mget_keys env strTableName tbKeys)]))))"

definition RedisInterface_SetValue ::
  "'e script_env_scheme \<Rightarrow> bytes \<Rightarrow> script_value \<Rightarrow> int \<Rightarrow> script_value \<Rightarrow> script_value \<Rightarrow> ('h, 'z, unit) logic_fun" where
  "RedisInterface_SetValue env strTableName nUserId nEventType strKey strValue =
     (let strValue = redis_text env strValue in
      lua_bind (SetParameter env SNil strTableName) (\<lambda>nAsyncSquenceId.
      lua_do (CRedis_PushRedisSet (map to_lua [nUserId, SNumber nEventType, SString strTableName, strKey, strValue]))))"

definition RedisInterface_DeleteValue ::
  "'e script_env_scheme \<Rightarrow> bytes \<Rightarrow> script_value \<Rightarrow> int \<Rightarrow> script_value \<Rightarrow> ('h, 'z, unit) logic_fun" where
  "RedisInterface_DeleteValue env strTableName nUserId nEventType strKey =
     (let strKey = redis_text env strKey in
      lua_bind (SetParameter env SNil strTableName) (\<lambda>nAsyncSquenceId.
      lua_do (CRedis_PushRedisGet (map to_lua [nUserId, SNumber nEventType, SString strTableName, strKey]))))"

section \<open>Users\<close>

definition GetUserObject :: "'e script_env_scheme \<Rightarrow> script_value \<Rightarrow> ('h, 'z) logic_lua_scheme \<Rightarrow> nat option" where
  "GetUserObject env nUserId g = m_tbUserDataPool g (tostring env nUserId)"

definition ReleaseUserObject :: "'e script_env_scheme \<Rightarrow> script_value \<Rightarrow> ('h, 'z, unit) logic_fun" where
  "ReleaseUserObject env nUserId =
     lua_bind (lua_get (GetUserObject env nUserId)) (\<lambda>objUser.
     if objUser = None then lua_ret ()
     else
       lua_bind (lua_set (\<lambda>g. g\<lparr>m_tbUserDataPool := (m_tbUserDataPool g)(tostring env nUserId := None)\<rparr>)) (\<lambda>_.
       lua_bind (concat_text env nUserId) (\<lambda>_. lua_ret ())))"

text \<open>A field of a table; texts have no such field, and other values cannot be indexed.\<close>

definition index_field :: "script_value \<Rightarrow> bytes \<Rightarrow> ('c, 'g, script_value) lua" where
  "index_field v k =
     (case v of
        STab _ fs \<Rightarrow> lua_ret (case map_of fs k of None \<Rightarrow> SNil | Some v \<Rightarrow> v)
      | SString _ \<Rightarrow> lua_ret SNil
      | _ \<Rightarrow> lua_error NilIndexed)"

definition CacheUserObject ::
  "'e logic_consts_scheme \<Rightarrow> ('h, 'z) logic_modules \<Rightarrow> script_value \<Rightarrow> ('h, 'z, unit) logic_fun" where
  "CacheUserObject env M tbGameData =
     lua_bind (index_field tbGameData (BASE_INFO env)) (\<lambda>tbBaseInfo.
     lua_bind (index_field tbBaseInfo (USER_ID env)) (\<lambda>nUserId.
     lua_bind (UserData_new M tbGameData) (\<lambda>objUser.
     lua_set (\<lambda>g. g\<lparr>m_tbUserDataPool := (m_tbUserDataPool g)(tostring env nUserId \<mapsto> objUser)\<rparr>))))"

definition SetCurrentUserObject :: "'e script_env_scheme \<Rightarrow> script_value \<Rightarrow> ('h, 'z, unit) logic_fun" where
  "SetCurrentUserObject env nUserId =
     lua_bind (lua_set (\<lambda>g. g\<lparr>m_objCurrentUser := GetUserObject env nUserId g\<rparr>)) (\<lambda>_.
     lua_bind (concat_text env nUserId) (\<lambda>_. lua_ret ()))"

text \<open>The error code and the user.\<close>

definition EnterGame ::
  "'e logic_consts_scheme \<Rightarrow> ('h, 'z) logic_modules \<Rightarrow> script_value \<Rightarrow> ('h, 'z) logic_lua_scheme \<Rightarrow> script_value \<times> nat option" where
  "EnterGame env M nUserId g =
     (if \<not> IsNumber nUserId then (PARAMTER_ERROR env, None)
      else case GetUserObject env nUserId g of
        None \<Rightarrow> (USER_NO_REGISTER env, None)
      | Some objUser \<Rightarrow>
          if nUserId \<noteq> UserData_GetUserId M objUser g then (USER_NO_REGISTER env, None)
          else (SYSTEM_OK env, Some objUser))"

definition CheckUserDataStatus :: "'e logic_consts_scheme \<Rightarrow> script_value \<Rightarrow> ('h, 'z) logic_lua_scheme \<Rightarrow> script_value" where
  "CheckUserDataStatus env nUserId g =
     (if \<not> IsNumber nUserId then PARAMTER_ERROR env
      else if GetUserObject env nUserId g = None then USER_DATA_NIL env
      else SYSTEM_OK env)"

definition SynchronizeToDB ::
  "'e logic_consts_scheme \<Rightarrow> ('h, 'z) logic_modules \<Rightarrow> script_value \<Rightarrow> ('h, 'z, unit) logic_fun" where
  "SynchronizeToDB env M nUserId =
     lua_bind (lua_get (GetUserObject env nUserId)) (\<lambda>objUser.
     case objUser of
       None \<Rightarrow> lua_error NilIndexed
     | Some obj \<Rightarrow>
         lua_bind (lua_get (UserData_GetGameData M obj)) (\<lambda>tbGameData.
         RedisInterface_SetValue env (GAME_DATA env) (SNumber 0) 0 nUserId tbGameData))"

definition UserManager_Commit :: "'e logic_consts_scheme \<Rightarrow> ('h, 'z) logic_modules \<Rightarrow> ('h, 'z, unit) logic_fun" where
  "UserManager_Commit env M =
     lua_bind (lua_get m_objCurrentUser) (\<lambda>objUser.
     case objUser of
       None \<Rightarrow> lua_ret ()
     | Some obj \<Rightarrow>
         lua_bind (lua_get (UserData_IsDirty M obj)) (\<lambda>dirty.
         if \<not> dirty then lua_ret ()
         else
           lua_bind (lua_get (UserData_GetUserId M obj)) (\<lambda>nUserId.
           lua_bind (SynchronizeToDB env M nUserId) (\<lambda>_.
           lua_bind (UserData_SetDirty M obj False) (\<lambda>_.
           lua_set (\<lambda>g. g\<lparr>m_objCurrentUser := None\<rparr>))))))"

section \<open>Requests and responses\<close>

text \<open>\<^verbatim>\<open>table.insert\<close> at the end.\<close>

definition table_insert :: "script_value \<Rightarrow> script_value \<Rightarrow> ('c, 'g, script_value) lua" where
  "table_insert t v =
     (case t of
        STab vs fs \<Rightarrow> lua_ret (STab (if v = SNil then vs else vs @ [v]) fs)
      | _ \<Rightarrow> lua_error BadArgument)"

definition OnResponeClientEnterHall ::
  "'e logic_consts_scheme \<Rightarrow> ('h, 'z) logic_modules \<Rightarrow> script_value \<Rightarrow> script_value \<Rightarrow> script_value \<Rightarrow> ('h, 'z, unit) logic_fun" where
  "OnResponeClientEnterHall env M nUserId nErrorCode tbRetInfo =
     lua_bind (lua_get (NetManager_GetHandlerId env nUserId)) (\<lambda>handler.
     let nHandlerId = (case handler of None \<Rightarrow> SNil | Some h \<Rightarrow> SNumber h) in
     lua_bind (lua_get (GetSquenceIdFromSquence env nHandlerId)) (\<lambda>nSequenceId.
     lua_bind (lua_get (GetGameList M)) (\<lambda>tbGameList.
     lua_bind (table_insert tbRetInfo tbGameList) (\<lambda>tbRetInfo.
     SendToGateway env CNet (SNumber nSequenceId) (SNumber (ENTER_GAME env)) nErrorCode nHandlerId tbRetInfo))))"

text \<open>The user of a login that can be answered at once; a user that is not in the pool is asked from redis.\<close>

definition answer_user ::
  "'e logic_consts_scheme \<Rightarrow> ('h, 'z) logic_modules \<Rightarrow> script_value \<Rightarrow> ('h, 'z, unit) logic_fun" where
  "answer_user env M nUserId =
     lua_bind (lua_get (EnterGame env M nUserId)) (\<lambda>(nErrorCode, objUser).
     case objUser of
       None \<Rightarrow> lua_error NilIndexed
     | Some obj \<Rightarrow>
         lua_bind (lua_get (UserData_GetGameData M obj)) (\<lambda>tbRetInfo.
         OnResponeClientEnterHall env M nUserId nErrorCode (STable (if tbRetInfo = SNil then [] else [tbRetInfo]))))"

text \<open>\<^verbatim>\<open>tbParam[1]\<close>: a text or an object has no such element.\<close>

definition index_first :: "script_value \<Rightarrow> ('c, 'g, script_value) lua" where
  "index_first v =
     (case v of
        STab vs _ \<Rightarrow> lua_ret (param 0 vs)
      | SString _ \<Rightarrow> lua_ret SNil
      | SUserData _ \<Rightarrow> lua_ret SNil
      | _ \<Rightarrow> lua_error NilIndexed)"

definition OnClientEnterHall ::
  "'e logic_consts_scheme \<Rightarrow> ('h, 'z) logic_modules \<Rightarrow> int \<Rightarrow> script_value \<Rightarrow> ('h, 'z, unit) logic_fun" where
  "OnClientEnterHall env M nHandlerId tbParam =
     lua_bind (index_first tbParam) (\<lambda>nUserId.
      lua_bind (lua_set (UpdateHandlerIdAndUserId env nUserId nHandlerId)) (\<lambda>_.
      lua_bind (lua_get (CheckUserDataStatus env nUserId)) (\<lambda>nErrorCode.
      if nErrorCode = USER_DATA_NIL env then
        RedisInterface_GetValue env (GAME_DATA env) nUserId (LOGIC_GET_GAME_DATA env) nUserId SNil
      else if nErrorCode = PARAMTER_ERROR env then lua_ret ()
      else if nErrorCode = SYSTEM_OK env then answer_user env M nUserId
      else lua_ret ())))"

definition logic_callback_method ::
  "'e script_env_scheme \<Rightarrow> ('h, 'z) logic_modules \<Rightarrow> 'h logic_handler \<Rightarrow> script_value list \<Rightarrow> ('h, 'z, script_value list) logic_fun" where
  "logic_callback_method env M h args =
     (case h of
        DisconnectMethod \<Rightarrow> OnUserDisconnect env (ReleaseUserObject env) (param 0 args)
      | GameMethod k \<Rightarrow> game_method M k args)"

text \<open>What follows the dispatch of a request of a user: its answer, and the commit of the user.\<close>

definition logic_respond ::
  "'e logic_consts_scheme \<Rightarrow> int \<Rightarrow> int \<Rightarrow> int \<Rightarrow> script_value list \<Rightarrow> ('h, 'z, unit) logic_fun" where
  "logic_respond env nHandlerId nEventId nSequenceId vs =
     (case first_result vs of (nErrorCode, tbRet) \<Rightarrow>
        if nErrorCode = ASYN_EVENT env then lua_ret ()
        else
          let nEventId = (case ASYNC_EVENT_MAP_TO_SOURCE_EVENT env nEventId of None \<Rightarrow> nEventId | Some e \<Rightarrow> e) in
          if nErrorCode = LOGIC_TO_ROOM_SERVER env then
            SendToRoomServerFromLogic env CNet (SNumber nSequenceId) (SNumber nEventId) nErrorCode (SNumber nHandlerId) tbRet
          else SendToGateway env CNet (SNumber nSequenceId) (SNumber nEventId) nErrorCode (SNumber nHandlerId) tbRet)"

definition logic_ClientRequest ::
  "'e logic_consts_scheme \<Rightarrow> ('h, 'z) logic_modules \<Rightarrow> int \<Rightarrow> int \<Rightarrow> int \<Rightarrow> script_value \<Rightarrow> ('h, 'z, unit) logic_fun" where
  "logic_ClientRequest env M nHandlerId nEventId nSequenceId tbParam =
     (if nEventId = ENTER_GAME env then OnClientEnterHall env M nHandlerId tbParam
      else if nEventId = USER_DISCONNECT env then
        lua_bind (DispatcherEvent env (logic_callback_method env M) nEventId tbParam) (\<lambda>_. lua_ret ())
      else
        lua_bind (lua_get (NetManager_GetUserId env nHandlerId)) (\<lambda>nUserId.
        if \<not> truthy nUserId then lua_ret ()
        else
          lua_bind (SetCurrentUserObject env nUserId) (\<lambda>_.
          lua_bind (lua_set (SetCurrentHandlerId (SNumber nHandlerId))) (\<lambda>_.
          lua_bind (DispatcherEvent env (logic_callback_method env M) nEventId tbParam) (\<lambda>vs.
          lua_bind (logic_respond env nHandlerId nEventId nSequenceId vs) (\<lambda>_.
          UserManager_Commit env M))))))"

definition OnRedisCallback ::
  "'e logic_consts_scheme \<Rightarrow> ('h, 'z) logic_modules \<Rightarrow> script_value \<Rightarrow> int \<Rightarrow> script_value \<Rightarrow> ('h, 'z, unit) logic_fun" where
  "OnRedisCallback env M nUserId nEventId tbParam =
     lua_bind (lua_get (NetManager_GetHandlerId env nUserId)) (\<lambda>handler.
     case handler of
       None \<Rightarrow> lua_ret ()
     | Some nHandlerId \<Rightarrow>
         lua_bind (lua_get (GetSquenceIdFromSquence env (SNumber nHandlerId))) (\<lambda>nSequenceId.
         lua_bind (lua_xpcall (logic_ClientRequest env M nHandlerId nEventId nSequenceId tbParam)) (\<lambda>_. lua_ret ())))"

text \<open>A text that is not empty.\<close>

definition has_text :: "script_value \<Rightarrow> bool" where
  "has_text v = (case v of SString s \<Rightarrow> s \<noteq> [] | _ \<Rightarrow> False)"

definition json_text :: "'e script_env_scheme \<Rightarrow> script_value \<Rightarrow> ('c, 'g, script_value) lua" where
  "json_text env v = (case v of SString s \<Rightarrow> decode_text env s | _ \<Rightarrow> lua_error BadArgument)"

definition OnResponseEnterHallEvent ::
  "'e logic_consts_scheme \<Rightarrow> ('h, 'z) logic_modules \<Rightarrow> script_value \<Rightarrow> script_value \<Rightarrow> ('h, 'z, unit) logic_fun" where
  "OnResponseEnterHallEvent env M nUserId strRepsonseJson =
     (if has_text strRepsonseJson then
        lua_bind (json_text env strRepsonseJson) (\<lambda>tbGameData.
        lua_bind (CacheUserObject env M tbGameData) (\<lambda>_.
        lua_bind (SetCurrentUserObject env nUserId) (\<lambda>_.
        answer_user env M nUserId)))
      else OnResponeClientEnterHall env M nUserId (USER_DATA_NIL env) (SString []))"

definition OnResponseGlobalConfigEvent ::
  "'e logic_consts_scheme \<Rightarrow> ('h, 'z) logic_modules \<Rightarrow> int \<Rightarrow> script_value \<Rightarrow> ('h, 'z, unit) logic_fun" where
  "OnResponseGlobalConfigEvent env M nEventId strRepsonseJson =
     (if nEventId = GET_USER_GLOBAL_ID env then
        SetUserGlobalId M strRepsonseJson (has_text strRepsonseJson)
      else lua_ret ())"

definition logic_OnRedisRespone ::
  "'e logic_consts_scheme \<Rightarrow> ('h, 'z) logic_modules \<Rightarrow> script_value \<Rightarrow> script_value \<Rightarrow> script_value \<Rightarrow> script_value
     \<Rightarrow> ('h, 'z, script_value) logic_fun" where
  "logic_OnRedisRespone env M nAsyncSquenceId nUserId nEventId strRepsonseJson =
     lua_bind (AsyncManager_Pop env nAsyncSquenceId) (\<lambda>tbParam.
     case nEventId of
       SNumber ev \<Rightarrow>
         if ev = GET_USER_GLOBAL_ID env then
           lua_bind (OnResponseGlobalConfigEvent env M ev strRepsonseJson) (\<lambda>_. lua_ret SNil)
         else if ev = LOGIC_GET_GAME_DATA env then
           lua_bind (OnResponseEnterHallEvent env M nUserId strRepsonseJson) (\<lambda>_. lua_ret SNil)
         else
           lua_bind
             (if has_text strRepsonseJson then
                lua_bind (lua_get (\<lambda>g. case nAsyncSquenceId of SNumber n \<Rightarrow> m_tbSquenceIdToTableName g n | _ \<Rightarrow> None))
                  (\<lambda>strTableName.
                lua_bind
                  (if strTableName = Some (GAME_DATA env) then
                     lua_bind (json_text env strRepsonseJson) (\<lambda>tbGameData.
                     lua_bind (UserData_new M tbGameData) (\<lambda>obj. lua_ret (SUserData obj)))
                   else lua_ret strRepsonseJson) (\<lambda>tbRetData.
                if truthy tbParam then table_insert tbParam tbRetData else lua_ret tbParam))
              else lua_ret tbParam) (\<lambda>tbParam.
           lua_bind (OnRedisCallback env M nUserId ev tbParam) (\<lambda>_.
           lua_bind (lua_set (SetSquenceIdToTableNameNil nAsyncSquenceId)) (\<lambda>_. lua_ret SNil)))
     | _ \<Rightarrow> lua_ret SNil)"

definition logic_OnRedisMulDataRespone ::
  "'e logic_consts_scheme \<Rightarrow> ('h, 'z) logic_modules \<Rightarrow> script_value \<Rightarrow> script_value \<Rightarrow> script_value \<Rightarrow> script_value
     \<Rightarrow> ('h, 'z, script_value) logic_fun" where
  "logic_OnRedisMulDataRespone env M nAsyncSquenceId nUserId nEventId tbMulData =
     lua_bind (AsyncManager_Pop env nAsyncSquenceId) (\<lambda>tbParam.
     lua_bind (table_insert tbParam tbMulData) (\<lambda>tbParam.
     case nEventId of
       SNumber ev \<Rightarrow>
         lua_bind (OnRedisCallback env M nUserId ev tbParam) (\<lambda>_.
         lua_bind (lua_set (SetSquenceIdToTableNameNil nAsyncSquenceId)) (\<lambda>_. lua_ret SNil))
     | _ \<Rightarrow> lua_ret SNil))"

text \<open>The functions the engine calls.\<close>

definition logic_scripts ::
  "'e logic_consts_scheme \<Rightarrow> ('h, 'z) logic_modules \<Rightarrow> (('h, 'z) logic_lua_scheme, logic_call) script" where
  "logic_scripts env M f args =
     (let vs = map from_lua args in
      if f = LuaFunction (ascii ''OnClientRequest'') then
        lua_run env (OnClientRequest env (logic_ClientRequest env M) (param 0 vs) (param 1 vs) (param 2 vs) (param 3 vs))
      else if f = LuaFunction (ascii ''OnCenterRequest'') then
        lua_run env (OnCenterRequest env (logic_callback_method env M) (param 0 vs) (param 1 vs) (param 2 vs) (param 3 vs))
      else if f = LuaFunction (ascii ''OnRedisRespone'') then
        lua_run env (logic_OnRedisRespone env M (param 0 vs) (param 1 vs) (param 2 vs) (param 3 vs))
      else if f = LuaFunction (ascii ''OnRedisMulDataRespone'') then
        lua_run env (logic_OnRedisMulDataRespone env M (param 0 vs) (param 1 vs) (param 2 vs) (param 3 vs))
      else if f = LuaFunction (ascii ''UpdateTimer'') then
        lua_run env (lua_bind (Timer_update M (param 0 vs)) (\<lambda>_. lua_ret SNil))
      else lua_run env (lua_error NilIndexed))"

section \<open>Sessions\<close>

text \<open>
  The abstract view: the connection of each user and the user of each connection, and what the
  methods of \<open>NetManager\<close> do to them.
\<close>

type_synonym session_maps = "(bytes \<rightharpoonup> int) \<times> (bytes \<rightharpoonup> script_value)"

definition sessions :: "('h, 'z) script_globals_scheme \<Rightarrow> session_maps" where
  "sessions g = (m_tbUserHanderIdMap g, m_tbHanderIdUserMap g)"

definition login :: "'e script_env_scheme \<Rightarrow> script_value \<Rightarrow> int \<Rightarrow> session_maps \<Rightarrow> session_maps" where
  "login env u h m =
     (case m of (U, H) \<Rightarrow>
        let H1 = (case U (tostring env u) of
                    Some h' \<Rightarrow> if h' \<noteq> h \<and> h' > 0 then H(tostring env (SNumber h') := None) else H
                  | None \<Rightarrow> H);
            U1 = U(tostring env u := None) in
        if h > 0
        then (U1(tostring env u \<mapsto> h), H1(tostring env (SNumber h) := if u = SNil then None else Some u))
        else (U1, H1))"

definition logout :: "'e script_env_scheme \<Rightarrow> script_value \<Rightarrow> int \<Rightarrow> session_maps \<Rightarrow> session_maps" where
  "logout env u h m =
     (case m of (U, H) \<Rightarrow> (U(tostring env u := None), if h > 0 then H(tostring env (SNumber h) := None) else H))"

lemma sessions_login: "sessions (UpdateHandlerIdAndUserId env u h g) = login env u h (sessions g)"
  by (auto simp: sessions_def login_def UpdateHandlerIdAndUserId_def ExistOldHanlder_def NetManager_GetHandlerId_def ReleaseHandler_def
      ReleaseUserId_def NetManager_SetUserId_def NetManager_SetHandlerId_def Let_def split: option.split)

lemma sessions_logout:
  "sessions (ReleaseHandler env u (ReleaseUserId env h g)) = logout env u h (sessions g)"
  by (auto simp: sessions_def logout_def NetManager_GetHandlerId_def ReleaseHandler_def
      ReleaseUserId_def NetManager_SetUserId_def fun_eq_iff split: option.split)

inductive session_move :: "'e script_env_scheme \<Rightarrow> session_maps \<Rightarrow> session_maps \<Rightarrow> bool" for env :: "'e script_env_scheme" where
  move_login: "0 \<le> h \<Longrightarrow> h < 2 ^ 32 \<Longrightarrow> session_move env m (login env u h m)"
| move_logout: "snd m (tostring env (SNumber h)) = Some u \<Longrightarrow> session_move env m (logout env u h m)"

text \<open>The user of a connection has this connection as his.\<close>

definition session_ok :: "'e script_env_scheme \<Rightarrow> session_maps \<Rightarrow> bool" where
  "session_ok env m \<longleftrightarrow>
     (\<forall>k h. fst m k = Some h \<longrightarrow> 0 < h \<and> h < 2 ^ 32) \<and>
     (\<forall>k u. snd m k = Some u \<longrightarrow> u \<noteq> SNil \<and>
        (\<exists>h. 0 < h \<and> h < 2 ^ 32 \<and> k = tostring env (SNumber h) \<and> fst m (tostring env u) = Some h))"

lemma tostring_handler:
  assumes "0 \<le> h" "h < 2 ^ 32" "0 \<le> h'" "h' < 2 ^ 32"
  shows "tostring env (SNumber h) = tostring env (SNumber h') \<longleftrightarrow> h = h'"
  using assms tostring_number [of h env] tostring_number [of h' env] by (auto simp: fmt_nat_eq)

lemma session_ok_login:
  assumes ok: "session_ok env m" and h: "0 \<le> h" "h < 2 ^ 32"
  shows "session_ok env (login env u h m)"
proof -
  obtain U H where m: "m = (U, H)" by (cases m)
  have range: "0 < h'" "h' < 2 ^ 32" if "U k = Some h'" for k h'
    using ok that by (auto simp: session_ok_def m)
  have owner: "v \<noteq> SNil" "\<exists>h'. 0 < h' \<and> h' < 2 ^ 32 \<and> k = tostring env (SNumber h') \<and> U (tostring env v) = Some h'"
    if "H k = Some v" for k v
    using ok that by (auto simp: session_ok_def m)
  obtain U' H' where m': "login env u h m = (U', H')" by (cases "login env u h m")
  have U': "U' = (U(tostring env u := if h > 0 then Some h else None))"
    using m' by (auto simp: login_def m Let_def split: if_splits)
  have old: "H k = Some v \<and> (U (tostring env u) = Some h' \<longrightarrow> h' = h \<or> k \<noteq> tostring env (SNumber h'))"
    if "H' k = Some v" "\<not> (h > 0 \<and> k = tostring env (SNumber h))" for k v h'
    using that m' range [of "tostring env u" h']
    by (auto simp: login_def m Let_def split: if_splits option.splits)
  have new: "v = u \<and> u \<noteq> SNil" if "H' k = Some v" "h > 0" "k = tostring env (SNumber h)" for k v
    using that m' by (auto simp: login_def m Let_def split: if_splits)
  have "v \<noteq> SNil \<and> (\<exists>h'. 0 < h' \<and> h' < 2 ^ 32 \<and> k = tostring env (SNumber h') \<and> U' (tostring env v) = Some h')"
    if v: "H' k = Some v" for k v
  proof (cases "h > 0 \<and> k = tostring env (SNumber h)")
    case True
    then show ?thesis using new [OF v] h U' by auto
  next
    case False
    from owner [of k v] old [OF v False] obtain h' where
      b: "v \<noteq> SNil" "0 < h'" "h' < 2 ^ 32" "k = tostring env (SNumber h')" "U (tostring env v) = Some h'" by blast
    have "tostring env v \<noteq> tostring env u"
    proof
      assume e: "tostring env v = tostring env u"
      then have "h' = h" using old [OF v False, of h'] b by auto
      then show False using False b by simp
    qed
    then show ?thesis using b U' by auto
  qed
  then show ?thesis
    using range h U' by (auto simp: session_ok_def m')
qed

lemma session_ok_logout:
  assumes env: "number_texts env" and ok: "session_ok env m" and u: "snd m (tostring env (SNumber h)) = Some u"
  shows "session_ok env (logout env u h m)"
proof -
  obtain h0 where h0: "0 < h0" "h0 < 2 ^ 32" "tostring env (SNumber h) = tostring env (SNumber h0)"
      "fst m (tostring env u) = Some h0"
    using ok u unfolding session_ok_def by blast
  then have "h = h0" using tostring_number_eq [OF env, of h0 h] by simp
  then show ?thesis
    using ok h0 by (fastforce simp: session_ok_def logout_def split: prod.split if_splits)
qed

lemma session_moves_ok:
  assumes env: "number_texts env" and "(session_move env)\<^sup>*\<^sup>* m m'" and "session_ok env m"
  shows "session_ok env m'"
  using assms(2,3)
proof (induction rule: rtranclp_induct)
  case (step y z)
  then have ok: "session_ok env y" by simp
  from step(2) show ?case
    by cases (use ok in \<open>simp_all add: session_ok_login session_ok_logout [OF env]\<close>)
qed simp

section \<open>The scripts keep the sessions\<close>

text \<open>
  What is assumed of the modules: they reach the two maps only through the methods of \<open>NetManager\<close>.
\<close>

definition lua_moves :: "'e script_env_scheme \<Rightarrow> ('c, ('h, 'z) script_globals_scheme, 'a) lua \<Rightarrow> bool" where
  "lua_moves env m \<longleftrightarrow>
     (\<forall>g cs out g'. m g = (cs, out, g') \<longrightarrow> (session_move env)\<^sup>*\<^sup>* (sessions g) (sessions g'))"

definition modules_move :: "'e script_env_scheme \<Rightarrow> ('h, 'z) logic_modules \<Rightarrow> bool" where
  "modules_move env M \<longleftrightarrow>
     (\<forall>k args. lua_moves env (game_method M k args)) \<and> (\<forall>v. lua_moves env (UserData_new M v))
     \<and> (\<forall>u b. lua_moves env (UserData_SetDirty M u b)) \<and> (\<forall>v b. lua_moves env (SetUserGlobalId M v b))
     \<and> (\<forall>v. lua_moves env (Timer_update M v))"

abbreviation keeps_sessions :: "'e script_env_scheme \<Rightarrow> ('c, ('h, 'z) script_globals_scheme, 'a) lua \<Rightarrow> bool" where
  "keeps_sessions env m \<equiv> lua_keeps (\<lambda>g. session_ok env (sessions g)) m"

lemma lua_moves_keeps: "number_texts env \<Longrightarrow> lua_moves env m \<Longrightarrow> keeps_sessions env m"
  unfolding lua_moves_def lua_keeps_def using session_moves_ok by metis

lemma modules_keep:
  assumes "number_texts env" and "modules_move env M"
  shows "keeps_sessions env (game_method M k args)" "keeps_sessions env (UserData_new M v)"
    "keeps_sessions env (UserData_SetDirty M u b)" "keeps_sessions env (SetUserGlobalId M v b)"
    "keeps_sessions env (Timer_update M v)"
  using assms(2) by (simp_all add: modules_move_def lua_moves_keeps [OF assms(1)])

text \<open>Updates of other fields.\<close>

lemma sessions_simps [simp]:
  "sessions (g\<lparr>m_tbRequestSquence := q\<rparr>) = sessions g" "sessions (g\<lparr>m_nCurrentHandlerId := v\<rparr>) = sessions g"
  "sessions (g\<lparr>m_tbRegisterEvent := e\<rparr>) = sessions g"
  by (simp_all add: sessions_def)

lemma sessions_logic_simps [simp]:
  "sessions (l\<lparr>m_tbSquence := a\<rparr>) = sessions l" "sessions (l\<lparr>m_tbSquenceIdToTableName := b\<rparr>) = sessions l"
  "sessions (l\<lparr>m_nSquenceId := n\<rparr>) = sessions l" "sessions (l\<lparr>m_tbUserDataPool := p\<rparr>) = sessions l"
  "sessions (l\<lparr>m_objCurrentUser := u\<rparr>) = sessions l"
  by (simp_all add: sessions_def)

lemma keeps_small [lua_keep]:
  "lua_keeps I (concat_text env v)" "lua_keeps I (decode_text env s)" "lua_keeps I (unpack v)"
  "lua_keeps I (index_field v k)" "lua_keeps I (index_first v)" "lua_keeps I (table_insert v w)" "lua_keeps I (json_text env v)"
  by (simp_all add: concat_text_def decode_text_def unpack_def index_field_def index_first_def table_insert_def
      json_text_def lua_keep split: option.split script_value.split)

lemma keeps_pop [lua_keep]: "keeps_sessions env (PopRequestFromSquence env' v)"
  by (auto simp: PopRequestFromSquence_def Let_def intro!: lua_keep split: option.split list.split)

lemma keeps_send [lua_keep]:
  "keeps_sessions env (NetManager_SendToServer env' net t q ev err h v)"
  "keeps_sessions env (SendToGateway env' net q ev err h v)"
  "keeps_sessions env (SendToRoomServerFromLogic env' net q ev err h v)"
  by (auto simp: NetManager_SendToServer_def SendToGateway_def SendToRoomServerFromLogic_def Let_def
      intro!: lua_keep split: script_value.split)

lemma keeps_dispatch:
  assumes "\<And>h args. lua_keeps I (callback h args)"
  shows "lua_keeps I (DispatcherEvent env callback ev v)"
  using assms by (auto simp: DispatcherEvent_def intro!: lua_keep split: option.split)

lemma keeps_redis [lua_keep]:
  "keeps_sessions env (RedisInterface_GetValue env' t u ev k v)"
  "keeps_sessions env (RedisInterface_SetValue env' t u ev k v)"
  by (auto simp: RedisInterface_GetValue_def RedisInterface_SetValue_def SetParameter_def AsyncManager_Push_def
      IncrementSquenceId_def SetSquenceIdToTableName_def Let_def intro!: lua_keep)

lemma keeps_users [lua_keep]:
  "keeps_sessions env (AsyncManager_Pop env' v)" "keeps_sessions env (ReleaseUserObject env' v)"
  "keeps_sessions env (SetCurrentUserObject env' v)"
  by (auto simp: AsyncManager_Pop_def ReleaseUserObject_def SetCurrentUserObject_def Let_def intro!: lua_keep)

lemma keeps_modules:
  assumes "number_texts env" and "modules_move env M"
  shows "keeps_sessions env (CacheUserObject env' M v)" "keeps_sessions env (UserManager_Commit env' M)"
  using modules_keep [OF assms]
  by (auto simp: CacheUserObject_def UserManager_Commit_def SynchronizeToDB_def intro!: lua_keep split: option.split)

lemma keeps_answer [lua_keep]:
  "keeps_sessions env (OnResponeClientEnterHall env' M u err v)" "keeps_sessions env (answer_user env' M u)"
  by (auto simp: OnResponeClientEnterHall_def answer_user_def Let_def intro!: lua_keep split: option.split)

lemma keeps_enter [lua_keep]:
  assumes "0 \<le> h" and "h < 2 ^ 32"
  shows "keeps_sessions env (OnClientEnterHall env M h v)"
  using assms by (auto simp: OnClientEnterHall_def sessions_login session_ok_login intro!: lua_keep)

text \<open>The number of a lost connection comes from the text of a packet and need not be one that the gateway gave out.\<close>

lemma keeps_disconnect:
  assumes env: "number_texts env"
  shows "keeps_sessions env (OnUserDisconnect env (ReleaseUserObject env') nHandlerId)"
proof (cases nHandlerId)
  case (SNumber h)
  show ?thesis
    unfolding lua_keeps_def
  proof (intro allI impI)
    fix g cs out g'
    assume ok: "session_ok env (sessions g)"
      and run: "OnUserDisconnect env (ReleaseUserObject env') nHandlerId g = (cs, out, g')"
    show "session_ok env (sessions g')"
    proof (cases "IsNumber (NetManager_GetUserId env h g)")
      case True
      let ?u = "NetManager_GetUserId env h g"
      have u: "snd (sessions g) (tostring env (SNumber h)) = Some ?u"
        using True by (auto simp: sessions_def NetManager_GetUserId_def split: option.splits)
      have "session_ok env (sessions (ReleaseHandler env ?u (ReleaseUserId env h g)))"
        using session_ok_logout [OF env ok u] by (simp add: sessions_logout)
      moreover have "keeps_sessions env (lua_bind (ReleaseUserObject env' ?u) (\<lambda>_. lua_ret [SNumber 0]))"
        by (intro lua_keep)
      ultimately show ?thesis
        using run True by (auto simp: OnUserDisconnect_def SNumber lua_exec lua_keeps_def)
    qed (use ok run in \<open>simp add: OnUserDisconnect_def SNumber lua_exec\<close>)
  qed
qed (simp_all add: OnUserDisconnect_def lua_keep)

lemma keeps_callback:
  assumes "number_texts env" and "modules_move env M"
  shows "keeps_sessions env (logic_callback_method env M h args)"
  by (cases h) (simp_all add: logic_callback_method_def modules_keep [OF assms] keeps_disconnect [OF assms(1)])

lemma keeps_request:
  assumes "number_texts env" and "modules_move env M" and "0 \<le> h" and "h < 2 ^ 32"
  shows "keeps_sessions env (logic_ClientRequest env M h ev q v)"
  by (auto simp: logic_ClientRequest_def logic_respond_def first_result_def SetCurrentHandlerId_def Let_def
      intro!: lua_keep keeps_dispatch keeps_callback [OF assms(1,2)] keeps_modules [OF assms(1,2)] keeps_enter [OF assms(3,4)])

lemma keeps_redis_callback:
  assumes "number_texts env" and "modules_move env M"
  shows "keeps_sessions env (OnRedisCallback env M u ev v)"
  unfolding OnRedisCallback_def
proof (rule lua_keeps_bind_get, goal_cases)
  case (1 g)
  then have "0 \<le> h \<and> h < 2 ^ 32" if "NetManager_GetHandlerId env u g = Some h" for h
    using that by (fastforce simp: session_ok_def sessions_def NetManager_GetHandlerId_def)
  then show ?case
    using keeps_request [OF assms] by (auto intro!: lua_keep split: option.split)
qed

lemma keeps_push [simp]: "sessions (PushRequestToSquence env h q v g) = sessions g"
  by (simp add: PushRequestToSquence_def Let_def)

lemma keeps_redis_response:
  assumes "number_texts env" and "modules_move env M"
  shows "keeps_sessions env (logic_OnRedisRespone env M a u ev v)" "keeps_sessions env (logic_OnRedisMulDataRespone env M a u ev v)"
  by (auto simp: logic_OnRedisRespone_def logic_OnRedisMulDataRespone_def OnResponseGlobalConfigEvent_def OnResponseEnterHallEvent_def
      SetSquenceIdToTableNameNil_def intro!: lua_keep keeps_redis_callback [OF assms] modules_keep [OF assms]
      keeps_modules [OF assms] split: script_value.split)

lemma keeps_client_request:
  assumes "number_texts env" and "modules_move env M" and "0 \<le> h" and "h < 2 ^ 32"
  shows "keeps_sessions env (OnClientRequest env (logic_ClientRequest env M) (SNumber h) ev q v)"
  by (auto simp: OnClientRequest_def OnClientRequest_body_def intro!: lua_keep keeps_request [OF assms] split: script_value.split)

lemma keeps_center_request:
  assumes "number_texts env" and "modules_move env M"
  shows "keeps_sessions env (OnCenterRequest env (logic_callback_method env M) h ev q v)"
  by (auto simp: OnCenterRequest_def OnCenterRequest_body_def CenterRequest_def
      intro!: lua_keep keeps_dispatch keeps_callback [OF assms] split: script_value.split)

section \<open>Reachable states of the scripts\<close>

text \<open>The first argument of every call of the engine is an unsigned number.\<close>

inductive script_step ::
  "'e logic_consts_scheme \<Rightarrow> ('h, 'z) logic_modules \<Rightarrow> ('h, 'z) logic_lua_scheme \<Rightarrow> ('h, 'z) logic_lua_scheme \<Rightarrow> bool"
  for env :: "'e logic_consts_scheme" and M :: "('h, 'z) logic_modules" where
  script_called:
    "0 \<le> n \<Longrightarrow> n < 2 ^ 32 \<Longrightarrow> logic_scripts env M f (LuaNumber n # args) g = (cs, out, g') \<Longrightarrow> script_step env M g g'"

lemma script_steps_sessions:
  assumes env: "number_texts env" and M: "modules_move env M"
    and "(script_step env M)\<^sup>*\<^sup>* g g'" and "session_ok env (sessions g)"
  shows "session_ok env (sessions g')"
  using assms(3,4)
proof (induction rule: rtranclp_induct)
  case (step y z)
  then have ok: "session_ok env (sessions y)" by simp
  from step(2) show ?case
  proof cases
    case (script_called n f args cs out)
    have timer: "keeps_sessions env (lua_bind (Timer_update M v) (\<lambda>_. lua_ret SNil))" for v
      by (intro lua_keep modules_keep [OF env M])
    have "\<exists>m. logic_scripts env M f (LuaNumber n # args) = lua_run env m \<and> keeps_sessions env m"
      unfolding logic_scripts_def Let_def list.map from_lua.simps
      by (auto simp: param_def split: if_split intro!: exI conjI [OF refl] timer lua_keep
          keeps_client_request [OF env M script_called(1,2)] keeps_center_request [OF env M] keeps_redis_response [OF env M])
    then obtain m where m: "logic_scripts env M f (LuaNumber n # args) = lua_run env m" "keeps_sessions env m" by blast
    show ?thesis
      by (rule lua_keeps_run [where I = "\<lambda>g. session_ok env (sessions g)", OF m(2) ok script_called(3) [unfolded m(1)]])
  qed
qed simp

text \<open>The objects after the scripts are loaded; \<open>methods\<close> is what the modules register.\<close>

definition logic_lua_new :: "'e logic_consts_scheme \<Rightarrow> (int \<times> 'h) list \<Rightarrow> 'h logic_lua" where
  "logic_lua_new env methods =
     fold (\<lambda>(e, k). Register (Some e) (GameMethod k)) methods
       (Register (Some (USER_DISCONNECT env)) DisconnectMethod
         \<lparr>m_tbRegisterEvent = Map.empty, m_tbUserHanderIdMap = Map.empty, m_tbHanderIdUserMap = Map.empty,
          m_tbRequestSquence = Map.empty, m_nCurrentHandlerId = SNil, m_tbSquence = Map.empty,
          m_tbSquenceIdToTableName = Map.empty, m_nSquenceId = 1, m_tbUserDataPool = Map.empty, m_objCurrentUser = None\<rparr>)"

lemma sessions_Register [simp]: "sessions (Register e k g) = sessions g"
  by (simp add: Register_def split: option.split)

lemma sessions_new: "sessions (logic_lua_new env (methods :: (int \<times> 'h) list)) = (Map.empty, Map.empty)"
proof -
  have "sessions (fold (\<lambda>(e, k). Register (Some e) (GameMethod k)) methods g) = sessions g" for g :: "'h logic_lua"
    by (induction methods arbitrary: g) auto
  then show ?thesis by (simp add: logic_lua_new_def) (simp add: sessions_def)
qed

text \<open>Concrete scripts: one method that answers 7, and a user with the number 5.\<close>

definition demo_consts :: logic_consts where
  "demo_consts = \<lparr>json_decode = (\<lambda>s. if s = ascii ''[5]'' then Some (STable [SNumber 5]) else if s = ascii ''[]'' then Some (STable []) else None),
     json_encode = (\<lambda>_. ascii ''[7]''), other_text = (\<lambda>_. []), error_text = (\<lambda>_. [101]),
     USER_DISCONNECT = 4001, SYSTEM_OK = SNumber 0, PARAMTER_ERROR = SNumber 2, EVENT_ID_ERROR = SNumber 8,
     SERVER_TYPE_DEF = (\<lambda>t. int (unat (server_id t))), ENTER_GAME = 10002, LOGIC_GET_GAME_DATA = 4,
     GET_USER_GLOBAL_ID = 1101, ASYN_EVENT = SNumber 6, LOGIC_TO_ROOM_SERVER = SNumber 7, USER_DATA_NIL = SNumber 3,
     USER_NO_REGISTER = SNumber 4, ASYNC_EVENT_MAP_TO_SOURCE_EVENT = Map.empty, GAME_DATA = ascii ''game'',
     BASE_INFO = ascii ''BaseInfo'', USER_ID = ascii ''UserId''\<rparr>"

definition demo_modules :: "(unit, unit) logic_modules" where
  "demo_modules = \<lparr>game_method = (\<lambda>k args. lua_ret [SNumber 0, SNumber 7]), UserData_new = (\<lambda>v. lua_ret 0),
     UserData_GetUserId = (\<lambda>u g. SNumber 5), UserData_GetGameData = (\<lambda>u g. STable []), UserData_IsDirty = (\<lambda>u g. False),
     UserData_SetDirty = (\<lambda>u b. lua_ret ()), GetGameList = (\<lambda>g. SNil), SetUserGlobalId = (\<lambda>v b. lua_ret ()),
     Timer_update = (\<lambda>v. lua_ret ())\<rparr>"

definition demo_start :: "unit logic_lua" where
  "demo_start = logic_lua_new demo_consts [(10201, ())]"

definition demo_entered :: "unit logic_lua" where
  "demo_entered = snd (snd (logic_scripts demo_consts demo_modules (LuaFunction (ascii ''OnClientRequest''))
     [LuaNumber 1, LuaNumber 10002, LuaNumber 3, LuaString (ascii ''[5]'')] demo_start))"

lemma demo_consts_texts: "number_texts demo_consts"
proof -
  have "fmt_nat k \<noteq> []" for k using length_fmt_nat_pos [of k] by auto
  then show ?thesis by (simp add: number_texts_def demo_consts_def) metis
qed

lemma demo_modules_move: "modules_move env demo_modules"
  by (simp add: modules_move_def demo_modules_def lua_moves_def lua_basic)

lemma demo_entered_steps: "(script_step demo_consts demo_modules)\<^sup>*\<^sup>* demo_start demo_entered"
proof -
  obtain cs out where "logic_scripts demo_consts demo_modules (LuaFunction (ascii ''OnClientRequest''))
     [LuaNumber 1, LuaNumber 10002, LuaNumber 3, LuaString (ascii ''[5]'')] demo_start = (cs, out, demo_entered)"
    unfolding demo_entered_def by (metis prod.collapse)
  then show ?thesis by (intro r_into_rtranclp script_called) simp_all
qed

lemma demo_entered_user: "NetManager_GetUserId demo_consts 1 demo_entered = SNumber 5"
  by code_simp

section \<open>Properties\<close>

text \<open>C8: one connection for each user. Whatever requests, responses and timers run the scripts, in any
  order, the user of a connection has exactly this connection: a notice for him is sent to it, and
  no other connection has the same user.\<close>

theorem user_has_one_connection:
  assumes env: "number_texts env" and M: "modules_move env M"
    and run: "(script_step env M)\<^sup>*\<^sup>* g0 g" and start: "sessions g0 = (Map.empty, Map.empty)"
    and h: "0 \<le> h" "h < 2 ^ 32" and u: "NetManager_GetUserId env h g = u" "u \<noteq> SNil"
    and gate: "SERVER_TYPE_DEF env CENTER \<le> SERVER_TYPE_DEF env GATEWAY"
  shows "SendNoticeToUser env CNet ev err u (STable vs) g =
      ([CNet (SendToServer [LuaNumber (SERVER_TYPE_DEF env GATEWAY), LuaNumber 0, to_lua ev, to_lua err, LuaNumber h,
         LuaString (json_encode env (STable vs))])], Inr (), g) \<and>
    (\<forall>h'. 0 \<le> h' \<and> h' < 2 ^ 32 \<and> NetManager_GetUserId env h' g = u \<longrightarrow> h' = h)"
proof -
  have ok: "session_ok env (sessions g)"
    using script_steps_sessions [OF env M run] start by (simp add: session_ok_def)
  have U: "NetManager_GetHandlerId env u g = Some n" if "0 \<le> n" "n < 2 ^ 32" "NetManager_GetUserId env n g = u" for n
  proof -
    have "snd (sessions g) (tostring env (SNumber n)) = Some u"
      using that(3) u(2) by (auto simp: NetManager_GetUserId_def sessions_def split: option.splits)
    then obtain m where "0 < m" "m < 2 ^ 32" "tostring env (SNumber n) = tostring env (SNumber m)"
        "fst (sessions g) (tostring env u) = Some m"
      using ok unfolding session_ok_def by blast
    moreover from this have "n = m" using tostring_handler [of n m env] that(1,2) by simp
    ultimately show ?thesis by (simp add: NetManager_GetHandlerId_def sessions_def)
  qed
  have "h' = h" if "0 \<le> h'" "h' < 2 ^ 32" "NetManager_GetUserId env h' g = u" for h'
    using U [OF that] U [OF h u(1)] by simp
  moreover have "SendNoticeToUser env CNet ev err u (STable vs) g =
      ([CNet (SendToServer [LuaNumber (SERVER_TYPE_DEF env GATEWAY), LuaNumber 0, to_lua ev, to_lua err, LuaNumber h,
         LuaString (json_encode env (STable vs))])], Inr (), g)"
    using U [OF h u(1)] gate
    by (simp add: SendNoticeToUser_def lua_exec NetManager_SendToServer_def ret_text_def truthy_def)
  ultimately show ?thesis by simp
qed

theorem user_has_one_connection_witness:
  "SendNoticeToUser demo_consts CNet (SNumber 9) (SNumber 0) (SNumber 5) (STable []) demo_entered =
      ([CNet (SendToServer [LuaNumber 4, LuaNumber 0, LuaNumber 9, LuaNumber 0, LuaNumber 1, LuaString (ascii ''[7]'')])],
       Inr (), demo_entered)"
  using user_has_one_connection [OF demo_consts_texts demo_modules_move demo_entered_steps _ _ _ demo_entered_user,
      of "SNumber 9" "SNumber 0" "[]"] sessions_new [of demo_consts "[(10201, ())]"]
  by (simp add: demo_start_def demo_consts_def)

end
