(* ===== verification/CenterScript.thy ===== *)
theory CenterScript
  imports System LuaScript
begin

text \<open>
  The scripts of the center process: \<^verbatim>\<open>script/center_main.lua\<close>, \<^verbatim>\<open>script/module/center_protocol.lua\<close> and
  \<^verbatim>\<open>script/center_logic/net_base\<close>. With them the theorems about the center need no hypothesis about
  what its script does.
\<close>

section \<open>The scripts\<close>

datatype center_handler = DisconnectHandler | RegisterHandler

record center_lua = "center_handler script_globals" +
  tbServerMap :: "bytes \<rightharpoonup> script_value \<times> script_value"

definition SetServer :: "script_env \<Rightarrow> script_value \<Rightarrow> script_value \<Rightarrow> script_value \<Rightarrow> center_lua \<Rightarrow> center_lua" where
  "SetServer env strIp nPort nServerType g =
     g\<lparr>tbServerMap := (tbServerMap g)(tostring env nServerType \<mapsto> (strIp, nPort))\<rparr>"

definition RegisterServer ::
  "script_env \<Rightarrow> script_value \<Rightarrow> script_value \<Rightarrow> script_value \<Rightarrow> script_value
     \<Rightarrow> (cnet_call, center_lua, script_value list) lua" where
  "RegisterServer env strIp nPort nServerType nHandlerId =
     lua_bind (lua_set (SetServer env strIp nPort nServerType)) (\<lambda>_.
     lua_bind (NetManager_SetServerTypeToHandlerId (\<lambda>c. c) nServerType nHandlerId) (\<lambda>_.
     lua_ret [SYSTEM_OK env]))"

definition RegisterProtocol ::
  "script_env \<Rightarrow> script_value \<Rightarrow> script_value \<Rightarrow> script_value \<Rightarrow> (cnet_call, center_lua, script_value list) lua" where
  "RegisterProtocol env strIp nPort nServerType =
     (if \<not> IsString strIp then lua_ret [PARAMTER_ERROR env]
      else if \<not> IsNumber nPort then lua_ret [PARAMTER_ERROR env]
      else if \<not> IsNumber nServerType then lua_ret [PARAMTER_ERROR env]
      else
        lua_bind (lua_get m_nCurrentHandlerId) (\<lambda>nHandlerId.
        RegisterServer env strIp nPort nServerType nHandlerId))"

text \<open>The methods that are registered; the center has no \<open>G_UserManager\<close>.\<close>

definition center_callback ::
  "script_env \<Rightarrow> center_handler \<Rightarrow> script_value list \<Rightarrow> (cnet_call, center_lua, script_value list) lua" where
  "center_callback env h args =
     (case h of
        DisconnectHandler \<Rightarrow> OnUserDisconnect env (\<lambda>_. lua_error NilIndexed) (param 0 args)
      | RegisterHandler \<Rightarrow> RegisterProtocol env (param 0 args) (param 1 args) (param 2 args))"

definition center_ClientRequest ::
  "script_env \<Rightarrow> int \<Rightarrow> int \<Rightarrow> int \<Rightarrow> script_value \<Rightarrow> (cnet_call, center_lua, unit) lua" where
  "center_ClientRequest env nHandlerId nEventId nSequenceId tbParam =
     lua_bind (lua_set (SetCurrentHandlerId (SNumber nHandlerId))) (\<lambda>_.
     lua_bind (DispatcherEvent env (center_callback env) nEventId tbParam) (\<lambda>vs.
     case first_result vs of (nErrorCode, tbRet) \<Rightarrow>
     lua_bind (NetManager_SendToLogicServer env (\<lambda>c. c) (SNumber nSequenceId) (SNumber nEventId) nErrorCode
       (SNumber nHandlerId) tbRet) (\<lambda>_.
     lua_bind (concat_text env nErrorCode) (\<lambda>_. lua_ret ()))))"

text \<open>The functions the engine calls; what the scripts do not define is nil, and calling it is an error.\<close>

definition center_scripts :: "script_env \<Rightarrow> (center_lua, cnet_call) script" where
  "center_scripts env f args =
     (let vs = map from_lua args in
      if f = LuaFunction (ascii ''OnClientRequest'') then
        lua_run env (OnClientRequest env (center_ClientRequest env) (param 0 vs) (param 1 vs) (param 2 vs) (param 3 vs))
      else if f = LuaFunction (ascii ''OnCenterRequest'') then
        lua_run env (OnCenterRequest env (center_callback env) (param 0 vs) (param 1 vs) (param 2 vs) (param 3 vs))
      else lua_run env (lua_error NilIndexed))"

text \<open>The objects after the scripts are loaded. The number of the register event is that of \<^verbatim>\<open>center_event_def.lua\<close>.\<close>

definition CENTER_SERVER_REGISTER :: int where
  "CENTER_SERVER_REGISTER = 3001"

definition center_lua_new :: "script_env \<Rightarrow> center_lua" where
  "center_lua_new env =
     Register (Some CENTER_SERVER_REGISTER) RegisterHandler
       (Register (Some (USER_DISCONNECT env)) DisconnectHandler
         \<lparr>m_tbRegisterEvent = Map.empty, m_tbUserHanderIdMap = Map.empty, m_tbHanderIdUserMap = Map.empty,
          m_tbRequestSquence = Map.empty, m_nCurrentHandlerId = SNil, tbServerMap = Map.empty\<rparr>)"

section \<open>Between two packets nothing is pending\<close>

definition center_idle :: "script_env \<Rightarrow> center_lua \<Rightarrow> bool" where
  "center_idle env g \<longleftrightarrow>
     m_tbRequestSquence g = Map.empty \<and> m_tbHanderIdUserMap g = Map.empty
     \<and> m_tbRegisterEvent g = m_tbRegisterEvent (center_lua_new env)"

lemma center_idle_new: "center_idle env (center_lua_new env)"
  by (simp add: center_idle_def center_lua_new_def Register_def)

text \<open>A method that is called leaves the pending requests and the events alone.\<close>

definition same_requests :: "center_lua \<Rightarrow> center_lua \<Rightarrow> bool" where
  "same_requests g g' \<longleftrightarrow>
     m_tbRequestSquence g' = m_tbRequestSquence g \<and> m_tbHanderIdUserMap g' = m_tbHanderIdUserMap g
     \<and> m_tbRegisterEvent g' = m_tbRegisterEvent g"

lemma center_callback_requests:
  assumes "center_callback env h args g = (cs, out, g')" and "m_tbHanderIdUserMap g = Map.empty"
  shows "same_requests g g'"
  using assms
  by (auto simp: center_callback_def OnUserDisconnect_def RegisterProtocol_def RegisterServer_def SetServer_def
      NetManager_SetServerTypeToHandlerId_def NetManager_GetUserId_def lua_exec same_requests_def
      split: center_handler.splits script_value.splits if_splits)

lemma Dispatcher_requests:
  assumes "DispatcherEvent env (center_callback env) ev v g = (cs, out, g')" and "m_tbHanderIdUserMap g = Map.empty"
  shows "same_requests g g'"
  using assms center_callback_requests
  by (auto simp: DispatcherEvent_def unpack_def lua_exec same_requests_def split: option.splits script_value.splits)

lemma ClientRequest_queue:
  assumes "m_tbRequestSquence g = [tostring env (SNumber h) \<mapsto> [r]]" and "m_tbHanderIdUserMap g = Map.empty"
    and "center_ClientRequest env h ev q v g = (cs, out, g')"
  shows "m_tbHanderIdUserMap g' = Map.empty \<and> m_tbRegisterEvent g' = m_tbRegisterEvent g
    \<and> (m_tbRequestSquence g' = Map.empty \<or> m_tbRequestSquence g' = m_tbRequestSquence g \<and> (\<exists>e. out = Inl e))"
proof -
  let ?g = "SetCurrentHandlerId (SNumber h) g"
  obtain cs1 out1 g1 where d: "DispatcherEvent env (center_callback env) ev v ?g = (cs1, out1, g1)"
    by (rule prod_cases3)
  have "m_tbHanderIdUserMap ?g = Map.empty" using assms(2) by (simp add: SetCurrentHandlerId_def)
  from Dispatcher_requests [OF d this] have same: "m_tbRequestSquence g1 = m_tbRequestSquence g"
      "m_tbHanderIdUserMap g1 = Map.empty" "m_tbRegisterEvent g1 = m_tbRegisterEvent g"
    using assms(2) by (simp_all add: same_requests_def SetCurrentHandlerId_def)
  note pop = pop_only [of g1 env h r, unfolded same(1), OF assms(1)]
  show ?thesis
  proof (cases out1)
    case (Inl e)
    have "lua_bind (DispatcherEvent env (center_callback env) ev v) k ?g = (cs1, Inl e, g1)" for k :: "_ \<Rightarrow> (_, _, unit) lua"
      by (rule lua_bind_Inl) (simp add: d Inl)
    then show ?thesis
      using assms(3) same by (auto simp: center_ClientRequest_def lua_exec)
  next
    case (Inr vs)
    have run: "lua_bind (DispatcherEvent env (center_callback env) ev v) k ?g =
        (case k vs g1 of (cs', out, g) \<Rightarrow> (cs1 @ cs', out, g))" for k :: "_ \<Rightarrow> (_, _, unit) lua"
      by (rule lua_bind_Inr) (simp add: d Inr)
    have send: "lua_bind (NetManager_SendToLogicServer env (\<lambda>c. c) a b c (SNumber h) e) k g1 =
        (case k () (g1\<lparr>m_tbRequestSquence := Map.empty\<rparr>) of (cs', out, g) \<Rightarrow>
          (SendToLogicServer (map to_lua [a, b, c, SNumber h, ret_text env e]) # cs', out, g))" for a b c e and k :: "_ \<Rightarrow> (_, _, unit) lua"
      by (simp add: pop NetManager_SendToLogicServer_def Let_def lua_bind_def lua_basic split: prod.split)
    show ?thesis
      using assms(3) same
      by (auto simp: center_ClientRequest_def lua_exec run first_result_def send concat_text_def split: if_splits)
  qed
qed

lemma OnClientRequest_idle:
  assumes idle: "center_idle env g" and run: "OnClientRequest env (center_ClientRequest env) h ev q s g = (cs, out, g')"
  shows "center_idle env g'"
proof -
  obtain cs1 out1 g1 where body: "OnClientRequest_body env (center_ClientRequest env) h ev q s g = (cs1, out1, g1)"
    by (rule prod_cases3)
  have g1: "m_tbHanderIdUserMap g1 = Map.empty \<and> m_tbRegisterEvent g1 = m_tbRegisterEvent g
      \<and> (m_tbRequestSquence g1 = Map.empty \<or>
         (\<exists>k r e. h = SNumber k \<and> m_tbRequestSquence g1 = [tostring env h \<mapsto> [r]] \<and> out1 = Inl e))"
  proof (cases "\<exists>k. h = SNumber k \<and> (\<exists>v r. m_tbRequestSquence g = Map.empty \<and>
      (\<exists>n m. center_ClientRequest env k n m v (g\<lparr>m_tbRequestSquence := [tostring env h \<mapsto> [r]]\<rparr>) = (cs1, out1, g1)))")
    case True
    then obtain k v r n m where k: "h = SNumber k"
      and c: "center_ClientRequest env k n m v (g\<lparr>m_tbRequestSquence := [tostring env h \<mapsto> [r]]\<rparr>) = (cs1, out1, g1)"
      by blast
    from ClientRequest_queue [OF _ _ c, of r] show ?thesis
      using idle k by (cases r) (auto simp: center_idle_def)
  next
    case False
    then have "g1 = g"
      using body idle
      by (auto simp: OnClientRequest_body_def concat_text_def decode_text_def lua_exec push_first center_idle_def
          split: if_splits script_value.splits option.splits)
    then show ?thesis using idle by (simp add: center_idle_def)
  qed
  show ?thesis
  proof (cases out1)
    case (Inr u)
    then have "g' = g1"
      using run body by (simp add: OnClientRequest_def lua_bind_def lua_xpcall_def lua_basic)
    then show ?thesis using g1 idle Inr by (auto simp: center_idle_def)
  next
    case (Inl e)
    obtain cs2 out2 g2 where pop: "PopRequestFromSquence env h g1 = (cs2 :: cnet_call list, out2, g2)"
      by (rule prod_cases3)
    have "g' = g2"
      using run body Inl pop by (cases out2) (simp_all add: OnClientRequest_def lua_bind_def lua_xpcall_def lua_basic)
    moreover have "center_idle env g2"
      using g1 idle pop pop_only [of g1 env]
      by (fastforce simp: center_idle_def PopRequestFromSquence_def lua_exec Let_def split: if_splits)
    ultimately show ?thesis by simp
  qed
qed

section \<open>The scripts in the process\<close>

text \<open>The value of a request that fails, for the stack of the engine.\<close>

lemma center_scripts_eq:
  "center_scripts env (LuaFunction (ascii ''OnClientRequest''))
       [LuaNumber h, LuaNumber ev, LuaNumber q, LuaString s] =
     lua_run env (OnClientRequest env (center_ClientRequest env) (SNumber h) (SNumber ev) (SNumber q) (SString s))"
  by (simp add: center_scripts_def Let_def param_def)

lemma center_call_engine: "center_call env c s = Inr s' \<Longrightarrow> lua_engine s' = lua_engine s"
  by (auto simp: center_call_def LuaNet_SendToServer_def LuaNet_SendToLogicServer_def LuaNet_SetServerTypeToHandlerId_def
      SetServerTypeToHandler_def CenterServer_TransferToClient_def Let_def bind_res_eq_Inr
      split: cnet_call.splits if_splits option.splits)

lemma script_call_state:
  assumes "script_call lua script api f args (e, s) = Inr (e', s')"
  shows "\<exists>cs out. script (LuaFunction (ascii f)) args (lua_state e) = (cs, out, lua_state e')"
proof -
  obtain calls out l where run: "script (LuaFunction (ascii f)) args (lua_state e) = (calls, out, l)"
    by (rule prod_cases3)
  then have "lua_state e' = l"
    using assms by (cases out) (auto simp: script_call_def bind_res_eq_Inr)
  with run show ?thesis by blast
qed

text \<open>The environment of a center whose scripts are these.\<close>

definition with_scripts :: "script_env \<Rightarrow> center_lua center_env \<Rightarrow> center_lua center_env" where
  "with_scripts senv env = env\<lparr>center_script := center_scripts senv\<rparr>"

lemma with_scripts_fields [simp]:
  "center_skip (with_scripts senv env) = center_skip env" "center_script (with_scripts senv env) = center_scripts senv"
  "center_lua (with_scripts senv env) = center_lua env" "package_mem (with_scripts senv env) = package_mem env"
  by (simp_all add: with_scripts_def)

definition idle_process :: "script_env \<Rightarrow> center_lua center \<Rightarrow> bool" where
  "idle_process senv s \<longleftrightarrow> center_idle senv (lua_state (lua_engine s))"

lemma center_packet_idle:
  assumes idle: "idle_process senv s" and p: "length p = unat n" and run: "center_packet (with_scripts senv env) h p n s = Inr s'"
  shows "idle_process senv s'"
proof -
  have n: "n = word_of_nat (length p)" "length p < 2 ^ 32" using p u32_bound [of n] by simp_all
  note eq = center_packet_eq [OF n(2), of "with_scripts senv env" h s, folded n(1)]
  show ?thesis
  proof (cases "\<exists>data. CenterServer_CallLua (with_scripts senv env) h (packet_event p) (data @ [0]) s = Inr s'")
    case True
    then obtain data e s1 where
      call: "script_call (center_lua env) (center_scripts senv) (center_call (with_scripts senv env)) ''OnClientRequest''
        [LuaNumber (int (unat h)), LuaNumber (int (unat (packet_event p))), LuaNumber 0,
         LuaString (takeWhile (\<lambda>b. b \<noteq> 0) data)] (lua_engine s, s) = Inr (e, s1)" and s': "s' = s1\<lparr>lua_engine := e\<rparr>"
      by (auto simp: CenterServer_CallLua_def CallLua_eq Let_def bind_res_eq_Inr)
    from script_call_state [OF call] obtain cs out where
      "center_scripts senv (LuaFunction (ascii ''OnClientRequest''))
        [LuaNumber (int (unat h)), LuaNumber (int (unat (packet_event p))), LuaNumber 0,
         LuaString (takeWhile (\<lambda>b. b \<noteq> 0) data)] (lua_state (lua_engine s)) = (cs, out, lua_state e)" by blast
    then show ?thesis
      using OnClientRequest_idle idle s'
      by (auto simp: center_scripts_eq lua_run_def idle_process_def split: prod.splits)
  next
    case False
    then have "s' = s \<or> (\<exists>c. s' = uv_do (UvWrite c p) s)"
      using run eq by (auto split: if_splits option.splits)
    then show ?thesis using idle by (auto simp: idle_process_def)
  qed
qed

interpretation idle: packet_handler "center_packet (with_scripts senv env) h" "idle_process senv" for senv env h
  by unfold_locales (rule center_packet_idle)

text \<open>The requests of one packet never reach into the next one, in every reachable state.\<close>

lemma center_step_idle:
  assumes step: "center_step (with_scripts senv env) reads (s, alloc) (s', alloc')"
    and ok: "center_ok e alloc s" and idle: "idle_process senv s"
  shows "idle_process senv s'"
  using step
proof (cases rule: center_step.cases)
  case (center_connection key junk_id status accept)
  then have "lua_engine s' = lua_engine s"
    by (auto simp: CenterServer_OnNewConnection_def AddSession_def Let_def uv_do_def split: if_splits)
  then show ?thesis using idle by (simp add: idle_process_def)
next
  case (center_read stale mem client uRead base)
  then show ?thesis
  proof (cases "open_sessions s client")
    case (Some session)
    then have "pk_sized (m_pRecvPacket session)" using ok by (auto simp: center_ok_def)
    then show ?thesis
      using center_read(3) Some idle idle.process_inv [of senv s "m_pRecvPacket session" mem env "m_uHandlerId session"]
      by (fastforce simp: CenterServer_OnMsgRecv_def CenterServerProcessNetData_def bind_res_eq_Inr
          CenterServer_RemoveClient_def idle_process_def uv_do_def Let_def split: if_splits option.splits)
  qed (use idle in \<open>auto simp: CenterServer_OnMsgRecv_def idle_process_def uv_do_def\<close>)
next
  case (center_close handle)
  then show ?thesis using idle by (simp add: CenterServer_OnConnectionClose_def idle_process_def)
qed

text \<open>The state of the process when its scripts are loaded, and what it reaches.\<close>

definition center_start :: "script_env \<Rightarrow> center_lua center" where
  "center_start senv = CenterServer_new \<lparr>lua_stack = [], lua_state = center_lua_new senv\<rparr>"

lemma reachable_idle:
  assumes "(center_step (with_scripts senv env) reads)\<^sup>*\<^sup>* (center_start senv, {}) (s, alloc)"
  shows "idle_process senv s"
proof -
  have "idle_process senv (fst x) \<and> center_ok (exact_reads reads) (snd x) (fst x)"
    if "(center_step (with_scripts senv env) reads)\<^sup>*\<^sup>* (center_start senv, {}) x" for x
    using that
  proof (induction rule: rtranclp_induct)
    case base
    then show ?case
      using center_idle_new center_ok_new
      by (simp add: center_start_def idle_process_def) (simp add: CenterServer_new_def tcp_base_server.defs)
  next
    case (step y z)
    then show ?case
      using center_step_idle [of senv env reads "fst y" "snd y" "fst z" "snd z" "exact_reads reads"]
        center_step_ok [of "with_scripts senv env" reads "fst y" "snd y" "fst z" "snd z"] by simp
  qed
  from this [OF assms] show ?thesis by simp
qed

section \<open>Registration\<close>

lemma OnClientRequest_register:
  assumes idle: "center_idle env g" and event: "USER_DISCONNECT env \<noteq> CENTER_SERVER_REGISTER"
    and json: "json_decode env s = Some (STable [SString ip, SNumber port, SNumber t])"
    and ok: "SYSTEM_OK env = SNumber ok"
  shows "OnClientRequest env (center_ClientRequest env) (SNumber h) (SNumber CENTER_SERVER_REGISTER) (SNumber q) (SString s) g =
    ([SetServerTypeToHandlerId [LuaNumber t, LuaNumber h],
      SendToLogicServer [LuaNumber q, LuaNumber CENTER_SERVER_REGISTER, LuaNumber ok, LuaNumber h,
        LuaString (json_encode env (STable []))]],
     Inr SNil,
     g\<lparr>m_nCurrentHandlerId := SNumber h,
       tbServerMap := (tbServerMap g)(tostring env (SNumber t) \<mapsto> (SString ip, SNumber port))\<rparr>)"
proof -
  have ev: "m_tbRegisterEvent g CENTER_SERVER_REGISTER = Some RegisterHandler" "m_tbRequestSquence g = Map.empty"
    using idle event by (simp_all add: center_idle_def center_lua_new_def Register_def)
  define g1 where "g1 = g\<lparr>m_tbRequestSquence := [tostring env (SNumber h) \<mapsto> [(q, STable [SString ip, SNumber port, SNumber t])]],
    m_nCurrentHandlerId := SNumber h\<rparr>"
  define g2 where "g2 = SetServer env (SString ip) (SNumber port) (SNumber t) g1"
  have "DispatcherEvent env (center_callback env) CENTER_SERVER_REGISTER (STable [SString ip, SNumber port, SNumber t]) g1 =
      ([SetServerTypeToHandlerId [LuaNumber t, LuaNumber h]], Inr [SNumber ok], g2)"
    using ev ok
    by (simp add: DispatcherEvent_def unpack_def lua_exec center_callback_def RegisterProtocol_def RegisterServer_def
        NetManager_SetServerTypeToHandlerId_def param_def g1_def g2_def SetServer_def)
  note dispatch = lua_bind_Inr [where m = "DispatcherEvent env (center_callback env) CENTER_SERVER_REGISTER
      (STable [SString ip, SNumber port, SNumber t])", OF this]
  have q: "m_tbRequestSquence g2 = [tostring env (SNumber h) \<mapsto> [(q, STable [SString ip, SNumber port, SNumber t])]]"
    by (simp add: g2_def g1_def SetServer_def)
  note pop = lua_bind_Inr [where m = "PopRequestFromSquence env (SNumber h)", OF pop_only [OF q]]
  have send: "NetManager_SendToLogicServer env (\<lambda>c. c) (SNumber q) (SNumber CENTER_SERVER_REGISTER) (SNumber ok) (SNumber h)
      (STable []) g2 =
      ([SendToLogicServer [LuaNumber q, LuaNumber CENTER_SERVER_REGISTER, LuaNumber ok, LuaNumber h,
        LuaString (json_encode env (STable []))]], Inr (), g2\<lparr>m_tbRequestSquence := Map.empty\<rparr>)"
    by (simp add: NetManager_SendToLogicServer_def pop lua_basic Let_def ret_text_def truthy_def)
  note send = lua_bind_Inr [where m = "NetManager_SendToLogicServer env (\<lambda>c. c) (SNumber q) (SNumber CENTER_SERVER_REGISTER)
      (SNumber ok) (SNumber h) (STable [])", OF send]
  have "OnClientRequest_body env (center_ClientRequest env) (SNumber h) (SNumber CENTER_SERVER_REGISTER) (SNumber q) (SString s) g =
      center_ClientRequest env h CENTER_SERVER_REGISTER q (STable [SString ip, SNumber port, SNumber t])
        (g\<lparr>m_tbRequestSquence := [tostring env (SNumber h) \<mapsto> [(q, STable [SString ip, SNumber port, SNumber t])]]\<rparr>)"
    using json ev(2) by (simp add: OnClientRequest_body_def concat_text_def decode_text_def lua_exec tostring_def push_first)
  also have "\<dots> = ([SetServerTypeToHandlerId [LuaNumber t, LuaNumber h],
      SendToLogicServer [LuaNumber q, LuaNumber CENTER_SERVER_REGISTER, LuaNumber ok, LuaNumber h,
        LuaString (json_encode env (STable []))]], Inr (), g2\<lparr>m_tbRequestSquence := Map.empty\<rparr>)"
    by (simp add: center_ClientRequest_def lua_exec SetCurrentHandlerId_def dispatch [unfolded g1_def] first_result_def
        param_def send concat_text_def)
  finally show ?thesis
    using ev(2) by (simp add: OnClientRequest_def lua_bind_def lua_xpcall_def lua_basic g2_def g1_def SetServer_def)
qed

lemma lua_reads_plain: "lua_reads plain_lua"
  by (simp add: lua_reads_def plain_lua_def)

text \<open>The calls of the registration in the process: the type is registered and the answer is written.\<close>

lemma register_calls:
  assumes lua: "lua_reads (center_lua env)" and ok: "0 \<le> ok" "ok < 2 ^ 32"
    and str: "0 \<notin> set str" "length str < 2 ^ 31" and conn: "GetHandlerById i s = Some conn"
  shows "run_calls (center_call env)
      [SetServerTypeToHandlerId [LuaNumber (int (unat t)), LuaNumber (int (unat i))],
       SendToLogicServer [LuaNumber 0, LuaNumber CENTER_SERVER_REGISTER, LuaNumber ok, LuaNumber (int (unat i)), LuaString str]] s =
    Inr (uv_do (UvWrite conn (net_package 3001 (word_of_int ok) i 0 0 str)) (SetServerTypeToHandler t i s))"
proof -
  have n: "lua_tonumber (center_lua env) (LuaNumber 0) = 0"
      "lua_tonumber (center_lua env) (LuaNumber CENTER_SERVER_REGISTER) = 3001"
      "lua_tonumber (center_lua env) (LuaNumber ok) = word_of_int ok"
    using lua_reads_number(2) [OF lua] ok by (simp_all add: CENTER_SERVER_REGISTER_def)
  have "GetHandlerById i (SetServerTypeToHandler t i s) = Some conn"
    using conn by (simp add: SetServerTypeToHandler_def GetHandlerById_def)
  then show ?thesis
    using CreateNetPackage_eq [OF str(2)]
    by (simp add: center_call_def LuaNet_SetServerTypeToHandlerId_def LuaNet_SendToLogicServer_def Let_def n
        lua_reads_number [OF lua] lua_string_ok [OF lua_reads_number(3) [OF lua] str(1)] CenterServer_TransferToClient_def)
qed

section \<open>Properties\<close>

text \<open>C3: a server makes itself reachable. With the scripts of the center, in every reachable state: the
  packet that a process sends when its connection to the center is up stores its address in the
  script, which answers it to the same connection. If no server of its type was registered before,
  packets for that type are from then on written unchanged to this connection. If one was, the
  registration changes nothing: they go to the connection that registered the type first, or are
  dropped when this is lost. The JSON library is assumed to decode the text of the registration into its
  three values; nothing of a packet was received before on the connection, and the address of the
  server fits the buffer of the registration.\<close>

theorem center_registers_servers:
  assumes server: "g_pCenterLogicClient s = Some c" "c_string (peek (client_m_ip c)) = Inr ip"
      "length ip + length (fmt_int (m_nServerType c)) \<le> 87"
    and reach: "(center_step (with_scripts senv env) reads)\<^sup>*\<^sup>* (center_start senv, {}) (k, alloc)"
    and conn: "GetHandlerById i k = Some conn" "open_sessions k conn = Some session" "pk_ok (m_pRecvPacket session) []"
    and json: "json_decode senv (register_text ip (m_nServerType c)) =
        Some (STable [SString ip, SNumber 8001, SNumber (int (unat (m_nServerType c)))])"
      "0 \<notin> set (json_encode senv (STable []))" "length (json_encode senv (STable [])) < 2 ^ 31"
    and codes: "SYSTEM_OK senv = SNumber ok" "0 \<le> ok" "ok < 2 ^ 32" "USER_DISCONNECT senv \<noteq> CENTER_SERVER_REGISTER"
    and lua: "lua_reads (center_lua env)"
  shows "\<exists>s1 k1.
    CenterClient_OnConnect mem mem2 peek handle 0 s = Inr s1 \<and>
    uv_calls s1 = uv_calls s @ [UvReadStart handle, UvWrite (client_m_client c) (register_packet ip (m_nServerType c))] \<and>
    CenterServer_OnMsgRecv mem3 stale (with_scripts senv env) conn (int (length (register_packet ip (m_nServerType c))))
      (register_packet ip (m_nServerType c)) k = Inr k1 \<and>
    uv_calls k1 = uv_calls k @ [UvWrite conn (net_package 3001 (word_of_int ok) i 0 0 (json_encode senv (STable [])))] \<and>
    tbServerMap (lua_state (lua_engine k1)) (fmt_nat (unat (m_nServerType c))) = Some (SString ip, SNumber 8001) \<and>
    (\<forall>p h. 20 \<le> length p \<longrightarrow> length p < 2 ^ 32 \<longrightarrow> center_legal env p \<longrightarrow> packet_server p \<noteq> server_id CENTER \<longrightarrow>
       ucast (packet_server p) = m_nServerType c \<longrightarrow>
       center_packet (with_scripts senv env) h p (word_of_nat (length p)) k1 =
         Inr (case m_mapServerTypeToHandler k (m_nServerType c) of
                None \<Rightarrow> uv_do (UvWrite conn p) k1
              | Some j \<Rightarrow> (case GetHandlerById j k of None \<Rightarrow> k1 | Some first \<Rightarrow> uv_do (UvWrite first p) k1)))"
proof -
  let ?t = "register_text ip (m_nServerType c)" and ?e = "with_scripts senv env"
  let ?reg = "register_packet ip (m_nServerType c)"
  have id: "m_uHandlerId session = i" using hub.owner_of_id [OF reach [unfolded center_start_def] conn(1)] conn(2) by auto
  have s1: "CenterClient_OnConnect mem mem2 peek handle 0 s =
      Inr (uv_do (UvWrite (client_m_client c) ?reg) (uv_do (UvReadStart handle) s))" (is "_ = Inr ?s1")
    by (rule OnConnect_registers) (rule server)+
  note reg = register_packet_facts [OF c_string_no_nul [OF server(2)] server(3)]
  have idle: "center_idle senv (lua_state (lua_engine k))"
    using reachable_idle [OF reach] by (simp add: idle_process_def)
  define k' where "k' = uv_do (UvWrite conn (net_package 3001 (word_of_int ok) i 0 0 (json_encode senv (STable []))))
    (SetServerTypeToHandler (m_nServerType c) i k)"
  define l where "l = (lua_state (lua_engine k))\<lparr>m_nCurrentHandlerId := SNumber (int (unat i)),
    tbServerMap := (tbServerMap (lua_state (lua_engine k)))
      (fmt_nat (unat (m_nServerType c)) \<mapsto> (SString ip, SNumber 8001))\<rparr>"
  have "center_scripts senv (LuaFunction (ascii ''OnClientRequest''))
      [LuaNumber (int (unat i)), LuaNumber CENTER_SERVER_REGISTER, LuaNumber 0, LuaString ?t] (lua_state (lua_engine k)) =
      ([SetServerTypeToHandlerId [LuaNumber (int (unat (m_nServerType c))), LuaNumber (int (unat i))],
        SendToLogicServer [LuaNumber 0, LuaNumber CENTER_SERVER_REGISTER, LuaNumber ok, LuaNumber (int (unat i)),
          LuaString (json_encode senv (STable []))]], Inr LuaNil, l)"
    unfolding center_scripts_eq lua_run_def OnClientRequest_register [OF idle codes(4) json(1) codes(1)]
    by (simp add: l_def tostring_id [simplified])
  moreover have "run_calls (center_call ?e)
      [SetServerTypeToHandlerId [LuaNumber (int (unat (m_nServerType c))), LuaNumber (int (unat i))],
       SendToLogicServer [LuaNumber 0, LuaNumber CENTER_SERVER_REGISTER, LuaNumber ok, LuaNumber (int (unat i)),
          LuaString (json_encode senv (STable []))]] k = Inr k'"
    using register_calls [of ?e ok "json_encode senv (STable [])" i k conn] lua codes(2,3) json(2,3) conn(1)
    by (simp add: k'_def)
  ultimately have "script_call (center_lua ?e) (center_scripts senv) (center_call ?e) ''OnClientRequest''
      [LuaNumber (int (unat i)), LuaNumber CENTER_SERVER_REGISTER, LuaNumber 0, LuaString ?t] (lua_engine k, k) =
      Inr ((lua_engine k)\<lparr>lua_state := l\<rparr>, k')"
    by (simp add: script_call_def)
  then have "CenterServer_CallLua ?e i 3001 (?t @ [0]) k = Inr (k'\<lparr>lua_engine := (lua_engine k)\<lparr>lua_state := l\<rparr>\<rparr>)"
    by (simp add: CenterServer_CallLua_def CallLua_eq reg(5) CENTER_SERVER_REGISTER_def)
  then have pkt: "center_packet ?e (m_uHandlerId session) ?reg (word_of_nat (length ?reg)) k =
      Inr (k'\<lparr>lua_engine := (lua_engine k)\<lparr>lua_state := l\<rparr>\<rparr>)"
    using reg(2) id by (simp add: center_packet_eq [OF reg(3)] reg(4,6,7))
  obtain pk where k1: "CenterServer_OnMsgRecv mem3 stale ?e conn (int (length ?reg)) ?reg k =
      Inr (k'\<lparr>lua_engine := (lua_engine k)\<lparr>lua_state := l\<rparr>,
        open_sessions := (open_sessions k')(conn \<mapsto> session\<lparr>m_pRecvPacket := pk\<rparr>)\<rparr>)" (is "_ = Inr ?k1")
    using center_reads_one [OF conn(2,3) reg(1,2) pkt] by auto
  have route: "GetServerTypeToHandler (m_nServerType c) ?k1 =
      (case m_mapServerTypeToHandler k (m_nServerType c) of None \<Rightarrow> i | Some j \<Rightarrow> j)"
    "GetHandlerById j ?k1 = GetHandlerById j k" for j
    by (simp_all add: k'_def uv_do_def GetServerTypeToHandler_def SetServerTypeToHandler_def map_insert_def GetHandlerById_def
        split: option.split)
  have "center_packet ?e h p (word_of_nat (length p)) ?k1 =
      Inr (case m_mapServerTypeToHandler k (m_nServerType c) of
             None \<Rightarrow> uv_do (UvWrite conn p) ?k1
           | Some j \<Rightarrow> (case GetHandlerById j k of None \<Rightarrow> ?k1 | Some first \<Rightarrow> uv_do (UvWrite first p) ?k1))"
    if "20 \<le> length p" "length p < 2 ^ 32" "center_legal env p" "packet_server p \<noteq> server_id CENTER"
      "ucast (packet_server p) = m_nServerType c" for p h
  proof -
    have "center_packet ?e h p (word_of_nat (length p)) ?k1 =
        Inr (case GetHandlerById (GetServerTypeToHandler (ucast (packet_server p)) ?k1) ?k1 of
               None \<Rightarrow> ?k1 | Some c \<Rightarrow> uv_do (UvWrite c p) ?k1)"
      using that(1,3,4) by (auto simp: center_packet_eq [OF that(2)] center_legal_def)
    then show ?thesis
      unfolding that(5) route using conn(1) by (simp split: option.split)
  qed
  moreover have "uv_calls ?k1 = uv_calls k @ [UvWrite conn (net_package 3001 (word_of_int ok) i 0 0 (json_encode senv (STable [])))]"
    by (simp add: k'_def uv_do_def SetServerTypeToHandler_def)
  ultimately show ?thesis
    using s1 k1 by (intro exI [of _ ?s1] exI [of _ ?k1] conjI) (simp_all add: l_def)
qed

text \<open>A center with its scripts and one connection, and the logic process that registers.\<close>

definition demo_senv :: script_env where
  "demo_senv = \<lparr>json_decode = (\<lambda>s. if s = register_text [49] 2 then Some (STable [SString [49], SNumber 8001, SNumber 2]) else None),
     json_encode = (\<lambda>_. [91, 93]), other_text = (\<lambda>_. []), error_text = (\<lambda>_. [101]),
     USER_DISCONNECT = 4001, SYSTEM_OK = SNumber 0, PARAMTER_ERROR = SNumber 1, EVENT_ID_ERROR = SNumber 2,
     SERVER_TYPE_DEF = (\<lambda>t. int (unat (server_id t)))\<rparr>"

definition demo_scripted_env :: "center_lua center_env" where
  "demo_scripted_env = \<lparr>center_skip = (\<lambda>_ _. None), center_script = center_scripts demo_senv, center_lua = plain_lua,
     package_mem = (\<lambda>_. 0)\<rparr>"

definition demo_scripted :: "center_lua center" where
  "demo_scripted = (center_start demo_senv)
     \<lparr>m_nSessionId := 1, open_sessions := [7 \<mapsto> \<lparr>m_uHandlerId = 1, m_pRecvPacket = KG_CreateCommonPackage\<rparr>],
      m_id_to_handler_map := [1 \<mapsto> 7], m_hander_to_id_map := [7 \<mapsto> 1], uv_calls := [UvReadStart 7]\<rparr>"

lemma demo_scripted_facts:
  "GetHandlerById 1 demo_scripted = Some 7" "m_mapServerTypeToHandler demo_scripted t = None"
  "open_sessions demo_scripted 7 = Some \<lparr>m_uHandlerId = 1, m_pRecvPacket = KG_CreateCommonPackage\<rparr>"
  "uv_calls demo_scripted = [UvReadStart 7]"
  "center_skip demo_scripted_env = (\<lambda>_ _. None)" "center_lua demo_scripted_env = plain_lua"
  by (simp_all add: demo_scripted_def GetHandlerById_def demo_scripted_env_def)
     (simp add: center_start_def CenterServer_new_def tcp_base_server.defs)

lemma demo_scripted_reachable:
  "(center_step (with_scripts demo_senv env) reads)\<^sup>*\<^sup>* (center_start demo_senv, {}) (demo_scripted, {7})"
proof -
  have "CenterServer_OnNewConnection 7 0 0 0 (center_start demo_senv) = Inr demo_scripted"
    by (simp add: CenterServer_OnNewConnection_def AddSession_def Let_def uv_do_def demo_scripted_def center_start_def
        CenterServer_new_def TCPBaseServer_new_def tcp_base_server.defs SetHandlerId_def TCPSession_new_def)
  then have "center_step (with_scripts demo_senv env) reads (center_start demo_senv, {}) (demo_scripted, insert 7 {})"
    by (intro center_step.center_connection) simp_all
  then show ?thesis by auto
qed

theorem center_registers_servers_witness:
  "\<exists>s1 k1 reg.
    CenterClient_OnConnect (\<lambda>_. 0) (\<lambda>_. 0) (\<lambda>_. [49, 0]) 20 0 (demo_logic\<lparr>g_pCenterLogicClient := Some demo_center_client\<rparr>)
      = Inr s1 \<and>
    uv_calls s1 = [UvReadStart 20, UvWrite 20 reg] \<and>
    CenterServer_OnMsgRecv (\<lambda>_ _. 0) (\<lambda>v. v) (with_scripts demo_senv demo_scripted_env) 7 (int (length reg)) reg demo_scripted = Inr k1 \<and>
    uv_calls k1 = [UvReadStart 7, UvWrite 7 (net_package 3001 0 1 0 0 [91, 93])] \<and>
    center_packet (with_scripts demo_senv demo_scripted_env) 1 demo_transfer 24 k1 = Inr (uv_do (UvWrite 7 demo_transfer) k1)"
proof -
  have f: "fmt_int 2 = [50]" by (simp add: fmt_int_def fmt_nat.simps)
  have legal: "center_legal demo_scripted_env demo_transfer"
    by (simp add: center_legal_def demo_transfer_facts)
  obtain s1 k1 where
    "CenterClient_OnConnect (\<lambda>_. 0) (\<lambda>_. 0) (\<lambda>_. [49, 0]) 20 0 (demo_logic\<lparr>g_pCenterLogicClient := Some demo_center_client\<rparr>)
      = Inr s1" "uv_calls s1 = [UvReadStart 20, UvWrite 20 (register_packet [49] 2)]"
    "CenterServer_OnMsgRecv (\<lambda>_ _. 0) (\<lambda>v. v) (with_scripts demo_senv demo_scripted_env) 7
      (int (length (register_packet [49] 2))) (register_packet [49] 2) demo_scripted = Inr k1"
    "uv_calls k1 = [UvReadStart 7, UvWrite 7 (net_package 3001 0 1 0 0 [91, 93])]"
    "\<And>p h. 20 \<le> length p \<Longrightarrow> length p < 2 ^ 32 \<Longrightarrow> center_legal demo_scripted_env p \<Longrightarrow>
       packet_server p \<noteq> server_id CENTER \<Longrightarrow> ucast (packet_server p) = (2 :: u32) \<Longrightarrow>
       center_packet (with_scripts demo_senv demo_scripted_env) h p (word_of_nat (length p)) k1 = Inr (uv_do (UvWrite 7 p) k1)"
    using center_registers_servers [of "demo_logic\<lparr>g_pCenterLogicClient := Some demo_center_client\<rparr>" demo_center_client
        "\<lambda>_. [49, 0]" "[49]" demo_senv demo_scripted_env "{\<lambda>v. v}" demo_scripted "{7}" 1 7
        "\<lparr>m_uHandlerId = 1, m_pRecvPacket = KG_CreateCommonPackage\<rparr>" 0 "\<lambda>_. 0" "\<lambda>_. 0" 20 "\<lambda>_ _. 0" "\<lambda>v. v"]
      lua_reads_plain demo_scripted_reachable
    by (auto simp: f c_string_def demo_scripted_facts pk_ok_create demo_senv_def CENTER_SERVER_REGISTER_def)
  from this(1-4) this(5) [of demo_transfer 1] show ?thesis
    using legal by (intro exI [of _ s1] exI [of _ k1] exI [of _ "register_packet [49] 2"]) (simp add: demo_transfer_facts)
qed

text \<open>C24: a packet for the center whose text is not JSON changes nothing but the stack of the engine,
  which keeps one more value for ever: the error in \<^verbatim>\<open>json.decode\<close> is caught, but the handling of it
  takes a request from a queue that is not there, and this second error ends the call.\<close>

theorem malformed_text_fills_the_stack:
  assumes reach: "(center_step (with_scripts senv env) reads)\<^sup>*\<^sup>* (center_start senv, {}) (k, alloc)"
    and p: "20 \<le> length p" "length p < 2 ^ 32" "packet_server p = server_id CENTER"
      "ParseFromArray (center_skip env) (drop 20 p) = Some data"
    and json: "json_decode senv (takeWhile (\<lambda>b. b \<noteq> 0) data) = None"
    and lua: "lua_reads (center_lua env)"
  shows "center_packet (with_scripts senv env) h p (word_of_nat (length p)) k =
    Inr (k\<lparr>lua_engine := (lua_engine k)\<lparr>lua_stack := LuaString (error_text senv BadArgument) # lua_stack (lua_engine k)\<rparr>\<rparr>)"
proof -
  let ?s = "takeWhile (\<lambda>b. b \<noteq> 0) data"
  have "m_tbRequestSquence (lua_state (lua_engine k)) = Map.empty"
    using reachable_idle [OF reach] by (simp add: idle_process_def center_idle_def)
  then have none: "m_tbRequestSquence (lua_state (lua_engine k)) (tostring senv (SNumber n)) = None" for n by simp
  have "script_call (center_lua (with_scripts senv env)) (center_scripts senv) (center_call (with_scripts senv env))
      ''OnClientRequest'' [LuaNumber (int (unat h)), LuaNumber (int (unat (packet_event p))), LuaNumber 0, LuaString ?s]
      (lua_engine k, k) =
    Inr ((lua_engine k)\<lparr>lua_stack := LuaString (error_text senv BadArgument) # lua_stack (lua_engine k)\<rparr>, k)"
    by (simp add: script_call_def center_scripts_eq lua_run_def OnClientRequest_bad [OF json none] lua_reads_number(3) [OF lua])
  then show ?thesis
    using p by (simp add: center_packet_eq [OF p(2)] CenterServer_CallLua_def CallLua_eq)
qed

definition demo_garbage :: bytes where
  "demo_garbage = net_package 1 0 0 0 0 [123]"

theorem malformed_text_fills_the_stack_witness:
  "center_packet (with_scripts demo_senv demo_scripted_env) 1 demo_garbage (word_of_nat (length demo_garbage)) demo_scripted =
    Inr (demo_scripted\<lparr>lua_engine := (lua_engine demo_scripted)\<lparr>lua_stack := LuaString [101] # lua_stack (lua_engine demo_scripted)\<rparr>\<rparr>)"
proof -
  have g: "packet_server demo_garbage = server_id CENTER" "20 \<le> length demo_garbage" "length demo_garbage < 2 ^ 32"
    using net_package_fields(2,5) good_packet_bound [OF good_packet_net_package [of "[123]"]]
    by (simp_all add: demo_garbage_def)
  have data: "ParseFromArray (center_skip demo_scripted_env) (drop 20 demo_garbage) = Some [123]"
    using pb.parse_ser [of "[123]"] by (simp add: demo_garbage_def net_package_fields)
  show ?thesis
    using malformed_text_fills_the_stack [OF demo_scripted_reachable g(2,3,1) data]
    by (simp add: demo_senv_def register_text_def demo_scripted_facts lua_reads_plain)
qed

end
