(* ===== verification/ScriptedLogic.thy ===== *)
theory ScriptedLogic
  imports LogicScript CenterScript
begin

text \<open>
  The logic process with its scripts: what requests of players and responses of redis do, followed
  from the packet through \<^verbatim>\<open>OnClientRequest\<close>, the sessions, the registered method and
  \<^verbatim>\<open>SendToGateway\<close> to the packet that is written.
\<close>

section \<open>The scripts in the process\<close>

definition scripted :: "'e logic_consts_scheme \<Rightarrow> ('h, 'z) logic_modules \<Rightarrow> ('h, 'z) logic_lua_scheme logic_env
    \<Rightarrow> ('h, 'z) logic_lua_scheme logic_env" where
  "scripted cenv M env = env\<lparr>logic_script := logic_scripts cenv M\<rparr>"

lemma scripted_fields [simp]:
  "logic_script (scripted cenv M env) = logic_scripts cenv M" "logic_skip (scripted cenv M env) = logic_skip env"
  "logic_lua (scripted cenv M env) = logic_lua env" "logic_mem (scripted cenv M env) = logic_mem env"
  "logic_redis (scripted cenv M env) = logic_redis env"
  by (simp_all add: scripted_def)

lemma logic_scripts_request:
  "logic_scripts env M (LuaFunction (ascii ''OnClientRequest'')) [LuaNumber h, LuaNumber ev, LuaNumber q, LuaString s] =
     lua_run env (OnClientRequest env (logic_ClientRequest env M) (SNumber h) (SNumber ev) (SNumber q) (SString s))"
  by (simp add: logic_scripts_def Let_def param_def)

lemma logic_scripts_response:
  "logic_scripts env M (LuaFunction (ascii ''OnRedisRespone'')) [LuaNumber a, LuaNumber u, LuaNumber ev, LuaString s] =
     lua_run env (logic_OnRedisRespone env M (SNumber a) (SNumber u) (SNumber ev) (SString s))"
  by (simp add: logic_scripts_def Let_def param_def ascii_def)

text \<open>A packet of a gateway, by the run of the script.\<close>

lemma packet_runs_script:
  assumes p: "20 \<le> length p" "length p < 2 ^ 32" "ParseFromArray (logic_skip env) (drop 20 p) = Some data"
      "packet_handler_id p = h" "int (unat (packet_event_type p)) = ev"
    and run: "OnClientRequest cenv (logic_ClientRequest cenv M) (SNumber (int (unat h)))
      (SNumber ev) (SNumber (int (unat (packet_sequence p))))
      (SString (takeWhile (\<lambda>b. b \<noteq> 0) data)) (lua_state (logic_engine s)) = (cs, Inr v, l)"
    and calls: "run_calls (logic_api (scripted cenv M env)) cs s = Inr s1"
  shows "logic_packet (scripted cenv M env) (server_id GATEWAY) p (word_of_nat (length p)) s =
    Inr (s1\<lparr>logic_engine := (logic_engine s)\<lparr>lua_state := l\<rparr>\<rparr>)"
proof -
  have "with_engine (script_call (logic_lua env) (logic_scripts cenv M) (logic_api (scripted cenv M env)) ''OnClientRequest''
      (request_args p data)) s = Inr (s1\<lparr>logic_engine := (logic_engine s)\<lparr>lua_state := l\<rparr>\<rparr>)"
    unfolding with_engine_def script_call_def request_args_def p(4,5)
    by (simp add: logic_scripts_request [simplified] run [simplified] lua_run_def calls)
  then show ?thesis
    using p by (simp add: logic_packet_eq [OF p(2)])
qed

section \<open>A request of a user\<close>

text \<open>The state in which the registered method runs.\<close>

definition method_state ::
  "'e script_env_scheme \<Rightarrow> int \<Rightarrow> int \<Rightarrow> script_value \<Rightarrow> script_value \<Rightarrow> ('h, 'z) logic_lua_scheme \<Rightarrow> ('h, 'z) logic_lua_scheme" where
  "method_state env h q v u l =
     (let l1 = SetCurrentHandlerId (SNumber h) (PushRequestToSquence env (SNumber h) q v l) in
      l1\<lparr>m_objCurrentUser := GetUserObject env u l1\<rparr>)"

lemma SendToGateway_first:
  assumes "m_tbRequestSquence g (tostring env (SNumber h)) = Some (r # q)"
    and "SERVER_TYPE_DEF env CENTER \<le> SERVER_TYPE_DEF env GATEWAY"
  shows "SendToGateway env net (SNumber a) (SNumber ev) err (SNumber h) (STab vs fs) g =
    ([net (SendToServer [LuaNumber (SERVER_TYPE_DEF env GATEWAY), LuaNumber a, LuaNumber ev, to_lua err, LuaNumber h,
        LuaString (json_encode env (STab vs fs))])], Inr (),
     g\<lparr>m_tbRequestSquence := (m_tbRequestSquence g)(tostring env (SNumber h) := if q = [] then None else Some q)\<rparr>)"
  using assms
  by (simp add: SendToGateway_def PopRequestFromSquence_def NetManager_SendToServer_def ret_text_def truthy_def Let_def
      lua_bind_def lua_basic)

text \<open>The event of an answer: that of the request, or the one that stands for it in the map of events.\<close>

definition answered_event :: "'e logic_consts_scheme \<Rightarrow> int \<Rightarrow> int" where
  "answered_event env ev = (case ASYNC_EVENT_MAP_TO_SOURCE_EVENT env ev of None \<Rightarrow> ev | Some e \<Rightarrow> e)"

text \<open>The type of the server that an answer goes to.\<close>

definition answered_server :: "'e logic_consts_scheme \<Rightarrow> script_value \<Rightarrow> server_type" where
  "answered_server env err = (if err = LOGIC_TO_ROOM_SERVER env then ROOM else GATEWAY)"

text \<open>The oldest pending request of a connection, taken from its queue.\<close>

definition drop_request :: "bytes \<Rightarrow> ('h, 'z) script_globals_scheme \<Rightarrow> ('h, 'z) script_globals_scheme" where
  "drop_request key g = g\<lparr>m_tbRequestSquence := (m_tbRequestSquence g)
     (key := (case m_tbRequestSquence g key of Some (r # r' # q) \<Rightarrow> Some (r' # q) | _ \<Rightarrow> None))\<rparr>"

lemma logic_respond_calls:
  assumes "err \<noteq> ASYN_EVENT env \<Longrightarrow> m_tbRequestSquence g (tostring env (SNumber h)) = Some (r # q)"
    and types: "\<forall>t. SERVER_TYPE_DEF env t = int (unat (server_id t))"
  shows "logic_respond env h ev sq (err # rets) g =
    (if err = ASYN_EVENT env then ([], Inr (), g)
     else ([CNet (SendToServer [LuaNumber (SERVER_TYPE_DEF env (answered_server env err)), LuaNumber sq,
         LuaNumber (answered_event env ev), to_lua err, LuaNumber h, LuaString (json_encode env (STable rets))])],
       Inr (), drop_request (tostring env (SNumber h)) g))"
  using assms(1) types [THEN spec, of CENTER] types [THEN spec, of ROOM] types [THEN spec, of GATEWAY]
  by (auto simp: answered_event_def logic_respond_def first_result_def param_def Let_def SendToGateway_def SendToRoomServerFromLogic_def
      PopRequestFromSquence_def NetManager_SendToServer_def ret_text_def truthy_def lua_bind_def lua_basic
      answered_server_def drop_request_def split: option.split list.split)

lemma OnClientRequest_method:
  assumes json: "json_decode env s = Some (STab vs fs)"
    and ev: "ev \<noteq> ENTER_GAME env" "ev \<noteq> USER_DISCONNECT env" "m_tbRegisterEvent l ev = Some (GameMethod k)"
    and user: "NetManager_GetUserId env h l = SNumber u"
    and handled: "game_method M k vs (method_state env h q (STab vs fs) (SNumber u) l) = (cs, Inr (err # rets), l2)"
      "logic_respond env h ev q (err # rets) l2 = (as, Inr (), l3)" "UserManager_Commit env M l3 = (ds, Inr (), l4)"
  shows "OnClientRequest env (logic_ClientRequest env M) (SNumber h) (SNumber ev) (SNumber q) (SString s) l =
    (cs @ as @ ds, Inr SNil, l4)"
proof -
  let ?l = "PushRequestToSquence env (SNumber h) q (STab vs fs) l"
  let ?l1 = "method_state env h q (STab vs fs) (SNumber u) l"
  have same: "m_tbRegisterEvent ?l1 = m_tbRegisterEvent l" "NetManager_GetUserId env h ?l = NetManager_GetUserId env h l"
    by (simp_all add: method_state_def SetCurrentHandlerId_def PushRequestToSquence_def Let_def NetManager_GetUserId_def)
  have dispatch: "DispatcherEvent env (logic_callback_method env M) ev (STab vs fs) ?l1 = (cs, Inr (err # rets), l2)"
    using ev(3) handled(1) same(1) by (simp add: DispatcherEvent_def unpack_def lua_exec logic_callback_method_def)
  have state: "SetCurrentHandlerId (SNumber h) (?l\<lparr>m_objCurrentUser := GetUserObject env (SNumber u) ?l\<rparr>) = ?l1"
    by (simp add: method_state_def SetCurrentHandlerId_def GetUserObject_def Let_def)
  have "logic_ClientRequest env M h ev q (STab vs fs) ?l = (cs @ as @ ds, Inr (), l4)"
    using ev(1,2) user same(2)
    by (simp add: logic_ClientRequest_def lua_exec truthy_def SetCurrentUserObject_def concat_text_def lua_bind_def state
        dispatch handled(2,3))
  with json show ?thesis by (rule OnClientRequest_ok)
qed

text \<open>
  What is written back for a user whose object is marked: requests to redis only, when setting the
  mark calls nothing. Such requests do not see what was written to connections before.
\<close>

lemma commit_calls:
  assumes "UserManager_Commit env M l = (ds, r, l')" and "\<forall>obj b g. fst (UserData_SetDirty M obj b g) = []"
  shows "\<forall>c \<in> set ds. \<exists>args. c = CRedis_PushRedisSet args"
proof -
  have mark: "x = []" if "UserData_SetDirty M obj b g = (x, y)" for obj b g x y
    using assms(2) that by (metis fst_conv)
  show ?thesis
    using assms(1)
    by (auto dest!: mark simp: UserManager_Commit_def SynchronizeToDB_def RedisInterface_SetValue_def SetParameter_def AsyncManager_Push_def
        lua_bind_def lua_basic Let_def split: option.splits sum.splits prod.splits if_splits)
qed

lemma redis_calls_commute:
  assumes "\<forall>c \<in> set ds. \<exists>args. c = CRedis_PushRedisSet args" and "run_calls (logic_api env) ds s = Inr s'"
  shows "run_calls (logic_api env) ds (uv_do c s) = Inr (uv_do c s') \<and> uv_calls s' = uv_calls s"
  using assms
proof (induction ds arbitrary: s)
  case (Cons d ds)
  then obtain args where d: "d = CRedis_PushRedisSet args" by auto
  have set: "logic_api env (CRedis_PushRedisSet args) t = on_db (PushRedisSet (logic_lua env) (logic_redis env) args) t" for t
    by (simp add: logic_api_def)
  obtain db where db: "PushRedisSet (logic_lua env) (logic_redis env) args (logic_db s) = Inr db"
    and run: "run_calls (logic_api env) ds (s\<lparr>logic_db := db\<rparr>) = Inr s'"
    using Cons.prems(2)
    by (cases "PushRedisSet (logic_lua env) (logic_redis env) args (logic_db s)") (simp_all add: d set on_db_def)
  have "run_calls (logic_api env) ds (uv_do c (s\<lparr>logic_db := db\<rparr>)) = Inr (uv_do c s') \<and>
      uv_calls s' = uv_calls (s\<lparr>logic_db := db\<rparr>)"
    using Cons.IH [OF _ run] Cons.prems(1) by auto
  moreover have "logic_db (uv_do c s) = logic_db s" "(uv_do c s)\<lparr>logic_db := db\<rparr> = uv_do c (s\<lparr>logic_db := db\<rparr>)"
    by (simp_all add: uv_do_def)
  ultimately show ?case by (simp add: d set on_db_def db)
qed simp

section \<open>Entering the game\<close>

text \<open>What the login changes in the state of the scripts: the two maps only.\<close>

lemma Update_fields [simp]:
  "m_tbRequestSquence (UpdateHandlerIdAndUserId env u h g) = m_tbRequestSquence g"
  "m_tbRegisterEvent (UpdateHandlerIdAndUserId env u h g) = m_tbRegisterEvent g"
  by (simp_all add: UpdateHandlerIdAndUserId_def ReleaseHandler_def ReleaseUserId_def NetManager_SetUserId_def
      NetManager_SetHandlerId_def Let_def split: option.split)

lemma Update_pool [simp]:
  "m_tbUserDataPool (UpdateHandlerIdAndUserId env u h l) = m_tbUserDataPool l"
  by (simp add: UpdateHandlerIdAndUserId_def ReleaseHandler_def ReleaseUserId_def NetManager_SetUserId_def
      NetManager_SetHandlerId_def Let_def split: option.split)

lemma Update_handler: "0 < h \<Longrightarrow> NetManager_GetHandlerId env u (UpdateHandlerIdAndUserId env u h g) = Some h"
  using sessions_login [of env u h g]
  by (simp add: NetManager_GetHandlerId_def sessions_def login_def Let_def split: prod.splits if_splits)

text \<open>
  A user that is in the pool, with his number and data, and the list of games: the objects of users and
  games answer the same whatever the sessions and the waiting requests are. Error codes that can be told apart.
\<close>

definition cached_user ::
  "'e script_env_scheme \<Rightarrow> ('h, 'z) logic_modules \<Rightarrow> int \<Rightarrow> script_value \<Rightarrow> script_value \<Rightarrow> ('h, 'z) logic_lua_scheme \<Rightarrow> bool" where
  "cached_user env M u tb games l \<longleftrightarrow> tb \<noteq> SNil \<and>
     (\<exists>obj. GetUserObject env (SNumber u) l = Some obj
        \<and> (\<forall>a b q. let g = l\<lparr>m_tbUserHanderIdMap := a, m_tbHanderIdUserMap := b, m_tbRequestSquence := q\<rparr> in
             UserData_GetUserId M obj g = SNumber u \<and> UserData_GetGameData M obj g = tb \<and> GetGameList M g = games))"

lemma cached_user_moved:
  assumes "cached_user env M u tb games l"
  shows "cached_user env M u tb games (PushRequestToSquence env h q v l)"
  using assms by (simp add: cached_user_def PushRequestToSquence_def GetUserObject_def Let_def)

lemma Update_moves:
  "UpdateHandlerIdAndUserId env u h l =
     l\<lparr>m_tbUserHanderIdMap := m_tbUserHanderIdMap (UpdateHandlerIdAndUserId env u h l),
       m_tbHanderIdUserMap := m_tbHanderIdUserMap (UpdateHandlerIdAndUserId env u h l),
       m_tbRequestSquence := m_tbRequestSquence l\<rparr>"
  by (simp add: UpdateHandlerIdAndUserId_def ReleaseHandler_def ReleaseUserId_def NetManager_SetUserId_def
      NetManager_SetHandlerId_def Let_def split: option.split)

text \<open>The results of a user who entered: his data and the list of games, if there is one.\<close>

definition entered_results :: "script_value \<Rightarrow> script_value \<Rightarrow> script_value list" where
  "entered_results tb games = (if games = SNil then [tb] else [tb, games])"

definition codes_differ :: "'e logic_consts_scheme \<Rightarrow> bool" where
  "codes_differ env \<longleftrightarrow> distinct [SYSTEM_OK env, PARAMTER_ERROR env, USER_DATA_NIL env]"

lemma enter_cached:
  assumes user: "cached_user env M u tb games l" and codes: "codes_differ env" and h: "0 < h"
    and queue: "m_tbRequestSquence l (tostring env (SNumber h)) = Some ((q0, v0) # rest)"
    and gate: "SERVER_TYPE_DEF env CENTER \<le> SERVER_TYPE_DEF env GATEWAY"
  shows "logic_ClientRequest env M h (ENTER_GAME env) q (STab (SNumber u # vs) fs) l =
    ([CNet (SendToServer [LuaNumber (SERVER_TYPE_DEF env GATEWAY), LuaNumber q0, LuaNumber (ENTER_GAME env),
        to_lua (SYSTEM_OK env), LuaNumber h, LuaString (json_encode env (STable (entered_results tb games)))])], Inr (),
     (UpdateHandlerIdAndUserId env (SNumber u) h l)\<lparr>m_tbRequestSquence :=
       (m_tbRequestSquence l)(tostring env (SNumber h) := if rest = [] then None else Some rest)\<rparr>)"
proof -
  let ?l = "UpdateHandlerIdAndUserId env (SNumber u) h l"
  obtain obj where obj: "tb \<noteq> SNil" "GetUserObject env (SNumber u) ?l = Some obj" "UserData_GetUserId M obj ?l = SNumber u"
      "UserData_GetGameData M obj ?l = tb" "GetGameList M ?l = games"
    using user
    by (auto simp: cached_user_def GetUserObject_def Let_def)
       (metis Update_moves)+
  have first: "GetSquenceIdFromSquence env (SNumber h) ?l = q0"
    using queue by (simp add: GetSquenceIdFromSquence_def truthy_def)
  have "m_tbRequestSquence ?l (tostring env (SNumber h)) = Some ((q0, v0) # rest)" using queue by simp
  note send = SendToGateway_first [OF this gate]
  show ?thesis
    using obj codes first
    by (auto simp: entered_results_def Update_handler [OF h] logic_ClientRequest_def OnClientEnterHall_def index_first_def param_def lua_exec CheckUserDataStatus_def
        answer_user_def EnterGame_def OnResponeClientEnterHall_def table_insert_def codes_differ_def Let_def send)
qed

text \<open>The answer in the process: one packet to the gateway.\<close>

lemma ucast_of_int: "(ucast (word_of_int q :: u32) :: u16) = word_of_int q"
  by (rule bit_word_eqI) (simp add: bit_simps)

lemma run_calls_append: "run_calls api (xs @ ys) s = bind_res (run_calls api xs s) (run_calls api ys)"
proof (induction xs arbitrary: s)
  case (Cons c xs)
  then show ?case by (cases "api c s") simp_all
qed simp

lemma gateway_call:
  assumes lua: "lua_reads (logic_lua env)" and q: "0 \<le> q" "q < 2 ^ 32" and ev: "0 \<le> ev" "ev < 2 ^ 32"
    and e: "0 \<le> e" "e < 2 ^ 32" and str: "0 \<notin> set str" "length str < 2 ^ 31" and gw: "m_pGatewayClient s = Some gw"
  shows "logic_api env (CNet (SendToServer
      [LuaNumber 4, LuaNumber q, LuaNumber ev, LuaNumber e, LuaNumber (int (unat h)), LuaString str])) s =
    Inr (uv_do (UvWrite gw (net_package (word_of_int ev) (word_of_int e) h (server_id GATEWAY) (word_of_int q) str)) s)"
proof -
  have n: "lua_tonumber (logic_lua env) (LuaNumber 4) = 4" "lua_tonumber (logic_lua env) (LuaNumber q) = word_of_int q"
    "lua_tonumber (logic_lua env) (LuaNumber ev) = word_of_int ev" "lua_tonumber (logic_lua env) (LuaNumber e) = word_of_int e"
    "lua_tonumber (logic_lua env) (LuaNumber (uint h)) = h" "lua_tostring (logic_lua env) (LuaString str) = Some str"
    using lua_reads_number [OF lua] q ev e by simp_all
  show ?thesis
    using SendToServer_gateway [of "[LuaNumber 4, LuaNumber q, LuaNumber ev, LuaNumber e, LuaNumber (uint h), LuaString str]"
        env str s gw] str gw by (simp add: n ucast_of_int)
qed

text \<open>The answer in the process: one packet, to the gateway or through the center to the room server.\<close>

lemma answer_call:
  assumes lua: "lua_reads (logic_lua env)" and q: "0 \<le> q" "q < 2 ^ 32" and ev: "0 \<le> ev" "ev < 2 ^ 32"
    and e: "0 \<le> e" "e < 2 ^ 32" and str: "0 \<notin> set str" "length str < 2 ^ 31"
    and link: "(if t = ROOM then map_option client_m_client (g_pCenterLogicClient s) else m_pGatewayClient s) = Some link"
    and t: "t = ROOM \<or> t = GATEWAY"
  shows "logic_api env (CNet (SendToServer
      [LuaNumber (int (unat (server_id t))), LuaNumber q, LuaNumber ev, LuaNumber e, LuaNumber (int (unat h)), LuaString str])) s =
    Inr (uv_do (UvWrite link (net_package (word_of_int ev) (word_of_int e) h (server_id t) (word_of_int q) str)) s)"
proof (cases "t = ROOM")
  case True
  then obtain c where c: "g_pCenterLogicClient s = Some c" "client_m_client c = link" using link by auto
  have n: "lua_tonumber (logic_lua env) (LuaNumber 3) = 3" "lua_tonumber (logic_lua env) (LuaNumber q) = word_of_int q"
    "lua_tonumber (logic_lua env) (LuaNumber ev) = word_of_int ev" "lua_tonumber (logic_lua env) (LuaNumber e) = word_of_int e"
    "lua_tonumber (logic_lua env) (LuaNumber (uint h)) = h" "lua_tostring (logic_lua env) (LuaString str) = Some str"
    using lua_reads_number [OF lua] q ev e by simp_all
  show ?thesis
    using SendToServer_center [of "[LuaNumber 3, LuaNumber q, LuaNumber ev, LuaNumber e, LuaNumber (uint h), LuaString str]"
        env 3 str s c] str c by (simp add: n True ucast_of_int)
next
  case False
  then show ?thesis
    using gateway_call [OF lua q ev e str, of s link h] link t by simp
qed

section \<open>Properties\<close>

text \<open>C2: the answer of a method. A packet of a user who is logged in, for an event with a registered
  method, runs this method once, in the state in which the request waits last in the queue of its
  connection. The method returns an error number and results. If the number is that of an
  asynchronous event, nothing is written and the request goes on waiting. Otherwise exactly one
  packet is written after what the method itself does, on the connection to the gateway, or to the
  center for the room server if the number asks for that: it has the connection number and the sequence id
  of the request, its event (or the event that the map of asynchronous events has for it), the error
  number and the results as JSON; the oldest waiting request is taken from the queue. Then the
  object of the user is written to redis if it is marked, which writes to no connection. Method and
  commit are assumed to end without an error.\<close>

theorem script_answers_request:
  fixes M :: "('h, 'z) logic_modules"
  assumes p: "20 \<le> length p" "length p < 2 ^ 32" "ParseFromArray (logic_skip env) (drop 20 p) = Some data"
      "packet_handler_id p = h" "int (unat (packet_event_type p)) = ev"
    and json: "json_decode cenv (takeWhile (\<lambda>b. b \<noteq> 0) data) = Some (STab vs fs)"
    and ev: "ev \<noteq> ENTER_GAME cenv" "ev \<noteq> USER_DISCONNECT cenv"
      "m_tbRegisterEvent (lua_state (logic_engine s)) ev = Some (GameMethod k)"
      "0 \<le> answered_event cenv ev" "answered_event cenv ev < 2 ^ 32"
    and user: "NetManager_GetUserId cenv (int (unat h)) (lua_state (logic_engine s)) = SNumber u"
    and handled: "game_method M k vs (method_state cenv (int (unat h)) (int (unat (packet_sequence p))) (STab vs fs) (SNumber u)
          (lua_state (logic_engine s))) = (cs, Inr (SNumber err # rets), l2)"
      "run_calls (logic_api (scripted cenv M env)) cs s = Inr s1" "0 \<le> err" "err < 2 ^ 32"
      "SNumber err \<noteq> ASYN_EVENT cenv \<Longrightarrow> m_tbRequestSquence l2 (fmt_nat (unat h)) = Some (r # rest)"
    and link: "(if SNumber err = LOGIC_TO_ROOM_SERVER cenv then map_option client_m_client (g_pCenterLogicClient s1)
        else m_pGatewayClient s1) = Some link"
    and commit: "UserManager_Commit cenv M (if SNumber err = ASYN_EVENT cenv then l2 else drop_request (fmt_nat (unat h)) l2) =
        (ds, Inr (), l3)"
      "run_calls (logic_api (scripted cenv M env)) ds s1 = Inr s2" "\<forall>obj b g. fst (UserData_SetDirty M obj b g) = []"
    and str: "0 \<notin> set (json_encode cenv (STable rets))" "length (json_encode cenv (STable rets)) < 2 ^ 31"
    and types: "\<forall>t. SERVER_TYPE_DEF cenv t = int (unat (server_id t))"
    and lua: "lua_reads (logic_lua env)"
  shows "\<exists>s'. logic_packet (scripted cenv M env) (server_id GATEWAY) p (word_of_nat (length p)) s = Inr s' \<and>
    uv_calls s' = uv_calls s1 @
      (if SNumber err = ASYN_EVENT cenv then []
       else [UvWrite link (net_package (word_of_int (answered_event cenv ev)) (word_of_int err) h
         (server_id (answered_server cenv (SNumber err))) (packet_sequence p) (json_encode cenv (STable rets)))]) \<and>
    logic_db s' = logic_db s2 \<and>
    lua_stack (logic_engine s') = lua_stack (logic_engine s) \<and> lua_state (logic_engine s') = l3"
proof -
  let ?str = "json_encode cenv (STable rets)" and ?h = "int (unat h)" and ?q = "int (unat (packet_sequence p))"
  let ?t = "answered_server cenv (SNumber err)" and ?ev = "answered_event cenv ev"
  let ?call = "CNet (SendToServer [LuaNumber (int (unat (server_id ?t))), LuaNumber ?q, LuaNumber ?ev, LuaNumber err, LuaNumber ?h,
    LuaString ?str])"
  let ?packet = "UvWrite link (net_package (word_of_int ?ev) (word_of_int err) h (server_id ?t) (packet_sequence p) ?str)"
  let ?api = "logic_api (scripted cenv M env)"
  have key: "tostring cenv (SNumber ?h) = fmt_nat (unat h)" by (rule tostring_id)
  have queue: "SNumber err \<noteq> ASYN_EVENT cenv \<Longrightarrow> m_tbRequestSquence l2 (tostring cenv (SNumber ?h)) = Some (r # rest)"
    unfolding key by (rule handled(5))
  have respond: "logic_respond cenv ?h ev ?q (SNumber err # rets) l2 =
      (if SNumber err = ASYN_EVENT cenv then [] else [?call], Inr (),
       if SNumber err = ASYN_EVENT cenv then l2 else drop_request (fmt_nat (unat h)) l2)"
    using logic_respond_calls [where rets = rets and sq = ?q and ev = ev, OF queue types] types key by simp
  have run: "OnClientRequest cenv (logic_ClientRequest cenv M) (SNumber ?h) (SNumber ev) (SNumber ?q)
      (SString (takeWhile (\<lambda>b. b \<noteq> 0) data)) (lua_state (logic_engine s)) =
      (cs @ (if SNumber err = ASYN_EVENT cenv then [] else [?call]) @ ds, Inr SNil, l3)"
    by (rule OnClientRequest_method [OF json ev(1-3) user handled(1) respond commit(1)])
  have q: "?q < 2 ^ 32" using uint_lt2p [of "packet_sequence p"] by simp
  have "?api ?call s1 = Inr (uv_do ?packet s1)"
    using answer_call [of "scripted cenv M env" ?q ?ev err ?str ?t s1 link h] lua q ev(4,5) handled(3,4) str link
    by (simp add: answered_server_def split: if_splits)
  moreover note after = redis_calls_commute [OF commit_calls [OF commit(1,3)] commit(2)]
  ultimately have calls: "run_calls ?api (cs @ (if SNumber err = ASYN_EVENT cenv then [] else [?call]) @ ds) s =
      Inr (if SNumber err = ASYN_EVENT cenv then s2 else uv_do ?packet s2)"
    using commit(2) by (simp add: run_calls_append handled(2))
  show ?thesis
    using packet_runs_script [OF p run calls] after by (auto simp: uv_do_def)
qed

text \<open>C21: stale sequence ids. A request of a connection without a user is dropped, but stays in the
  queue of pending requests, because \<^verbatim>\<open>ClientRequest\<close> returns without taking it out. When a user
  whose object is in the pool then enters the game on this connection, the answer, with his data and
  the list of games, carries the sequence id of the dropped request instead of his own.\<close>

theorem unknown_request_shifts_answers:
  fixes M :: "('h, 'z) logic_modules"
  assumes p1: "20 \<le> length p1" "length p1 < 2 ^ 32" "ParseFromArray (logic_skip env) (drop 20 p1) = Some d1"
      "packet_handler_id p1 = h" "int (unat (packet_event_type p1)) = ev"
      "json_decode cenv (takeWhile (\<lambda>b. b \<noteq> 0) d1) = Some (STab vs1 fs1)"
      "ev \<noteq> ENTER_GAME cenv" "ev \<noteq> USER_DISCONNECT cenv"
    and p2: "20 \<le> length p2" "length p2 < 2 ^ 32" "ParseFromArray (logic_skip env) (drop 20 p2) = Some d2"
      "packet_handler_id p2 = h" "int (unat (packet_event_type p2)) = ENTER_GAME cenv"
      "json_decode cenv (takeWhile (\<lambda>b. b \<noteq> 0) d2) = Some (STab (SNumber u # vs2) fs2)"
    and state: "NetManager_GetUserId cenv (int (unat h)) (lua_state (logic_engine s)) = SNil"
      "m_tbRequestSquence (lua_state (logic_engine s)) (fmt_nat (unat h)) = None"
      "cached_user cenv M u tb games (lua_state (logic_engine s))" "h \<noteq> 0" "m_pGatewayClient s = Some gw"
    and codes: "codes_differ cenv" "SYSTEM_OK cenv = SNumber ok" "0 \<le> ok" "ok < 2 ^ 32"
      "SERVER_TYPE_DEF cenv CENTER \<le> 4" "SERVER_TYPE_DEF cenv GATEWAY = 4"
    and str: "0 \<notin> set (json_encode cenv (STable (entered_results tb games)))" "length (json_encode cenv (STable (entered_results tb games))) < 2 ^ 31"
    and lua: "lua_reads (logic_lua env)"
  shows "\<exists>s1 s2.
    logic_packet (scripted cenv M env) (server_id GATEWAY) p1 (word_of_nat (length p1)) s = Inr s1 \<and> uv_calls s1 = uv_calls s \<and>
    logic_packet (scripted cenv M env) (server_id GATEWAY) p2 (word_of_nat (length p2)) s1 = Inr s2 \<and>
    uv_calls s2 = uv_calls s @ [UvWrite gw (net_package (packet_event_type p2) (word_of_int ok) h (server_id GATEWAY)
      (packet_sequence p1) (json_encode cenv (STable (entered_results tb games))))]"
proof -
  let ?l = "lua_state (logic_engine s)" and ?h = "int (unat h)" and ?str = "json_encode cenv (STable (entered_results tb games))"
  let ?q1 = "int (unat (packet_sequence p1))" and ?q2 = "int (unat (packet_sequence p2))"
  have key: "tostring cenv (SNumber ?h) = fmt_nat (unat h)" by (rule tostring_id)
  have "unat h \<noteq> 0" using state(4) by (simp add: word_unat_eq_iff)
  then have hpos: "0 < ?h" by linarith
  define l1 where "l1 = PushRequestToSquence cenv (SNumber ?h) ?q1 (STab vs1 fs1) ?l"
  have l1: "m_tbRequestSquence l1 (fmt_nat (unat h)) = Some [(?q1, STab vs1 fs1)]"
    "NetManager_GetUserId cenv ?h l1 = SNil"
    using state(1,2) by (simp_all only: l1_def PushRequestToSquence_def key Let_def)
      (simp_all add: NetManager_GetUserId_def)
  have user1: "cached_user cenv M u tb games l1"
    unfolding l1_def by (rule cached_user_moved [OF state(3)])
  have "logic_ClientRequest cenv M ?h ev ?q1 (STab vs1 fs1) l1 = ([], Inr (), l1)"
    using p1(7,8) l1(2) by (simp add: logic_ClientRequest_def lua_exec truthy_def)
  from OnClientRequest_ok [where request = "logic_ClientRequest cenv M", OF p1(6) this [unfolded l1_def]]
  have run1: "OnClientRequest cenv (logic_ClientRequest cenv M) (SNumber ?h) (SNumber ev) (SNumber ?q1)
      (SString (takeWhile (\<lambda>b. b \<noteq> 0) d1)) ?l = ([], Inr SNil, l1)" by (simp only: l1_def)
  define s1 where "s1 = s\<lparr>logic_engine := (logic_engine s)\<lparr>lua_state := l1\<rparr>\<rparr>"
  have s1: "logic_packet (scripted cenv M env) (server_id GATEWAY) p1 (word_of_nat (length p1)) s = Inr s1"
    using packet_runs_script [OF p1(1-5) run1] by (simp add: s1_def)
  define l2 where "l2 = PushRequestToSquence cenv (SNumber ?h) ?q2 (STab (SNumber u # vs2) fs2) l1"
  have l2: "m_tbRequestSquence l2 (tostring cenv (SNumber ?h)) =
        Some [(?q1, STab vs1 fs1), (?q2, STab (SNumber u # vs2) fs2)]"
    using l1(1) by (simp only: l2_def PushRequestToSquence_def key Let_def) simp
  have user2: "cached_user cenv M u tb games l2"
    unfolding l2_def by (rule cached_user_moved [OF user1])
  have gate: "SERVER_TYPE_DEF cenv CENTER \<le> SERVER_TYPE_DEF cenv GATEWAY" using codes(5,6) by simp
  let ?call = "CNet (SendToServer [LuaNumber 4, LuaNumber ?q1, LuaNumber (ENTER_GAME cenv), LuaNumber ok, LuaNumber ?h, LuaString ?str])"
  obtain l3 where run2: "OnClientRequest cenv (logic_ClientRequest cenv M) (SNumber ?h) (SNumber (ENTER_GAME cenv)) (SNumber ?q2)
      (SString (takeWhile (\<lambda>b. b \<noteq> 0) d2)) (lua_state (logic_engine s1)) = ([?call], Inr SNil, l3)"
    using OnClientRequest_ok [where request = "logic_ClientRequest cenv M", OF p2(6) enter_cached [OF user2 codes(1) hpos l2 gate, unfolded l2_def]]
    by (simp only: codes(2,6) to_lua.simps s1_def) simp
  have q: "?q1 < 2 ^ 32" using uint_lt2p [of "packet_sequence p1"] by simp
  have evb: "0 \<le> ENTER_GAME cenv" "ENTER_GAME cenv < 2 ^ 32" "word_of_int (ENTER_GAME cenv) = packet_event_type p2"
    using p2(5) [symmetric] uint_lt2p [of "packet_event_type p2"] by auto
  have "run_calls (logic_api (scripted cenv M env)) [?call] s1 = Inr (uv_do (UvWrite gw (net_package (packet_event_type p2)
      (word_of_int ok) h (server_id GATEWAY) (packet_sequence p1) ?str)) s1)"
    using gateway_call [of "scripted cenv M env" ?q1 "ENTER_GAME cenv" ok ?str s1 gw h] lua q evb codes(3,4) str state(5)
    by (simp add: s1_def)
  note s2 = packet_runs_script [OF p2(1-5) run2 this]
  show ?thesis
    by (intro exI conjI, rule s1, simp add: s1_def, rule s2, simp add: s1_def)
qed

text \<open>C22: a user without data is never answered. The response of redis that there is no such user makes
  \<^verbatim>\<open>OnResponseEnterHallEvent\<close> pass a text where a table is expected: the script fails, nothing is
  written, the request stays pending and the stack of the engine grows by one.\<close>

theorem missing_user_gets_no_answer:
  fixes M :: "('h, 'z) logic_modules"
  assumes b: "OnDBResponse_common b = Inr (OnRedisRespone q u ev [])"
    and ev: "int (unat ev) = LOGIC_GET_GAME_DATA cenv" "LOGIC_GET_GAME_DATA cenv \<noteq> GET_USER_GLOBAL_ID cenv"
    and lua: "lua_reads (logic_lua env)"
  shows "\<exists>l. GameLogicServer_OnDBResponse (scripted cenv M env) b s =
      Inr (s\<lparr>logic_engine := \<lparr>lua_stack = LuaString (error_text cenv BadArgument) # lua_stack (logic_engine s), lua_state = l\<rparr>\<rparr>)
    \<and> m_tbRequestSquence l = m_tbRequestSquence (lua_state (logic_engine s))"
proof -
  let ?l = "lua_state (logic_engine s)"
  let ?l1 = "?l\<lparr>m_tbSquence := (m_tbSquence ?l)(tostring cenv (SNumber (int (unat q))) := None)\<rparr>"
  have run: "logic_OnRedisRespone cenv M (SNumber (int (unat q))) (SNumber (int (unat u))) (SNumber (int (unat ev))) (SString []) ?l =
      ([], Inl BadArgument, ?l1)"
    using ev by (simp add: logic_OnRedisRespone_def AsyncManager_Pop_def OnResponseEnterHallEvent_def has_text_def
        OnResponeClientEnterHall_def table_insert_def lua_exec Let_def lua_bind_def lua_basic)
  have "script_call (logic_lua env) (logic_scripts cenv M) (logic_api (scripted cenv M env)) ''OnRedisRespone''
      [LuaNumber (int (unat q)), LuaNumber (int (unat u)), LuaNumber (int (unat ev)), LuaString []] (logic_engine s, s) =
      Inr (\<lparr>lua_stack = LuaString (error_text cenv BadArgument) # lua_stack (logic_engine s), lua_state = ?l1\<rparr>, s)"
    unfolding script_call_def by (simp add: logic_scripts_response [simplified] run [simplified] lua_run_def lua_reads_number(3) [OF lua])
  then have "RedisCallLua (logic_lua env) (logic_scripts cenv M) (logic_api (scripted cenv M env)) q u ev [] (logic_engine s, s) =
      Inr (\<lparr>lua_stack = LuaString (error_text cenv BadArgument) # lua_stack (logic_engine s), lua_state = ?l1\<rparr>, s)"
    by (simp add: RedisCallLua_eq)
  then show ?thesis
    by (intro exI [of _ ?l1]) (simp add: GameLogicServer_OnDBResponse_def b with_engine_def)
qed

text \<open>C20: any player can log out another. The gateway forwards the event of its own disconnect notice
  also when a player sends it; the logic server takes the connection from the text, so the user of
  the connection that the text names loses his session, whoever sent the packet.\<close>

theorem player_can_log_out_another:
  fixes M :: "('h, 'z) logic_modules"
  assumes reach: "(gateway_step reads skip_field)\<^sup>*\<^sup>* (gateway_main l c r, {}) (g, alloc)"
    and player: "GetHandlerById h g = Some client" "open_sessions g client = Some session" "pk_ok (m_pRecvPacket session) []"
    and link: "g_pGameLogicClient g = Some logic_link"
    and p: "good_packet p" "20 \<le> length p" "ParseFromArray skip_field (drop 20 p) = Some data" "server_of p = server_id LOGIC"
      "int (unat (packet_event_type p)) = USER_DISCONNECT cenv" "USER_DISCONNECT cenv \<noteq> ENTER_GAME cenv"
      "json_decode cenv (takeWhile (\<lambda>b. b \<noteq> 0) data) = Some (STab (SNumber victim # vs) fs)"
    and logic: "open_sessions s conn \<noteq> None" "pk_ok (m_pServerPacket s) []" "logic_skip env = skip_field"
      "m_tbRegisterEvent (lua_state (logic_engine s)) (USER_DISCONNECT cenv) = Some DisconnectMethod"
      "NetManager_GetUserId cenv victim (lua_state (logic_engine s)) = SNumber u" "0 < victim"
  shows "\<exists>g1 s1. GatewayServer_OnMsgRecv mem stale skip_field client (int (length p)) p g = Inr g1 \<and>
    uv_calls g1 = uv_calls g @ [UvWrite logic_link (stamp h p)] \<and>
    GameLogicServer_OnMsgRecv mem2 (scripted cenv M env) conn (int (length p)) (stamp h p) s = Inr s1 \<and>
    NetManager_GetUserId cenv victim (lua_state (logic_engine s1)) = SNil \<and>
    NetManager_GetHandlerId cenv (SNumber u) (lua_state (logic_engine s1)) = None"
proof -
  let ?l = "lua_state (logic_engine s)" and ?p = "stamp h p"
  have own: "m_uHandlerId session = h" using gw.owner_of_id [OF reach player(1)] player(2) by auto
  have leg: "legal skip_field p" "GetGatewayClient (server_of p) g = Some logic_link"
    using p(3,4) link by (simp_all add: legal_def GetGatewayClient_def)
  obtain g1 where g1: "GatewayServer_OnMsgRecv mem stale skip_field client (int (length p)) p g = Inr g1"
      "uv_calls g1 = uv_calls g @ [UvWrite logic_link ?p]"
    using gateway_forwards_one [OF player(2,3) p(1,2) leg, of mem stale] own by auto
  have st: "good_packet ?p" "length ?p = length p" "20 \<le> length ?p"
    using good_packet_stamp [OF p(1,2)] stamp_ok [OF p(2), of h] p(2) by auto
  have "map (\<lambda>v. v) (request_args ?p data) = LuaNumber (int (unat h)) # tl (request_args p data)"
    using request_args_stamp(1) [OF p(2)] by simp
  then have args: "packet_handler_id ?p = h" "packet_event_type ?p = packet_event_type p"
    by (simp_all add: request_args_def word_uint_eq_iff)
  define q where "q = int (unat (packet_sequence ?p))"
  let ?k = "PushRequestToSquence cenv (SNumber (int (unat h))) q (STab (SNumber victim # vs) fs) ?l"
  let ?k1 = "ReleaseHandler cenv (SNumber u) (ReleaseUserId cenv victim ?k)"
  have same: "sessions ?k = sessions ?l" "m_tbRegisterEvent ?k = m_tbRegisterEvent ?l"
    by (simp_all add: PushRequestToSquence_def Let_def)
  then have user: "NetManager_GetUserId cenv victim ?k = SNumber u"
    using logic(5) by (simp add: sessions_def NetManager_GetUserId_def)
  obtain cs0 k2 where rel: "ReleaseUserObject cenv (SNumber u) ?k1 = (cs0 :: logic_call list, Inr (), k2)"
      "cs0 = []" "sessions k2 = sessions ?k1"
    by (cases "GetUserObject cenv (SNumber u) ?k1")
       (auto simp: ReleaseUserObject_def lua_exec concat_text_def)
  have "OnUserDisconnect cenv (ReleaseUserObject cenv) (SNumber victim) ?k = ([], Inr [SNumber 0], k2)"
    using user rel(1,2) by (simp add: OnUserDisconnect_def lua_exec lua_bind_def lua_basic)
  then have "logic_ClientRequest cenv M (int (unat h)) (USER_DISCONNECT cenv) q (STab (SNumber victim # vs) fs) ?k = ([], Inr (), k2)"
    using logic(4) p(6) same(2)
    by (simp add: logic_ClientRequest_def DispatcherEvent_def unpack_def logic_callback_method_def param_def lua_exec lua_bind_def lua_basic)
  from OnClientRequest_ok [where request = "logic_ClientRequest cenv M", OF p(7) this]
  have run: "OnClientRequest cenv (logic_ClientRequest cenv M) (SNumber (int (unat h))) (SNumber (USER_DISCONNECT cenv))
      (SNumber (int (unat (packet_sequence ?p)))) (SString (takeWhile (\<lambda>b. b \<noteq> 0) data)) ?l = ([], Inr SNil, k2)"
    by (simp only: q_def)
  have "logic_packet (scripted cenv M env) (server_id GATEWAY) ?p (word_of_nat (length ?p)) s =
      Inr (s\<lparr>logic_engine := (logic_engine s)\<lparr>lua_state := k2\<rparr>\<rparr>)"
    using packet_runs_script [of ?p env data h "USER_DISCONNECT cenv" cenv M s "[]" SNil k2 s] run args p(3,5) st
      good_packet_bound [OF st(1)] request_args_stamp(2) [OF p(2), of h] logic(3) by simp
  from logic_reads_one [OF logic(1,2) st(1,3) this] obtain pk where
    "GameLogicServer_OnMsgRecv mem2 (scripted cenv M env) conn (int (length p)) ?p s =
      Inr (s\<lparr>logic_engine := (logic_engine s)\<lparr>lua_state := k2\<rparr>, m_pServerPacket := pk\<rparr>)" (is "_ = Inr ?s1")
    using st(2) by auto
  moreover have "sessions k2 = logout cenv (SNumber u) victim (sessions ?l)"
    using rel(3) same(1) by (simp add: sessions_logout)
  then have "NetManager_GetUserId cenv victim k2 = SNil" "NetManager_GetHandlerId cenv (SNumber u) k2 = None"
    using logic(6) by (auto simp: sessions_def logout_def NetManager_GetUserId_def NetManager_GetHandlerId_def)
  ultimately show ?thesis
    using g1 by (intro exI [of _ g1] exI [of _ ?s1]) simp
qed

section \<open>Concrete runs\<close>

lemma net_package_request:
  assumes "length str < 2 ^ 31"
  shows "good_packet (net_package ev err hid sid seq str)" "20 \<le> length (net_package ev err hid sid seq str)"
    "length (net_package ev err hid sid seq str) < 2 ^ 32" "server_of (net_package ev err hid sid seq str) = sid"
    "packet_handler_id (net_package ev err hid sid seq str) = hid" "packet_event_type (net_package ev err hid sid seq str) = ev"
    "packet_sequence (net_package ev err hid sid seq str) = seq"
    "ParseFromArray skip (drop 20 (net_package ev err hid sid seq str)) = Some str"
  using good_packet_net_package [OF assms] net_package_fields good_packet_bound [OF good_packet_net_package [OF assms]]
    pb.parse_ser [OF assms]
  by (simp_all add: net_package_def server_of_def packet_handler_id_def packet_event_type_def packet_sequence_def slice_packet)

text \<open>The process with one gateway, connection 8; user 5 may be on a connection or in the pool.\<close>

definition demo_lserver :: "unit logic_lua \<Rightarrow> unit logic_lua logic_server" where
  "demo_lserver l = (GameLogicServer_new \<lparr>lua_stack = [], lua_state = l\<rparr> demo_client)
     \<lparr>open_sessions := [8 \<mapsto> \<lparr>m_uHandlerId = 1, m_pRecvPacket = KG_CreateCommonPackage\<rparr>], m_pGatewayClient := Some 8\<rparr>"

lemma demo_lserver_fields [simp]:
  "lua_state (logic_engine (demo_lserver l)) = l" "lua_stack (logic_engine (demo_lserver l)) = []"
  "m_pGatewayClient (demo_lserver l) = Some 8" "open_sessions (demo_lserver l) 8 \<noteq> None"
  "m_pServerPacket (demo_lserver l) = KG_CreateCommonPackage" "uv_calls (demo_lserver l) = []"
  by (simp_all add: demo_lserver_def GameLogicServer_new_def tcp_base_server.defs TCPBaseServer_new_def)

definition demo_lenv :: "unit logic_lua logic_env" where
  "demo_lenv = \<lparr>logic_skip = (\<lambda>_ _. None), logic_script = logic_scripts demo_consts demo_modules, logic_lua = plain_lua,
     logic_mem = (\<lambda>_. 0), logic_redis = demo_env ReplyNil\<rparr>"

lemma demo_lenv_fields [simp]: "logic_skip demo_lenv = (\<lambda>_ _. None)" "lua_reads (logic_lua demo_lenv)"
  using lua_reads_plain by (simp_all add: demo_lenv_def)

definition demo_online :: "int \<Rightarrow> unit logic_lua" where
  "demo_online h = demo_start\<lparr>m_tbUserHanderIdMap := [ascii ''5'' \<mapsto> h],
     m_tbHanderIdUserMap := [tostring demo_consts (SNumber h) \<mapsto> SNumber 5], m_tbUserDataPool := [ascii ''5'' \<mapsto> 0]\<rparr>"

definition demo_pool :: "unit logic_lua" where
  "demo_pool = demo_start\<lparr>m_tbUserDataPool := [ascii ''5'' \<mapsto> 0]\<rparr>"

lemma demo_states:
  "NetManager_GetUserId demo_consts 1 (demo_online 1) = SNumber 5" "NetManager_GetUserId demo_consts 5 (demo_online 5) = SNumber 5"
  "m_tbRegisterEvent (demo_online h) 10201 = Some (GameMethod ())" "m_tbRegisterEvent (demo_online h) 4001 = Some DisconnectMethod"
  "NetManager_GetUserId demo_consts 1 demo_pool = SNil" "m_tbRequestSquence demo_pool = Map.empty"
  "m_tbRequestSquence (demo_online h) = Map.empty"
proof -
  show "NetManager_GetUserId demo_consts 1 (demo_online 1) = SNumber 5" by code_simp
  show "NetManager_GetUserId demo_consts 5 (demo_online 5) = SNumber 5" by code_simp
  show "NetManager_GetUserId demo_consts 1 demo_pool = SNil" by code_simp
qed (simp_all add: demo_online_def demo_pool_def demo_start_def logic_lua_new_def Register_def demo_consts_def)

lemma demo_cached: "cached_user demo_consts demo_modules 5 (STable []) SNil demo_pool"
proof -
  have "GetUserObject demo_consts (SNumber 5) demo_pool = Some 0" by code_simp
  then show ?thesis by (simp add: cached_user_def demo_modules_def Let_def)
qed

lemma demo_codes:
  "codes_differ demo_consts" "SYSTEM_OK demo_consts = SNumber 0" "SERVER_TYPE_DEF demo_consts t = int (unat (server_id t))" "json_encode demo_consts v = ascii ''[7]''"
  "ENTER_GAME demo_consts = 10002" "USER_DISCONNECT demo_consts = 4001" "ASYNC_EVENT_MAP_TO_SOURCE_EVENT demo_consts = Map.empty"
  "ASYN_EVENT demo_consts = SNumber 6" "LOGIC_TO_ROOM_SERVER demo_consts = SNumber 7"
  "LOGIC_GET_GAME_DATA demo_consts = 4" "GET_USER_GLOBAL_ID demo_consts = 1101" "error_text demo_consts e = [101]"
  "json_decode demo_consts [91, 93] = Some (STable [])" "json_decode demo_consts [91, 53, 93] = Some (STable [SNumber 5])"
  by (simp_all add: demo_consts_def codes_differ_def ascii_def)

lemma demo_method:
  "game_method demo_modules k vs g = ([], Inr [SNumber 0, SNumber 7], g)" "UserData_IsDirty demo_modules u g = False"
  "fst (UserData_SetDirty demo_modules u b g) = []"
  by (simp_all add: demo_modules_def lua_basic)

theorem script_answers_request_witness:
  "\<exists>s2. logic_packet (scripted demo_consts demo_modules demo_lenv) (server_id GATEWAY) (net_package 10201 0 1 2 3 [91, 93])
      (word_of_nat (length (net_package 10201 0 1 2 3 [91, 93]))) (demo_lserver (demo_online 1)) = Inr s2 \<and>
    uv_calls s2 = [UvWrite 8 (net_package 10201 0 1 4 3 (ascii ''[7]''))]"
proof -
  let ?l2 = "method_state demo_consts 1 3 (STable []) (SNumber 5) (demo_online 1)"
  note p = net_package_request [where str = "[91, 93]" and ev = 10201 and err = 0 and hid = 1 and sid = 2 and seq = 3]
  have l2: "m_tbRequestSquence ?l2 (fmt_nat 1) = Some [(3, STable [])]"
    using tostring_id [of demo_consts 1]
    by (simp add: method_state_def SetCurrentHandlerId_def PushRequestToSquence_def Let_def demo_states)
  have commit: "UserManager_Commit demo_consts demo_modules l = ([], Inr (), l)" for l
    by (simp add: UserManager_Commit_def lua_exec demo_method split: option.split)
  show ?thesis
    using script_answers_request [of "net_package 10201 0 1 2 3 [91, 93]" demo_lenv "[91, 93]" 1 10201 demo_consts "[]" "[]"
        "demo_lserver (demo_online 1)" "()" 5 demo_modules "[]" 0 "[SNumber 7]" ?l2 "demo_lserver (demo_online 1)" "(3, STable [])" "[]" 8 "[]"
        "drop_request (fmt_nat 1) ?l2" "demo_lserver (demo_online 1)"]
    p(3) [simplified]
    by (auto simp: p demo_states demo_codes l2 [simplified] demo_method commit answered_event_def answered_server_def ascii_def)
qed

theorem unknown_request_shifts_answers_witness:
  "\<exists>s1 s2. logic_packet (scripted demo_consts demo_modules demo_lenv) (server_id GATEWAY) (net_package 10201 0 1 2 3 [91, 93])
      (word_of_nat (length (net_package 10201 0 1 2 3 [91, 93]))) (demo_lserver demo_pool) = Inr s1 \<and>
    logic_packet (scripted demo_consts demo_modules demo_lenv) (server_id GATEWAY) (net_package 10002 0 1 2 4 [91, 53, 93])
      (word_of_nat (length (net_package 10002 0 1 2 4 [91, 53, 93]))) s1 = Inr s2 \<and>
    uv_calls s2 = [UvWrite 8 (net_package 10002 0 1 4 3 (ascii ''[7]''))]"
proof -
  note p = net_package_request [where str = "[91, 93]" and ev = 10201 and err = 0 and hid = 1 and sid = 2 and seq = 3] net_package_request [where str = "[91, 53, 93]" and ev = 10002 and err = 0 and hid = 1 and sid = 2 and seq = 4]
  show ?thesis
    using unknown_request_shifts_answers [of "net_package 10201 0 1 2 3 [91, 93]" demo_lenv "[91, 93]" 1 10201 demo_consts "[]" "[]"
        "net_package 10002 0 1 2 4 [91, 53, 93]" "[91, 53, 93]" 5 "[]" "[]" "demo_lserver demo_pool" demo_modules "STable []" SNil 8 0]
      demo_cached p(3) [simplified] p(11) [simplified]
    by (auto simp: p demo_states demo_codes) (auto simp: ascii_def)
qed

text \<open>The response to a query for user 5 that found nothing.\<close>

definition demo_nothing :: kg_buffer where
  "demo_nothing = \<lparr>m_lRefCount = 1, m_uOriginSize = 40, m_uSize = 40, reserve = replicate 8 0,
     pvData = replicate 24 0 @ enc32 5 @ enc32 4 @ enc32 1 @ replicate 4 0\<rparr>"

theorem missing_user_gets_no_answer_witness:
  "\<exists>l. GameLogicServer_OnDBResponse (scripted demo_consts demo_modules demo_lenv) demo_nothing (demo_lserver demo_start) =
      Inr ((demo_lserver demo_start)\<lparr>logic_engine := \<lparr>lua_stack = [LuaString [101]], lua_state = l\<rparr>\<rparr>)"
proof -
  have "OnDBResponse_common demo_nothing = Inr (OnRedisRespone 1 5 4 [])" by code_simp
  from missing_user_gets_no_answer [OF this, of demo_consts demo_lenv demo_modules "demo_lserver demo_start"]
  show ?thesis by (auto simp: demo_codes)
qed

theorem player_can_log_out_another_witness:
  "\<exists>g1 s1. GatewayServer_OnMsgRecv (\<lambda>_ _. 0) (\<lambda>v. v) (\<lambda>_ _. None) 7 (int (length (net_package 4001 0 0 2 0 [91, 53, 93])))
      (net_package 4001 0 0 2 0 [91, 53, 93]) demo = Inr g1 \<and>
    GameLogicServer_OnMsgRecv (\<lambda>_ _. 0) (scripted demo_consts demo_modules demo_lenv) 8
      (int (length (net_package 4001 0 0 2 0 [91, 53, 93]))) (stamp 1 (net_package 4001 0 0 2 0 [91, 53, 93]))
      (demo_lserver (demo_online 5)) = Inr s1 \<and>
    NetManager_GetUserId demo_consts 5 (lua_state (logic_engine s1)) = SNil"
proof -
  note p = net_package_request [where str = "[91, 53, 93]" and ev = 4001 and err = 0 and hid = 0 and sid = 2 and seq = 0]
  show ?thesis
    using player_can_log_out_another [OF demo_reachable [where skip_field = "\<lambda>_ _. None"], of 1 7 "\<lparr>m_uHandlerId = 1, m_pRecvPacket = KG_CreateCommonPackage\<rparr>"
        12 "net_package 4001 0 0 2 0 [91, 53, 93]" "[91, 53, 93]" demo_consts 5 "[]" "[]" "demo_lserver (demo_online 5)" 8 demo_lenv 5
        "\<lambda>_ _. 0" "\<lambda>v. v" "\<lambda>_ _. 0" demo_modules]
    by (auto simp: p demo_fields GetHandlerById_def pk_ok_create demo_states demo_codes)
qed

end
