(* ===== verification/LoginScript.thy ===== *)
theory LoginScript
  imports LogicScript
begin

text \<open>
  The requests of the login process, \<^verbatim>\<open>script/module/login_protocol.lua\<close> with the checks of
  \<^verbatim>\<open>script/manager/user_manager.lua\<close>: a device logs in, and its user is asked from redis.
\<close>

section \<open>The requests\<close>

record login_consts = logic_consts +
  LOGIN_DIRECT :: int
  GET_DEVICE_ID :: int
  REGISTER :: bytes

text \<open>The two parameters are printed before they are checked.\<close>

definition CheckRegisterParam :: "'e script_env_scheme \<Rightarrow> script_value \<Rightarrow> ('c, 'g, script_value) lua" where
  "CheckRegisterParam env tbParam =
     (if \<not> IsTable tbParam then lua_ret (PARAMTER_ERROR env)
      else
        let strDeviceId = (case tbParam of STab vs _ \<Rightarrow> param 0 vs | _ \<Rightarrow> SNil);
            strIp = (case tbParam of STab vs _ \<Rightarrow> param 1 vs | _ \<Rightarrow> SNil) in
        lua_bind (concat_text env strDeviceId) (\<lambda>_.
        lua_bind (concat_text env strIp) (\<lambda>_.
        if \<not> IsString strDeviceId then lua_ret (PARAMTER_ERROR env)
        else if \<not> IsString strIp then lua_ret (PARAMTER_ERROR env)
        else lua_ret (SYSTEM_OK env))))"

definition CheckRegisterInfo :: "'e script_env_scheme \<Rightarrow> script_value \<Rightarrow> ('c, 'g, script_value) lua" where
  "CheckRegisterInfo env tbParam = CheckRegisterParam env tbParam"

text \<open>The number of the connection stands in for that of the user.\<close>

definition OnClientLoginDirect ::
  "'e login_consts_scheme \<Rightarrow> int \<Rightarrow> int \<Rightarrow> int \<Rightarrow> script_value \<Rightarrow> ('h, 'z, unit) logic_fun" where
  "OnClientLoginDirect env nHandlerId nEventId nSequenceId tbParam =
     lua_bind (CheckRegisterInfo env tbParam) (\<lambda>nErrorCode.
     if nErrorCode = SYSTEM_OK env then
       let strDeviceId = (case tbParam of STab vs _ \<Rightarrow> param 0 vs | _ \<Rightarrow> SNil) in
       RedisInterface_GetValue env (REGISTER env) (SNumber nHandlerId) (GET_DEVICE_ID env) strDeviceId SNil
     else
       lua_bind (PopRequestFromSquence env (SNumber nHandlerId)) (\<lambda>_.
       SendToGateway env CNet (SNumber nSequenceId) (SNumber nEventId) nErrorCode (SNumber nHandlerId) (SString [])))"

definition login_ClientRequest ::
  "'e login_consts_scheme \<Rightarrow> int \<Rightarrow> int \<Rightarrow> int \<Rightarrow> script_value \<Rightarrow> ('h, 'z, unit) logic_fun" where
  "login_ClientRequest env nHandlerId nEventId nSequenceId tbParam =
     (if nEventId = LOGIN_DIRECT env then OnClientLoginDirect env nHandlerId nEventId nSequenceId tbParam
      else lua_ret ())"

section \<open>What a login does\<close>

lemma login_asks_redis:
  assumes "json_decode env s = Some (STab (SString d # SString ip # vs) fs)" and "ev = LOGIN_DIRECT env"
  shows "\<exists>g'. OnClientRequest env (login_ClientRequest env) (SNumber h) (SNumber ev) (SNumber q) (SString s) g =
    ([CRedis_PushRedisGet [LuaNumber (m_nSquenceId g), LuaNumber h, LuaNumber (GET_DEVICE_ID env), LuaString (REGISTER env),
       LuaString d]], Inr SNil, g')"
proof -
  let ?v = "STab (SString d # SString ip # vs) fs"
  have "\<exists>g'. login_ClientRequest env h ev q ?v (PushRequestToSquence env (SNumber h) q ?v g) =
    ([CRedis_PushRedisGet [LuaNumber (m_nSquenceId g), LuaNumber h, LuaNumber (GET_DEVICE_ID env), LuaString (REGISTER env),
       LuaString d]], Inr (), g')"
    using assms(2)
    by (simp add: login_ClientRequest_def OnClientLoginDirect_def CheckRegisterInfo_def CheckRegisterParam_def param_def
        concat_text_def Let_def lua_exec lua_bind_def lua_basic RedisInterface_GetValue_def SetParameter_def AsyncManager_Push_def
        redis_text_def PushRequestToSquence_def)
  then show ?thesis
    using OnClientRequest_ok [OF assms(1), of "login_ClientRequest env" h ev q g] by metis
qed

text \<open>The requests that wait on a connection, and what is stored for them: an empty queue is removed.\<close>

definition waiting :: "bytes \<Rightarrow> ('h, 'z) script_globals_scheme \<Rightarrow> (int \<times> script_value) list" where
  "waiting key g = (case m_tbRequestSquence g key of None \<Rightarrow> [] | Some w \<Rightarrow> w)"

definition queue_of :: "'a list \<Rightarrow> 'a list option" where
  "queue_of w = (if w = [] then None else Some w)"

lemma queue_push: "m_tbRequestSquence (PushRequestToSquence env v q p g) =
    (m_tbRequestSquence g)(tostring env v \<mapsto> waiting (tostring env v) g @ [(q, p)])"
  by (simp add: PushRequestToSquence_def waiting_def Let_def split: option.split)

lemma queue_pop:
  "PopRequestFromSquence env (SNumber h) g =
    (case m_tbRequestSquence g (tostring env (SNumber h)) of
       None \<Rightarrow> ([], Inl BadArgument, g)
     | Some w \<Rightarrow> ([], if w = [] then Inl NilIndexed else Inr (Some (fst (hd w))),
         g\<lparr>m_tbRequestSquence := (m_tbRequestSquence g)(tostring env (SNumber h) := queue_of (tl w))\<rparr>))"
  by (auto simp: PopRequestFromSquence_def truthy_def Let_def lua_exec queue_of_def split: option.split list.split)

definition printable :: "script_value \<Rightarrow> bool" where
  "printable v \<longleftrightarrow> IsString v \<or> IsNumber v"

lemma concat_printable:
  "concat_text env v g = (if printable v then ([], Inr (tostring env v), g) else ([], Inl NilConcatenated, g))"
  by (cases v) (auto simp: concat_text_def printable_def lua_basic tostring_def)

text \<open>
  A login with something else than two texts. If one cannot be printed, the script fails; if both
  can, a request is taken from the queue twice before the answer is sent.
\<close>

lemma bad_login_run:
  assumes bad: "\<not> IsString (param 0 vs) \<or> \<not> IsString (param 1 vs)" and codes: "PARAMTER_ERROR env \<noteq> SYSTEM_OK env"
  shows "login_ClientRequest env h (LOGIN_DIRECT env) q (STab vs fs) g =
    (if printable (param 0 vs) \<and> printable (param 1 vs) then
       lua_bind (PopRequestFromSquence env (SNumber h)) (\<lambda>_.
         SendToGateway env CNet (SNumber q) (SNumber (LOGIN_DIRECT env)) (PARAMTER_ERROR env) (SNumber h) (SString [])) g
     else ([], Inl NilConcatenated, g))"
  using assms
  by (auto simp: login_ClientRequest_def OnClientLoginDirect_def CheckRegisterInfo_def CheckRegisterParam_def concat_printable
      Let_def lua_bind_def lua_basic)

section \<open>Properties\<close>

text \<open>C23: what a bad login does to the other requests of its connection. Let a login have a device or an
  address that is no text. If both can be printed, an answer with the error code is prepared, but a
  request is taken from the queue twice. So it is sent only when an earlier request of the connection
  waits for redis, and the two oldest requests are removed for it; with no other request nothing is sent,
  the second removal fails and so does the handling of this failure, which ends the call. If one of the two
  cannot be printed, the script fails without an answer, and the oldest request is removed.\<close>

theorem bad_login_costs_a_request:
  assumes json: "json_decode env s = Some (STab vs fs)"
    and bad: "\<not> IsString (param 0 vs) \<or> \<not> IsString (param 1 vs)" and codes: "PARAMTER_ERROR env \<noteq> SYSTEM_OK env"
    and gate: "SERVER_TYPE_DEF env CENTER \<le> SERVER_TYPE_DEF env GATEWAY"
    and w: "w = waiting (tostring env (SNumber h)) g"
    and both: "both = (printable (param 0 vs) \<and> printable (param 1 vs))"
  shows "\<exists>g'. OnClientRequest env (login_ClientRequest env) (SNumber h) (SNumber (LOGIN_DIRECT env)) (SNumber q) (SString s) g =
      (if both \<and> w \<noteq> [] then [CNet (SendToServer [LuaNumber (SERVER_TYPE_DEF env GATEWAY), LuaNumber q,
          LuaNumber (LOGIN_DIRECT env), to_lua (PARAMTER_ERROR env), LuaNumber h, LuaString []])] else [],
       if both \<and> w = [] then Inl BadArgument else Inr SNil, g')
    \<and> m_tbRequestSquence g' = (m_tbRequestSquence g)(tostring env (SNumber h) :=
        queue_of (drop (if both then 2 else 1) (w @ [(q, STab vs fs)])))"
proof -
  let ?g = "PushRequestToSquence env (SNumber h) q (STab vs fs) g" and ?key = "tostring env (SNumber h)"
  have queue: "m_tbRequestSquence ?g = (m_tbRequestSquence g)(?key \<mapsto> w @ [(q, STab vs fs)])"
    unfolding w by (rule queue_push)
  have body: "OnClientRequest_body env (login_ClientRequest env) (SNumber h) (SNumber (LOGIN_DIRECT env)) (SNumber q) (SString s) g
      = login_ClientRequest env h (LOGIN_DIRECT env) q (STab vs fs) ?g"
    using json by (simp add: OnClientRequest_body_def concat_text_def decode_text_def lua_exec tostring_def)
  have two: "queue_of [] = None" "drop 2 (a # v) = tl v" "queue_of (a # v) = Some (a # v)" "queue_of (v @ [a]) = Some (v @ [a])" for a :: "int \<times> script_value" and v
    by (simp_all add: queue_of_def drop_Suc numeral_2_eq_2)
  show ?thesis
  proof (cases both)
    case True
    then have run: "login_ClientRequest env h (LOGIN_DIRECT env) q (STab vs fs) ?g =
        lua_bind (PopRequestFromSquence env (SNumber h)) (\<lambda>_.
         SendToGateway env CNet (SNumber q) (SNumber (LOGIN_DIRECT env)) (PARAMTER_ERROR env) (SNumber h) (SString [])) ?g"
      using bad_login_run [OF bad codes] both by simp
    show ?thesis
      using True gate
      by (cases w)
         (simp_all add: OnClientRequest_def body run lua_bind_def lua_xpcall_def lua_basic queue_pop queue two
           SendToGateway_def NetManager_SendToServer_def ret_text_def truthy_def drop_Suc del: drop_append)
  next
    case False
    then have run: "login_ClientRequest env h (LOGIN_DIRECT env) q (STab vs fs) ?g = ([], Inl NilConcatenated, ?g)"
      unfolding bad_login_run [OF bad codes] using both by auto
    show ?thesis
      using False
      by (cases w) (simp_all add: OnClientRequest_def body run lua_bind_def lua_xpcall_def lua_basic queue_pop queue two drop_Suc del: drop_append)
  qed
qed

definition demo_login :: login_consts where
  "demo_login = logic_consts.extend (logic_consts.truncate (demo_consts\<lparr>json_decode := \<lambda>s. Some (STable [SNumber 7, SString [49]])\<rparr>))
     \<lparr>LOGIN_DIRECT = 10001, GET_DEVICE_ID = 1, REGISTER = ascii ''reg''\<rparr>"

definition demo_waiting :: "unit logic_lua" where
  "demo_waiting = demo_start\<lparr>m_tbRequestSquence := [tostring demo_login (SNumber 1) \<mapsto> [(2, STable [])]]\<rparr>"

theorem bad_login_costs_a_request_witness:
  "(\<exists>g'. OnClientRequest demo_login (login_ClientRequest demo_login) (SNumber 1) (SNumber 10001) (SNumber 3) (SString [91]) demo_waiting
     = ([CNet (SendToServer [LuaNumber 4, LuaNumber 3, LuaNumber 10001, LuaNumber 2, LuaNumber 1, LuaString []])], Inr SNil, g')
     \<and> m_tbRequestSquence g' = Map.empty) \<and>
   (\<exists>g'. OnClientRequest demo_login (login_ClientRequest demo_login) (SNumber 1) (SNumber 10001) (SNumber 3) (SString [91]) demo_start
     = ([], Inl BadArgument, g') \<and> m_tbRequestSquence g' = Map.empty)"
proof -
  have f: "json_decode demo_login s = Some (STable [SNumber 7, SString [49]])" "PARAMTER_ERROR demo_login = SNumber 2"
    "SYSTEM_OK demo_login = SNumber 0" "LOGIN_DIRECT demo_login = 10001" "SERVER_TYPE_DEF demo_login t = int (unat (server_id t))" for s t
    by (simp_all add: demo_login_def logic_consts.defs demo_consts_def)
  have "m_tbRequestSquence demo_start = Map.empty"
    by (simp add: demo_start_def logic_lua_new_def Register_def)
  then have w: "waiting (tostring demo_login (SNumber 1)) demo_waiting = [(2, STable [])]"
    "waiting (tostring demo_login (SNumber 1)) demo_start = []" "m_tbRequestSquence demo_start = Map.empty"
    "m_tbRequestSquence demo_waiting = [tostring demo_login (SNumber 1) \<mapsto> [(2, STable [])]]"
    by (simp_all add: waiting_def demo_waiting_def)
  show ?thesis
    using bad_login_costs_a_request [of demo_login "[91]" "[SNumber 7, SString [49]]" "[]" _ 1 demo_waiting True 3, OF f(1)]
      bad_login_costs_a_request [of demo_login "[91]" "[SNumber 7, SString [49]]" "[]" _ 1 demo_start True 3, OF f(1)]
    by (auto simp: f w param_def printable_def queue_of_def)
qed

end
