(* ===== verification/MysqlClient.thy ===== *)
theory MysqlClient
  imports LuaRedis
begin

text \<open>
  \<^verbatim>\<open>KMysqlClient\<close> of \<^verbatim>\<open>db_proxy/mysql_client.cpp\<close>: it builds SQL statements in one buffer, sends
  them, reconnects, and answers the queries of the redis client. The mysql library is an
  argument: what it answers depends on the calls made so far. The requests are the copies
  the redis client has queued.
\<close>

section \<open>What is outside: the mysql library\<close>

datatype mysql_call =
    Query nat bytes
  | Ping nat
  | StoreResult nat
  | RealConnect nat bytes bytes bytes bytes
  | SelectDb nat bytes
  | Close nat

text \<open>A stored result: the number of fields, and the rows with the text of each field.\<close>

record mysql_res =
  num_fields :: nat
  rows :: "bytes list list"

text \<open>
  \<open>mysql_query_ok\<close> and \<open>mysql_ping_ok\<close> say whether the last call returned 0. \<open>escape_string\<close>
  is what \<^verbatim>\<open>mysql_real_escape_string\<close> writes before its NUL. \<open>mysql_real_connect_ok\<close> says whether
  the last call returned its handle. \<open>memory_at\<close> is the rest of the block a non-null
  pointer of a request points into.
\<close>

record mysql_env =
  escape_string :: "bytes \<Rightarrow> bytes"
  mysql_query_ok :: "mysql_call list \<Rightarrow> bool"
  mysql_ping_ok :: "mysql_call list \<Rightarrow> bool"
  mysql_errno :: "mysql_call list \<Rightarrow> u32"
  mysql_error :: "mysql_call list \<Rightarrow> bytes"
  mysql_store_result :: "mysql_call list \<Rightarrow> mysql_res option"
  mysql_init :: "mysql_call list \<Rightarrow> nat"
  mysql_real_connect_ok :: "mysql_call list \<Rightarrow> bool"
  memory_at :: "u64 \<Rightarrow> bytes"
  buffers :: redis_env
  query_fuel :: nat

definition CR_CONN_HOST_ERROR :: u32 where "CR_CONN_HOST_ERROR = 2003"
definition CR_SERVER_GONE_ERROR :: u32 where "CR_SERVER_GONE_ERROR = 2006"
definition CR_SERVER_LOST :: u32 where "CR_SERVER_LOST = 2013"
definition ER_NO_SUCH_TABLE :: u32 where "ER_NO_SUCH_TABLE = 1146"
definition ER_BAD_TABLE_ERROR :: u32 where "ER_BAD_TABLE_ERROR = 1051"

section \<open>State\<close>

text \<open>
  \<open>m_pSQLBuff\<close> is the block itself. \<open>m_vecTableName\<close> has the names of each connection's
  set; the order of the set plays no role.
\<close>

record mysql_client = db_client +
  m_szDBName :: bytes
  m_vecMysql :: "nat list"
  m_vecTableName :: "(bool \<times> bytes) set list"
  m_pSQLBuff :: bytes
  m_uBuffLen :: u32
  mysql_calls :: "mysql_call list"

text \<open>\<^verbatim>\<open>KTableName\<close>; a \<^verbatim>\<open>const char*\<close> is the rest of the block it points into.\<close>

record table_name =
  bGlobal :: bool
  pcszName :: bytes
  uLen :: u32

definition GLOBAL_TABLE_NAME_PREFIX :: bytes where "GLOBAL_TABLE_NAME_PREFIX = ascii ''gt_''"
definition HASH_TABLE_NAME_PREFIX :: bytes where "HASH_TABLE_NAME_PREFIX = ascii ''ht_''"
definition TABLE_NAME_PREFIX_LEN :: nat where "TABLE_NAME_PREFIX_LEN = 3"

definition prefix_of :: "table_name \<Rightarrow> bytes" where
  "prefix_of t = (if bGlobal t then GLOBAL_TABLE_NAME_PREFIX else HASH_TABLE_NAME_PREFIX)"

definition log_mysql :: "mysql_call \<Rightarrow> 's mysql_client_scheme \<Rightarrow> 's mysql_client_scheme" where
  "log_mysql k c = c\<lparr>mysql_calls := mysql_calls c @ [k]\<rparr>"

definition connection_at :: "nat \<Rightarrow> 's mysql_client_scheme \<Rightarrow> nat res" where
  "connection_at nIndex c =
     (if nIndex < length (m_vecMysql c) then Inr (m_vecMysql c ! nIndex) else Inl OutOfBoundsRead)"

section \<open>Queries\<close>

text \<open>The pings after a lost connection: whether the last one succeeded, and how many have failed so far.\<close>

function ping_loop :: "mysql_env \<Rightarrow> nat \<Rightarrow> nat \<Rightarrow> 's mysql_client_scheme \<Rightarrow> bool \<times> nat \<times> 's mysql_client_scheme" where
  "ping_loop env pMysql nReconnectTimes c =
     (if nReconnectTimes \<le> 10 then
        let c = log_mysql (Ping pMysql) c in
        if mysql_ping_ok env (mysql_calls c) then (True, nReconnectTimes, c)
        else ping_loop env pMysql (nReconnectTimes + 1) c
      else (False, nReconnectTimes, c))"
  by pat_completeness auto
termination
  by (relation "measure (\<lambda>(env, pMysql, n, c). 11 - n)") auto

declare ping_loop.simps [simp del]

fun query_loop ::
  "mysql_env \<Rightarrow> nat \<Rightarrow> nat \<Rightarrow> bytes \<Rightarrow> nat \<Rightarrow> 's mysql_client_scheme \<Rightarrow> (bool \<times> 's mysql_client_scheme) res" where
  "query_loop env 0 pMysql cszQuery nReconnectTimes c = Inl OutOfFuel"
| "query_loop env (Suc fuel) pMysql cszQuery nReconnectTimes c =
     (let c = log_mysql (Query pMysql cszQuery) c in
      if mysql_query_ok env (mysql_calls c) then Inr (True, c)
      else if mysql_errno env (mysql_calls c) \<notin> {CR_SERVER_LOST, CR_CONN_HOST_ERROR, CR_SERVER_GONE_ERROR}
        then Inr (False, c)
      else
        case ping_loop env pMysql nReconnectTimes c of
          (True, n, c) \<Rightarrow> query_loop env fuel pMysql cszQuery n c
        | (False, n, c) \<Rightarrow> Inl (ProcessExit 0))"

text \<open>\<^verbatim>\<open>_DoQuery\<close>; the copies of the text it makes for its messages have no effect.\<close>

definition DoQuery ::
  "mysql_env \<Rightarrow> nat \<Rightarrow> bytes \<Rightarrow> 's mysql_client_scheme \<Rightarrow> (bool \<times> 's mysql_client_scheme) res" where
  "DoQuery env nIndex cszQuery c =
     bind_res (connection_at nIndex c) (\<lambda>pMysql. query_loop env (query_fuel env) pMysql cszQuery 0 c)"

definition GetQueryResult ::
  "mysql_env \<Rightarrow> nat \<Rightarrow> 's mysql_client_scheme \<Rightarrow> (mysql_res option \<times> 's mysql_client_scheme) res" where
  "GetQueryResult env nIndex c =
     bind_res (connection_at nIndex c) (\<lambda>pMysql.
     let c = log_mysql (StoreResult pMysql) c in
     Inr (mysql_store_result env (mysql_calls c), c))"

section \<open>Statements\<close>

text \<open>
  How a statement is written into the buffer: \<^verbatim>\<open>sprintf\<close> of a text, \<^verbatim>\<open>memcpy\<close> from and
  \<^verbatim>\<open>mysql_real_escape_string\<close> of so many bytes at a pointer, one character. The first and
  the third also write a NUL behind the text.
\<close>

datatype sql_piece =
    Sprintf bytes
  | Memcpy bytes nat
  | Escape bytes nat
  | Char byte

fun piece_read :: "sql_piece \<Rightarrow> bytes res" where
  "piece_read (Sprintf s) = Inr s"
| "piece_read (Memcpy p n) = mem_read p 0 n"
| "piece_read (Escape p n) = mem_read p 0 n"
| "piece_read (Char b) = Inr [b]"

fun piece_text :: "(bytes \<Rightarrow> bytes) \<Rightarrow> sql_piece \<Rightarrow> bytes \<Rightarrow> bytes" where
  "piece_text esc (Escape p n) s = esc s"
| "piece_text esc _ s = s"

fun piece_end :: "sql_piece \<Rightarrow> bytes" where
  "piece_end (Sprintf s) = [0]"
| "piece_end (Escape p n) = [0]"
| "piece_end _ = []"

fun sql_write :: "(bytes \<Rightarrow> bytes) \<Rightarrow> sql_piece list \<Rightarrow> nat \<Rightarrow> bytes \<Rightarrow> (nat \<times> bytes) res" where
  "sql_write esc [] pos buf = Inr (pos, buf)"
| "sql_write esc (p # ps) pos buf =
     bind_res (piece_read p) (\<lambda>s.
     bind_res (mem_write buf pos (piece_text esc p s @ piece_end p)) (\<lambda>buf.
     sql_write esc ps (pos + length (piece_text esc p s)) buf))"

text \<open>The statement is written and sent.\<close>

definition SendStatement ::
  "mysql_env \<Rightarrow> nat \<Rightarrow> sql_piece list \<Rightarrow> 's mysql_client_scheme \<Rightarrow> (bool \<times> 's mysql_client_scheme) res" where
  "SendStatement env nIndex pieces c =
     bind_res (sql_write (escape_string env) pieces 0 (m_pSQLBuff c)) (\<lambda>(nRetCode, buf).
     bind_res (mem_read buf 0 nRetCode) (\<lambda>cszQuery.
     DoQuery env nIndex cszQuery (c\<lparr>m_pSQLBuff := buf\<rparr>)))"

text \<open>A larger buffer, if the computed length asks for one.\<close>

definition GrowBuffer :: "mysql_env \<Rightarrow> u32 \<Rightarrow> 's mysql_client_scheme \<Rightarrow> 's mysql_client_scheme" where
  "GrowBuffer env uSQLLen c =
     (if uSQLLen > m_uBuffLen c
      then c\<lparr>m_pSQLBuff := fresh_block (malloc_mem (buffers env) (kg_heap c)) (unat uSQLLen), m_uBuffLen := uSQLLen\<rparr>
      else c)"

definition quote :: bytes where "quote = [39]"

definition name_pieces :: "table_name \<Rightarrow> sql_piece list" where
  "name_pieces t = [Memcpy (prefix_of t) TABLE_NAME_PREFIX_LEN, Memcpy (pcszName t) (unat (uLen t))]"

definition insert_pieces :: "table_name \<Rightarrow> bytes \<Rightarrow> u32 \<Rightarrow> bytes \<Rightarrow> u32 \<Rightarrow> sql_piece list" where
  "insert_pieces t pcszKey uKeyLen pcszData uDataLen =
     [Sprintf (ascii ''INSERT '')] @ name_pieces t @
     [Sprintf (ascii '' (key_name,data) values('' @ quote), Escape pcszKey (unat uKeyLen),
      Sprintf (quote @ ascii '','' @ quote)] @
     (if uDataLen > 0 then [Escape pcszData (unat uDataLen)] else []) @
     [Sprintf (quote @ ascii '') ON DUPLICATE KEY UPDATE data='' @ quote)] @
     (if uDataLen > 0 then [Escape pcszData (unat uDataLen)] else []) @
     [Char 39]"

text \<open>The sizes of two format texts, with their NUL.\<close>

definition s_uUpdateFixedLen :: u32 where "s_uUpdateFixedLen = 75"
definition s_uDeleteFixedLen :: u32 where "s_uDeleteFixedLen = 31"

fun set_loop ::
  "mysql_env \<Rightarrow> nat \<Rightarrow> nat \<Rightarrow> table_name \<Rightarrow> bytes \<Rightarrow> u32 \<Rightarrow> bytes \<Rightarrow> u32 \<Rightarrow> 's mysql_client_scheme
     \<Rightarrow> (bool \<times> 's mysql_client_scheme) res" where
  "set_loop env 0 nIndex t pcszKey uKeyLen pcszData uDataLen c = Inl OutOfFuel"
| "set_loop env (Suc fuel) nIndex t pcszKey uKeyLen pcszData uDataLen c =
     bind_res (connection_at nIndex c) (\<lambda>pMySQL.
     let uSQLLen = s_uUpdateFixedLen + uKeyLen + uDataLen * 4;
         c = GrowBuffer env uSQLLen c in
     bind_res (SendStatement env nIndex (insert_pieces t pcszKey uKeyLen pcszData uDataLen) c) (\<lambda>(bRet, c).
     if mysql_errno env (mysql_calls c) = ER_NO_SUCH_TABLE
     then set_loop env fuel nIndex t pcszKey uKeyLen pcszData uDataLen c
     else Inr (True, c)))"

definition RedisHashTableSet ::
  "mysql_env \<Rightarrow> nat \<Rightarrow> table_name \<Rightarrow> bytes \<Rightarrow> u32 \<Rightarrow> bytes option \<Rightarrow> u32 \<Rightarrow> 's mysql_client_scheme
     \<Rightarrow> (bool \<times> 's mysql_client_scheme) res" where
  "RedisHashTableSet env nIndex t pcszKey uKeyLen pcszData uDataLen c =
     (case pcszData of
        None \<Rightarrow> Inr (False, c)
      | Some data \<Rightarrow> set_loop env (query_fuel env) nIndex t pcszKey uKeyLen data uDataLen c)"

text \<open>The cache of table names.\<close>

definition SaveTableName :: "nat \<Rightarrow> table_name \<Rightarrow> 's mysql_client_scheme \<Rightarrow> 's mysql_client_scheme res" where
  "SaveTableName nIndex t c =
     bind_res (mem_read (pcszName t) 0 (unat (uLen t))) (\<lambda>pName.
     if nIndex < length (m_vecTableName c)
     then Inr (c\<lparr>m_vecTableName := (m_vecTableName c)[nIndex := insert (bGlobal t, pName) (m_vecTableName c ! nIndex)]\<rparr>)
     else Inl OutOfBoundsRead)"

definition RemoveRedisHashTableCache ::
  "nat \<Rightarrow> table_name \<Rightarrow> 's mysql_client_scheme \<Rightarrow> 's mysql_client_scheme res" where
  "RemoveRedisHashTableCache nIndex t c =
     bind_res (mem_read (pcszName t) 0 (unat (uLen t))) (\<lambda>name.
     if nIndex < length (m_vecTableName c)
     then Inr (c\<lparr>m_vecTableName := (m_vecTableName c)[nIndex := m_vecTableName c ! nIndex - {(bGlobal t, name)}]\<rparr>)
     else Inl OutOfBoundsRead)"

definition CheckAndCreateRedisHashTable ::
  "nat \<Rightarrow> table_name \<Rightarrow> 's mysql_client_scheme \<Rightarrow> (bool \<times> 's mysql_client_scheme) res" where
  "CheckAndCreateRedisHashTable nIndex t c = bind_res (SaveTableName nIndex t c) (\<lambda>c. Inr (True, c))"

definition check_pieces :: "bytes \<Rightarrow> table_name \<Rightarrow> sql_piece list" where
  "check_pieces dbname t =
     [Sprintf (ascii ''SELECT TABLE_NAME FROM INFORMATION_SCHEMA.TABLES WHERE TABLE_SCHEMA='' @ quote @ dbname
        @ quote @ ascii '' AND TABLE_NAME='' @ quote @ prefix_of t),
      Memcpy (pcszName t) (unat (uLen t)), Char 39]"

definition CheckRedisHastTableIsExist ::
  "mysql_env \<Rightarrow> nat \<Rightarrow> table_name \<Rightarrow> 's mysql_client_scheme \<Rightarrow> (bool \<times> 's mysql_client_scheme) res" where
  "CheckRedisHastTableIsExist env nIndex t c =
     bind_res (SendStatement env nIndex (check_pieces (m_szDBName c) t) c) (\<lambda>(nRetCode, c).
     bind_res (GetQueryResult env nIndex c) (\<lambda>(cMysqljResult, c).
     case cMysqljResult of
       None \<Rightarrow> Inr (False, c)
     | Some r \<Rightarrow>
         if length (rows r) \<noteq> 1 then Inr (False, c)
         else bind_res (SaveTableName nIndex t c) (\<lambda>c. Inr (True, c))))"

definition s_uQueryCreate :: u32 where "s_uQueryCreate = 189"

definition CREATE_TAIL :: bytes where
  "CREATE_TAIL = ascii '' (key_name VARCHAR(333) CHARACTER SET utf8 PRIMARY KEY, data LONGBLOB, modifytime TIMESTAMP DEFAULT CURRENT_TIMESTAMP ON UPDATE CURRENT_TIMESTAMP) CHARSET=utf8''"

text \<open>\<^verbatim>\<open>CreateRedisHashTable\<close>: the statement is only built if its estimated length does not fit.\<close>

definition CreateRedisHashTable ::
  "mysql_env \<Rightarrow> nat \<Rightarrow> table_name \<Rightarrow> junk \<Rightarrow> 's mysql_client_scheme \<Rightarrow> (bool \<times> 's mysql_client_scheme) res" where
  "CreateRedisHashTable env nIndex t stack c =
     (let uQueryLen = s_uQueryCreate + uLen t in
      if uQueryLen < 1024 then Inr (False, c)
      else
        bind_res (sql_write (escape_string env)
            ([Sprintf (ascii ''CREATE TABLE IF NOT EXISTS '')] @ name_pieces t @ [Sprintf CREATE_TAIL])
            0 (fresh_block stack 1024)) (\<lambda>(nRetCode, szQuery).
        bind_res (mem_read szQuery 0 nRetCode) (\<lambda>cszQuery.
        bind_res (DoQuery env nIndex cszQuery c) (\<lambda>(_, c). Inr (True, c)))))"

definition delete_pieces :: "table_name \<Rightarrow> bytes \<Rightarrow> u32 \<Rightarrow> sql_piece list" where
  "delete_pieces t pcszKey uKeyLen =
     [Sprintf (ascii ''DELETE FROM '')] @ name_pieces t @
     [Sprintf (ascii '' where key_name='' @ quote), Escape pcszKey (unat uKeyLen), Char 39]"

definition RedisHashTableDel ::
  "mysql_env \<Rightarrow> nat \<Rightarrow> table_name \<Rightarrow> bytes \<Rightarrow> u32 \<Rightarrow> 's mysql_client_scheme
     \<Rightarrow> (bool \<times> 's mysql_client_scheme) res" where
  "RedisHashTableDel env nIndex t pcszKey uKeyLen c =
     bind_res (connection_at nIndex c) (\<lambda>pMySQL.
     let uSQLLen = s_uDeleteFixedLen + uKeyLen + uLen t + word_of_nat TABLE_NAME_PREFIX_LEN;
         c = GrowBuffer env uSQLLen c in
     bind_res (SendStatement env nIndex (delete_pieces t pcszKey uKeyLen) c) (\<lambda>(bRet, c).
     bind_res (RemoveRedisHashTableCache nIndex t c) (\<lambda>c. Inr (True, c))))"

definition select_pieces :: "table_name \<Rightarrow> bytes \<Rightarrow> u32 \<Rightarrow> sql_piece list" where
  "select_pieces t pcszKey uKeyLen =
     [Sprintf (ascii ''SELECT data FROM '')] @ name_pieces t @
     [Sprintf (ascii '' WHERE key_name='' @ quote), Escape pcszKey (unat uKeyLen), Char 39]"

definition RedisHashTableGet ::
  "mysql_env \<Rightarrow> nat \<Rightarrow> table_name \<Rightarrow> bytes \<Rightarrow> u32 \<Rightarrow> 's mysql_client_scheme
     \<Rightarrow> (bool \<times> 's mysql_client_scheme) res" where
  "RedisHashTableGet env nIndex t pcszKey uKeyLen c =
     bind_res (connection_at nIndex c) (\<lambda>pMySQL.
     bind_res (SendStatement env nIndex (select_pieces t pcszKey uKeyLen) c) (\<lambda>(nRetCode, c).
     Inr (True, c)))"

section \<open>What a statement looks like\<close>

text \<open>The text a piece contributes, whether its source is long enough, and the room the pieces need.\<close>

fun piece_value :: "(bytes \<Rightarrow> bytes) \<Rightarrow> sql_piece \<Rightarrow> bytes" where
  "piece_value esc (Sprintf s) = s"
| "piece_value esc (Memcpy p n) = take n p"
| "piece_value esc (Escape p n) = esc (take n p)"
| "piece_value esc (Char b) = [b]"

fun piece_in_bounds :: "sql_piece \<Rightarrow> bool" where
  "piece_in_bounds (Memcpy p n) \<longleftrightarrow> n \<le> length p"
| "piece_in_bounds (Escape p n) \<longleftrightarrow> n \<le> length p"
| "piece_in_bounds _ \<longleftrightarrow> True"

definition sql_text :: "(bytes \<Rightarrow> bytes) \<Rightarrow> sql_piece list \<Rightarrow> bytes" where
  "sql_text esc ps = concat (map (piece_value esc) ps)"

fun sql_room :: "(bytes \<Rightarrow> bytes) \<Rightarrow> sql_piece list \<Rightarrow> nat" where
  "sql_room esc [] = 0"
| "sql_room esc (p # ps) = length (piece_value esc p) + max (length (piece_end p)) (sql_room esc ps)"

lemma piece_read_ok:
  "piece_in_bounds p \<Longrightarrow> \<exists>s. piece_read p = Inr s \<and> piece_text esc p s = piece_value esc p"
  by (cases p) (auto simp: mslice_def)

lemma sql_write_ok:
  assumes "\<forall>p\<in>set ps. piece_in_bounds p" and "pos + sql_room esc ps \<le> length buf"
  shows "\<exists>buf'. sql_write esc ps pos buf = Inr (pos + length (sql_text esc ps), buf')
    \<and> length buf' = length buf \<and> take (pos + length (sql_text esc ps)) buf' = take pos buf @ sql_text esc ps"
  using assms
proof (induction ps arbitrary: pos buf)
  case (Cons p ps)
  let ?v = "piece_value esc p"
  obtain s where s: "piece_read p = Inr s" "piece_text esc p s = ?v"
    using piece_read_ok [of p esc] Cons.prems(1) by auto
  let ?buf = "msplice buf pos (?v @ piece_end p)"
  have fits: "pos + length (?v @ piece_end p) \<le> length buf" using Cons.prems(2) by simp
  have room: "pos + length ?v + sql_room esc ps \<le> length ?buf" using Cons.prems(2) fits by simp
  obtain buf' where rest: "sql_write esc ps (pos + length ?v) ?buf
        = Inr (pos + length ?v + length (sql_text esc ps), buf')"
      "length buf' = length ?buf"
      "take (pos + length ?v + length (sql_text esc ps)) buf' = take (pos + length ?v) ?buf @ sql_text esc ps"
    using Cons.IH [of "pos + length ?v" ?buf] Cons.prems(1) room by auto
  have "take (pos + length ?v) ?buf = take pos buf @ ?v"
    using fits by (simp add: msplice_def)
  then show ?case using rest s fits by (simp add: sql_text_def add.assoc)
qed (simp add: sql_text_def)

lemma sql_write_overflow:
  assumes "\<forall>p\<in>set ps. piece_in_bounds p" and "length buf < pos + sql_room esc ps" and "pos \<le> length buf"
  shows "sql_write esc ps pos buf = Inl HeapOverflow"
  using assms
proof (induction ps arbitrary: pos buf)
  case (Cons p ps)
  let ?v = "piece_value esc p"
  obtain s where s: "piece_read p = Inr s" "piece_text esc p s = ?v"
    using piece_read_ok [of p esc] Cons.prems(1) by auto
  show ?case
  proof (cases "pos + length (?v @ piece_end p) \<le> length buf")
    case True
    then show ?thesis
      using Cons.prems s Cons.IH [of "msplice buf pos (?v @ piece_end p)" "pos + length ?v"] by simp
  next
    case False
    then show ?thesis using s by simp
  qed
qed simp

text \<open>A statement that fits is sent as it is; the rest of the client does not change.\<close>

lemma SendStatement_fits:
  assumes "\<forall>p\<in>set ps. piece_in_bounds p" and "sql_room (escape_string env) ps \<le> length (m_pSQLBuff c)"
    and "length (sql_text (escape_string env) ps) \<le> length (m_pSQLBuff c)"
  shows "\<exists>buf. length buf = length (m_pSQLBuff c)
    \<and> SendStatement env n ps c = DoQuery env n (sql_text (escape_string env) ps) (c\<lparr>m_pSQLBuff := buf\<rparr>)"
proof -
  obtain buf where "sql_write (escape_string env) ps 0 (m_pSQLBuff c)
      = Inr (length (sql_text (escape_string env) ps), buf)" "length buf = length (m_pSQLBuff c)"
      "take (length (sql_text (escape_string env) ps)) buf = sql_text (escape_string env) ps"
    using sql_write_ok [OF assms(1), of 0 "escape_string env" "m_pSQLBuff c"] assms(2) by auto
  then show ?thesis using assms(3) by (intro exI [of _ buf]) (simp add: SendStatement_def mslice_def)
qed

lemma SendStatement_overflow:
  assumes "\<forall>p\<in>set ps. piece_in_bounds p" and "length (m_pSQLBuff c) < sql_room (escape_string env) ps"
  shows "SendStatement env n ps c = Inl HeapOverflow"
  using sql_write_overflow [OF assms(1), of "m_pSQLBuff c" 0] assms(2) by (simp add: SendStatement_def)

section \<open>The insert statement\<close>

definition insert_statement :: "(bytes \<Rightarrow> bytes) \<Rightarrow> bytes \<Rightarrow> bytes \<Rightarrow> bytes \<Rightarrow> bytes" where
  "insert_statement esc table key value =
     ascii ''INSERT '' @ table @ ascii '' (key_name,data) values('' @ quote @ esc key @ quote @ ascii '','' @ quote
       @ esc value @ quote @ ascii '') ON DUPLICATE KEY UPDATE data='' @ quote @ esc value @ quote"

text \<open>The buffer is as long as the client thinks.\<close>

definition sql_buffer_ok :: "'s mysql_client_scheme \<Rightarrow> bool" where
  "sql_buffer_ok c \<longleftrightarrow> length (m_pSQLBuff c) = unat (m_uBuffLen c)"

lemma length_insert_statement:
  "length (insert_statement esc table key value) = 69 + length table + length (esc key) + 2 * length (esc value)"
  by (simp add: insert_statement_def ascii_def quote_def)

lemma insert_pieces_text:
  assumes "esc [] = []" and "unat (uLen t) \<le> length (pcszName t)" and "unat kl \<le> length k" and "unat vl \<le> length v"
  shows "sql_text esc (insert_pieces t k kl v vl)
      = insert_statement esc (prefix_of t @ take (unat (uLen t)) (pcszName t)) (take (unat kl) k) (take (unat vl) v)"
    and "sql_room esc (insert_pieces t k kl v vl) = length (sql_text esc (insert_pieces t k kl v vl))"
proof -
  have pre: "length (prefix_of t) = 3"
    by (simp add: prefix_of_def GLOBAL_TABLE_NAME_PREFIX_def HASH_TABLE_NAME_PREFIX_def ascii_def)
  have z: "unat vl = 0" if "\<not> 0 < vl" using that by (simp add: word_gt_0)
  show "sql_text esc (insert_pieces t k kl v vl)
      = insert_statement esc (prefix_of t @ take (unat (uLen t)) (pcszName t)) (take (unat kl) k) (take (unat vl) v)"
    using assms pre z
    by (simp add: sql_text_def insert_pieces_def name_pieces_def insert_statement_def TABLE_NAME_PREFIX_LEN_def quote_def)
  show "sql_room esc (insert_pieces t k kl v vl) = length (sql_text esc (insert_pieces t k kl v vl))"
    by (simp add: sql_text_def insert_pieces_def name_pieces_def quote_def)
qed

lemma insert_pieces_in_bounds:
  assumes "unat (uLen t) \<le> length (pcszName t)" and "unat kl \<le> length k" and "unat vl \<le> length v"
  shows "\<forall>p\<in>set (insert_pieces t k kl v vl). piece_in_bounds p"
  using assms by (simp add: insert_pieces_def name_pieces_def TABLE_NAME_PREFIX_LEN_def prefix_of_def
      GLOBAL_TABLE_NAME_PREFIX_def HASH_TABLE_NAME_PREFIX_def ascii_def)


section \<open>Sending\<close>

lemma DoQuery_ok:
  assumes "n < length (m_vecMysql c)" and "0 < query_fuel env"
    and "mysql_query_ok env (mysql_calls c @ [Query (m_vecMysql c ! n) text])"
  shows "DoQuery env n text c = Inr (True, log_mysql (Query (m_vecMysql c ! n) text) c)"
proof -
  obtain f where "query_fuel env = Suc f" using assms(2) by (cases "query_fuel env") simp_all
  then show ?thesis using assms by (simp add: DoQuery_def connection_at_def log_mysql_def)
qed

text \<open>A buffer that is as long as the client thinks, and long enough after growing, or not.\<close>

lemma GrowBuffer_ok:
  assumes "sql_buffer_ok c"
  shows "sql_buffer_ok (GrowBuffer env l c)"
    and "length (m_pSQLBuff (GrowBuffer env l c)) = max (unat (m_uBuffLen c)) (unat l)"
    and "mysql_calls (GrowBuffer env l c) = mysql_calls c" "m_vecMysql (GrowBuffer env l c) = m_vecMysql c"
    "m_vecTableName (GrowBuffer env l c) = m_vecTableName c" "kg_heap (GrowBuffer env l c) = kg_heap c"
    "m_RequestQueue (GrowBuffer env l c) = m_RequestQueue c" "IsOpen (GrowBuffer env l c) = IsOpen c"
  using assms by (auto simp: GrowBuffer_def sql_buffer_ok_def word_less_nat_alt max_def IsOpen_def)

lemma insert_size:
  assumes "75 + unat kl + 4 * unat vl < 2 ^ 32"
  shows "unat (s_uUpdateFixedLen + kl + vl * 4) = 75 + unat kl + 4 * unat vl"
proof -
  have m: "unat (vl * 4) = 4 * unat vl"
    using assms by (subst unat_mult_lem [THEN iffD1]) simp_all
  have a: "unat (75 + kl) = 75 + unat kl"
    using assms by (subst unat_add_lem [THEN iffD1]) simp_all
  show ?thesis
    using assms m a by (subst unat_add_lem [THEN iffD1]) (simp_all add: s_uUpdateFixedLen_def)
qed

text \<open>One insert statement: what has to hold of its sources, its text, and how it is sent.\<close>

definition insert_sources :: "mysql_env \<Rightarrow> table_name \<Rightarrow> bytes \<Rightarrow> u32 \<Rightarrow> bytes \<Rightarrow> u32 \<Rightarrow> bool" where
  "insert_sources env t k kl v vl \<longleftrightarrow>
     escape_string env [] = [] \<and> unat (uLen t) \<le> length (pcszName t) \<and> unat kl \<le> length k
       \<and> unat vl \<le> length v \<and> 75 + unat kl + 4 * unat vl < 2 ^ 32"

definition insert_text :: "mysql_env \<Rightarrow> table_name \<Rightarrow> bytes \<Rightarrow> u32 \<Rightarrow> bytes \<Rightarrow> u32 \<Rightarrow> bytes" where
  "insert_text env t k kl v vl =
     insert_statement (escape_string env) (prefix_of t @ take (unat (uLen t)) (pcszName t))
       (take (unat kl) k) (take (unat vl) v)"

definition insert_room :: "'s mysql_client_scheme \<Rightarrow> u32 \<Rightarrow> u32 \<Rightarrow> nat" where
  "insert_room c kl vl = max (unat (m_uBuffLen c)) (75 + unat kl + 4 * unat vl)"

lemma insert_sent:
  assumes "insert_sources env t k kl v vl" and "sql_buffer_ok c"
    and "length (insert_text env t k kl v vl) \<le> insert_room c kl vl"
  shows "\<exists>c'. SendStatement env n (insert_pieces t k kl v vl) (GrowBuffer env (s_uUpdateFixedLen + kl + vl * 4) c)
        = DoQuery env n (insert_text env t k kl v vl) c'
      \<and> sql_buffer_ok c' \<and> insert_room c' kl vl = insert_room c kl vl \<and> mysql_calls c' = mysql_calls c \<and> m_vecMysql c' = m_vecMysql c
      \<and> m_vecTableName c' = m_vecTableName c \<and> kg_heap c' = kg_heap c
      \<and> m_RequestQueue c' = m_RequestQueue c \<and> IsOpen c' = IsOpen c"
proof -
  let ?c = "GrowBuffer env (s_uUpdateFixedLen + kl + vl * 4) c"
  note src = assms(1) [unfolded insert_sources_def]
  note g = GrowBuffer_ok [OF assms(2), of env "s_uUpdateFixedLen + kl + vl * 4"]
  have p: "sql_text (escape_string env) (insert_pieces t k kl v vl) = insert_text env t k kl v vl"
    "sql_room (escape_string env) (insert_pieces t k kl v vl) = length (insert_text env t k kl v vl)"
    "\<forall>p\<in>set (insert_pieces t k kl v vl). piece_in_bounds p"
    using src insert_pieces_in_bounds [of t kl k vl v] by (simp_all add: insert_pieces_text insert_text_def)
  have "length (insert_text env t k kl v vl) \<le> length (m_pSQLBuff ?c)"
    using assms(3) g(2) insert_size [of kl vl] src by (simp add: insert_room_def)
  then obtain buf where "length buf = length (m_pSQLBuff ?c)"
      "SendStatement env n (insert_pieces t k kl v vl) ?c
        = DoQuery env n (insert_text env t k kl v vl) (?c\<lparr>m_pSQLBuff := buf\<rparr>)"
    using SendStatement_fits [OF p(3), of env ?c n] p by auto
  then show ?thesis
    using g insert_size [of kl vl] src
    by (intro exI [of _ "?c\<lparr>m_pSQLBuff := buf\<rparr>"]) (simp add: sql_buffer_ok_def insert_room_def IsOpen_def)
qed

lemma insert_overflows:
  assumes "insert_sources env t k kl v vl" and "sql_buffer_ok c"
    and "insert_room c kl vl < length (insert_text env t k kl v vl)"
  shows "SendStatement env n (insert_pieces t k kl v vl) (GrowBuffer env (s_uUpdateFixedLen + kl + vl * 4) c)
        = Inl HeapOverflow"
proof -
  let ?c = "GrowBuffer env (s_uUpdateFixedLen + kl + vl * 4) c"
  note src = assms(1) [unfolded insert_sources_def]
  have "length (m_pSQLBuff ?c) < sql_room (escape_string env) (insert_pieces t k kl v vl)"
    using assms(3) GrowBuffer_ok(2) [OF assms(2), of env "s_uUpdateFixedLen + kl + vl * 4"] insert_size [of kl vl] src
    by (simp add: insert_pieces_text insert_text_def insert_room_def)
  then show ?thesis using SendStatement_overflow insert_pieces_in_bounds src by blast
qed


text \<open>A query only adds to the calls.\<close>

lemma ping_loop_calls:
  "\<exists>ks. snd (snd (ping_loop env p k c)) = c\<lparr>mysql_calls := mysql_calls c @ ks\<rparr>"
proof (induction env p k c rule: ping_loop.induct)
  case (1 env p k c)
  let ?c = "log_mysql (Ping p) c"
  show ?case
  proof (cases "k \<le> 10 \<and> \<not> mysql_ping_ok env (mysql_calls ?c)")
    case True
    then obtain ks where "snd (snd (ping_loop env p (k + 1) ?c)) = ?c\<lparr>mysql_calls := mysql_calls ?c @ ks\<rparr>"
      using 1 by auto
    then show ?thesis using True
      by (subst ping_loop.simps) (auto simp: log_mysql_def)
  next
    case False
    then show ?thesis
      by (subst ping_loop.simps) (auto simp: log_mysql_def Let_def intro: exI [of _ "[]"])
  qed
qed

lemma query_loop_calls:
  "query_loop env fuel p q k c = Inr (r, c') \<Longrightarrow> \<exists>ks. c' = c\<lparr>mysql_calls := mysql_calls c @ ks\<rparr>"
proof (induction fuel arbitrary: k c)
  case (Suc fuel)
  let ?c = "log_mysql (Query p q) c"
  obtain ok n d where pl: "ping_loop env p k ?c = (ok, n, d)" using prod_cases3 by blast
  obtain ks where d: "d = ?c\<lparr>mysql_calls := mysql_calls ?c @ ks\<rparr>" using ping_loop_calls [of env p k ?c] pl by auto
  show ?case
    using Suc.prems Suc.IH [of n d] pl d
    by (cases ok) (auto simp: Let_def log_mysql_def split: if_splits)
qed simp

lemma query_loop_fault: "query_loop env fuel p q k c \<noteq> Inl HeapOverflow"
  by (induction fuel arbitrary: k c) (simp_all add: Let_def split: prod.split bool.split)

lemma DoQuery_calls:
  assumes "DoQuery env n q c = Inr (r, c')"
  shows "\<exists>ks. c' = c\<lparr>mysql_calls := mysql_calls c @ ks\<rparr>"
  using assms by (auto simp: DoQuery_def bind_res_eq_Inr dest: query_loop_calls)

lemma DoQuery_fault: "DoQuery env n q c \<noteq> Inl HeapOverflow"
  by (auto simp: DoQuery_def bind_res_eq_Inl connection_at_def query_loop_fault)

lemma set_loop_fits:
  assumes "insert_sources env t k kl v vl" and "sql_buffer_ok c"
    and "length (insert_text env t k kl v vl) \<le> insert_room c kl vl"
  shows "set_loop env fuel n t k kl v vl c \<noteq> Inl HeapOverflow"
  using assms(2,3)
proof (induction fuel arbitrary: c)
  case (Suc fuel)
  obtain c1 where c1: "SendStatement env n (insert_pieces t k kl v vl)
        (GrowBuffer env (s_uUpdateFixedLen + kl + vl * 4) c) = DoQuery env n (insert_text env t k kl v vl) c1"
      "sql_buffer_ok c1" "insert_room c1 kl vl = insert_room c kl vl"
    using insert_sent [OF assms(1) Suc.prems, of n] by blast
  have rec: "set_loop env fuel n t k kl v vl c2 \<noteq> Inl HeapOverflow"
    if "DoQuery env n (insert_text env t k kl v vl) c1 = Inr (r, c2)" for r c2
    using Suc.IH [of c2] DoQuery_calls [OF that] c1 Suc.prems by (auto simp: sql_buffer_ok_def insert_room_def)
  then show ?case
    using c1(1) DoQuery_fault [of env n "insert_text env t k kl v vl" c1]
    by (auto simp: bind_res_eq_Inl connection_at_def Let_def split: if_splits)
qed simp


text \<open>The calls of a query whose connection is lost \<open>m\<close> times and back after one ping each time.\<close>

definition lost_calls :: "nat \<Rightarrow> bytes \<Rightarrow> nat \<Rightarrow> mysql_call list" where
  "lost_calls p q m = concat (replicate m [Query p q, Ping p])"

lemma lost_calls_Suc: "lost_calls p q (Suc m) = lost_calls p q m @ [Query p q, Ping p]"
  by (induction m) (simp_all add: lost_calls_def)

definition connection_lost :: "mysql_env \<Rightarrow> mysql_call list \<Rightarrow> bool" where
  "connection_lost env calls \<longleftrightarrow> \<not> mysql_query_ok env calls
     \<and> mysql_errno env calls \<in> {CR_SERVER_LOST, CR_CONN_HOST_ERROR, CR_SERVER_GONE_ERROR}"

lemma query_loop_round:
  assumes "connection_lost env (mysql_calls c @ [Query p q])" and "k \<le> 10"
    and "mysql_ping_ok env (mysql_calls c @ [Query p q, Ping p])"
  shows "query_loop env (Suc fuel) p q k c
    = query_loop env fuel p q k (c\<lparr>mysql_calls := mysql_calls c @ [Query p q, Ping p]\<rparr>)"
proof -
  have "ping_loop env p k (log_mysql (Query p q) c)
      = (True, k, c\<lparr>mysql_calls := mysql_calls c @ [Query p q, Ping p]\<rparr>)"
    using assms by (subst ping_loop.simps) (simp add: log_mysql_def)
  then show ?thesis
    using assms by (auto simp: connection_lost_def log_mysql_def)
qed

lemma query_loop_through:
  assumes "\<And>i. i < m \<Longrightarrow> connection_lost env (base @ lost_calls p q i @ [Query p q])"
    and "\<And>i. i < m \<Longrightarrow> mysql_ping_ok env (base @ lost_calls p q (Suc i))"
    and "\<not> connection_lost env (base @ lost_calls p q m @ [Query p q])"
    and "j \<le> m" and "m - j < fuel" and "mysql_calls c = base @ lost_calls p q j"
  shows "query_loop env fuel p q 0 c =
    Inr (mysql_query_ok env (base @ lost_calls p q m @ [Query p q]),
         c\<lparr>mysql_calls := base @ lost_calls p q m @ [Query p q]\<rparr>)"
  using assms(4-6)
proof (induction fuel arbitrary: j c)
  case (Suc fuel)
  show ?case
  proof (cases "j = m")
    case True
    then show ?thesis
      using assms(3) Suc.prems by (auto simp: connection_lost_def log_mysql_def Let_def)
  next
    case False
    let ?c = "c\<lparr>mysql_calls := mysql_calls c @ [Query p q, Ping p]\<rparr>"
    have j: "j < m" using False Suc.prems by simp
    have "query_loop env (Suc fuel) p q 0 c = query_loop env fuel p q 0 ?c"
      using assms(1,2) [OF j] Suc.prems(3) by (intro query_loop_round) (simp_all add: lost_calls_Suc)
    also have "\<dots> = Inr (mysql_query_ok env (base @ lost_calls p q m @ [Query p q]),
        ?c\<lparr>mysql_calls := base @ lost_calls p q m @ [Query p q]\<rparr>)"
      using j Suc.prems by (intro Suc.IH [of "Suc j"]) (simp_all add: lost_calls_Suc)
    finally show ?thesis by simp
  qed
qed simp

text \<open>A mysql server for the examples, and a client with one connection and a buffer of 80 bytes.\<close>

definition escape_quotes :: "bytes \<Rightarrow> bytes" where
  "escape_quotes s = concat (map (\<lambda>b. if b = 39 then [92, 39] else [b]) s)"

definition demo_mysql :: "(mysql_call list \<Rightarrow> bool) \<Rightarrow> u32 \<Rightarrow> mysql_env" where
  "demo_mysql ok err =
     \<lparr>escape_string = escape_quotes, mysql_query_ok = ok, mysql_ping_ok = \<lambda>_. True, mysql_errno = \<lambda>_. err,
      mysql_error = \<lambda>_. [], mysql_store_result = \<lambda>_. None, mysql_init = \<lambda>_. 1,
      mysql_real_connect_ok = \<lambda>_. True, memory_at = \<lambda>_. [], buffers = demo_env ReplyNil, query_fuel = 5\<rparr>"

definition demo_mysql_client :: "(buffer_ref \<rightharpoonup> kg_buffer) \<Rightarrow> mysql_client" where
  "demo_mysql_client h =
     \<lparr>m_bDatabaseLost = False, m_bRunFlag = True, m_uSleepTime = 5, m_uPingTime = 0, m_bMysql = False,
      m_RequestQueue = [], m_RespondQueue = [], kg_heap = h, m_szDBName = ascii ''game'', m_vecMysql = [1],
      m_vecTableName = [{}], m_pSQLBuff = replicate 80 0, m_uBuffLen = 80, mysql_calls = []\<rparr>"

lemmas demo_mysql_defs = demo_mysql_def demo_mysql_client_def

section \<open>Properties\<close>

text \<open>C39: A query whose connection is lost any number of times, and each time back after a ping, gets
  through: it is sent once more after every loss, and the result is that of the last
  attempt.\<close>

theorem lost_query_gets_through:
  assumes "n < length (m_vecMysql c)" and "p = m_vecMysql c ! n"
    and "\<And>i. i < m \<Longrightarrow> connection_lost env (mysql_calls c @ lost_calls p q i @ [Query p q])"
    and "\<And>i. i < m \<Longrightarrow> mysql_ping_ok env (mysql_calls c @ lost_calls p q (Suc i))"
    and "\<not> connection_lost env (mysql_calls c @ lost_calls p q m @ [Query p q])"
    and "m < query_fuel env"
  shows "DoQuery env n q c =
    Inr (mysql_query_ok env (mysql_calls c @ lost_calls p q m @ [Query p q]),
         c\<lparr>mysql_calls := mysql_calls c @ lost_calls p q m @ [Query p q]\<rparr>)"
  using query_loop_through [OF assms(3-5), of 0 "query_fuel env" c] assms(1,2,6)
  by (simp add: DoQuery_def connection_at_def lost_calls_def)

theorem lost_query_gets_through_witness:
  "let env = demo_mysql (\<lambda>calls. length calls = 3) CR_SERVER_LOST in
     DoQuery env 0 [81] (demo_mysql_client Map.empty) =
       Inr (True, (demo_mysql_client Map.empty)\<lparr>mysql_calls := [Query 1 [81], Ping 1, Query 1 [81]]\<rparr>)"
  using lost_query_gets_through [of 0 "demo_mysql_client Map.empty" 1 1
      "demo_mysql (\<lambda>calls. length calls = 3) CR_SERVER_LOST" "[81]"]
  by (simp add: demo_mysql_defs connection_lost_def lost_calls_def)

text \<open>C38: \<^verbatim>\<open>_RedisHashTableSet\<close> sends exactly the insert statement of the table, the key and the value
  when it fits the buffer, and overruns the heap when it does not. The buffer is sized
  without the table name and without the escapes of the key.\<close>

theorem insert_overflows_iff:
  assumes "insert_sources env t k kl v vl" and "sql_buffer_ok c" and "n < length (m_vecMysql c)"
    and "0 < query_fuel env"
  shows "RedisHashTableSet env n t k kl (Some v) vl c = Inl HeapOverflow
    \<longleftrightarrow> max (unat (m_uBuffLen c)) (75 + unat kl + 4 * unat vl)
        < 72 + unat (uLen t) + length (escape_string env (take (unat kl) k))
            + 2 * length (escape_string env (take (unat vl) v))"
proof -
  have len: "length (insert_text env t k kl v vl) = 72 + unat (uLen t)
      + length (escape_string env (take (unat kl) k)) + 2 * length (escape_string env (take (unat vl) v))"
    using assms(1)
    by (simp add: insert_text_def length_insert_statement insert_sources_def prefix_of_def
        GLOBAL_TABLE_NAME_PREFIX_def HASH_TABLE_NAME_PREFIX_def ascii_def)
  obtain f where f: "query_fuel env = Suc f" using assms(4) by (cases "query_fuel env") simp_all
  have "RedisHashTableSet env n t k kl (Some v) vl c = Inl HeapOverflow"
    if "insert_room c kl vl < length (insert_text env t k kl v vl)"
    using insert_overflows [OF assms(1,2) that, of n] assms(3)
    by (simp add: RedisHashTableSet_def f connection_at_def)
  moreover have "RedisHashTableSet env n t k kl (Some v) vl c \<noteq> Inl HeapOverflow"
    if "length (insert_text env t k kl v vl) \<le> insert_room c kl vl"
    using set_loop_fits [OF assms(1,2) that] by (simp add: RedisHashTableSet_def)
  ultimately show ?thesis
    unfolding len [symmetric] insert_room_def [symmetric] by (meson not_le)
qed

theorem insert_overflows_iff_witness:
  "let t = \<lparr>bGlobal = True, pcszName = [116], uLen = 1\<rparr>; c = demo_mysql_client Map.empty;
       env = demo_mysql (\<lambda>_. True) 0 in
     RedisHashTableSet env 0 t [39, 39, 39, 39] 4 (Some []) 0 c = Inl HeapOverflow
   \<and> RedisHashTableSet env 0 t [39, 39, 39] 3 (Some []) 0 c \<noteq> Inl HeapOverflow"
  using insert_overflows_iff [of "demo_mysql (\<lambda>_. True) 0" "\<lparr>bGlobal = True, pcszName = [116], uLen = 1\<rparr>"
      "[39, 39, 39, 39]" 4 "[]" 0 "demo_mysql_client Map.empty" 0]
    insert_overflows_iff [of "demo_mysql (\<lambda>_. True) 0" "\<lparr>bGlobal = True, pcszName = [116], uLen = 1\<rparr>"
      "[39, 39, 39]" 3 "[]" 0 "demo_mysql_client Map.empty" 0]
  by (simp add: demo_mysql_defs insert_sources_def sql_buffer_ok_def escape_quotes_def)

text \<open>While the table is missing, \<^verbatim>\<open>_RedisHashTableSet\<close> never returns: the statement that would create
  it is commented out, and the insert is repeated without end.\<close>

lemma missing_table_never_returns:
  assumes "insert_sources env t k kl v vl" and "sql_buffer_ok c" and "n < length (m_vecMysql c)"
    and "length (insert_text env t k kl v vl) \<le> insert_room c kl vl"
    and "\<And>calls. \<not> mysql_query_ok env calls" and "\<And>calls. mysql_errno env calls = ER_NO_SUCH_TABLE"
  shows "set_loop env fuel n t k kl v vl c = Inl OutOfFuel"
  using assms(2-4)
proof (induction fuel arbitrary: c)
  case (Suc fuel)
  let ?q = "insert_text env t k kl v vl"
  obtain c1 where c1: "SendStatement env n (insert_pieces t k kl v vl)
        (GrowBuffer env (s_uUpdateFixedLen + kl + vl * 4) c) = DoQuery env n ?q c1"
      "sql_buffer_ok c1" "insert_room c1 kl vl = insert_room c kl vl" "m_vecMysql c1 = m_vecMysql c"
    using insert_sent [OF assms(1) Suc.prems(1,3), of n] by blast
  show ?case
  proof (cases "query_fuel env")
    case 0
    then show ?thesis using c1 Suc.prems by (simp add: connection_at_def DoQuery_def)
  next
    case (Suc g)
    have "DoQuery env n ?q c1 = Inr (False, log_mysql (Query (m_vecMysql c ! n) ?q) c1)"
      using Suc.prems c1 assms(5,6) Suc
      by (simp add: DoQuery_def connection_at_def ER_NO_SUCH_TABLE_def CR_SERVER_LOST_def
          CR_CONN_HOST_ERROR_def CR_SERVER_GONE_ERROR_def)
    moreover have "set_loop env fuel n t k kl v vl (log_mysql (Query (m_vecMysql c ! n) ?q) c1) = Inl OutOfFuel"
      using Suc.prems c1 by (intro Suc.IH) (simp_all add: log_mysql_def sql_buffer_ok_def insert_room_def)
    ultimately show ?thesis
      using Suc.prems c1 assms(6) by (simp add: connection_at_def)
  qed
qed simp


lemma missing_table_never_returns_witness:
  "let t = \<lparr>bGlobal = True, pcszName = [116], uLen = 1\<rparr>;
       env = demo_mysql (\<lambda>_. False) ER_NO_SUCH_TABLE in
     \<forall>fuel. set_loop env fuel 0 t [107] 1 [118] 1 (demo_mysql_client Map.empty) = Inl OutOfFuel"
proof -
  have "set_loop (demo_mysql (\<lambda>_. False) ER_NO_SUCH_TABLE) fuel 0 \<lparr>bGlobal = True, pcszName = [116], uLen = 1\<rparr>
      [107] 1 [118] 1 (demo_mysql_client Map.empty) = Inl OutOfFuel" for fuel
    by (rule missing_table_never_returns)
      (simp_all add: demo_mysql_defs insert_sources_def sql_buffer_ok_def escape_quotes_def insert_text_def
        length_insert_statement insert_room_def prefix_of_def GLOBAL_TABLE_NAME_PREFIX_def ascii_def)
  then show ?thesis by simp
qed

end
