(* ===== verification/MysqlRequests.thy ===== *)
theory MysqlRequests
  imports MysqlClient
begin

text \<open>
  The request handlers of \<^verbatim>\<open>KMysqlClient\<close>: the lookups that first ask for the table, the
  responses, one handler per request type, the two dispatchers, and what opens and closes
  the connections.
\<close>

section \<open>Layout of the requests with several keys\<close>

text \<open>\<^verbatim>\<open>KREQUEST_SETS\<close>, \<^verbatim>\<open>KREQUEST_HSETS\<close> and \<^verbatim>\<open>KREQUEST_HGETS\<close>, \<^verbatim>\<open>KREQUEST_HGETALL\<close>, and the
  descriptors of their keys.\<close>

definition SETS_uHashKeyLen :: nat where "SETS_uHashKeyLen = 52"
definition SETS_nCount :: nat where "SETS_nCount = 56"
definition SETS_data :: nat where "SETS_data = 60"
definition HSETS_uTableNameLen :: nat where "HSETS_uTableNameLen = 48"
definition HSETS_nCount :: nat where "HSETS_nCount = 52"
definition HSETS_data :: nat where "HSETS_data = 56"
definition HGETALL_uTableNameLen :: nat where "HGETALL_uTableNameLen = 48"
definition HGETALL_data :: nat where "HGETALL_data = 52"

record key_value_desc =
  kv_uKeyLen :: u32
  kv_uValueLen :: u32
  kv_pKey :: u64
  kv_pValue :: u64

record key_desc =
  kd_bIsNil :: bool
  kd_uKeyLen :: u32
  kd_pKey :: u64

definition key_value_at :: "nat \<Rightarrow> kg_buffer \<Rightarrow> key_value_desc res" where
  "key_value_at off b =
     bind_res (get32 off b) (\<lambda>uKeyLen.
     bind_res (get32 (off + 4) b) (\<lambda>uValueLen.
     bind_res (get64 (off + 8) b) (\<lambda>pKey.
     bind_res (get64 (off + 16) b) (\<lambda>pValue.
     Inr \<lparr>kv_uKeyLen = uKeyLen, kv_uValueLen = uValueLen, kv_pKey = pKey, kv_pValue = pValue\<rparr>))))"

definition key_at :: "nat \<Rightarrow> kg_buffer \<Rightarrow> key_desc res" where
  "key_at off b =
     bind_res (get8 off b) (\<lambda>bIsNil.
     bind_res (get32 (off + 4) b) (\<lambda>uKeyLen.
     bind_res (get64 (off + 8) b) (\<lambda>pKey.
     Inr \<lparr>kd_bIsNil = (bIsNil \<noteq> 0), kd_uKeyLen = uKeyLen, kd_pKey = pKey\<rparr>)))"

text \<open>A pointer of a request: what can be read there, and whether it is \<^verbatim>\<open>NULL\<close>.\<close>

definition at_pointer :: "mysql_env \<Rightarrow> u64 \<Rightarrow> bytes" where
  "at_pointer env p = (if p = 0 then [] else memory_at env p)"

definition pointer :: "mysql_env \<Rightarrow> u64 \<Rightarrow> bytes option" where
  "pointer env p = (if p = 0 then None else Some (memory_at env p))"

text \<open>The number of rounds of \<^verbatim>\<open>for (int i = 0; i < n; i++)\<close>, and such a loop.\<close>

definition rounds :: "u32 \<Rightarrow> nat" where
  "rounds n = nat (sint n)"

fun for_loop :: "(nat \<Rightarrow> 'a \<Rightarrow> 'a res) \<Rightarrow> nat \<Rightarrow> nat \<Rightarrow> 'a \<Rightarrow> 'a res" where
  "for_loop f i 0 x = Inr x"
| "for_loop f i (Suc n) x = bind_res (f i x) (for_loop f (Suc i) n)"

section \<open>Lookups that ask for the table first\<close>

text \<open>The results: what is returned, \<open>bExistTable\<close>, the state.\<close>

definition RedisHashTableGetTest ::
  "mysql_env \<Rightarrow> nat \<Rightarrow> table_name \<Rightarrow> bytes \<Rightarrow> u32 \<Rightarrow> 's mysql_client_scheme
     \<Rightarrow> (bool \<times> bool \<times> 's mysql_client_scheme) res" where
  "RedisHashTableGetTest env nIndex t pcszKey uKeyLen c =
     bind_res (connection_at nIndex c) (\<lambda>pMysql.
     bind_res (CheckRedisHastTableIsExist env nIndex t c) (\<lambda>(found, c).
     if found then
       bind_res (RedisHashTableGet env nIndex t pcszKey uKeyLen c) (\<lambda>(bRet, c).
       if \<not> bRet \<and> mysql_errno env (mysql_calls c) = ER_NO_SUCH_TABLE then Inr (True, False, c)
       else Inr (bRet, True, c))
     else Inr (True, False, c)))"

definition RedisHashTableDelTest ::
  "mysql_env \<Rightarrow> nat \<Rightarrow> table_name \<Rightarrow> bytes \<Rightarrow> u32 \<Rightarrow> 's mysql_client_scheme
     \<Rightarrow> (bool \<times> bool \<times> 's mysql_client_scheme) res" where
  "RedisHashTableDelTest env nIndex t pcszKey uKeyLen c =
     bind_res (connection_at nIndex c) (\<lambda>pMysql.
     bind_res (CheckRedisHastTableIsExist env nIndex t c) (\<lambda>(found, c).
     if found then
       bind_res (RedisHashTableDel env nIndex t pcszKey uKeyLen c) (\<lambda>(bRet, c).
       if \<not> bRet \<and> mysql_errno env (mysql_calls c) = ER_NO_SUCH_TABLE then Inr (True, False, c)
       else Inr (bRet, True, c))
     else Inr (True, False, c)))"

definition getall_pieces :: "table_name \<Rightarrow> sql_piece list" where
  "getall_pieces t = [Sprintf (ascii ''SELECT key_name,data FROM '')] @ name_pieces t"

definition RedisHashTableGetAll ::
  "mysql_env \<Rightarrow> nat \<Rightarrow> table_name \<Rightarrow> 's mysql_client_scheme \<Rightarrow> (bool \<times> bool \<times> 's mysql_client_scheme) res" where
  "RedisHashTableGetAll env nIndex t c =
     bind_res (connection_at nIndex c) (\<lambda>pMysql.
     bind_res (CheckRedisHastTableIsExist env nIndex t c) (\<lambda>(found, c).
     if found then
       bind_res (SendStatement env nIndex (getall_pieces t) c) (\<lambda>(bRetCode, c).
       Inr (True, bRetCode, c))
     else Inr (True, False, c)))"

definition drop_pieces :: "table_name \<Rightarrow> sql_piece list" where
  "drop_pieces t = [Sprintf (ascii ''DROP TABLE '')] @ name_pieces t"

definition RedisHashTableDropTest ::
  "mysql_env \<Rightarrow> nat \<Rightarrow> table_name \<Rightarrow> 's mysql_client_scheme \<Rightarrow> (bool \<times> bool \<times> 's mysql_client_scheme) res" where
  "RedisHashTableDropTest env nIndex t c =
     bind_res (connection_at nIndex c) (\<lambda>pMysql.
     bind_res (CheckRedisHastTableIsExist env nIndex t c) (\<lambda>(found, c).
     if found then
       bind_res (SendStatement env nIndex (drop_pieces t) c) (\<lambda>(bRetCode, c).
       if bRetCode then
         bind_res (RemoveRedisHashTableCache nIndex t c) (\<lambda>c. Inr (True, True, c))
       else Inr (True, False, c))
     else Inr (True, False, c)))"

section \<open>Responses\<close>

definition DB_FLAG_MYSQL :: byte where "DB_FLAG_MYSQL = 2"
definition DB_WAIT_FLAG_MYSQL :: byte where "DB_WAIT_FLAG_MYSQL = 8"
definition KDB_REPLY_STRING :: u32 where "KDB_REPLY_STRING = 1"
definition KDB_REPLY_INTEGER :: u32 where "KDB_REPLY_INTEGER = 3"
definition KDB_REPLY_ERROR :: u32 where "KDB_REPLY_ERROR = 6"
definition KDB_MAX_SETS_GETS_NUM :: nat where "KDB_MAX_SETS_GETS_NUM = 16"

definition mysql_head :: "u64 \<Rightarrow> byte \<Rightarrow> u32 \<Rightarrow> u32 \<Rightarrow> kg_buffer \<Rightarrow> kg_buffer res" where
  "mysql_head lId byType nRetType nDataLen b =
     bind_res (put64 COMMON_lId lId b) (\<lambda>b.
     bind_res (put8 COMMON_byHandleFlag DB_WAIT_FLAG_MYSQL b) (\<lambda>b.
     bind_res (put8 COMMON_byRequestType byType b) (\<lambda>b.
     bind_res (put32 COMMON_nRetType nRetType b) (\<lambda>b.
     bind_res (put32 COMMON_nParam 0 b) (put32 COMMON_nDataLen nDataLen)))))"

definition Mysql_GenCommonRespond ::
  "mysql_env \<Rightarrow> u64 \<Rightarrow> byte \<Rightarrow> u32 \<Rightarrow> 's mysql_client_scheme \<Rightarrow> (buffer_ref \<times> 's mysql_client_scheme) res" where
  "Mysql_GenCommonRespond env lId byType nRetType c =
     bind_res
       (if nRetType = KDB_REPLY_ERROR then
          let pcszErr = mysql_error env (mysql_calls c); uErrLen = length pcszErr in
          bind_res (NewBuffer (buffers env) (word_of_nat (SIZEOF_KRESOOND_COMMON + uErrLen)) c) (\<lambda>(pBuffer, c).
          bind_res (on_buffer pBuffer (mysql_head lId byType nRetType (word_of_nat uErrLen)) c) (\<lambda>c.
          bind_res (on_buffer pBuffer (put COMMON_data pcszErr) c) (\<lambda>c.
          bind_res (on_buffer pBuffer (put8 (COMMON_data + uErrLen) 0) c) (\<lambda>c.
          Inr (pBuffer, c)))))
        else
          bind_res (NewBuffer (buffers env) (word_of_nat (SIZEOF_KRESOOND_COMMON - 1)) c) (\<lambda>(pBuffer, c).
          bind_res (on_buffer pBuffer (mysql_head lId byType nRetType 0) c) (\<lambda>c.
          Inr (pBuffer, c)))) (\<lambda>(pBuffer, c).
     bind_res (on_buffer pBuffer (put_reserve 7 (enc8 RESPOND_FLAG_COMMON)) c) (\<lambda>c.
     Inr (pBuffer, c)))"

text \<open>\<^verbatim>\<open>_GenDataNetRespond\<close> allocates a response and writes nothing into it.\<close>

definition GenDataNetRespond ::
  "mysql_env \<Rightarrow> u32 \<Rightarrow> 's mysql_client_scheme \<Rightarrow> (buffer_ref \<times> 's mysql_client_scheme) res" where
  "GenDataNetRespond env nContentLen c =
     NewBuffer (buffers env)
       (word_of_nat SIZEOF_KRESOOND_COMMON + word_of_nat GetNetPacketReserved + nContentLen + 1) c"

definition GenMultiDataNetRespond ::
  "mysql_env \<Rightarrow> 's mysql_client_scheme \<Rightarrow> (buffer_ref \<times> 's mysql_client_scheme) res" where
  "GenMultiDataNetRespond env c =
     NewBuffer (buffers env) (word_of_nat (SIZEOF_KRESOOND_COMMON + GetNetPacketReserved + 1)) c"

definition GenOKNetRespond ::
  "mysql_env \<Rightarrow> 's mysql_client_scheme \<Rightarrow> (buffer_ref \<times> 's mysql_client_scheme) res" where
  "GenOKNetRespond env c =
     NewBuffer (buffers env) (word_of_nat (SIZEOF_KRESOOND_COMMON + 3 + GetNetPacketReserved)) c"

definition GenErrorNetRespond ::
  "mysql_env \<Rightarrow> 's mysql_client_scheme \<Rightarrow> (buffer_ref \<times> 's mysql_client_scheme) res" where
  "GenErrorNetRespond env c =
     NewBuffer (buffers env) (word_of_nat (SIZEOF_KRESOOND_COMMON + 3 + GetNetPacketReserved)) c"

text \<open>\<^verbatim>\<open>_GenQueryResult\<close>; a negative length is a huge \<^verbatim>\<open>size_t\<close>.\<close>

definition GenQueryResult ::
  "mysql_env \<Rightarrow> bytes \<Rightarrow> u32 \<Rightarrow> 's mysql_client_scheme \<Rightarrow> (buffer_ref \<times> 's mysql_client_scheme) res" where
  "GenQueryResult env pContent nContentLen c =
     bind_res (NewBuffer (buffers env) (word_of_nat SIZEOF_KRESOOND_COMMON + nContentLen) c) (\<lambda>(pPackatBuffer, c).
     bind_res (on_buffer pPackatBuffer (put32 COMMON_nDataLen nContentLen) c) (\<lambda>c.
     bind_res (mem_read pContent 0 (unat (scast nContentLen :: u64))) (\<lambda>s.
     bind_res (on_buffer pPackatBuffer (put COMMON_data s) c) (\<lambda>c.
     Inr (pPackatBuffer, c)))))"

definition GenGetNetRespond ::
  "mysql_env \<Rightarrow> nat \<Rightarrow> bool \<Rightarrow> bool \<Rightarrow> 's mysql_client_scheme
     \<Rightarrow> (buffer_ref option \<times> 's mysql_client_scheme) res" where
  "GenGetNetRespond env nIndex bQueryRet bExistTable c =
     bind_res (connection_at nIndex c) (\<lambda>pMysql.
     if \<not> bQueryRet then
       bind_res (GenDataNetRespond env (word_of_nat (length (mysql_error env (mysql_calls c)))) c)
         (\<lambda>(p, c). Inr (Some p, c))
     else if \<not> bExistTable then
       bind_res (GenDataNetRespond env 0 c) (\<lambda>(p, c). Inr (Some p, c))
     else
       bind_res (GetQueryResult env nIndex c) (\<lambda>(cMysqljResult, c).
       case cMysqljResult of
         None \<Rightarrow> Inr (None, c)
       | Some r \<Rightarrow>
           if num_fields r \<noteq> 1 then Inr (None, c)
           else
             case rows r of
               [] \<Rightarrow> bind_res (GenDataNetRespond env 0 c) (\<lambda>(p, c). Inr (Some p, c))
             | [] # _ \<Rightarrow> Inl OutOfBoundsRead
             | (pQueryData # _) # _ \<Rightarrow>
                 bind_res (GenQueryResult env pQueryData (word_of_nat (length pQueryData)) c)
                   (\<lambda>(p, c). Inr (Some p, c))))"

section \<open>Requests with one key\<close>

definition table_at :: "bool \<Rightarrow> nat \<Rightarrow> u32 \<Rightarrow> kg_buffer \<Rightarrow> table_name" where
  "table_at g off n b = \<lparr>bGlobal = g, pcszName = drop off (pvData b), uLen = n\<rparr>"

definition Mysql_OnRequestSet ::
  "mysql_env \<Rightarrow> nat \<Rightarrow> kg_buffer \<Rightarrow> 's mysql_client_scheme \<Rightarrow> (bool \<times> 's mysql_client_scheme) res" where
  "Mysql_OnRequestSet env nIndex pRequestSet c =
     bind_res (get32 SET_uPrefixLen pRequestSet) (\<lambda>uPrefixLen.
     bind_res (get32 SET_uKeyLen pRequestSet) (\<lambda>uKeyLen.
     bind_res (get32 SET_uValueLen pRequestSet) (\<lambda>uValueLen.
     let key = SET_data + unat uPrefixLen + REQUEST_KEY_UNDERLINED_LEN;
         data = SET_data + unat uPrefixLen + unat uKeyLen + REQUEST_KEY_UNDERLINED_LEN in
     bind_res (RedisHashTableSet env nIndex (table_at True SET_data uPrefixLen pRequestSet)
         (drop key (pvData pRequestSet)) uKeyLen (Some (drop data (pvData pRequestSet))) uValueLen c) (\<lambda>(bRet, c).
     if \<not> bRet then Inl (ProcessExit 10003) else Inr (bRet, c)))))"

definition Mysql_OnRequestHSet ::
  "mysql_env \<Rightarrow> nat \<Rightarrow> kg_buffer \<Rightarrow> 's mysql_client_scheme \<Rightarrow> (bool \<times> 's mysql_client_scheme) res" where
  "Mysql_OnRequestHSet env nIndex pRequestHSet c =
     bind_res (get32 HSET_uTableNameLen pRequestHSet) (\<lambda>uTableNameLen.
     bind_res (get32 HSET_uHashKeyLen pRequestHSet) (\<lambda>uHashKeyLen.
     bind_res (get32 HSET_uValueLen pRequestHSet) (\<lambda>uValueLen.
     let key = HSET_data + unat uTableNameLen; data = HSET_data + unat uTableNameLen + unat uHashKeyLen in
     bind_res (RedisHashTableSet env nIndex (table_at False HSET_data uTableNameLen pRequestHSet)
         (drop key (pvData pRequestHSet)) uHashKeyLen (Some (drop data (pvData pRequestHSet))) uValueLen c) (\<lambda>(bRet, c).
     Inr (True, c)))))"

definition Mysql_OnRequestGet ::
  "mysql_env \<Rightarrow> nat \<Rightarrow> kg_buffer \<Rightarrow> 's mysql_client_scheme
     \<Rightarrow> (buffer_ref option \<times> 's mysql_client_scheme) res" where
  "Mysql_OnRequestGet env nIndex pRequestGet c =
     bind_res (get32 GET_uPrefixLen pRequestGet) (\<lambda>uPrefixLen.
     bind_res (get32 GET_uKeyLen pRequestGet) (\<lambda>uKeyLen.
     bind_res (RedisHashTableGetTest env nIndex (table_at True GET_data uPrefixLen pRequestGet)
         (drop (GET_data + unat uPrefixLen + REQUEST_KEY_UNDERLINED_LEN) (pvData pRequestGet)) uKeyLen c)
       (\<lambda>(bRet, bExistTable, c).
     if bRet then GenGetNetRespond env nIndex bRet bExistTable c else Inr (None, c))))"

definition Mysql_OnRequestHGet ::
  "mysql_env \<Rightarrow> nat \<Rightarrow> kg_buffer \<Rightarrow> 's mysql_client_scheme
     \<Rightarrow> (buffer_ref option \<times> 's mysql_client_scheme) res" where
  "Mysql_OnRequestHGet env nIndex pRequestHGet c =
     bind_res (get32 HGET_uTableNameLen pRequestHGet) (\<lambda>uTableNameLen.
     bind_res (get32 HGET_uHashKeyLen pRequestHGet) (\<lambda>uHashKeyLen.
     bind_res (RedisHashTableGetTest env nIndex (table_at False HGET_data uTableNameLen pRequestHGet)
         (drop (HGET_data + unat uTableNameLen) (pvData pRequestHGet)) uHashKeyLen c)
       (\<lambda>(bRet, bExistTable, c).
     if bRet then GenGetNetRespond env nIndex bRet bExistTable c else Inr (None, c))))"

definition Mysql_OnRequestDel ::
  "mysql_env \<Rightarrow> nat \<Rightarrow> kg_buffer \<Rightarrow> 's mysql_client_scheme \<Rightarrow> (bool \<times> 's mysql_client_scheme) res" where
  "Mysql_OnRequestDel env nIndex pRequestDel c =
     bind_res (get32 GET_uPrefixLen pRequestDel) (\<lambda>uPrefixLen.
     bind_res (get32 GET_uKeyLen pRequestDel) (\<lambda>uKeyLen.
     bind_res (RedisHashTableDelTest env nIndex (table_at True GET_data uPrefixLen pRequestDel)
         (drop (GET_data + unat uPrefixLen + REQUEST_KEY_UNDERLINED_LEN) (pvData pRequestDel)) uKeyLen c)
       (\<lambda>(bRet, bExistTable, c).
     if \<not> bRet then Inl (ProcessExit 10001) else Inr (bRet, c))))"

definition Mysql_OnRequestHDel ::
  "mysql_env \<Rightarrow> nat \<Rightarrow> kg_buffer \<Rightarrow> 's mysql_client_scheme \<Rightarrow> (bool \<times> 's mysql_client_scheme) res" where
  "Mysql_OnRequestHDel env nIndex pRequestHDel c =
     bind_res (get32 HGET_uTableNameLen pRequestHDel) (\<lambda>uTableNameLen.
     bind_res (get32 HGET_uHashKeyLen pRequestHDel) (\<lambda>uHashKeyLen.
     bind_res (RedisHashTableDelTest env nIndex (table_at False HGET_data uTableNameLen pRequestHDel)
         (drop (HGET_data + unat uTableNameLen) (pvData pRequestHDel)) uHashKeyLen c)
       (\<lambda>(bRet, bExistTable, c).
     if \<not> bRet then Inl (ProcessExit 10002) else Inr (bRet, c))))"

section \<open>Requests with several keys\<close>

text \<open>
  A global key is \<^verbatim>\<open>table_key\<close> in one text: its table is what is in front of the hash key.
  The name is read before the key, so that a key before the start of the block is out of
  bounds already there.
\<close>

definition global_key :: "bytes \<Rightarrow> u32 \<Rightarrow> u32 \<Rightarrow> table_name \<times> bytes" where
  "global_key p uKeyLen uHashKeyLen =
     (\<lparr>bGlobal = True, pcszName = p, uLen = uKeyLen - uHashKeyLen - 1\<rparr>,
      drop (unat uKeyLen - unat uHashKeyLen) p)"

definition RespondMysql ::
  "mysql_env \<Rightarrow> kg_buffer \<Rightarrow> u32 \<Rightarrow> 's mysql_client_scheme \<Rightarrow> (bool \<times> 's mysql_client_scheme) res" where
  "RespondMysql env pRequest nRetType c =
     bind_res (get64 HEAD_lId pRequest) (\<lambda>lId.
     bind_res (get8 TYPE_byType pRequest) (\<lambda>byType.
     bind_res (Mysql_GenCommonRespond env lId byType nRetType c) (\<lambda>(pCommonBuffer, c).
     bind_res (PushRespond (Some pCommonBuffer) c) (\<lambda>c.
     bind_res (SAFE_RELEASE (Some pCommonBuffer) c) (\<lambda>c.
     Inr (True, c))))))"

text \<open>If the request asks for it, a null packet is pushed, which does nothing.\<close>

definition PushNullPacket :: "kg_buffer \<Rightarrow> 's mysql_client_scheme \<Rightarrow> 's mysql_client_scheme res" where
  "PushNullPacket pRequest c =
     bind_res (get8 TYPE_byHandleFlag pRequest) (\<lambda>byHandleFlag.
     if and byHandleFlag DB_FLAG_MYSQL \<noteq> 0 then PushRespond None c else Inr c)"

definition sets_step ::
  "mysql_env \<Rightarrow> nat \<Rightarrow> u32 \<Rightarrow> kg_buffer \<Rightarrow> nat \<Rightarrow> 's mysql_client_scheme \<Rightarrow> 's mysql_client_scheme res" where
  "sets_step env nIndex uHashKeyLen pRequestSets i c =
     bind_res (key_value_at (SETS_data + 24 * i) pRequestSets) (\<lambda>d.
     let pKey = at_pointer env (kv_pKey d); (sTablename, pcszKey) = global_key pKey (kv_uKeyLen d) uHashKeyLen in
     bind_res (RedisHashTableSet env nIndex sTablename pcszKey uHashKeyLen
         (pointer env (kv_pValue d)) (kv_uValueLen d) c) (\<lambda>(bRet, c). Inr c))"

definition Mysql_OnRequestSets ::
  "mysql_env \<Rightarrow> nat \<Rightarrow> kg_buffer \<Rightarrow> 's mysql_client_scheme \<Rightarrow> (bool \<times> 's mysql_client_scheme) res" where
  "Mysql_OnRequestSets env nIndex pRequestSets c =
     bind_res (connection_at nIndex c) (\<lambda>pMysql.
     bind_res (get32 SETS_nCount pRequestSets) (\<lambda>nCount.
     bind_res (get32 SETS_uHashKeyLen pRequestSets) (\<lambda>uHashKeyLen.
     bind_res (for_loop (sets_step env nIndex uHashKeyLen pRequestSets) 0 (rounds nCount) c) (\<lambda>c.
     bind_res (PushNullPacket pRequestSets c) (RespondMysql env pRequestSets KDB_REPLY_STRING)))))"

definition hsets_step ::
  "mysql_env \<Rightarrow> nat \<Rightarrow> u32 \<Rightarrow> kg_buffer \<Rightarrow> nat \<Rightarrow> 's mysql_client_scheme \<Rightarrow> 's mysql_client_scheme res" where
  "hsets_step env nIndex uTableNameLen pRequestHSets i c =
     bind_res (key_value_at (HSETS_data + unat uTableNameLen + 1 + 24 * i) pRequestHSets) (\<lambda>d.
     let pKey = at_pointer env (kv_pKey d) in
     bind_res (RedisHashTableSet env nIndex (table_at False HSETS_data uTableNameLen pRequestHSets) pKey
         (kv_uKeyLen d) (pointer env (kv_pValue d)) (kv_uValueLen d) c) (\<lambda>(bRet, c). Inr c))"

definition Mysql_OnRequestHSets ::
  "mysql_env \<Rightarrow> nat \<Rightarrow> kg_buffer \<Rightarrow> 's mysql_client_scheme \<Rightarrow> (bool \<times> 's mysql_client_scheme) res" where
  "Mysql_OnRequestHSets env nIndex pRequestHSets c =
     bind_res (connection_at nIndex c) (\<lambda>pMysql.
     bind_res (get32 HSETS_nCount pRequestHSets) (\<lambda>nCount.
     bind_res (get32 HSETS_uTableNameLen pRequestHSets) (\<lambda>uTableNameLen.
     bind_res (for_loop (hsets_step env nIndex uTableNameLen pRequestHSets) 0 (rounds nCount) c) (\<lambda>c.
     bind_res (PushNullPacket pRequestHSets c) (RespondMysql env pRequestHSets KDB_REPLY_STRING)))))"

text \<open>The array of results has 16 places; the loops do not look at its size.\<close>

definition store_at :: "nat \<Rightarrow> mysql_res option \<Rightarrow> mysql_res option list \<Rightarrow> mysql_res option list res" where
  "store_at i r pMysqlRes =
     (if i < length pMysqlRes then Inr (pMysqlRes[i := r]) else Inl HeapOverflow)"

definition StoreResultAt ::
  "mysql_env \<Rightarrow> nat \<Rightarrow> nat \<Rightarrow> mysql_res option list \<times> 's mysql_client_scheme
     \<Rightarrow> (mysql_res option list \<times> 's mysql_client_scheme) res" where
  "StoreResultAt env pMysql i x =
     (case x of (pMysqlRes, c) \<Rightarrow>
        let c = log_mysql (StoreResult pMysql) c in
        bind_res (store_at i (mysql_store_result env (mysql_calls c)) pMysqlRes) (\<lambda>pMysqlRes.
        Inr (pMysqlRes, c)))"

definition free_results :: "nat \<Rightarrow> mysql_res option list \<Rightarrow> unit res" where
  "free_results n pMysqlRes = (if n \<le> length pMysqlRes then Inr () else Inl OutOfBoundsRead)"

definition gets_step ::
  "mysql_env \<Rightarrow> nat \<Rightarrow> nat \<Rightarrow> u32 \<Rightarrow> kg_buffer \<Rightarrow> nat \<Rightarrow> mysql_res option list \<times> 's mysql_client_scheme
     \<Rightarrow> (mysql_res option list \<times> 's mysql_client_scheme) res" where
  "gets_step env nIndex pMysql uHashKeyLen pRequestGets i x =
     (case x of (pMysqlRes, c) \<Rightarrow>
        bind_res (key_at (GETS_data + 16 * i) pRequestGets) (\<lambda>d.
        if \<not> kd_bIsNil d then Inr (pMysqlRes, c)
        else
          let pKey = at_pointer env (kd_pKey d); (sTablename, pcszKey) = global_key pKey (kd_uKeyLen d) uHashKeyLen in
          bind_res (RedisHashTableGetTest env nIndex sTablename pcszKey uHashKeyLen c) (\<lambda>(bRet, bExistTable, c).
          if bExistTable \<and> bRet then StoreResultAt env pMysql i (pMysqlRes, c) else Inr (pMysqlRes, c))))"

definition Mysql_OnRequestGets ::
  "mysql_env \<Rightarrow> nat \<Rightarrow> kg_buffer \<Rightarrow> 's mysql_client_scheme \<Rightarrow> (bool \<times> 's mysql_client_scheme) res" where
  "Mysql_OnRequestGets env nIndex pRequestGets c =
     bind_res (connection_at nIndex c) (\<lambda>pMysql.
     bind_res (get32 GETS_nCount pRequestGets) (\<lambda>nCount.
     bind_res (get32 GETS_uHashKeyLen pRequestGets) (\<lambda>uHashKeyLen.
     bind_res (for_loop (gets_step env nIndex pMysql uHashKeyLen pRequestGets) 0 (rounds nCount)
         (replicate KDB_MAX_SETS_GETS_NUM None, c)) (\<lambda>(pMysqlRes, c).
     bind_res (PushNullPacket pRequestGets c) (\<lambda>c.
     bind_res (free_results (rounds nCount) pMysqlRes) (\<lambda>_.
     RespondMysql env pRequestGets KDB_REPLY_STRING c))))))"

text \<open>The loop over the keys of one hash table ends at the first lookup that finds no table.\<close>

fun hgets_loop ::
  "mysql_env \<Rightarrow> nat \<Rightarrow> nat \<Rightarrow> u32 \<Rightarrow> kg_buffer \<Rightarrow> nat \<Rightarrow> nat \<Rightarrow> mysql_res option list \<times> 's mysql_client_scheme
     \<Rightarrow> (mysql_res option list \<times> 's mysql_client_scheme) res" where
  "hgets_loop env nIndex pMysql uTableNameLen pRequestHGets i 0 x = Inr x"
| "hgets_loop env nIndex pMysql uTableNameLen pRequestHGets i (Suc n) (pMysqlRes, c) =
     bind_res (key_at (HSETS_data + unat uTableNameLen + 1 + 16 * i) pRequestHGets) (\<lambda>d.
     let pKey = at_pointer env (kd_pKey d) in
     bind_res (RedisHashTableGetTest env nIndex (table_at False HSETS_data uTableNameLen pRequestHGets) pKey
         (kd_uKeyLen d) c) (\<lambda>(bRet, bExistTable, c).
     if \<not> bExistTable then Inr (pMysqlRes, c)
     else if bRet then
       bind_res (StoreResultAt env pMysql i (pMysqlRes, c))
         (hgets_loop env nIndex pMysql uTableNameLen pRequestHGets (Suc i) n)
     else hgets_loop env nIndex pMysql uTableNameLen pRequestHGets (Suc i) n (pMysqlRes, c)))"

definition Mysql_OnRequestHGets ::
  "mysql_env \<Rightarrow> nat \<Rightarrow> kg_buffer \<Rightarrow> 's mysql_client_scheme \<Rightarrow> (bool \<times> 's mysql_client_scheme) res" where
  "Mysql_OnRequestHGets env nIndex pRequestHGets c =
     bind_res (connection_at nIndex c) (\<lambda>pMysql.
     bind_res (get32 HSETS_nCount pRequestHGets) (\<lambda>nCount.
     bind_res (get32 HSETS_uTableNameLen pRequestHGets) (\<lambda>uTableNameLen.
     bind_res (hgets_loop env nIndex pMysql uTableNameLen pRequestHGets 0 (rounds nCount)
         (replicate KDB_MAX_SETS_GETS_NUM None, c)) (\<lambda>(pMysqlRes, c).
     bind_res (PushNullPacket pRequestHGets c) (\<lambda>c.
     bind_res (free_results (rounds nCount) pMysqlRes) (\<lambda>_.
     RespondMysql env pRequestHGets KDB_REPLY_STRING c))))))"

text \<open>The result is fetched and thrown away.\<close>

definition fetch_if :: "bool \<Rightarrow> nat \<Rightarrow> 's mysql_client_scheme \<Rightarrow> 's mysql_client_scheme" where
  "fetch_if wanted pMysql c = (if wanted then log_mysql (StoreResult pMysql) c else c)"

definition Mysql_OnRequestHGetAll ::
  "mysql_env \<Rightarrow> nat \<Rightarrow> kg_buffer \<Rightarrow> 's mysql_client_scheme \<Rightarrow> (bool \<times> 's mysql_client_scheme) res" where
  "Mysql_OnRequestHGetAll env nIndex pRequestHGetAll c =
     bind_res (connection_at nIndex c) (\<lambda>pMysql.
     bind_res (get32 HGETALL_uTableNameLen pRequestHGetAll) (\<lambda>uTableNameLen.
     bind_res (RedisHashTableGetAll env nIndex (table_at False HGETALL_data uTableNameLen pRequestHGetAll) c)
       (\<lambda>(bRet, bExistTable, c).
     bind_res (get8 TYPE_byHandleFlag pRequestHGetAll) (\<lambda>byHandleFlag.
     bind_res (PushNullPacket pRequestHGetAll
         (fetch_if (and byHandleFlag DB_FLAG_MYSQL \<noteq> 0 \<and> bRet \<and> bExistTable) pMysql c)) (RespondMysql env pRequestHGetAll KDB_REPLY_STRING)))))"

definition dels_step ::
  "mysql_env \<Rightarrow> nat \<Rightarrow> u32 \<Rightarrow> kg_buffer \<Rightarrow> nat \<Rightarrow> 's mysql_client_scheme \<Rightarrow> 's mysql_client_scheme res" where
  "dels_step env nIndex uHashKeyLen pRequestDels i c =
     bind_res (key_at (GETS_data + 16 * i) pRequestDels) (\<lambda>d.
     let pKey = at_pointer env (kd_pKey d); (sTablename, pcszKey) = global_key pKey (kd_uKeyLen d) uHashKeyLen in
     bind_res (RedisHashTableDelTest env nIndex sTablename pcszKey uHashKeyLen c) (\<lambda>(bRet, bExistTable, c). Inr c))"

definition Mysql_OnRequestDels ::
  "mysql_env \<Rightarrow> nat \<Rightarrow> kg_buffer \<Rightarrow> 's mysql_client_scheme \<Rightarrow> (bool \<times> 's mysql_client_scheme) res" where
  "Mysql_OnRequestDels env nIndex pRequestDels c =
     bind_res (connection_at nIndex c) (\<lambda>pMysql.
     bind_res (get32 GETS_nCount pRequestDels) (\<lambda>nCount.
     bind_res (get32 GETS_uHashKeyLen pRequestDels) (\<lambda>uHashKeyLen.
     bind_res (for_loop (dels_step env nIndex uHashKeyLen pRequestDels) 0 (rounds nCount) c) (\<lambda>c.
     bind_res (PushNullPacket pRequestDels c) (RespondMysql env pRequestDels KDB_REPLY_INTEGER)))))"

definition hdels_step ::
  "mysql_env \<Rightarrow> nat \<Rightarrow> u32 \<Rightarrow> kg_buffer \<Rightarrow> nat \<Rightarrow> 's mysql_client_scheme \<Rightarrow> 's mysql_client_scheme res" where
  "hdels_step env nIndex uTableNameLen pRequestHDels i c =
     bind_res (key_at (HSETS_data + unat uTableNameLen + 1 + 16 * i) pRequestHDels) (\<lambda>d.
     let pKey = at_pointer env (kd_pKey d) in
     bind_res (RedisHashTableDelTest env nIndex (table_at False HSETS_data uTableNameLen pRequestHDels) pKey
         (kd_uKeyLen d) c) (\<lambda>(bRet, bExistTable, c). Inr c))"

definition Mysql_OnRequestHDels ::
  "mysql_env \<Rightarrow> nat \<Rightarrow> kg_buffer \<Rightarrow> 's mysql_client_scheme \<Rightarrow> (bool \<times> 's mysql_client_scheme) res" where
  "Mysql_OnRequestHDels env nIndex pRequestHDels c =
     bind_res (connection_at nIndex c) (\<lambda>pMysql.
     bind_res (get32 HSETS_nCount pRequestHDels) (\<lambda>nCount.
     bind_res (get32 HSETS_uTableNameLen pRequestHDels) (\<lambda>uTableNameLen.
     bind_res (for_loop (hdels_step env nIndex uTableNameLen pRequestHDels) 0 (rounds nCount) c) (\<lambda>c.
     bind_res (PushNullPacket pRequestHDels c) (RespondMysql env pRequestHDels KDB_REPLY_INTEGER)))))"

definition Mysql_OnRequestDelHashTable ::
  "mysql_env \<Rightarrow> nat \<Rightarrow> kg_buffer \<Rightarrow> 's mysql_client_scheme \<Rightarrow> (bool \<times> 's mysql_client_scheme) res" where
  "Mysql_OnRequestDelHashTable env nIndex pRequestDelHashTable c =
     bind_res (connection_at nIndex c) (\<lambda>pMysql.
     bind_res (get32 HGETALL_uTableNameLen pRequestDelHashTable) (\<lambda>uTableNameLen.
     bind_res (RedisHashTableDropTest env nIndex (table_at False HGETALL_data uTableNameLen pRequestDelHashTable) c)
       (\<lambda>(bRet, bExistTable, c).
     bind_res (PushNullPacket pRequestDelHashTable c)
       (RespondMysql env pRequestDelHashTable (if bRet then KDB_REPLY_INTEGER else KDB_REPLY_ERROR)))))"

section \<open>Dispatch\<close>

text \<open>A request of an unknown type only prints a message.\<close>

definition Mysql_OnRequest ::
  "mysql_env \<Rightarrow> buffer_ref \<Rightarrow> 's mysql_client_scheme \<Rightarrow> (bool \<times> 's mysql_client_scheme) res" where
  "Mysql_OnRequest env pBuffer c =
     bind_res (heap_get pBuffer c) (\<lambda>b.
     bind_res (get32 TYPE_nHash b) (\<lambda>nHash.
     if m_vecMysql c = [] then Inl DivByZero
     else
       bind_res (get8 TYPE_byType b) (\<lambda>byType.
       let nIndex = unat nHash mod length (m_vecMysql c) in
       if byType = request_code emREQUEST_SET then Mysql_OnRequestSet env nIndex b c
       else if byType = request_code emREQUEST_HSET then Mysql_OnRequestHSet env nIndex b c
       else if byType = request_code emREQUEST_SETS then Mysql_OnRequestSets env nIndex b c
       else if byType = request_code emREQUEST_GETS then Mysql_OnRequestGets env nIndex b c
       else if byType = request_code emREQUEST_HSETS then Mysql_OnRequestHSets env nIndex b c
       else if byType = request_code emREQUEST_HGETS then Mysql_OnRequestHGets env nIndex b c
       else if byType = request_code emREQUEST_HGETALL then Mysql_OnRequestHGetAll env nIndex b c
       else if byType = request_code emREQUEST_DEL then Mysql_OnRequestDel env nIndex b c
       else if byType = request_code emREQUEST_DELS then Mysql_OnRequestDels env nIndex b c
       else if byType = request_code emREQUEST_HDEL then Mysql_OnRequestHDel env nIndex b c
       else if byType = request_code emREQUEST_HDELS then Mysql_OnRequestHDels env nIndex b c
       else if byType = request_code emREQUEST_DEL_HASHTABLE then Mysql_OnRequestDelHashTable env nIndex b c
       else Inr (False, c))))"

text \<open>As the worker calls it: the result is dropped.\<close>

definition Mysql_handler :: "mysql_env \<Rightarrow> buffer_ref \<Rightarrow> 's mysql_client_scheme \<Rightarrow> 's mysql_client_scheme res" where
  "Mysql_handler env pBuffer c = bind_res (Mysql_OnRequest env pBuffer c) (\<lambda>(_, c). Inr c)"

definition OnRequestQuery ::
  "mysql_env \<Rightarrow> buffer_ref \<Rightarrow> 's mysql_client_scheme
     \<Rightarrow> (buffer_ref option \<times> 's mysql_client_scheme) res" where
  "OnRequestQuery env pBuffer c =
     bind_res (heap_get pBuffer c) (\<lambda>b.
     bind_res (get32 TYPE_nHash b) (\<lambda>nHash.
     if m_vecMysql c = [] then Inl DivByZero
     else
       bind_res (get8 TYPE_byType b) (\<lambda>byType.
       let nIndex = unat nHash mod length (m_vecMysql c) in
       if byType = request_code emREQUEST_GET then Mysql_OnRequestGet env nIndex b c
       else if byType = request_code emREQUEST_HGET then Mysql_OnRequestHGet env nIndex b c
       else Inr (None, c))))"

text \<open>\<^verbatim>\<open>SAFE_DELETE\<close>: the buffer is gone, whatever its reference count.\<close>

definition Mysql_OnResponsed :: "buffer_ref \<Rightarrow> 's mysql_client_scheme \<Rightarrow> 's mysql_client_scheme res" where
  "Mysql_OnResponsed pBuffer c = bind_res (heap_get pBuffer c) (\<lambda>_. Inr (heap_set pBuffer None c))"

definition Mysql_Ping :: "'s mysql_client_scheme \<Rightarrow> 's mysql_client_scheme" where
  "Mysql_Ping c = fold (\<lambda>pMysql. if pMysql \<noteq> 0 then log_mysql (Ping pMysql) else id) (m_vecMysql c) c"

section \<open>Opening and closing\<close>

definition KD_MAX_DBNAME_LEN :: nat where "KD_MAX_DBNAME_LEN = 255"
definition emKDBCREATE_IF_NOT_EXIST :: u32 where "emKDBCREATE_IF_NOT_EXIST = 1"

text \<open>The statement is built on the stack, in 31 and 255 bytes.\<close>

definition CreateDatabase ::
  "mysql_env \<Rightarrow> nat \<Rightarrow> bytes \<Rightarrow> u32 \<Rightarrow> junk \<Rightarrow> 's mysql_client_scheme \<Rightarrow> (bool \<times> 's mysql_client_scheme) res" where
  "CreateDatabase env nIndex cszDatabaseName nCreateFlag stack c =
     (let text = (if and nCreateFlag emKDBCREATE_IF_NOT_EXIST \<noteq> 0
                  then ascii ''CREATE DATABASE IF NOT EXISTS '' else ascii ''CREATE DATABASE '') in
      bind_res (sql_write (escape_string env) [Sprintf (text @ cszDatabaseName)] 0
          (fresh_block stack (31 + KD_MAX_DBNAME_LEN))) (\<lambda>(nRetCode, szQuery).
      bind_res (mem_read szQuery 0 nRetCode) (\<lambda>cszQuery.
      bind_res (DoQuery env nIndex cszQuery c) (\<lambda>(_, c). Inr (True, c)))))"

definition SetCurrentDatabase :: "nat \<Rightarrow> bytes \<Rightarrow> 's mysql_client_scheme \<Rightarrow> bool \<times> 's mysql_client_scheme" where
  "SetCurrentDatabase pMysql cszDatabaseName c = (True, log_mysql (SelectDb pMysql cszDatabaseName) c)"

text \<open>\<^verbatim>\<open>snprintf\<close> of the name and the number of a connection into 128 bytes.\<close>

definition database_name :: "bytes \<Rightarrow> nat \<Rightarrow> bytes" where
  "database_name szDBName i = take 127 (szDBName @ ascii ''_'' @ fmt_nat (i + 1))"

definition connect_host :: "bytes \<Rightarrow> bytes" where
  "connect_host host = (if host = ascii ''127.0.0.1'' then ascii ''localhost'' else host)"

definition RealConnectTo ::
  "mysql_env \<Rightarrow> nat \<Rightarrow> connect_info \<Rightarrow> bytes \<Rightarrow> 's mysql_client_scheme \<Rightarrow> (bool \<times> 's mysql_client_scheme) res" where
  "RealConnectTo env pMysql sConnectInfo db c =
     bind_res (szHost sConnectInfo) (\<lambda>host.
     bind_res (szUser sConnectInfo) (\<lambda>user.
     bind_res (szPwd sConnectInfo) (\<lambda>pwd.
     let c = log_mysql (RealConnect pMysql (connect_host host) user pwd db) c in
     Inr (mysql_real_connect_ok env (mysql_calls c), c))))"

definition connect_step ::
  "mysql_env \<Rightarrow> junk \<Rightarrow> connect_info list \<Rightarrow> nat \<Rightarrow> 's mysql_client_scheme \<Rightarrow> 's mysql_client_scheme res" where
  "connect_step env stack infos i c =
     (let pMysql = mysql_init env (mysql_calls c) in
      bind_res (RealConnectTo env pMysql (infos ! i) (m_szDBName c) c) (\<lambda>(connected, c).
      if \<not> connected then Inl (ProcessExit 1)
      else
        bind_res (CreateDatabase env i (database_name (m_szDBName c) i) emKDBCREATE_IF_NOT_EXIST stack
            (c\<lparr>m_vecMysql := m_vecMysql c @ [pMysql], m_vecTableName := m_vecTableName c @ [{}]\<rparr>))
          (\<lambda>(_, c). Inr c)))"

definition Mysql_ConnectDB ::
  "mysql_env \<Rightarrow> junk \<Rightarrow> connect_info list \<Rightarrow> 's mysql_client_scheme \<Rightarrow> (bool \<times> 's mysql_client_scheme) res" where
  "Mysql_ConnectDB env stack infos c =
     bind_res (for_loop (connect_step env stack infos) 0 (length infos) c) (\<lambda>c.
     Inr (True, c\<lparr>m_bDatabaseLost := False\<rparr>))"

text \<open>
  \<^verbatim>\<open>Init\<close> with the values of the configuration file, and whether the thread could be started.
  The name of the scheme is copied into 255 bytes of the client.
\<close>

definition Mysql_Init ::
  "mysql_env \<Rightarrow> junk \<Rightarrow> junk \<Rightarrow> bool \<Rightarrow> bytes \<Rightarrow> u32 \<Rightarrow> bytes \<Rightarrow> bytes \<Rightarrow> bytes \<Rightarrow> 's mysql_client_scheme
     \<Rightarrow> (bool \<times> 's mysql_client_scheme) res" where
  "Mysql_Init env mem stack thread_started sz_ip port sz_user sz_password sz_scheme c =
     (let c = c\<lparr>m_uBuffLen := 1024 * 50, m_pSQLBuff := fresh_block mem (1024 * 50)\<rparr> in
      bind_res (KConnectInfo_fill mem sz_ip port (Some sz_user) (Some sz_password)) (\<lambda>connectInfo.
      if KD_MAX_DBNAME_LEN \<le> length sz_scheme then Inl HeapOverflow
      else KDBClient_Init (Mysql_ConnectDB env stack [connectInfo]) thread_started False
             (c\<lparr>m_szDBName := sz_scheme\<rparr>)))"

text \<open>\<^verbatim>\<open>Reconnect\<close>: the loop runs once and the result of the connection is not looked at.\<close>

definition Mysql_Reconnect ::
  "mysql_env \<Rightarrow> connect_info list \<Rightarrow> nat \<Rightarrow> 's mysql_client_scheme \<Rightarrow> (bool \<times> 's mysql_client_scheme) res" where
  "Mysql_Reconnect env infos nIndex c =
     (if length infos \<le> nIndex then Inl OutOfBoundsRead
      else
        bind_res (connection_at nIndex c) (\<lambda>pMysql.
        bind_res (RealConnectTo env pMysql (infos ! nIndex) (database_name (m_szDBName c) nIndex) c) (\<lambda>(_, c).
        let c = c\<lparr>m_bDatabaseLost := False\<rparr> in
        Inr (\<not> m_bDatabaseLost c, c))))"

definition Mysql_UnInit :: "'s mysql_client_scheme \<Rightarrow> 's mysql_client_scheme res" where
  "Mysql_UnInit c =
     bind_res (UnInit c) (\<lambda>c.
     let c = fold (\<lambda>pMysql. if pMysql \<noteq> 0 then log_mysql (Close pMysql) else id) (m_vecMysql c) c in
     Inr (c\<lparr>m_vecMysql := [], m_vecTableName := [], m_uBuffLen := 0, m_pSQLBuff := []\<rparr>))"

section \<open>The worker\<close>

lemma frame_mysql_record [queue_frame]:
  "connection_at n (c\<lparr>m_RequestQueue := q\<rparr>) = connection_at n c"
  "log_mysql k (c\<lparr>m_RequestQueue := q\<rparr>) = (log_mysql k c)\<lparr>m_RequestQueue := q\<rparr>"
  "c\<lparr>m_RequestQueue := q, m_pSQLBuff := b\<rparr> = c\<lparr>m_pSQLBuff := b, m_RequestQueue := q\<rparr>"
  "c\<lparr>m_RequestQueue := q, m_vecTableName := v\<rparr> = c\<lparr>m_vecTableName := v, m_RequestQueue := q\<rparr>"
  "GrowBuffer env l (c\<lparr>m_RequestQueue := q\<rparr>) = (GrowBuffer env l c)\<lparr>m_RequestQueue := q\<rparr>"
  by (simp_all add: connection_at_def log_mysql_def GrowBuffer_def)

lemma frame_ping [queue_frame]:
  "ping_loop env p k (c\<lparr>m_RequestQueue := q\<rparr>) =
     (case ping_loop env p k c of (ok, n, c) \<Rightarrow> (ok, n, c\<lparr>m_RequestQueue := q\<rparr>))"
proof (induction env p k c rule: ping_loop.induct)
  case (1 env p k c)
  then show ?case
    by (subst (1 2) ping_loop.simps) (simp add: Let_def queue_frame)
qed

lemma frame_query [queue_frame]:
  "query_loop env fuel p s k (c\<lparr>m_RequestQueue := q\<rparr>) =
     bind_res (query_loop env fuel p s k c) (\<lambda>r. Inr (fst r, (snd r)\<lparr>m_RequestQueue := q\<rparr>))"
proof (induction fuel arbitrary: k c)
  case (Suc fuel)
  obtain ok n d where "ping_loop env p k (log_mysql (Query p s) c) = (ok, n, d)" using prod_cases3 by blast
  then show ?case using Suc by (cases ok) (simp_all add: Let_def queue_frame)
qed simp

lemma frame_statement [queue_frame]:
  "DoQuery env n s (c\<lparr>m_RequestQueue := q\<rparr>) =
     bind_res (DoQuery env n s c) (\<lambda>r. Inr (fst r, (snd r)\<lparr>m_RequestQueue := q\<rparr>))"
  "SendStatement env n ps (c\<lparr>m_RequestQueue := q\<rparr>) =
     bind_res (SendStatement env n ps c) (\<lambda>r. Inr (fst r, (snd r)\<lparr>m_RequestQueue := q\<rparr>))"
  "GetQueryResult env n (c\<lparr>m_RequestQueue := q\<rparr>) =
     bind_res (GetQueryResult env n c) (\<lambda>r. Inr (fst r, (snd r)\<lparr>m_RequestQueue := q\<rparr>))"
  "SaveTableName n t (c\<lparr>m_RequestQueue := q\<rparr>) =
     bind_res (SaveTableName n t c) (\<lambda>c. Inr (c\<lparr>m_RequestQueue := q\<rparr>))"
  "RemoveRedisHashTableCache n t (c\<lparr>m_RequestQueue := q\<rparr>) =
     bind_res (RemoveRedisHashTableCache n t c) (\<lambda>c. Inr (c\<lparr>m_RequestQueue := q\<rparr>))"
  by (simp_all add: DoQuery_def SendStatement_def GetQueryResult_def SaveTableName_def RemoveRedisHashTableCache_def
      Let_def queue_frame bind_res_assoc case_prod_unfold bind_res_if cong: if_cong)

lemma frame_set_loop [queue_frame]:
  "set_loop env fuel n t k kl v vl (c\<lparr>m_RequestQueue := q\<rparr>) =
     bind_res (set_loop env fuel n t k kl v vl c) (\<lambda>r. Inr (fst r, (snd r)\<lparr>m_RequestQueue := q\<rparr>))"
  by (induction fuel arbitrary: c)
     (simp_all add: Let_def queue_frame bind_res_assoc case_prod_unfold bind_res_if cong: if_cong)

lemma frame_tables [queue_frame]:
  "RedisHashTableSet env n t k kl v' vl (c\<lparr>m_RequestQueue := q\<rparr>) =
     bind_res (RedisHashTableSet env n t k kl v' vl c) (\<lambda>r. Inr (fst r, (snd r)\<lparr>m_RequestQueue := q\<rparr>))"
  "RedisHashTableDel env n t k kl (c\<lparr>m_RequestQueue := q\<rparr>) =
     bind_res (RedisHashTableDel env n t k kl c) (\<lambda>r. Inr (fst r, (snd r)\<lparr>m_RequestQueue := q\<rparr>))"
  "RedisHashTableGet env n t k kl (c\<lparr>m_RequestQueue := q\<rparr>) =
     bind_res (RedisHashTableGet env n t k kl c) (\<lambda>r. Inr (fst r, (snd r)\<lparr>m_RequestQueue := q\<rparr>))"
  by (simp_all add: RedisHashTableSet_def RedisHashTableDel_def RedisHashTableGet_def
      Let_def queue_frame bind_res_assoc case_prod_unfold split: option.split)

lemma frame_exists [queue_frame]:
  "CheckRedisHastTableIsExist env n t (c\<lparr>m_RequestQueue := q\<rparr>) =
     bind_res (CheckRedisHastTableIsExist env n t c) (\<lambda>r. Inr (fst r, (snd r)\<lparr>m_RequestQueue := q\<rparr>))"
  by (simp add: CheckRedisHastTableIsExist_def queue_frame bind_res_assoc case_prod_unfold bind_res_if
      option.case_distrib [of "\<lambda>m. bind_res m f" for f] cong: if_cong option.case_cong)

lemma frame_tests [queue_frame]:
  "RedisHashTableGetTest env n t k kl (c\<lparr>m_RequestQueue := q\<rparr>) =
     bind_res (RedisHashTableGetTest env n t k kl c) (\<lambda>r. Inr (fst r, fst (snd r), (snd (snd r))\<lparr>m_RequestQueue := q\<rparr>))"
  "RedisHashTableDelTest env n t k kl (c\<lparr>m_RequestQueue := q\<rparr>) =
     bind_res (RedisHashTableDelTest env n t k kl c) (\<lambda>r. Inr (fst r, fst (snd r), (snd (snd r))\<lparr>m_RequestQueue := q\<rparr>))"
  "RedisHashTableGetAll env n t (c\<lparr>m_RequestQueue := q\<rparr>) =
     bind_res (RedisHashTableGetAll env n t c) (\<lambda>r. Inr (fst r, fst (snd r), (snd (snd r))\<lparr>m_RequestQueue := q\<rparr>))"
  "RedisHashTableDropTest env n t (c\<lparr>m_RequestQueue := q\<rparr>) =
     bind_res (RedisHashTableDropTest env n t c) (\<lambda>r. Inr (fst r, fst (snd r), (snd (snd r))\<lparr>m_RequestQueue := q\<rparr>))"
  by (simp_all add: RedisHashTableGetTest_def RedisHashTableDelTest_def RedisHashTableGetAll_def RedisHashTableDropTest_def
      queue_frame bind_res_assoc case_prod_unfold bind_res_if cong: if_cong)


text \<open>A loop commutes with whatever its body commutes with.\<close>

lemma for_loop_frame:
  assumes "\<And>i x. f i (g x) = bind_res (f i x) (\<lambda>x. Inr (g x))"
  shows "for_loop f i n (g x) = bind_res (for_loop f i n x) (\<lambda>x. Inr (g x))"
  by (induction n arbitrary: i x) (simp_all add: assms bind_res_assoc)

lemma frame_mysql_responses [queue_frame]:
  "Mysql_GenCommonRespond env l t r (c\<lparr>m_RequestQueue := q\<rparr>) =
     bind_res (Mysql_GenCommonRespond env l t r c) (\<lambda>r. Inr (fst r, (snd r)\<lparr>m_RequestQueue := q\<rparr>))"
  "GenDataNetRespond env k (c\<lparr>m_RequestQueue := q\<rparr>) =
     bind_res (GenDataNetRespond env k c) (\<lambda>r. Inr (fst r, (snd r)\<lparr>m_RequestQueue := q\<rparr>))"
  "GenQueryResult env s k (c\<lparr>m_RequestQueue := q\<rparr>) =
     bind_res (GenQueryResult env s k c) (\<lambda>r. Inr (fst r, (snd r)\<lparr>m_RequestQueue := q\<rparr>))"
  "RespondMysql env b r (c\<lparr>m_RequestQueue := q\<rparr>) =
     bind_res (RespondMysql env b r c) (\<lambda>r. Inr (fst r, (snd r)\<lparr>m_RequestQueue := q\<rparr>))"
  "PushNullPacket b (c\<lparr>m_RequestQueue := q\<rparr>) =
     bind_res (PushNullPacket b c) (\<lambda>c. Inr (c\<lparr>m_RequestQueue := q\<rparr>))"
  by (simp_all add: Mysql_GenCommonRespond_def GenDataNetRespond_def GenQueryResult_def RespondMysql_def PushNullPacket_def
      Let_def queue_frame bind_res_assoc case_prod_unfold bind_res_if cong: if_cong)

lemma frame_steps [queue_frame]:
  "sets_step env n h b i (c\<lparr>m_RequestQueue := q\<rparr>) =
     bind_res (sets_step env n h b i c) (\<lambda>c. Inr (c\<lparr>m_RequestQueue := q\<rparr>))"
  "hsets_step env n h b i (c\<lparr>m_RequestQueue := q\<rparr>) =
     bind_res (hsets_step env n h b i c) (\<lambda>c. Inr (c\<lparr>m_RequestQueue := q\<rparr>))"
  "dels_step env n h b i (c\<lparr>m_RequestQueue := q\<rparr>) =
     bind_res (dels_step env n h b i c) (\<lambda>c. Inr (c\<lparr>m_RequestQueue := q\<rparr>))"
  "hdels_step env n h b i (c\<lparr>m_RequestQueue := q\<rparr>) =
     bind_res (hdels_step env n h b i c) (\<lambda>c. Inr (c\<lparr>m_RequestQueue := q\<rparr>))"
  by (simp_all add: sets_step_def hsets_step_def dels_step_def hdels_step_def
      Let_def queue_frame bind_res_assoc case_prod_unfold)

lemma frame_fetch_if [queue_frame]:
  "fetch_if w p (c\<lparr>m_RequestQueue := q\<rparr>) = (fetch_if w p c)\<lparr>m_RequestQueue := q\<rparr>"
  by (simp add: fetch_if_def queue_frame)

lemma frame_StoreResultAt [queue_frame]:
  "StoreResultAt env p i (rs, c\<lparr>m_RequestQueue := q\<rparr>) =
     bind_res (StoreResultAt env p i (rs, c)) (\<lambda>x. Inr (fst x, (snd x)\<lparr>m_RequestQueue := q\<rparr>))"
  by (simp add: StoreResultAt_def Let_def queue_frame bind_res_assoc)

lemma frame_gets_step:
  "gets_step env n p h b i (fst x, (snd x)\<lparr>m_RequestQueue := q\<rparr>) =
     bind_res (gets_step env n p h b i x) (\<lambda>x. Inr (fst x, (snd x)\<lparr>m_RequestQueue := q\<rparr>))"
  by (simp add: gets_step_def Let_def queue_frame bind_res_assoc case_prod_unfold bind_res_if cong: if_cong)

lemma frame_hgets_loop [queue_frame]:
  "hgets_loop env n p h b i k (rs, c\<lparr>m_RequestQueue := q\<rparr>) =
     bind_res (hgets_loop env n p h b i k (rs, c)) (\<lambda>x. Inr (fst x, (snd x)\<lparr>m_RequestQueue := q\<rparr>))"
  by (induction k arbitrary: i rs c)
     (simp_all add: Let_def queue_frame bind_res_assoc case_prod_unfold bind_res_if cong: if_cong)

lemma frame_loops [queue_frame]:
  "for_loop (sets_step env n h b) i k (c\<lparr>m_RequestQueue := q\<rparr>) =
     bind_res (for_loop (sets_step env n h b) i k c) (\<lambda>c. Inr (c\<lparr>m_RequestQueue := q\<rparr>))"
  "for_loop (hsets_step env n h b) i k (c\<lparr>m_RequestQueue := q\<rparr>) =
     bind_res (for_loop (hsets_step env n h b) i k c) (\<lambda>c. Inr (c\<lparr>m_RequestQueue := q\<rparr>))"
  "for_loop (dels_step env n h b) i k (c\<lparr>m_RequestQueue := q\<rparr>) =
     bind_res (for_loop (dels_step env n h b) i k c) (\<lambda>c. Inr (c\<lparr>m_RequestQueue := q\<rparr>))"
  "for_loop (hdels_step env n h b) i k (c\<lparr>m_RequestQueue := q\<rparr>) =
     bind_res (for_loop (hdels_step env n h b) i k c) (\<lambda>c. Inr (c\<lparr>m_RequestQueue := q\<rparr>))"
  "for_loop (gets_step env n p h b) i k (rs, c\<lparr>m_RequestQueue := q\<rparr>) =
     bind_res (for_loop (gets_step env n p h b) i k (rs, c)) (\<lambda>x. Inr (fst x, (snd x)\<lparr>m_RequestQueue := q\<rparr>))"
  using for_loop_frame [of "gets_step env n p h b" "\<lambda>x. (fst x, (snd x)\<lparr>m_RequestQueue := q\<rparr>)" i k "(rs, c)"]
  by (simp_all add: for_loop_frame [where g = "\<lambda>c. c\<lparr>m_RequestQueue := q\<rparr>"] queue_frame frame_gets_step)

lemma frame_mysql_handlers [queue_frame]:
  "Mysql_OnRequestSet env n b (c\<lparr>m_RequestQueue := q\<rparr>) =
     bind_res (Mysql_OnRequestSet env n b c) (\<lambda>r. Inr (fst r, (snd r)\<lparr>m_RequestQueue := q\<rparr>))"
  "Mysql_OnRequestHSet env n b (c\<lparr>m_RequestQueue := q\<rparr>) =
     bind_res (Mysql_OnRequestHSet env n b c) (\<lambda>r. Inr (fst r, (snd r)\<lparr>m_RequestQueue := q\<rparr>))"
  "Mysql_OnRequestSets env n b (c\<lparr>m_RequestQueue := q\<rparr>) =
     bind_res (Mysql_OnRequestSets env n b c) (\<lambda>r. Inr (fst r, (snd r)\<lparr>m_RequestQueue := q\<rparr>))"
  "Mysql_OnRequestGets env n b (c\<lparr>m_RequestQueue := q\<rparr>) =
     bind_res (Mysql_OnRequestGets env n b c) (\<lambda>r. Inr (fst r, (snd r)\<lparr>m_RequestQueue := q\<rparr>))"
  "Mysql_OnRequestHSets env n b (c\<lparr>m_RequestQueue := q\<rparr>) =
     bind_res (Mysql_OnRequestHSets env n b c) (\<lambda>r. Inr (fst r, (snd r)\<lparr>m_RequestQueue := q\<rparr>))"
  "Mysql_OnRequestHGets env n b (c\<lparr>m_RequestQueue := q\<rparr>) =
     bind_res (Mysql_OnRequestHGets env n b c) (\<lambda>r. Inr (fst r, (snd r)\<lparr>m_RequestQueue := q\<rparr>))"
  "Mysql_OnRequestHGetAll env n b (c\<lparr>m_RequestQueue := q\<rparr>) =
     bind_res (Mysql_OnRequestHGetAll env n b c) (\<lambda>r. Inr (fst r, (snd r)\<lparr>m_RequestQueue := q\<rparr>))"
  "Mysql_OnRequestDel env n b (c\<lparr>m_RequestQueue := q\<rparr>) =
     bind_res (Mysql_OnRequestDel env n b c) (\<lambda>r. Inr (fst r, (snd r)\<lparr>m_RequestQueue := q\<rparr>))"
  "Mysql_OnRequestDels env n b (c\<lparr>m_RequestQueue := q\<rparr>) =
     bind_res (Mysql_OnRequestDels env n b c) (\<lambda>r. Inr (fst r, (snd r)\<lparr>m_RequestQueue := q\<rparr>))"
  "Mysql_OnRequestHDel env n b (c\<lparr>m_RequestQueue := q\<rparr>) =
     bind_res (Mysql_OnRequestHDel env n b c) (\<lambda>r. Inr (fst r, (snd r)\<lparr>m_RequestQueue := q\<rparr>))"
  "Mysql_OnRequestHDels env n b (c\<lparr>m_RequestQueue := q\<rparr>) =
     bind_res (Mysql_OnRequestHDels env n b c) (\<lambda>r. Inr (fst r, (snd r)\<lparr>m_RequestQueue := q\<rparr>))"
  "Mysql_OnRequestDelHashTable env n b (c\<lparr>m_RequestQueue := q\<rparr>) =
     bind_res (Mysql_OnRequestDelHashTable env n b c) (\<lambda>r. Inr (fst r, (snd r)\<lparr>m_RequestQueue := q\<rparr>))"
  by (simp_all add: Mysql_OnRequestSet_def Mysql_OnRequestHSet_def Mysql_OnRequestSets_def Mysql_OnRequestGets_def Mysql_OnRequestHSets_def Mysql_OnRequestHGets_def
      Mysql_OnRequestHGetAll_def Mysql_OnRequestDel_def Mysql_OnRequestDels_def Mysql_OnRequestHDel_def Mysql_OnRequestHDels_def Mysql_OnRequestDelHashTable_def
      Let_def queue_frame bind_res_assoc case_prod_unfold bind_res_if cong: if_cong)

lemma frame_Mysql_handler:
  "Mysql_handler env p (c\<lparr>m_RequestQueue := q\<rparr>) =
     bind_res (Mysql_handler env p c) (\<lambda>c. Inr (c\<lparr>m_RequestQueue := q\<rparr>))"
  by (simp add: Mysql_handler_def Mysql_OnRequest_def Let_def queue_frame bind_res_assoc case_prod_unfold bind_res_if
      cong: if_cong)


section \<open>The client stays open\<close>

lemma open_query:
  "DoQuery env n s d = Inr (r, d') \<Longrightarrow> IsOpen d' = IsOpen d"
  "SendStatement env n ps d = Inr (r, d') \<Longrightarrow> IsOpen d' = IsOpen d"
  "GetQueryResult env n d = Inr (x, d') \<Longrightarrow> IsOpen d' = IsOpen d"
  "SaveTableName n t d = Inr d' \<Longrightarrow> IsOpen d' = IsOpen d"
  "RemoveRedisHashTableCache n t d = Inr d' \<Longrightarrow> IsOpen d' = IsOpen d"
  by (auto simp: SendStatement_def GetQueryResult_def SaveTableName_def RemoveRedisHashTableCache_def
      bind_res_eq_Inr IsOpen_def Let_def log_mysql_def dest!: DoQuery_calls split: if_splits)

lemma open_grow [simp]: "IsOpen (GrowBuffer env l d) = IsOpen d"
  by (simp add: GrowBuffer_def IsOpen_def)

lemma open_set_loop: "set_loop env fuel n t k kl v vl d = Inr (r, d') \<Longrightarrow> IsOpen d' = IsOpen d"
proof (induction fuel arbitrary: d)
  case (Suc fuel)
  then show ?case by (auto simp: bind_res_eq_Inr Let_def dest!: open_query split: if_splits)
qed simp

lemma open_tables:
  "RedisHashTableSet env n t k kl v' vl d = Inr (r, d') \<Longrightarrow> IsOpen d' = IsOpen d"
  "RedisHashTableDel env n t k kl d = Inr (r, d') \<Longrightarrow> IsOpen d' = IsOpen d"
  "RedisHashTableGet env n t k kl d = Inr (r, d') \<Longrightarrow> IsOpen d' = IsOpen d"
  "CheckRedisHastTableIsExist env n t d = Inr (r, d') \<Longrightarrow> IsOpen d' = IsOpen d"
  by (auto simp: RedisHashTableSet_def RedisHashTableDel_def RedisHashTableGet_def CheckRedisHastTableIsExist_def
      bind_res_eq_Inr Let_def dest!: open_query open_set_loop split: option.splits if_splits)

lemma open_tests:
  "RedisHashTableGetTest env n t k kl d = Inr (r, e, d') \<Longrightarrow> IsOpen d' = IsOpen d"
  "RedisHashTableDelTest env n t k kl d = Inr (r, e, d') \<Longrightarrow> IsOpen d' = IsOpen d"
  "RedisHashTableGetAll env n t d = Inr (r, e, d') \<Longrightarrow> IsOpen d' = IsOpen d"
  "RedisHashTableDropTest env n t d = Inr (r, e, d') \<Longrightarrow> IsOpen d' = IsOpen d"
  by (auto simp: RedisHashTableGetTest_def RedisHashTableDelTest_def RedisHashTableGetAll_def RedisHashTableDropTest_def
      bind_res_eq_Inr dest!: open_query open_tables split: if_splits)

lemma open_mysql_responses:
  "Mysql_GenCommonRespond env l t k d = Inr (p, d') \<Longrightarrow> IsOpen d' = IsOpen d"
  "RespondMysql env b r d = Inr (x, d') \<Longrightarrow> IsOpen d' = IsOpen d"
  "PushNullPacket b d = Inr d' \<Longrightarrow> IsOpen d' = IsOpen d"
  by (auto simp: Mysql_GenCommonRespond_def RespondMysql_def PushNullPacket_def Let_def bind_res_eq_Inr
      dest!: open_parts split: if_splits)

lemma open_steps:
  "sets_step env n h b i d = Inr d' \<Longrightarrow> IsOpen d' = IsOpen d"
  "hsets_step env n h b i d = Inr d' \<Longrightarrow> IsOpen d' = IsOpen d"
  "dels_step env n h b i d = Inr d' \<Longrightarrow> IsOpen d' = IsOpen d"
  "hdels_step env n h b i d = Inr d' \<Longrightarrow> IsOpen d' = IsOpen d"
  "gets_step env n p h b i (rs, d) = Inr (rs', d') \<Longrightarrow> IsOpen d' = IsOpen d"
  "hgets_loop env n p h b i k (rs, d) = Inr (rs', d') \<Longrightarrow> IsOpen d' = IsOpen d"
proof -
  have store: "StoreResultAt env p i (rs, d) = Inr (rs', d') \<Longrightarrow> IsOpen d' = IsOpen d" for i rs rs' d d'
    by (auto simp: StoreResultAt_def Let_def bind_res_eq_Inr IsOpen_def log_mysql_def)
  show "gets_step env n p h b i (rs, d) = Inr (rs', d') \<Longrightarrow> IsOpen d' = IsOpen d"
    by (auto simp: gets_step_def Let_def bind_res_eq_Inr split_beta dest!: open_tests store split: if_splits)
  show "hgets_loop env n p h b i k (rs, d) = Inr (rs', d') \<Longrightarrow> IsOpen d' = IsOpen d"
  proof (induction k arbitrary: i rs d)
    case (Suc k)
    then show ?case
      by (auto simp: Let_def bind_res_eq_Inr dest!: open_tests store split: if_splits)
  qed simp
qed (auto simp: sets_step_def hsets_step_def dels_step_def hdels_step_def Let_def bind_res_eq_Inr split_beta
      dest!: open_tables open_tests)

lemma for_loop_keeps:
  assumes "\<And>i x y. f i x = Inr y \<Longrightarrow> P y = P x"
  shows "for_loop f i n x = Inr y \<Longrightarrow> P y = P x"
  by (induction n arbitrary: i x) (auto simp: bind_res_eq_Inr dest: assms)

lemma open_loops:
  "for_loop (sets_step env n h b) i k d = Inr d' \<Longrightarrow> IsOpen d' = IsOpen d"
  "for_loop (hsets_step env n h b) i k d = Inr d' \<Longrightarrow> IsOpen d' = IsOpen d"
  "for_loop (dels_step env n h b) i k d = Inr d' \<Longrightarrow> IsOpen d' = IsOpen d"
  "for_loop (hdels_step env n h b) i k d = Inr d' \<Longrightarrow> IsOpen d' = IsOpen d"
  "for_loop (gets_step env n p h b) i k (rs, d) = Inr (rs', d') \<Longrightarrow> IsOpen d' = IsOpen d"
proof -
  have one: "gets_step env n p h b i x = Inr y \<Longrightarrow> IsOpen (snd y) = IsOpen (snd x)" for i x y
    using open_steps(5) [of env n p h b i "fst x" "snd x" "fst y" "snd y"] by simp
  show "for_loop (gets_step env n p h b) i k (rs, d) = Inr (rs', d') \<Longrightarrow> IsOpen d' = IsOpen d"
    using for_loop_keeps [of "gets_step env n p h b" "\<lambda>x. IsOpen (snd x)", OF one] by fastforce
qed (erule for_loop_keeps [rotated], erule open_steps)+

lemma open_handlers:
  "Mysql_OnRequestSet env n b d = Inr (r, d') \<Longrightarrow> IsOpen d' = IsOpen d"
  "Mysql_OnRequestHSet env n b d = Inr (r, d') \<Longrightarrow> IsOpen d' = IsOpen d"
  "Mysql_OnRequestSets env n b d = Inr (r, d') \<Longrightarrow> IsOpen d' = IsOpen d"
  "Mysql_OnRequestGets env n b d = Inr (r, d') \<Longrightarrow> IsOpen d' = IsOpen d"
  "Mysql_OnRequestHSets env n b d = Inr (r, d') \<Longrightarrow> IsOpen d' = IsOpen d"
  "Mysql_OnRequestHGets env n b d = Inr (r, d') \<Longrightarrow> IsOpen d' = IsOpen d"
  "Mysql_OnRequestHGetAll env n b d = Inr (r, d') \<Longrightarrow> IsOpen d' = IsOpen d"
  "Mysql_OnRequestDel env n b d = Inr (r, d') \<Longrightarrow> IsOpen d' = IsOpen d"
  "Mysql_OnRequestDels env n b d = Inr (r, d') \<Longrightarrow> IsOpen d' = IsOpen d"
  "Mysql_OnRequestHDel env n b d = Inr (r, d') \<Longrightarrow> IsOpen d' = IsOpen d"
  "Mysql_OnRequestHDels env n b d = Inr (r, d') \<Longrightarrow> IsOpen d' = IsOpen d"
  "Mysql_OnRequestDelHashTable env n b d = Inr (r, d') \<Longrightarrow> IsOpen d' = IsOpen d"
  by (auto simp: Mysql_OnRequestSet_def Mysql_OnRequestHSet_def Mysql_OnRequestSets_def Mysql_OnRequestGets_def Mysql_OnRequestHSets_def Mysql_OnRequestHGets_def
      Mysql_OnRequestHGetAll_def Mysql_OnRequestDel_def Mysql_OnRequestDels_def Mysql_OnRequestHDel_def Mysql_OnRequestHDels_def Mysql_OnRequestDelHashTable_def
      Let_def bind_res_eq_Inr fetch_if_def
      dest!: open_tables open_tests open_mysql_responses open_loops open_steps(6) split: if_splits)
    (simp_all add: IsOpen_def log_mysql_def)

lemma Mysql_handler_open:
  assumes "IsOpen c" and "Mysql_handler env p c = Inr c'"
  shows "IsOpen c'"
  using assms
  by (auto simp: Mysql_handler_def Mysql_OnRequest_def Let_def bind_res_eq_Inr dest!: open_handlers split: if_splits)

interpretation mysql_worker: db_worker "Mysql_handler env" for env
  by unfold_locales (rule frame_Mysql_handler, rule Mysql_handler_open)

section \<open>From a set request to the database\<close>

lemma copy_reads:
  assumes "pvData mb = take n (pvData b)" and "off + j \<le> n" and "n \<le> length (pvData b)"
  shows "j = 4 \<Longrightarrow> get32 off mb = get32 off b" "j = 1 \<Longrightarrow> get8 off mb = get8 off b"
proof -
  have s: "mslice (take n (pvData b)) off j = mslice (pvData b) off j"
    using assms(2) by (simp add: mslice_def drop_take min_def)
  show "j = 4 \<Longrightarrow> get32 off mb = get32 off b" "j = 1 \<Longrightarrow> get8 off mb = get8 off b"
    using s assms by simp_all
qed

lemma copied_set_request:
  assumes len: "length t + length k + length v < 2 ^ 31 - 100" "length t \<le> 7"
    and req: "bind_res (DB_CreateSetBuffer mem t k v) (\<lambda>b. DB_SetBufferHead b u e) = Inr b"
    and copy: "pvData mb = take (64 + length t + 1 + length k + length v) (pvData b)"
  shows "get8 TYPE_byType mb = Inr (request_code emREQUEST_SET)"
    and "\<exists>h. get32 TYPE_nHash mb = Inr h"
    and "get32 SET_uPrefixLen mb = Inr (word_of_nat (length t))"
    and "get32 SET_uKeyLen mb = Inr (word_of_nat (length k))"
    and "get32 SET_uValueLen mb = Inr (word_of_nat (length v))"
    and "drop SET_data (pvData mb) = t @ [95] @ k @ v"
proof -
  let ?n = "64 + length t + 1 + length k + length v"
  have b: "length (pvData b) = 72 + length k + length v"
      "get8 TYPE_byType b = Inr (request_code emREQUEST_SET)"
      "get32 SET_uPrefixLen b = Inr (word_of_nat (length t))" "get32 SET_uKeyLen b = Inr (word_of_nat (length k))"
      "get32 SET_uValueLen b = Inr (word_of_nat (length v))"
      "mslice (pvData b) SET_data (length t + length k + 1) = t @ [95] @ k"
      "mslice (pvData b) (SET_data + (length t + length k + 1)) (length v) = v"
    using labelled_set [of t k v mem u e] len req by auto
  have n: "?n \<le> length (pvData b)" using b(1) len by simp
  note r = copy_reads [OF copy _ n]
  show "get8 TYPE_byType mb = Inr (request_code emREQUEST_SET)"
    using r(2) [of TYPE_byType 1] b by simp
  show "get32 SET_uPrefixLen mb = Inr (word_of_nat (length t))"
    "get32 SET_uKeyLen mb = Inr (word_of_nat (length k))"
    "get32 SET_uValueLen mb = Inr (word_of_nat (length v))"
    using r(1) [of SET_uPrefixLen 4] r(1) [of SET_uKeyLen 4] r(1) [of SET_uValueLen 4] b by simp_all
  show "\<exists>h. get32 TYPE_nHash mb = Inr h" using copy n by simp
  have "drop SET_data (pvData mb) = mslice (pvData b) SET_data (length t + length k + 1 + length v)"
    by (simp add: copy mslice_def drop_take ac_simps)
  also have "\<dots> = t @ [95] @ k @ v"
    using b(6,7) slice_join [of "pvData b" SET_data "length t + length k + 1" "length v"] by simp
  finally show "drop SET_data (pvData mb) = t @ [95] @ k @ v" .
qed

lemma set_loop_ok:
  assumes "insert_sources env t k kl v vl" and "sql_buffer_ok c" and "n < length (m_vecMysql c)"
    and "length (insert_text env t k kl v vl) \<le> insert_room c kl vl" and "0 < query_fuel env"
    and "mysql_query_ok env (mysql_calls c @ [Query (m_vecMysql c ! n) (insert_text env t k kl v vl)])"
    and "mysql_errno env (mysql_calls c @ [Query (m_vecMysql c ! n) (insert_text env t k kl v vl)]) \<noteq> ER_NO_SUCH_TABLE"
  shows "\<exists>c'. RedisHashTableSet env n t k kl (Some v) vl c = Inr (True, c')
    \<and> mysql_calls c' = mysql_calls c @ [Query (m_vecMysql c ! n) (insert_text env t k kl v vl)]
    \<and> sql_buffer_ok c' \<and> kg_heap c' = kg_heap c \<and> m_RequestQueue c' = m_RequestQueue c \<and> IsOpen c' = IsOpen c"
proof -
  obtain c1 where c1: "SendStatement env n (insert_pieces t k kl v vl)
        (GrowBuffer env (s_uUpdateFixedLen + kl + vl * 4) c) = DoQuery env n (insert_text env t k kl v vl) c1"
      "sql_buffer_ok c1" "mysql_calls c1 = mysql_calls c" "m_vecMysql c1 = m_vecMysql c"
      "kg_heap c1 = kg_heap c" "m_RequestQueue c1 = m_RequestQueue c" "IsOpen c1 = IsOpen c"
    using insert_sent [OF assms(1,2,4), of n] by blast
  have "DoQuery env n (insert_text env t k kl v vl) c1
      = Inr (True, log_mysql (Query (m_vecMysql c ! n) (insert_text env t k kl v vl)) c1)"
    using DoQuery_ok [of n c1 env "insert_text env t k kl v vl"] assms c1 by simp
  moreover obtain f where "query_fuel env = Suc f" using assms(5) by (cases "query_fuel env") simp_all
  ultimately show ?thesis
    using assms c1 by (simp add: RedisHashTableSet_def connection_at_def log_mysql_def sql_buffer_ok_def IsOpen_def)
qed

text \<open>What the mysql handler does with the copy of a set request.\<close>

lemma copied_set_inserts:
  assumes len: "length t + length k + length v < 2 ^ 31 - 100" "length t \<le> 7" "75 + length k + 4 * length v < 2 ^ 32"
    and req: "bind_res (DB_CreateSetBuffer mem t k v) (\<lambda>b. DB_SetBufferHead b u e) = Inr b"
    and copy: "pvData mb = take (64 + length t + 1 + length k + length v) (pvData b)"
    and env: "escape_string env [] = []" "0 < query_fuel env"
    and client: "sql_buffer_ok c" "n < length (m_vecMysql c)"
    and stmt: "stmt = insert_statement (escape_string env) (ascii ''gt_'' @ t) k v"
    and fits: "length stmt \<le> max (unat (m_uBuffLen c)) (75 + length k + 4 * length v)"
    and ok: "mysql_query_ok env (mysql_calls c @ [Query (m_vecMysql c ! n) stmt])"
      "mysql_errno env (mysql_calls c @ [Query (m_vecMysql c ! n) stmt]) \<noteq> ER_NO_SUCH_TABLE"
  shows "\<exists>c'. Mysql_OnRequestSet env n mb c = Inr (True, c')
    \<and> mysql_calls c' = mysql_calls c @ [Query (m_vecMysql c ! n) stmt]
    \<and> kg_heap c' = kg_heap c \<and> m_RequestQueue c' = m_RequestQueue c \<and> IsOpen c' = IsOpen c"
proof -
  note f = copied_set_request [OF len(1,2) req copy]
  have un: "unat (word_of_nat (length t) :: u32) = length t" "unat (word_of_nat (length k) :: u32) = length k"
      "unat (word_of_nat (length v) :: u32) = length v"
    using len by (simp_all add: unat_of_nat)
  have p: "drop (SET_data + length t + 1) (pvData mb) = k @ v"
      "drop (SET_data + length t + length k + 1) (pvData mb) = v"
    using arg_cong [OF f(6), of "drop (length t + 1)"] arg_cong [OF f(6), of "drop (length t + length k + 1)"]
    by (simp_all add: ac_simps)
  let ?t = "table_at True SET_data (word_of_nat (length t)) mb"
  have src: "insert_sources env ?t (k @ v) (word_of_nat (length k)) v (word_of_nat (length v))"
    using env un len f(6) by (simp add: insert_sources_def table_at_def)
  have stext: "insert_text env ?t (k @ v) (word_of_nat (length k)) v (word_of_nat (length v)) = stmt"
    using un f(6) by (simp add: insert_text_def table_at_def prefix_of_def GLOBAL_TABLE_NAME_PREFIX_def stmt)
  obtain c' where c': "RedisHashTableSet env n ?t (k @ v) (word_of_nat (length k)) (Some v) (word_of_nat (length v)) c
      = Inr (True, c')" "mysql_calls c' = mysql_calls c @ [Query (m_vecMysql c ! n) stmt]"
      "kg_heap c' = kg_heap c" "m_RequestQueue c' = m_RequestQueue c" "IsOpen c' = IsOpen c"
    using set_loop_ok [OF src client] stext fits ok env un by (auto simp: insert_room_def)
  show ?thesis
    unfolding Mysql_OnRequestSet_def Let_def underline
    by (simp only: f un p c' bind_res_Inr prod.case not_True_eq_False if_False) (simp add: c')
qed


lemma release_second:
  assumes "kg_heap c p = Some b" and "m_lRefCount b = 2"
  shows "\<exists>b'. SAFE_RELEASE (Some p) c = Inr (heap_set p (Some b') c) \<and> m_lRefCount b' = 1"
proof -
  have "b\<lparr>m_lRefCount := 2\<rparr> = b" using assms(2) by (cases b) simp
  then have "KG_Buffer_Release b = (1, Some (b\<lparr>m_lRefCount := 1\<rparr>), False)"
    using release_more [of b 1] assms(2) by simp
  then show ?thesis
    using assms(1) by (intro exI [of _ "b\<lparr>m_lRefCount := 1\<rparr>"]) (simp add: SAFE_RELEASE_Some)
qed

text \<open>C37: a set request of a script, handled by the redis worker, and the copy it queues, handled by
  the mysql worker, put the value into both databases: redis gets one \<^verbatim>\<open>set\<close>, mysql exactly
  the insert statement of table \<^verbatim>\<open>gt_\<close> with the key and the value escaped. The copy is
  then still allocated, with one reference nobody holds.\<close>

theorem set_becomes_insert:
  assumes len: "length t + length k + length v < 2 ^ 31 - 100" "length t \<le> 7" "75 + length k + 4 * length v < 2 ^ 32"
    and req: "bind_res (DB_CreateSetBuffer mem t k v) (\<lambda>b. DB_SetBufferHead b u e) = Inr b"
    and client: "m_vecRedisContext c = [Some ctx]" "m_vecMysqlClients c = [[]]" "finite (dom (kg_heap c))"
    and env: "fresh_malloc env" "0 < command_fuel env"
    and redis: "redisvCommand env (hiredis_calls c @ [Command ctx (ascii ''set %b %b'') [ArgB (t @ [95] @ k), ArgB v]])
      = (Some reply, err)"
    and reply: "reply_type reply \<noteq> 2" "reply_type reply \<noteq> 6 \<or> \<not> err" "length (reply_str reply) < 2 ^ 31"
    and menv: "escape_string menv [] = []" "0 < query_fuel menv"
    and mysql: "sql_buffer_ok d" "m_vecMysql d = [p]" "IsOpen d"
    and stmt: "stmt = insert_statement (escape_string menv) (ascii ''gt_'' @ t) k v"
    and fits: "length stmt \<le> max (unat (m_uBuffLen d)) (75 + length k + 4 * length v)"
    and ok: "mysql_query_ok menv (mysql_calls d @ [Query p stmt])"
      "mysql_errno menv (mysql_calls d @ [Query p stmt]) \<noteq> ER_NO_SUCH_TABLE"
  shows "\<exists>c' m d' mb. Redis_OnRequestSet env 0 b c = Inr c'
    \<and> hiredis_calls c' = hiredis_calls c @ [Command ctx (ascii ''set %b %b'') [ArgB (t @ [95] @ k), ArgB v]]
    \<and> m_vecMysqlClients c' = [[m]]
    \<and> worker_loop (Mysql_handler menv) 2 None (d\<lparr>kg_heap := kg_heap c', m_RequestQueue := [m]\<rparr>) = Inr d'
    \<and> mysql_calls d' = mysql_calls d @ [Query p stmt]
    \<and> m_RequestQueue d' = [] \<and> kg_heap d' m = Some mb \<and> m_lRefCount mb = 1"
proof -
  obtain c' m mb r b' q where c': "Redis_OnRequestSet env 0 b c = Inr c'"
      "hiredis_calls c' = hiredis_calls c @ [Command ctx (ascii ''set %b %b'') [ArgB (t @ [95] @ k), ArgB v]]"
      "m_vecMysqlClients c' = [[m]]" "kg_heap c' m = Some mb" "m_lRefCount mb = 2"
      "pvData mb = take (64 + length t + 1 + length k + length v) (pvData b)"
    using set_core [OF len(1,2) req client env redis reply] by auto
  note f = copied_set_request [OF len(1,2) req c'(6)]
  obtain h where h: "get32 TYPE_nHash mb = Inr h" using f(2) by blast
  let ?d = "d\<lparr>kg_heap := kg_heap c', m_RequestQueue := []\<rparr>"
  obtain d1 where d1: "Mysql_OnRequestSet menv 0 mb ?d = Inr (True, d1)"
      "mysql_calls d1 = mysql_calls d @ [Query p stmt]" "kg_heap d1 = kg_heap c'" "m_RequestQueue d1 = []"
    using copied_set_inserts [OF len req c'(6) menv, of ?d 0 stmt] mysql stmt fits ok
    by (auto simp: sql_buffer_ok_def)
  have handler: "Mysql_handler menv m ?d = Inr d1"
    using f(1) h d1(1) c'(4) mysql(2) by (simp add: Mysql_handler_def Mysql_OnRequest_def heap_get_def Let_def)
  obtain mb' where rel: "SAFE_RELEASE (Some m) d1 = Inr (heap_set m (Some mb') d1)" "m_lRefCount mb' = 1"
    using release_second [of d1 m mb] d1(3) c'(4,5) by auto
  have "worker_loop (Mysql_handler menv) 2 None (d\<lparr>kg_heap := kg_heap c', m_RequestQueue := [m]\<rparr>)
      = Inr (heap_set m (Some mb') d1)"
    using mysql_worker.drains [of "d\<lparr>kg_heap := kg_heap c', m_RequestQueue := [m]\<rparr>" 2 menv] mysql(3) handler rel
    by (simp add: IsOpen_def)
  then show ?thesis
    using c'(1-3) d1(2,4) rel(2)
    by (intro exI [of _ c'] exI [of _ m] exI [of _ "heap_set m (Some mb') d1"] exI [of _ mb'])
       (simp add: heap_set_def)
qed


theorem set_becomes_insert_witness:
  "\<exists>b c' m d'. bind_res (DB_CreateSetBuffer (\<lambda>_. 0) [116] [107] [39]) (\<lambda>b. DB_SetBufferHead b 1 2) = Inr b
    \<and> Redis_OnRequestSet (demo_env (ReplyStatus [])) 0 b demo_client = Inr c'
    \<and> worker_loop (Mysql_handler (demo_mysql (\<lambda>_. True) 0)) 2 None
        ((demo_mysql_client Map.empty)\<lparr>kg_heap := kg_heap c', m_RequestQueue := [m],
           m_pSQLBuff := replicate 100 0, m_uBuffLen := 100\<rparr>) = Inr d'
    \<and> mysql_calls d' = [Query 1 (ascii ''INSERT gt_t (key_name,data) values('' @ [39, 107, 39, 44, 39, 92, 39, 39]
        @ ascii '') ON DUPLICATE KEY UPDATE data='' @ [39, 92, 39, 39])]"
proof -
  obtain b where b: "bind_res (DB_CreateSetBuffer (\<lambda>_. 0) [116] [107] [39]) (\<lambda>b. DB_SetBufferHead b 1 2) = Inr b"
    using labelled_set [of "[116]" "[107]" "[39]" "\<lambda>_. 0" 1 2] by auto
  have redis: "redisvCommand (demo_env (ReplyStatus [])) log = (Some (ReplyStatus []), False)" for log
    by (simp add: demo_env_def)
  define d where "d = (demo_mysql_client Map.empty)\<lparr>m_pSQLBuff := replicate 100 0, m_uBuffLen := 100\<rparr>"
  have d: "sql_buffer_ok d" "m_vecMysql d = [1]" "IsOpen d" "mysql_calls d = []" "m_uBuffLen d = 100"
    by (simp_all add: d_def demo_mysql_client_def sql_buffer_ok_def IsOpen_def)
  define stmt where "stmt = insert_statement escape_quotes (ascii ''gt_'' @ [116]) [107] [39]"
  have stmt: "stmt = ascii ''INSERT gt_t (key_name,data) values('' @ [39, 107, 39, 44, 39, 92, 39, 39]
        @ ascii '') ON DUPLICATE KEY UPDATE data='' @ [39, 92, 39, 39]"
    by (simp add: stmt_def insert_statement_def ascii_def quote_def escape_quotes_def)
  have esc: "escape_string (demo_mysql ok err) = escape_quotes" "query_fuel (demo_mysql ok err) = 5"
    "mysql_query_ok (demo_mysql ok err) = ok" "mysql_errno (demo_mysql ok err) = (\<lambda>_. err)" for ok err
    by (simp_all add: demo_mysql_def)
  have len: "length stmt \<le> 100" by (simp add: stmt ascii_def)
  have "\<exists>c' m d' mb. Redis_OnRequestSet (demo_env (ReplyStatus [])) 0 b demo_client = Inr c'
    \<and> hiredis_calls c' = hiredis_calls demo_client @ [Command 1 (ascii ''set %b %b'') [ArgB ([116] @ [95] @ [107]), ArgB [39]]]
    \<and> m_vecMysqlClients c' = [[m]]
    \<and> worker_loop (Mysql_handler (demo_mysql (\<lambda>_. True) 0)) 2 None (d\<lparr>kg_heap := kg_heap c', m_RequestQueue := [m]\<rparr>) = Inr d'
    \<and> mysql_calls d' = mysql_calls d @ [Query 1 stmt]
    \<and> m_RequestQueue d' = [] \<and> kg_heap d' m = Some mb \<and> m_lRefCount mb = 1"
    by (rule set_becomes_insert [OF _ _ _ b, where reply = "ReplyStatus []" and err = False])
       (use d len redis in \<open>simp_all add: demo_env_fresh esc stmt_def escape_quotes_def ER_NO_SUCH_TABLE_def\<close>,
        simp add: demo_env_def)
  then show ?thesis
    using b d(4) unfolding d_def stmt [symmetric]
    by (simp add: demo_mysql_client_def) blast
qed

end
