(* ===== verification/Layouts.thy ===== *)
theory Layouts
  imports MysqlRequests
begin

text \<open>
  The structures of the requests and responses, as \<^verbatim>\<open>common/krequest_def.h\<close> and
  \<^verbatim>\<open>common/db_def.h\<close> declare them, and the rules by which a C++ compiler for LP64 lays them out. The
  offsets that the other theories read and write are proved to be the ones of these rules.
\<close>

section \<open>The layout rules\<close>

datatype c_type = CChar | CBool | CInt | CLongLong | CPointer | CArray nat c_type

fun c_size :: "c_type \<Rightarrow> nat" where
  "c_size CChar = 1"
| "c_size CBool = 1"
| "c_size CInt = 4"
| "c_size CLongLong = 8"
| "c_size CPointer = 8"
| "c_size (CArray n t) = n * c_size t"

fun c_align :: "c_type \<Rightarrow> nat" where
  "c_align (CArray n t) = c_align t"
| "c_align t = c_size t"

text \<open>A structure is its members in order; a base class is the first member. \<open>pack\<close> bounds every alignment.\<close>

type_synonym c_struct = "(string \<times> c_type) list"

definition align_up :: "nat \<Rightarrow> nat \<Rightarrow> nat" where
  "align_up n a = (n + a - 1) div a * a"

fun place_members :: "nat \<Rightarrow> nat \<Rightarrow> c_struct \<Rightarrow> (string \<times> nat) list \<times> nat" where
  "place_members pack off [] = ([], off)"
| "place_members pack off ((f, t) # fs) =
     (let start = align_up off (min pack (c_align t)) in
      case place_members pack (start + c_size t) fs of (offs, end_off) \<Rightarrow> ((f, start) # offs, end_off))"

definition struct_align :: "nat \<Rightarrow> c_struct \<Rightarrow> nat" where
  "struct_align pack fs = fold max (map (\<lambda>(f, t). min pack (c_align t)) fs) 1"

definition struct_size :: "nat \<Rightarrow> c_struct \<Rightarrow> nat" where
  "struct_size pack fs = align_up (snd (place_members pack 0 fs)) (struct_align pack fs)"

text \<open>\<open>end_off\<close> without the padding at the end is what a class that is derived from it starts from.\<close>

definition member_offset :: "nat \<Rightarrow> c_struct \<Rightarrow> string \<Rightarrow> nat option" where
  "member_offset pack fs f = map_of (fst (place_members pack 0 fs)) f"

section \<open>Requests\<close>

text \<open>No packing: \<^verbatim>\<open>krequest_def.h\<close> is outside the pragma of \<^verbatim>\<open>db_def.h\<close>. A derived structure has the members of its base first.\<close>

definition KREQUEST_TYPE :: c_struct where
  "KREQUEST_TYPE = [(''byType'', CChar), (''byDBGenre'', CChar), (''byHandleFlag'', CChar), (''byCompleteFlag'', CChar),
     (''nHash'', CInt)]"

definition KREQUEST_HEAD :: c_struct where
  "KREQUEST_HEAD = KREQUEST_TYPE @
     [(''lId'', CLongLong), (''nConnectId'', CInt), (''nDBType'', CInt), (''bAllowRedisNil'', CBool), (''uUserId'', CInt),
      (''uEventType'', CInt), (''uSquenceId'', CInt)]"

definition KREQUEST_SET :: c_struct where
  "KREQUEST_SET = KREQUEST_HEAD @
     [(''lRef'', CLongLong), (''nExpire'', CInt), (''uPrefixLen'', CInt), (''uKeyLen'', CInt), (''uValueLen'', CInt),
      (''data'', CArray 1 CChar)]"

definition KREQUEST_GET :: c_struct where
  "KREQUEST_GET = KREQUEST_HEAD @
     [(''lRef'', CLongLong), (''uPrefixLen'', CInt), (''uKeyLen'', CInt), (''data'', CArray 1 CChar)]"

definition KREQUEST_HSET :: c_struct where
  "KREQUEST_HSET = KREQUEST_HEAD @
     [(''lRef'', CLongLong), (''uTableNameLen'', CInt), (''uHashKeyLen'', CInt), (''uValueLen'', CInt), (''data'', CArray 1 CChar)]"

definition KREQUEST_HGET :: c_struct where
  "KREQUEST_HGET = KREQUEST_HEAD @
     [(''lRef'', CLongLong), (''uTableNameLen'', CInt), (''uHashKeyLen'', CInt), (''data'', CArray 1 CChar)]"

definition KREQUEST_KEY_VALUE_DESC :: c_struct where
  "KREQUEST_KEY_VALUE_DESC = [(''uKeyLen'', CInt), (''uValueLen'', CInt), (''pKey'', CPointer), (''pValue'', CPointer)]"

definition KREQUEST_SETS :: c_struct where
  "KREQUEST_SETS = KREQUEST_HEAD @
     [(''lRef'', CLongLong), (''nExpire'', CInt), (''uHashKeyLen'', CInt), (''nCount'', CInt), (''data'', CArray 1 CChar)]"

definition KREQUEST_KEY_DESC :: c_struct where
  "KREQUEST_KEY_DESC = [(''bIsNil'', CBool), (''uKeyLen'', CInt), (''pKey'', CPointer)]"

definition KREQUEST_GETS :: c_struct where
  "KREQUEST_GETS = KREQUEST_HEAD @
     [(''lRef'', CLongLong), (''uHashKeyLen'', CInt), (''nCount'', CInt), (''data'', CArray 1 CChar)]"

definition KREQUEST_HSETS :: c_struct where
  "KREQUEST_HSETS = KREQUEST_HEAD @
     [(''lRef'', CLongLong), (''uTableNameLen'', CInt), (''nCount'', CInt), (''data'', CArray 1 CChar)]"

definition KREQUEST_HGETS :: c_struct where
  "KREQUEST_HGETS = KREQUEST_HEAD @
     [(''lRef'', CLongLong), (''uTableNameLen'', CInt), (''nCount'', CInt), (''data'', CArray 1 CChar)]"

definition KREQUEST_HGETALL :: c_struct where
  "KREQUEST_HGETALL = KREQUEST_HEAD @
     [(''lRef'', CLongLong), (''uTableNameLen'', CInt), (''data'', CArray 1 CChar)]"

definition KREQUEST_EXPIRE :: c_struct where
  "KREQUEST_EXPIRE = KREQUEST_TYPE @
     [(''nDBType'', CInt), (''nExpire'', CInt), (''pcszTmp'', CPointer), (''data'', CArray 1 CChar)]"

definition KRESOOND_COMMON :: c_struct where
  "KRESOOND_COMMON =
     [(''lId'', CLongLong), (''byRequestType'', CChar), (''byHandleFlag'', CChar), (''byReserved2'', CChar), (''byReserved3'', CChar),
      (''nRetType'', CInt), (''nParam'', CInt), (''nDataLen'', CInt), (''uUserId'', CInt), (''uEventType'', CInt),
      (''uSqueneceId'', CInt), (''data'', CArray 1 CChar)]"

section \<open>Responses and settings\<close>

text \<open>These are packed to one byte, except for the address. The length is that of \<^verbatim>\<open>netinet/in.h\<close>, which comes first.\<close>

definition INET6_ADDRSTRLEN :: nat where "INET6_ADDRSTRLEN = 46"

definition KNetAddress :: c_struct where
  "KNetAddress = [(''szIp'', CArray INET6_ADDRSTRLEN CChar), (''nPort'', CInt)]"

definition KConnectInfo :: c_struct where
  "KConnectInfo = [(''nPort'', CInt), (''szHost'', CArray INET6_ADDRSTRLEN CChar), (''szUser'', CArray 63 CChar), (''szPwd'', CArray 64 CChar)]"

definition NET_PACKET_HEADER :: c_struct where
  "NET_PACKET_HEADER = [(''uPacketLength'', CInt), (''uEventType'', CInt), (''uErrorCode'', CInt), (''uHandlerId'', CInt)]"

definition KP_DBRESPOND_HEAD :: c_struct where
  "KP_DBRESPOND_HEAD =
     [(''lRef'', CLongLong), (''uUserId'', CInt), (''uEventType'', CInt), (''uSquenceId'', CInt), (''byHandle'', CChar),
      (''byRetType'', CChar), (''byRequestType'', CChar), (''byReserved'', CChar)]"

definition KP_DBRESPOND_COMMON :: c_struct where
  "KP_DBRESPOND_COMMON = KP_DBRESPOND_HEAD @ [(''nLen'', CInt), (''data'', CArray 1 CChar)]"

definition KP_DBRESPOND_MULTI_DATA :: c_struct where
  "KP_DBRESPOND_MULTI_DATA = KP_DBRESPOND_HEAD @ [(''lId'', CLongLong), (''nCount'', CInt), (''data'', CArray 1 CChar)]"

section \<open>The offsets that are used\<close>

text \<open>\<open>8\<close> is the largest alignment, so it does not bound any.\<close>

lemma request_head_offsets:
  "place_members 8 0 KREQUEST_HEAD =
     ([(''byType'', TYPE_byType), (''byDBGenre'', 1), (''byHandleFlag'', TYPE_byHandleFlag), (''byCompleteFlag'', 3),
       (''nHash'', TYPE_nHash), (''lId'', HEAD_lId), (''nConnectId'', HEAD_nConnectId), (''nDBType'', 20),
       (''bAllowRedisNil'', HEAD_bAllowRedisNil), (''uUserId'', HEAD_uUserId), (''uEventType'', HEAD_uEventType),
       (''uSquenceId'', HEAD_uSquenceId)], REQUEST_lRef)"
  by code_simp

lemma request_offsets:
  "map (member_offset 8 KREQUEST_SET) [''lRef'', ''uPrefixLen'', ''uKeyLen'', ''uValueLen'', ''data''] =
     map Some [REQUEST_lRef, SET_uPrefixLen, SET_uKeyLen, SET_uValueLen, SET_data]"
  "map (member_offset 8 KREQUEST_GET) [''lRef'', ''uPrefixLen'', ''uKeyLen'', ''data''] =
     map Some [REQUEST_lRef, GET_uPrefixLen, GET_uKeyLen, GET_data]"
  "map (member_offset 8 KREQUEST_HSET) [''lRef'', ''uTableNameLen'', ''uHashKeyLen'', ''uValueLen'', ''data''] =
     map Some [REQUEST_lRef, HSET_uTableNameLen, HSET_uHashKeyLen, HSET_uValueLen, HSET_data]"
  "map (member_offset 8 KREQUEST_HGET) [''lRef'', ''uTableNameLen'', ''uHashKeyLen'', ''data''] =
     map Some [REQUEST_lRef, HGET_uTableNameLen, HGET_uHashKeyLen, HGET_data]"
  "map (member_offset 8 KREQUEST_GETS) [''lRef'', ''uHashKeyLen'', ''nCount'', ''data''] =
     map Some [REQUEST_lRef, GETS_uHashKeyLen, GETS_nCount, GETS_data]"
  "map (member_offset 8 KREQUEST_EXPIRE) [''nExpire'', ''data''] = map Some [EXPIRE_nExpire, EXPIRE_data]"
  by code_simp+

lemma list_offsets:
  "map (member_offset 8 KREQUEST_SETS) [''uHashKeyLen'', ''nCount'', ''data''] = map Some [SETS_uHashKeyLen, SETS_nCount, SETS_data]"
  "map (member_offset 8 KREQUEST_HSETS) [''uTableNameLen'', ''nCount'', ''data''] = map Some [HSETS_uTableNameLen, HSETS_nCount, HSETS_data]"
  "map (member_offset 8 KREQUEST_HGETS) [''uTableNameLen'', ''nCount'', ''data''] = map Some [HSETS_uTableNameLen, HSETS_nCount, HSETS_data]"
  "map (member_offset 8 KREQUEST_HGETALL) [''uTableNameLen'', ''data''] = map Some [HGETALL_uTableNameLen, HGETALL_data]"
  "struct_size 8 KREQUEST_KEY_VALUE_DESC = 24" "struct_size 8 KREQUEST_KEY_DESC = 16"
  by code_simp+

lemma response_offsets:
  "map (member_offset 8 KRESOOND_COMMON) [''lId'', ''byRequestType'', ''byHandleFlag'', ''nRetType'', ''nParam'', ''nDataLen'',
      ''uUserId'', ''uEventType'', ''uSqueneceId'', ''data''] =
     map Some [COMMON_lId, COMMON_byRequestType, COMMON_byHandleFlag, COMMON_nRetType, COMMON_nParam, COMMON_nDataLen,
      COMMON_uUserId, COMMON_uEventType, COMMON_uSqueneceId, COMMON_data]"
  "map (member_offset 1 KP_DBRESPOND_MULTI_DATA) [''lRef'', ''uUserId'', ''uEventType'', ''uSquenceId'', ''byHandle'', ''byRetType'',
      ''byRequestType'', ''lId'', ''nCount'', ''data''] =
     map Some [MULTI_lRef, MULTI_uUserId, MULTI_uEventType, MULTI_uSquenceId, MULTI_byHandle, MULTI_byRetType,
      MULTI_byRequestType, MULTI_lId, MULTI_nCount, MULTI_data]"
  "map (member_offset 1 KConnectInfo) [''szHost'', ''szUser'', ''szPwd''] = map Some [INFO_szHost, INFO_szUser, INFO_szPwd]"
  by code_simp+

lemma struct_sizes:
  "map (struct_size 8) [KREQUEST_SET, KREQUEST_GET, KREQUEST_GETS, KREQUEST_HSET, KREQUEST_HGET, KREQUEST_EXPIRE, KRESOOND_COMMON] =
     [SIZEOF_KREQUEST_SET, SIZEOF_KREQUEST_GET, SIZEOF_KREQUEST_GETS, SIZEOF_KREQUEST_HSET, SIZEOF_KREQUEST_HGET,
      SIZEOF_KREQUEST_EXPIRE, SIZEOF_KRESOOND_COMMON]"
  "map (struct_size 1) [KP_DBRESPOND_MULTI_DATA, KConnectInfo] = [SIZEOF_KP_DBRESPOND_MULTI_DATA, SIZEOF_KConnectInfo]"
  by code_simp+

end
