(* ===== verification/Ownership.thy ===== *)
theory Ownership
  imports LogicServer MysqlRequests
begin

text \<open>
  Who owns the buffers of the database clients. A buffer is in the hands of the thread that
  made it, in one queue, or in the hands of the thread that took it from the queue; in each
  place it has at least one reference, so that no pointer of the clients is to freed memory. The
  theory has a calculus for this claim, in the style of weakest preconditions, and the rule
  of every operation of the redis client, of the script interface and of the mysql worker.
\<close>

section \<open>Operations that do not touch freed memory\<close>

text \<open>\<open>safe m Q\<close>: \<open>m\<close> does not fail with a use of freed memory, and what it returns satisfies \<open>Q\<close>.\<close>

definition safe :: "'a res \<Rightarrow> ('a \<Rightarrow> bool) \<Rightarrow> bool" where
  "safe m Q \<longleftrightarrow> (case m of Inl e \<Rightarrow> e \<noteq> UseAfterFree | Inr x \<Rightarrow> Q x)"

named_theorems safe_intros \<open>rules of the calculus\<close>

lemma safe_simps [simp]: "safe (Inl e) Q \<longleftrightarrow> e \<noteq> UseAfterFree" "safe (Inr x) Q \<longleftrightarrow> Q x"
  by (simp_all add: safe_def)

lemma safe_bind: "safe (bind_res m f) Q \<longleftrightarrow> safe m (\<lambda>x. safe (f x) Q)"
  by (cases m) simp_all

lemma safe_bindI [safe_intros]: "safe m (\<lambda>x. safe (f x) Q) \<Longrightarrow> safe (bind_res m f) Q"
  by (simp add: safe_bind)

lemma safe_mono: "safe m P \<Longrightarrow> (\<And>x. m = Inr x \<Longrightarrow> P x \<Longrightarrow> Q x) \<Longrightarrow> safe m Q"
  by (cases m) simp_all

lemma safe_if [safe_intros]: "(b \<Longrightarrow> safe m Q) \<Longrightarrow> (\<not> b \<Longrightarrow> safe n Q) \<Longrightarrow> safe (if b then m else n) Q"
  by simp

lemma safe_Inr [safe_intros]: "Q x \<Longrightarrow> safe (Inr x) Q"
  by simp

lemma safe_not_freed: "safe m Q \<Longrightarrow> m \<noteq> Inl UseAfterFree"
  by auto

lemma safe_result: "safe m Q \<Longrightarrow> m = Inr x \<Longrightarrow> Q x"
  by simp

text \<open>Reads and writes inside a block, null checks, and texts.\<close>

lemma safe_mem_read [safe_intros]: "(\<And>x. mem_read m off n = Inr x \<Longrightarrow> Q x) \<Longrightarrow> safe (mem_read m off n) Q"
  by (simp add: mem_read_def split: if_splits)

lemma safe_mem_write [safe_intros]: "(\<And>x. Q x) \<Longrightarrow> safe (mem_write m off bs) Q"
  by (simp add: mem_write_def)

lemma safe_load [safe_intros]: "(\<And>x. Q x) \<Longrightarrow> safe (load dec n m off) Q"
  by (simp add: load_def mem_read_def)

lemma safe_deref [safe_intros]: "(\<And>x. p = Some x \<Longrightarrow> Q x) \<Longrightarrow> safe (deref p) Q"
  by (cases p) simp_all

lemma safe_c_string [safe_intros]: "(\<And>x. Q x) \<Longrightarrow> safe (c_string m) Q"
  by (simp add: c_string_def)

lemma safe_get [safe_intros]:
  "(\<And>x. get8 off b = Inr x \<Longrightarrow> Q8 x) \<Longrightarrow> safe (get8 off b) Q8"
  "(\<And>x. Q32 x) \<Longrightarrow> safe (get32 off b) Q32"
  "(\<And>x. Q64 x) \<Longrightarrow> safe (get64 off b) Q64"
  by (simp_all add: get8_def get32_def get64_def load_def mem_read_def split: if_splits)

lemma safe_lua_string [safe_intros]: "(\<And>x. Q x) \<Longrightarrow> safe (lua_string api v) Q"
  unfolding lua_string_def by (intro safe_intros)

lemma safe_put [safe_intros]: "(\<And>d. Q (b\<lparr>pvData := d\<rparr>)) \<Longrightarrow> safe (put off bs b) Q"
  by (simp add: put_def mem_write_def)

lemma safe_put_reserve [safe_intros]: "(\<And>d. Q (b\<lparr>reserve := d\<rparr>)) \<Longrightarrow> safe (put_reserve off bs b) Q"
  by (simp add: put_reserve_def mem_write_def)

lemma safe_create [safe_intros]:
  "(\<And>b. m_lRefCount b = 1 \<Longrightarrow> DB_MemoryCreateBuffer mem n = Inr b \<Longrightarrow> Q b) \<Longrightarrow> safe (DB_MemoryCreateBuffer mem n) Q"
  by (auto simp: DB_MemoryCreateBuffer_def Let_def)

section \<open>Ownership\<close>

definition all_queues :: "'s redis_client_scheme \<Rightarrow> buffer_ref list" where
  "all_queues c = m_RequestQueue c @ m_RespondQueue c @ concat (m_vecMysqlClients c)"

text \<open>What the redis client queues for mysql: copies of requests for a change of one key.\<close>

definition is_change :: "kg_buffer \<Rightarrow> bool" where
  "is_change b \<longleftrightarrow> (\<forall>t. get8 TYPE_byType b = Inr t \<longrightarrow>
     t \<in> {request_code emREQUEST_SET, request_code emREQUEST_HSET, request_code emREQUEST_DEL, request_code emREQUEST_HDEL})"

definition live :: "'s db_client_scheme \<Rightarrow> buffer_ref \<Rightarrow> bool" where
  "live c p \<longleftrightarrow> (\<exists>b. kg_heap c p = Some b \<and> (m_lRefCount b = 1 \<or> m_lRefCount b = 2))"

definition fresh_ref :: "'s db_client_scheme \<Rightarrow> buffer_ref \<Rightarrow> bool" where
  "fresh_ref c p \<longleftrightarrow> (\<exists>b. kg_heap c p = Some b \<and> m_lRefCount b = 1)"

text \<open>\<open>new\<close> are the buffers just made, \<open>held\<close> those taken from a queue by the redis worker or the game
  thread, \<open>mh\<close> those taken by the mysql worker.\<close>

definition owned :: "buffer_ref list \<Rightarrow> buffer_ref list \<Rightarrow> buffer_ref list \<Rightarrow> 's redis_client_scheme \<Rightarrow> bool" where
  "owned new held mh c \<longleftrightarrow> finite (dom (kg_heap c)) \<and> length (m_vecMysqlClients c) = 1 \<and> distinct (new @ held @ mh @ all_queues c)
     \<and> (\<forall>p\<in>set new. fresh_ref c p) \<and> (\<forall>p\<in>set (held @ mh @ all_queues c). live c p)
     \<and> (\<forall>p\<in>set (mh @ concat (m_vecMysqlClients c)). \<forall>b. kg_heap c p = Some b \<longrightarrow> is_change b)"

lemma fresh_live: "fresh_ref c p \<Longrightarrow> live c p"
  by (auto simp: fresh_ref_def live_def)

lemma owned_drop: "owned (p # new) held mh c \<Longrightarrow> owned new held mh c"
  by (auto simp: owned_def)

lemma owned_same: "same_queues c c' \<Longrightarrow> owned new held mh c \<Longrightarrow> owned new held mh c'"
  by (simp add: owned_def same_queues_def all_queues_def live_def fresh_ref_def)

lemma owned_in_heap: "owned new held mh c \<Longrightarrow> p \<in> set (new @ held @ mh @ all_queues c) \<Longrightarrow> kg_heap c p \<noteq> None"
  by (auto simp: owned_def live_def fresh_ref_def)

lemma safe_NewBuffer:
  assumes "owned new held mh c" and "fresh_malloc env"
    and "\<And>p c'. owned (p # new) held mh c' \<Longrightarrow> Q (p, c')"
  shows "safe (NewBuffer env n c) Q"
proof -
  have f: "kg_heap c (malloc env (kg_heap c)) = None"
    using assms(1,2) by (simp add: owned_def fresh_malloc_def)
  then have n: "malloc env (kg_heap c) \<notin> set (new @ held @ mh @ all_queues c)"
    using owned_in_heap [OF assms(1)] by blast
  show ?thesis
    unfolding NewBuffer_def
  proof (intro safe_intros)
    fix b :: kg_buffer assume "m_lRefCount b = 1"
    then have "owned (malloc env (kg_heap c) # new) held mh (heap_set (malloc env (kg_heap c)) (Some b) c)"
      using assms(1) n f by (auto simp: owned_def heap_set_def all_queues_def live_def fresh_ref_def)
    then show "Q (malloc env (kg_heap c), heap_set (malloc env (kg_heap c)) (Some b) c)"
      by (rule assms(3))
  qed
qed

lemma safe_on_buffer:
  assumes "owned new held mh c" and "p \<in> set new"
    and "\<And>b. kg_heap c p = Some b \<Longrightarrow> m_lRefCount b = 1 \<Longrightarrow> safe (f b) (\<lambda>b'. m_lRefCount b' = 1)"
    and "\<And>c'. owned new held mh c' \<Longrightarrow> Q c'"
  shows "safe (on_buffer p f c) Q"
proof -
  obtain b where b: "kg_heap c p = Some b" "m_lRefCount b = 1"
    using assms(1,2) by (auto simp: owned_def fresh_ref_def)
  have q: "p \<notin> set (held @ mh @ all_queues c)" using assms(1,2) by (auto simp: owned_def)
  have "owned new held mh (heap_set p (Some b') c)" if "m_lRefCount b' = 1" for b'
    using assms(1) q that by (auto simp: owned_def heap_set_def all_queues_def live_def fresh_ref_def)
  with assms(4) have "m_lRefCount b' = 1 \<Longrightarrow> Q (heap_set p (Some b') c)" for b' by blast
  then show ?thesis
    using b assms(3) [OF b] by (cases "f b") (simp_all add: on_buffer_def heap_get_def)
qed

text \<open>Handing a new buffer over to a queue: the client takes a second reference.\<close>

lemma safe_PushRespond:
  assumes "owned (p # new) held mh c"
    and "\<And>c' b. owned new held mh c' \<Longrightarrow> kg_heap c' p = Some b \<Longrightarrow> m_lRefCount b = 2 \<Longrightarrow> p \<notin> set new \<Longrightarrow> Q c'"
  shows "safe (PushRespond (Some p) c) Q"
proof -
  obtain b where b: "kg_heap c p = Some b" "m_lRefCount b = 1"
    using assms(1) by (auto simp: owned_def fresh_ref_def)
  define b' where "b' = snd (KG_Buffer_AddRef b)"
  have b': "m_lRefCount b' = 2" using second_reference(1) [OF b(2)] by (simp add: b'_def)
  define c' where "c' = (heap_set p (Some b') c)\<lparr>m_RespondQueue := m_RespondQueue c @ [p]\<rparr>"
  have "owned new held mh c'"
    using assms(1) b' by (auto simp: owned_def c'_def heap_set_def all_queues_def live_def fresh_ref_def)
  moreover have "kg_heap c' p = Some b'" "p \<notin> set new"
    using assms(1) by (simp_all add: c'_def heap_set_def owned_def)
  moreover have "PushRespond (Some p) c = Inr c'"
    using b by (simp add: PushRespond_def AddRef_def heap_get_def b'_def c'_def heap_set_def)
  ultimately show ?thesis using assms(2) [of c' b'] b' by simp
qed

lemma safe_PushRequest:
  assumes "owned (p # new) held mh c" and "\<And>c'. owned new held mh c' \<Longrightarrow> Q c'"
  shows "safe (PushRequest (Some p) c) Q"
proof -
  obtain b where b: "kg_heap c p = Some b" "m_lRefCount b = 1"
    using assms(1) by (auto simp: owned_def fresh_ref_def)
  define b' where "b' = snd (KG_Buffer_AddRef b)"
  have b': "m_lRefCount b' = 2" using second_reference(1) [OF b(2)] by (simp add: b'_def)
  define c' where "c' = (heap_set p (Some b') c)\<lparr>m_RequestQueue := m_RequestQueue c @ [p]\<rparr>"
  have "owned new held mh c'"
    using assms(1) b' by (auto simp: owned_def c'_def heap_set_def all_queues_def live_def fresh_ref_def)
  moreover have "PushRequest (Some p) c = Inr c'"
    using b by (simp add: PushRequest_def AddRef_def heap_get_def b'_def c'_def heap_set_def)
  ultimately show ?thesis using assms(2) by simp
qed

text \<open>Giving up one of two references leaves the buffer where it is.\<close>

lemma safe_second_release:
  assumes "owned new held mh c" and "kg_heap c p = Some b" "m_lRefCount b = 2" "p \<notin> set new"
    and "\<And>c'. owned new held mh c' \<Longrightarrow> Q c'"
  shows "safe (SAFE_RELEASE (Some p) c) Q"
proof -
  have rel: "fst (snd (KG_Buffer_Release b)) = Some (b\<lparr>m_lRefCount := 1\<rparr>)"
    using release_more [of b 1] assms(3) by simp
  have ty: "is_change (b\<lparr>m_lRefCount := 1\<rparr>) = is_change b"
    by (simp add: is_change_def get8_def)
  have "owned new held mh (heap_set p (Some (b\<lparr>m_lRefCount := 1\<rparr>)) c)"
    using assms(1-4) ty by (auto simp: owned_def heap_set_def all_queues_def live_def fresh_ref_def)
  then show ?thesis
    using assms(2,5) rel by (simp add: SAFE_RELEASE_Some)
qed

text \<open>The thread that took a buffer from a queue gives it back.\<close>

lemma safe_release_held:
  assumes "owned new (p # held) mh c" and "\<And>c'. owned new held mh c' \<Longrightarrow> Q c'"
  shows "safe (SAFE_RELEASE (Some p) c) Q"
proof -
  obtain b where b: "kg_heap c p = Some b"
    using assms(1) by (auto simp: owned_def live_def)
  have "owned new held mh (heap_set p b' c)" for b'
    using assms(1) by (cases b') (auto simp: owned_def heap_set_def all_queues_def live_def fresh_ref_def)
  then show ?thesis
    using b assms(2) by (simp add: SAFE_RELEASE_Some)
qed

lemma live_queues [simp]:
  "live (c\<lparr>m_RequestQueue := q\<rparr>) = live c" "live (c\<lparr>m_RespondQueue := q\<rparr>) = live c"
  by (simp_all add: live_def fun_eq_iff)

lemma owned_PopRequest:
  assumes "owned [] held mh c" and "PopRequest c = (Some p, c')"
  shows "owned [] (p # held) mh c'"
proof -
  obtain q where q: "m_RequestQueue c = p # q" "c' = c\<lparr>m_RequestQueue := q\<rparr>"
    using assms(2) by (auto simp: PopRequest_def split: list.splits)
  show ?thesis using assms(1) by (auto simp: owned_def all_queues_def q)
qed

lemma owned_PopRespond:
  assumes "owned [] held mh c" and "PopRespond c = (Some p, c')"
  shows "owned [] (p # held) mh c'"
proof -
  obtain q where q: "m_RespondQueue c = p # q" "c' = c\<lparr>m_RespondQueue := q\<rparr>"
    using assms(2) by (auto simp: PopRespond_def split: list.splits)
  show ?thesis using assms(1) by (auto simp: owned_def all_queues_def q)
qed

lemma owned_perm: "owned new held mh c \<Longrightarrow> distinct held' \<Longrightarrow> set held' = set held \<Longrightarrow> owned new held' mh c"
  by (auto simp: owned_def)

section \<open>The redis client\<close>

text \<open>What a query of mysql returns is a buffer nobody else has.\<close>

definition good_env :: "redis_env \<Rightarrow> bool" where
  "good_env env \<longleftrightarrow> fresh_malloc env \<and> (\<forall>b r. mysql_query env b = Some r \<longrightarrow> m_lRefCount r = 1)"

lemma safe_context_at [safe_intros]: "(\<And>x. Q x) \<Longrightarrow> safe (context_at n c) Q"
  by (simp add: context_at_def)

lemma safe_Reconnect [safe_intros]: "(\<And>x. Q x) \<Longrightarrow> safe (Redis_Reconnect env n c) Q"
  unfolding Redis_Reconnect_def Let_def
  by (intro safe_intros) (auto split: connect_result.split option.split)

lemma safe_command_loop:
  fixes c :: "'s redis_client_scheme"
  shows "safe (command_loop env fuel n fmt ap k io x c) (\<lambda>_. True)"
proof (induction fuel arbitrary: k io x c)
  case (Suc fuel)
  then show ?case
    by (cases x) (auto simp: Let_def split: option.split prod.split intro!: safe_intros)
qed simp

lemma safe_RedisCommand:
  assumes "owned new held mh c" and "\<And>r c'. owned new held mh c' \<Longrightarrow> Q (r, c')"
  shows "safe (RedisCommand env n fmt ap c) Q"
proof (cases "RedisCommand env n fmt ap c")
  case (Inl e)
  then show ?thesis
    using safe_command_loop [of env "command_fuel env" n fmt ap 0 0, THEN safe_not_freed]
    by (auto simp: RedisCommand_def Let_def bind_res_eq_Inl context_at_def split: if_splits)
next
  case (Inr x)
  then show ?thesis
    using RedisCommand_same [of env n fmt ap c "fst x" "snd x"] owned_same [OF _ assms(1)] assms(2) [of "snd x" "fst x"]
    by simp
qed

text \<open>Filling in a response keeps its count.\<close>

lemma safe_put_ints: "m_lRefCount b = k \<Longrightarrow> safe (put_ints off ns b) (\<lambda>b'. m_lRefCount b' = k)"
  by (induction ns arbitrary: off b) (auto intro!: safe_intros)

lemma safe_put_values: "m_lRefCount b = k \<Longrightarrow> safe (put_values i j es b) (\<lambda>b'. m_lRefCount b' = k)"
  by (induction es arbitrary: i j b) (auto intro!: safe_intros)

lemma safe_fill_common: "m_lRefCount b = k \<Longrightarrow> safe (fill_common l t r b) (\<lambda>b'. m_lRefCount b' = k)"
  unfolding fill_common_def respond_head_def Let_def
  by (intro safe_intros safe_put_ints) simp_all

lemma safe_fill_multi: "m_lRefCount b = k \<Longrightarrow> safe (fill_multi a l f i t n r b) (\<lambda>b'. m_lRefCount b' = k)"
  unfolding fill_multi_def
  by (intro safe_intros safe_put_values) simp_all

lemma safe_labels:
  "m_lRefCount b = k \<Longrightarrow> safe (DB_SetCommonHead_seq b u e q) (\<lambda>b'. m_lRefCount b' = k)"
  "m_lRefCount b = k \<Longrightarrow> safe (DB_SetMulDataHead_seq b u e q) (\<lambda>b'. m_lRefCount b' = k)"
  "m_lRefCount b = k \<Longrightarrow> safe (DB_SetBufferHead b u e) (\<lambda>b'. m_lRefCount b' = k)"
  "m_lRefCount b = k \<Longrightarrow> safe (DB_SetBufferHead_seq b u e q) (\<lambda>b'. m_lRefCount b' = k)"
  unfolding DB_SetCommonHead_seq_def DB_SetMulDataHead_seq_def DB_SetBufferHead_def DB_SetBufferHead_seq_def
  by (intro safe_intros; simp)+

lemma safe_pair [safe_intros]: "safe (f x y) Q \<Longrightarrow> safe (case (x, y) of (a, b) \<Rightarrow> f a b) Q"
  by simp

lemma good_env_fresh: "good_env env \<Longrightarrow> fresh_malloc env"
  by (simp add: good_env_def)

lemma safe_GenCommonRespond:
  fixes c :: "'s redis_client_scheme"
  assumes "owned new held mh c" and "good_env env" and "\<And>p c'. owned (p # new) held mh c' \<Longrightarrow> Q (p, c')"
  shows "safe (Redis_GenCommonRespond env l t r c) Q"
  unfolding Redis_GenCommonRespond_def using assms(1,2)
  by - (assumption | rule safe_intros safe_NewBuffer safe_on_buffer safe_fill_common good_env_fresh assms(3) | (simp; fail))+

lemma safe_GenMulti:
  fixes c :: "'s redis_client_scheme"
  assumes "owned new held mh c" and "good_env env" and "\<And>p c'. owned (p # new) held mh c' \<Longrightarrow> Q (p, c')"
  shows "safe (Redis_GenMultiDataNetRespond env a l f i t n r c) Q"
  unfolding Redis_GenMultiDataNetRespond_def using assms(1,2)
  by - (assumption | rule safe_intros safe_NewBuffer safe_on_buffer safe_fill_multi good_env_fresh assms(3) | (simp; fail))+

lemma safe_RespondCommon:
  fixes c :: "'s redis_client_scheme"
  assumes "owned new held mh c" and "good_env env" and "\<And>c'. owned new held mh c' \<Longrightarrow> Q c'"
  shows "safe (RespondCommon env b r c) Q"
  unfolding RespondCommon_def using assms(1,2)
  by - (assumption | rule safe_intros safe_GenCommonRespond safe_on_buffer safe_labels safe_PushRespond
    safe_second_release good_env_fresh assms(3) | (simp; fail))+

text \<open>A copy for mysql starts as the request does.\<close>

lemma safe_CopyRequest:
  fixes c :: "'s redis_client_scheme"
  assumes "owned new held mh c" and "fresh_malloc env"
    and "\<And>p c' m. owned (p # new) held mh c' \<Longrightarrow> kg_heap c' p = Some m \<Longrightarrow> (is_change b \<Longrightarrow> is_change m) \<Longrightarrow> Q (p, c')"
  shows "safe (CopyRequest env n b c) Q"
proof (cases "CopyRequest env n b c")
  case (Inl e)
  have "safe (CopyRequest env n b c) (\<lambda>_. True)"
    unfolding CopyRequest_def using assms(1,2)
    by - (assumption | rule safe_intros safe_NewBuffer safe_on_buffer | (simp; fail))+
  with Inl show ?thesis by simp
next
  case (Inr x)
  obtain p c' where x: "x = (p, c')" by (cases x)
  have own: "owned (p # new) held mh c'"
  proof -
    have "safe (CopyRequest env n b c) (\<lambda>(p, c'). owned (p # new) held mh c')"
      unfolding CopyRequest_def using assms(1,2)
      by - (assumption | rule safe_intros safe_NewBuffer safe_on_buffer | (simp; fail))+
    then show ?thesis using Inr x by simp
  qed
  obtain m0 bs m where run: "DB_MemoryCreateBuffer (malloc_mem env (kg_heap c)) (word_of_nat n) = Inr m0"
      "mem_read (pvData b) 0 (unat (m_uSize m0)) = Inr bs" "put 0 bs m0 = Inr m" "kg_heap c' p = Some m"
    using Inr by (auto simp: x CopyRequest_def NewBuffer_def on_buffer_def heap_get_def heap_set_def bind_res_eq_Inr)
  have m: "pvData m = bs @ drop (length bs) (pvData m0)" "bs = take (unat (m_uSize m0)) (pvData b)"
    using run(2,3) by (auto simp: put_def bind_res_eq_Inr mem_write_eq_Inr mem_read_eq_Inr msplice_def mslice_def)
  have len: "length bs = unat (m_uSize m0)" using run(2) by (auto simp: mem_read_eq_Inr)
  have full: "pvData m = bs"
  proof (cases "unat (word_of_nat n :: u32) < 2 ^ 32 - 40")
    case True
    then show ?thesis using create_ok [OF True, of "malloc_mem env (kg_heap c)"] run(1) m(1) len by simp
  next
    case False
    then show ?thesis using create_wrap [OF _ run(1)] m(1) by simp
  qed
  have "is_change m" if "is_change b"
    unfolding is_change_def
  proof (intro allI impI)
    fix t assume "get8 TYPE_byType m = Inr t"
    then have "get8 TYPE_byType b = Inr t"
      by (cases "unat (m_uSize m0)") (auto simp: full m(2) get8_def load_def mem_read_def mslice_def bind_res_def split: if_splits)
    with that show "t \<in> {request_code emREQUEST_SET, request_code emREQUEST_HSET, request_code emREQUEST_DEL, request_code emREQUEST_HDEL}"
      by (simp add: is_change_def)
  qed
  then show ?thesis using Inr x assms(3) [OF own run(4)] by simp
qed

lemma safe_PushMysqlRequest:
  fixes c :: "'s redis_client_scheme"
  assumes "owned (p # new) held mh c" and "kg_heap c p = Some m" "is_change m"
    and "\<And>c'. owned new held mh c' \<Longrightarrow> Q c'"
  shows "safe (PushMysqlRequest n p c) Q"
proof -
  define m' where "m' = snd (KG_Buffer_AddRef m)"
  have m: "m_lRefCount m = 1" using assms(1,2) by (auto simp: owned_def fresh_ref_def)
  have m': "m_lRefCount m' = 2" "is_change m'"
    using second_reference(1) [OF m] assms(3) by (simp_all add: m'_def is_change_def get8_def)
  let ?k = "unat (n - 1)"
  define c' where "c' = (heap_set p (Some m') c)\<lparr>m_vecMysqlClients := (m_vecMysqlClients c)[?k := m_vecMysqlClients c ! ?k @ [p]]\<rparr>"
  have run: "PushMysqlRequest n p c = (if sint n \<le> 0 then Inl (ProcessExit 1)
      else if length (m_vecMysqlClients c) \<le> ?k then Inl OutOfBoundsRead else Inr c')"
    using assms(2) by (simp add: PushMysqlRequest_def AddRef_def heap_get_def m'_def [symmetric] c'_def heap_set_def)
  obtain q where q: "m_vecMysqlClients c = [q]"
    using assms(1) by (auto simp: owned_def length_Suc_conv)
  show ?thesis
  proof (cases "?k = 0")
    case True
    have v: "m_vecMysqlClients c' = [q @ [p]]" by (simp add: c'_def q True)
    have "owned new held mh c'"
      using assms(1) m' unfolding owned_def all_queues_def v
      by (simp add: q) (auto simp: c'_def heap_set_def live_def fresh_ref_def)
    then show ?thesis using run assms(4) by simp
  qed (simp add: run q)
qed

lemma safe_CopyToMysql:
  fixes c :: "'s redis_client_scheme"
  assumes "owned new held mh c" and "good_env env" and "is_change b" and "\<And>c'. owned new held mh c' \<Longrightarrow> Q c'"
  shows "safe (CopyToMysql env i n r b c) Q"
proof (cases r)
  case (Some x)
  show ?thesis
    unfolding CopyToMysql_def Some option.case using assms(1,2,3)
    by - (assumption | rule safe_intros safe_CopyRequest safe_PushMysqlRequest good_env_fresh assms(4) | (simp; fail))+
qed (simp add: CopyToMysql_def assms)

lemma safe_heap_get:
  "p \<in> set (new @ held) \<Longrightarrow> owned new held mh c \<Longrightarrow> (\<And>b. kg_heap c p = Some b \<Longrightarrow> Q b) \<Longrightarrow> safe (heap_get p c) Q"
  using owned_in_heap [of new held mh c p] by (cases "kg_heap c p") (auto simp: heap_get_def)

lemma safe_arg_b [safe_intros]: "(\<And>x. Q x) \<Longrightarrow> safe (arg_b off n b) Q"
  unfolding arg_b_def by (intro safe_intros)

text \<open>The result of a query is another new buffer.\<close>

lemma safe_RequestMySQLQuery:
  fixes c :: "'s redis_client_scheme"
  assumes "owned new held mh c" and "p \<in> set new" and "good_env env" and "\<And>r c'. owned (r # new) held mh c' \<Longrightarrow> Q (r, c')"
  shows "safe (RequestMySQLQuery env n p c) Q"
proof -
  have f: "kg_heap c (malloc env (kg_heap c)) = None"
    using assms(1,3) by (simp add: owned_def fresh_malloc_def good_env_def)
  then have n: "malloc env (kg_heap c) \<notin> set (new @ held @ mh @ all_queues c)"
    using owned_in_heap [OF assms(1)] by blast
  have "owned (malloc env (kg_heap c) # new) held mh (heap_set (malloc env (kg_heap c)) (Some r) c)"
    if "m_lRefCount r = 1" for r
    using assms(1) n f that by (auto simp: owned_def heap_set_def all_queues_def live_def fresh_ref_def)
  then have ok: "Q (malloc env (kg_heap c), heap_set (malloc env (kg_heap c)) (Some r) c)" if "m_lRefCount r = 1" for r
    using assms(4) that by blast
  show ?thesis
    unfolding RequestMySQLQuery_def using assms(1,2,3)
    by - (assumption | rule safe_intros safe_heap_get [where new = new and held = held] ok | (simp add: good_env_def; fail))+
qed

lemma owned_forget: "owned new held mh c \<Longrightarrow> owned [] held mh c"
  by (auto simp: owned_def)

lemmas redis_rules = safe_RedisCommand safe_CopyToMysql safe_RespondCommon safe_GenCommonRespond safe_GenMulti
  safe_CopyRequest safe_RequestMySQLQuery safe_NewBuffer safe_on_buffer safe_PushRespond safe_second_release
  safe_labels good_env_fresh

lemma safe_keyed_handlers:
  fixes c :: "'s redis_client_scheme"
  assumes "owned [] held mh c" and "good_env env"
  shows "is_change b \<Longrightarrow> safe (Redis_OnRequestSet env n b c) (owned [] held mh)"
    and "safe (Redis_OnRequestGet env n b c) (owned [] held mh)"
    and "safe (Redis_OnRequestExpire env n b c) (owned [] held mh)"
    and "is_change b \<Longrightarrow> safe (Redis_OnRequestHSet env n b c) (owned [] held mh)"
    and "is_change b \<Longrightarrow> safe (Redis_OnRequestDel env n b c) (owned [] held mh)"
    and "is_change b \<Longrightarrow> safe (Redis_OnRequestHDel env n b c) (owned [] held mh)"
  unfolding Redis_OnRequestSet_def Redis_OnRequestGet_def Redis_OnRequestExpire_def Redis_OnRequestHSet_def
    Redis_OnRequestDel_def Redis_OnRequestHDel_def Let_def using assms
  by - (assumption | rule safe_intros redis_rules)+

lemma safe_Gets:
  fixes c :: "'s redis_client_scheme"
  assumes "owned [] held mh c" and "good_env env"
  shows "safe (Redis_OnRequestGets env n b c) (owned [] held mh)"
  unfolding Redis_OnRequestGets_def Let_def using assms
  by - (assumption | rule safe_intros redis_rules | (simp; fail))+

lemma safe_HGet:
  fixes c :: "'s redis_client_scheme"
  assumes "owned [] held mh c" and "good_env env"
  shows "safe (Redis_OnRequestHGet env n b c) (owned [] held mh)"
  unfolding Redis_OnRequestHGet_def Let_def using assms
  by - (assumption | rule safe_intros redis_rules | (simp; fail) | (erule owned_forget))+

lemma safe_OnRequest:
  fixes c :: "'s redis_client_scheme"
  assumes own: "owned [] held mh c" and env: "good_env env" and p: "p \<in> set held"
  shows "safe (Redis_OnRequest env p c) (owned [] held mh)"
proof -
  note h = safe_keyed_handlers [OF own env] safe_Gets [OF own env] safe_HGet [OF own env]
  have ch: "get8 TYPE_byType b = Inr (request_code t) \<Longrightarrow> t \<in> {emREQUEST_SET, emREQUEST_HSET, emREQUEST_DEL, emREQUEST_HDEL}
      \<Longrightarrow> is_change b" for b t
    by (auto simp: is_change_def)
  show ?thesis
    unfolding Redis_OnRequest_def Let_def
  proof (intro safe_intros safe_heap_get [OF _ own], use p in simp)
    fix b t
    assume t: "get8 TYPE_byType b = Inr t"
    show "t = request_code emREQUEST_SET \<Longrightarrow> safe (Redis_OnRequestSet env n b c) (owned [] held mh)" for n
      using h(1) [of b n] ch [of b emREQUEST_SET] t by simp
    show "t = request_code emREQUEST_HSET \<Longrightarrow> safe (Redis_OnRequestHSet env n b c) (owned [] held mh)" for n
      using h(4) [of b n] ch [of b emREQUEST_HSET] t by simp
    show "t = request_code emREQUEST_DEL \<Longrightarrow> safe (Redis_OnRequestDel env n b c) (owned [] held mh)" for n
      using h(5) [of b n] ch [of b emREQUEST_DEL] t by simp
    show "t = request_code emREQUEST_HDEL \<Longrightarrow> safe (Redis_OnRequestHDel env n b c) (owned [] held mh)" for n
      using h(6) [of b n] ch [of b emREQUEST_HDEL] t by simp
  qed (use h own in simp_all)
qed

section \<open>The scripts\<close>

lemma safe_build:
  "safe (DB_CreateSetBuffer mem t k v) (\<lambda>b. m_lRefCount b = 1)"
  "safe (DB_CreateGetBuffer mem t k) (\<lambda>b. m_lRefCount b = 1)"
  "safe (DB_CreateGetsBuffer mem t) (\<lambda>b. m_lRefCount b = 1)"
  "safe (DB_CreateDelBuffer mem t k) (\<lambda>b. m_lRefCount b = 1)"
  "safe (DB_CreateHSetBuffer mem t k v) (\<lambda>b. m_lRefCount b = 1)"
  unfolding DB_CreateSetBuffer_def DB_CreateGetBuffer_def DB_CreateGetsBuffer_def DB_CreateDelBuffer_def DB_CreateHSetBuffer_def
  by (intro safe_intros; simp)+

lemma safe_push_new:
  fixes c :: "'s redis_client_scheme"
  assumes "owned [] held mh c" and "good_env env" and "m_lRefCount b = 1"
  shows "safe (case place env b c of (p, c) \<Rightarrow> PushRedisRequest 1 p c) (owned [] held mh)"
proof -
  have f: "kg_heap c (malloc env (kg_heap c)) = None"
    using assms(1,2) by (simp add: owned_def fresh_malloc_def good_env_def)
  then have n: "malloc env (kg_heap c) \<notin> set ([] @ held @ mh @ all_queues c)"
    using owned_in_heap [OF assms(1)] by blast
  have "owned [malloc env (kg_heap c)] held mh (heap_set (malloc env (kg_heap c)) (Some b) c)"
    using assms(1,3) n f by (auto simp: owned_def heap_set_def all_queues_def live_def fresh_ref_def)
  then show ?thesis
    by (simp add: place_def PushRedisRequest_def safe_PushRequest)
qed

lemma safe_built:
  fixes c :: "'s redis_client_scheme"
  assumes "safe m (\<lambda>b. m_lRefCount b = 1)" and "owned [] held mh c" and "good_env env"
    and "\<And>b. m_lRefCount b = 1 \<Longrightarrow> safe (f b) (\<lambda>b. m_lRefCount b = 1)"
  shows "safe (bind_res m (\<lambda>b. bind_res (f b) (\<lambda>b. case place env b c of (p, c) \<Rightarrow> PushRedisRequest 1 p c))) (owned [] held mh)"
proof -
  have "safe (bind_res m f) (\<lambda>b. m_lRefCount b = 1)"
    unfolding safe_bind by (rule safe_mono [OF assms(1)]) (rule assms(4))
  then show ?thesis
    unfolding safe_bind
    by (rule safe_mono) (erule safe_mono, rule safe_push_new [OF assms(2,3)])
qed

lemma safe_scripts:
  fixes c :: "'s redis_client_scheme"
  assumes "owned [] held mh c" and "good_env env"
  shows "safe (PushRedisSet api env args c) (owned [] held mh)"
    and "safe (PushRedisGet api env args c) (owned [] held mh)"
    and "safe (PushRedisGets api env args c) (owned [] held mh)"
    and "safe (PushRedisDel api env args c) (owned [] held mh)"
    and "safe (PushRedisHSet api env args c) (owned [] held mh)"
  unfolding PushRedisSet_def PushRedisGet_def PushRedisGets_def PushRedisDel_def PushRedisHSet_def using assms
  by - (assumption | rule safe_if safe_Inr safe_built safe_build safe_bindI [OF safe_lua_string] safe_labels)+

section \<open>The mysql worker\<close>

text \<open>A change of one key leaves the buffers and the queues of the client alone.\<close>

definition same_db :: "'s db_client_scheme \<Rightarrow> 's db_client_scheme \<Rightarrow> bool" where
  "same_db d d' \<longleftrightarrow> kg_heap d' = kg_heap d \<and> m_RequestQueue d' = m_RequestQueue d
     \<and> m_RespondQueue d' = m_RespondQueue d"

lemma same_db_refl: "same_db d d"
  by (simp add: same_db_def)

lemma same_db_log: "same_db a d \<Longrightarrow> same_db a (log_mysql k d)"
  by (simp add: same_db_def log_mysql_def)

lemma same_db_grow: "same_db a d \<Longrightarrow> same_db a (GrowBuffer env n d)"
  by (simp add: same_db_def GrowBuffer_def)

lemma safe_sql_write: "(\<And>x. Q x) \<Longrightarrow> safe (sql_write esc ps pos buf) Q"
proof (induction ps arbitrary: pos buf)
  case (Cons p ps)
  then show ?case by (cases p) (auto intro!: safe_intros)
qed simp

lemma safe_connection_at [safe_intros]: "(\<And>x. Q x) \<Longrightarrow> safe (connection_at n d) Q"
  by (simp add: connection_at_def)

lemma safe_query_loop:
  fixes d :: "'s mysql_client_scheme"
  shows "safe (query_loop env fuel p s k d) (\<lambda>_. True)"
proof (induction fuel arbitrary: k d)
  case (Suc fuel)
  then show ?case by (auto simp: Let_def split: prod.split bool.split)
qed simp

lemma safe_DoQuery:
  fixes d :: "'s mysql_client_scheme"
  assumes "same_db a d" and "\<And>r d'. same_db a d' \<Longrightarrow> Q (r, d')"
  shows "safe (DoQuery env n s d) Q"
proof (rule safe_mono [where P = "\<lambda>_. True"])
  show "safe (DoQuery env n s d) (\<lambda>_. True)"
    unfolding DoQuery_def by (intro safe_intros safe_query_loop)
  fix x assume "DoQuery env n s d = Inr x"
  then obtain ks where "snd x = d\<lparr>mysql_calls := mysql_calls d @ ks\<rparr>"
    using DoQuery_calls [of env n s d "fst x" "snd x"] by auto
  then have "same_db a (snd x)" using assms(1) by (simp add: same_db_def)
  then show "Q x" using assms(2) [of "snd x" "fst x"] by simp
qed

lemma safe_SendStatement:
  fixes d :: "'s mysql_client_scheme"
  assumes "same_db a d" and "\<And>r d'. same_db a d' \<Longrightarrow> Q (r, d')"
  shows "safe (SendStatement env n ps d) Q"
  unfolding SendStatement_def
proof (intro safe_bindI safe_sql_write, clarify, intro safe_intros)
  fix buf s
  have "same_db a (d\<lparr>m_pSQLBuff := buf\<rparr>)" using assms(1) by (simp add: same_db_def)
  then show "safe (DoQuery env n s (d\<lparr>m_pSQLBuff := buf\<rparr>)) Q" by (rule safe_DoQuery) (rule assms(2))
qed

lemma safe_set_loop:
  fixes d :: "'s mysql_client_scheme"
  assumes "\<And>r d'. same_db a d' \<Longrightarrow> Q (r, d')"
  shows "same_db a d \<Longrightarrow> safe (set_loop env fuel n t k kl v vl d) Q"
proof (induction fuel arbitrary: d)
  case (Suc fuel)
  show ?case
    unfolding set_loop.simps Let_def using Suc.prems
    by - (assumption | rule safe_intros safe_SendStatement same_db_grow assms Suc.IH)+
qed simp

lemma safe_table_names:
  assumes "same_db a d" and "\<And>d'. same_db a d' \<Longrightarrow> Q d'"
  shows "safe (SaveTableName n t d) Q" "safe (RemoveRedisHashTableCache n t d) Q"
  using assms by (auto simp: SaveTableName_def RemoveRedisHashTableCache_def same_db_def intro!: safe_intros)

lemma safe_tables:
  fixes d :: "'s mysql_client_scheme"
  assumes "same_db a d" and "\<And>r d'. same_db a d' \<Longrightarrow> Q (r, d')"
  shows "safe (RedisHashTableSet env n t k kl v' vl d) Q"
    and "safe (RedisHashTableDel env n t k kl d) Q"
    and "safe (CheckRedisHastTableIsExist env n t d) Q"
proof -
  show "safe (RedisHashTableSet env n t k kl v' vl d) Q"
    using assms by (auto simp: RedisHashTableSet_def intro: safe_set_loop split: option.split)
  show "safe (RedisHashTableDel env n t k kl d) Q"
    unfolding RedisHashTableDel_def Let_def using assms(1)
    by - (assumption | rule safe_intros safe_SendStatement same_db_grow safe_table_names assms(2))+
  have res: "same_db a d \<Longrightarrow> (\<And>r d'. same_db a d' \<Longrightarrow> R (r, d')) \<Longrightarrow> safe (GetQueryResult env n d) R" for d R
    unfolding GetQueryResult_def Let_def by (intro safe_intros) (auto intro: same_db_log)
  show "safe (CheckRedisHastTableIsExist env n t d) Q"
    unfolding CheckRedisHastTableIsExist_def using assms(1)
    by - (assumption | rule safe_intros safe_SendStatement safe_table_names res assms(2)
      | (rule option.split [where P = "\<lambda>m. safe m Q", THEN iffD2], intro conjI impI allI))+
qed

lemma safe_DelTest:
  fixes d :: "'s mysql_client_scheme"
  assumes "same_db a d" and "\<And>r e d'. same_db a d' \<Longrightarrow> Q (r, e, d')"
  shows "safe (RedisHashTableDelTest env n t k kl d) Q"
  unfolding RedisHashTableDelTest_def using assms(1)
  by - (assumption | rule safe_intros safe_tables assms(2))+

lemma safe_Mysql_handler:
  fixes d :: "'s mysql_client_scheme"
  assumes "kg_heap d p = Some b" and "is_change b"
  shows "safe (Mysql_handler env p d) (same_db d)"
proof -
  have h: "safe (Mysql_OnRequestSet env n b d) (\<lambda>x. same_db d (snd x))" "safe (Mysql_OnRequestHSet env n b d) (\<lambda>x. same_db d (snd x))"
    "safe (Mysql_OnRequestDel env n b d) (\<lambda>x. same_db d (snd x))" "safe (Mysql_OnRequestHDel env n b d) (\<lambda>x. same_db d (snd x))" for n
    unfolding Mysql_OnRequestSet_def Mysql_OnRequestHSet_def Mysql_OnRequestDel_def Mysql_OnRequestHDel_def Let_def
    by - (assumption | rule safe_intros safe_tables safe_DelTest same_db_refl | (simp; fail))+
  have ty: "get8 TYPE_byType b = Inr t \<Longrightarrow> t \<in> {0, 2, 9, 11}" for t
    using assms(2) by (auto simp: is_change_def)
  have "safe (Mysql_OnRequest env p d) (\<lambda>x. same_db d (snd x))"
    unfolding Mysql_OnRequest_def heap_get_def assms(1) option.case bind_res_Inr Let_def
    by (intro safe_bindI safe_get safe_if) (rule h | (simp add: same_db_refl; fail) | (drule ty, simp; fail))+
  then show ?thesis
    unfolding Mysql_handler_def by (intro safe_bindI) (erule safe_mono, auto)
qed

end
