(* ===== verification/DbThreads.thy ===== *)
theory DbThreads
  imports DbClient
begin

text \<open>
  The loops of \<^verbatim>\<open>db_proxy/db_client.cpp\<close> step by step, as the threads run them: between two steps
  another thread may run. A step is one access to what the threads share: a release, which is
  one atomic decrement, a pop, which the mutex guards, or the handling of one buffer. The worker
  thread runs \<^verbatim>\<open>ThreadFunction\<close> and \<^verbatim>\<open>DBThreadActivate\<close>, the game thread \<^verbatim>\<open>Activate\<close>. The run flag is
  cleared by \<^verbatim>\<open>UnInit\<close> only, which joins the thread; a worker without the flag rests at \<open>WEnd\<close>.
\<close>

section \<open>Steps\<close>

text \<open>Where the thread is, with its variable \<open>pPackage\<close>.\<close>

datatype worker_pc = WLoop "buffer_ref option" | WPop | WHandle buffer_ref | WEnd

definition worker_step ::
  "(buffer_ref \<Rightarrow> 's db_client_scheme \<Rightarrow> 's db_client_scheme res) \<Rightarrow> ('s db_client_scheme \<Rightarrow> 's db_client_scheme)
     \<Rightarrow> worker_pc \<Rightarrow> 's db_client_scheme \<Rightarrow> (worker_pc \<times> 's db_client_scheme) res" where
  "worker_step OnRequest Ping pc c =
     (case pc of
        WLoop pPackage \<Rightarrow>
          bind_res (SAFE_RELEASE pPackage c) (\<lambda>c'. Inr (if IsOpen c then WPop else WEnd, c'))
      | WPop \<Rightarrow>
          (case PopRequest c of
             (None, c) \<Rightarrow> Inr (WEnd, c)
           | (Some p, c) \<Rightarrow> Inr (WHandle p, c))
      | WHandle p \<Rightarrow> bind_res (OnRequest p c) (\<lambda>c. Inr (WLoop (Some p), c))
      | WEnd \<Rightarrow>
          if m_bRunFlag c then
            let c = (if m_uPingTime c > KD_PING_INTERVAL then (Ping c)\<lparr>m_uPingTime := 0\<rparr> else c) in
            Inr (WLoop None, c\<lparr>m_uPingTime := m_uPingTime c + ucast (m_uSleepTime c)\<rparr>)
          else Inr (WEnd, c))"

datatype drain_pc = DLoop "buffer_ref option" | DPop | DHandle buffer_ref | DEnd

definition drain_step ::
  "(buffer_ref \<Rightarrow> 's db_client_scheme \<Rightarrow> 's db_client_scheme res) \<Rightarrow> drain_pc \<Rightarrow> 's db_client_scheme
     \<Rightarrow> (drain_pc \<times> 's db_client_scheme) res" where
  "drain_step OnResponsed pc c =
     (case pc of
        DLoop pPackage \<Rightarrow> bind_res (SAFE_RELEASE pPackage c) (\<lambda>c. Inr (DPop, c))
      | DPop \<Rightarrow>
          (case PopRespond c of
             (None, c) \<Rightarrow> Inr (DEnd, c)
           | (Some p, c) \<Rightarrow> Inr (DHandle p, c))
      | DHandle p \<Rightarrow> bind_res (OnResponsed p c) (\<lambda>c. Inr (DLoop (Some p), c))
      | DEnd \<Rightarrow> Inr (DEnd, c))"

section \<open>The steps are those of the loops\<close>

text \<open>A thread that is not interrupted.\<close>

fun run_thread :: "('pc \<times> 'c \<Rightarrow> ('pc \<times> 'c) res) \<Rightarrow> nat \<Rightarrow> 'pc \<times> 'c \<Rightarrow> ('pc \<times> 'c) res" where
  "run_thread step 0 x = Inr x"
| "run_thread step (Suc n) x = bind_res (step x) (run_thread step n)"

lemma run_thread_add: "run_thread step (m + n) x = bind_res (run_thread step m x) (run_thread step n)"
  by (induction m arbitrary: x) (simp_all add: bind_res_assoc cong: bind_res_cong)

lemma worker_step_simps:
  "worker_step OnRequest Ping (WLoop pp) c = bind_res (SAFE_RELEASE pp c) (\<lambda>c'. Inr (if IsOpen c then WPop else WEnd, c'))"
  "worker_step OnRequest Ping WPop c = Inr (case_option WEnd WHandle (fst (PopRequest c)), snd (PopRequest c))"
  "worker_step OnRequest Ping (WHandle p) c = bind_res (OnRequest p c) (\<lambda>c. Inr (WLoop (Some p), c))"
  by (simp_all add: worker_step_def split: prod.split option.split)

lemma drain_step_simps:
  "drain_step OnResponsed (DLoop pp) c = bind_res (SAFE_RELEASE pp c) (\<lambda>c. Inr (DPop, c))"
  "drain_step OnResponsed DPop c = Inr (case_option DEnd DHandle (fst (PopRespond c)), snd (PopRespond c))"
  "drain_step OnResponsed (DHandle p) c = bind_res (OnResponsed p c) (\<lambda>c. Inr (DLoop (Some p), c))"
  "drain_step OnResponsed DEnd c = Inr (DEnd, c)"
  by (simp_all add: drain_step_def split: prod.split option.split)

lemma worker_loop_runs:
  "worker_loop OnRequest fuel pp c = Inr c' \<Longrightarrow>
     \<exists>n. run_thread (\<lambda>(pc, c). worker_step OnRequest Ping pc c) n (WLoop pp, c) = Inr (WEnd, c')"
proof (induction fuel arbitrary: pp c)
  case (Suc fuel)
  let ?step = "\<lambda>(pc, c). worker_step OnRequest Ping pc c"
  show ?case
  proof (cases "IsOpen c")
    case False
    then have "run_thread ?step 1 (WLoop pp, c) = Inr (WEnd, c')"
      using Suc.prems by (simp add: worker_step_simps)
    then show ?thesis by blast
  next
    case True
    then obtain c1 where c1: "SAFE_RELEASE pp c = Inr c1"
      using Suc.prems by (auto simp: bind_res_eq_Inr)
    have first: "run_thread ?step 1 (WLoop pp, c) = Inr (WPop, c1)"
      using True c1 by (simp add: worker_step_simps)
    show ?thesis
    proof (cases "PopRequest c1")
      case (Pair q c2)
      show ?thesis
      proof (cases q)
        case None
        then have "run_thread ?step 2 (WLoop pp, c) = Inr (WEnd, c')"
          using Suc.prems True c1 first Pair by (simp add: worker_step_simps numeral_2_eq_2)
        then show ?thesis by blast
      next
        case (Some p)
        then obtain c3 where c3: "OnRequest p c2 = Inr c3" "worker_loop OnRequest fuel (Some p) c3 = Inr c'"
          using Suc.prems True c1 Pair by (auto simp: bind_res_eq_Inr)
        then obtain n where "run_thread ?step n (WLoop (Some p), c3) = Inr (WEnd, c')"
          using Suc.IH by blast
        then have "run_thread ?step (3 + n) (WLoop pp, c) = Inr (WEnd, c')"
          unfolding run_thread_add
          using True c1 c3 Pair Some by (simp add: worker_step_simps numeral_3_eq_3)
        then show ?thesis by blast
      qed
    qed
  qed
qed simp

lemma activate_loop_runs:
  "activate_loop OnResponsed fuel pp c = Inr c' \<Longrightarrow>
     \<exists>n. run_thread (\<lambda>(pc, c). drain_step OnResponsed pc c) n (DLoop pp, c) = Inr (DEnd, c')"
proof (induction fuel arbitrary: pp c)
  case (Suc fuel)
  let ?step = "\<lambda>(pc, c). drain_step OnResponsed pc c"
  obtain c1 where c1: "SAFE_RELEASE pp c = Inr c1"
    using Suc.prems by (auto simp: bind_res_eq_Inr)
  obtain q c2 where pop: "PopRespond c1 = (q, c2)" by fastforce
  show ?case
  proof (cases q)
    case None
    then have "run_thread ?step 2 (DLoop pp, c) = Inr (DEnd, c')"
      using Suc.prems c1 pop by (simp add: drain_step_simps numeral_2_eq_2)
    then show ?thesis by blast
  next
    case (Some p)
    then obtain c3 where c3: "OnResponsed p c2 = Inr c3" "activate_loop OnResponsed fuel (Some p) c3 = Inr c'"
      using Suc.prems c1 pop by (auto simp: bind_res_eq_Inr)
    then obtain n where "run_thread ?step n (DLoop (Some p), c3) = Inr (DEnd, c')"
      using Suc.IH by blast
    then have "run_thread ?step (3 + n) (DLoop pp, c) = Inr (DEnd, c')"
      unfolding run_thread_add
      using c1 c3 pop Some by (simp add: drain_step_simps numeral_3_eq_3)
    then show ?thesis by blast
  qed
qed simp

end
