(* ===== verification/LogicProcess.thy ===== *)
theory LogicProcess
  imports Ownership DbThreads
begin

text \<open>
  The logic process as a whole: the game thread, which runs the event loop and the scripts, the
  worker of the redis client and the worker of the mysql client, in every interleaving of their
  steps. \<^verbatim>\<open>KDBClientMgr\<close> (\<^verbatim>\<open>db_proxy/db_client_manager.cpp\<close>) ties them together. The theorems are
  about the buffers the threads pass around: none is used after it was freed, and a response of
  redis reaches the script.
\<close>

section \<open>The scripts, called with a response\<close>

text \<open>\<^verbatim>\<open>RedisCallLua\<close> and its overload, for the call that \<^verbatim>\<open>OnResponsed\<close> makes.\<close>

definition logic_script_call :: "'l logic_env \<Rightarrow> lua_call \<Rightarrow> 'l logic_server \<Rightarrow> 'l logic_server res" where
  "logic_script_call env call s =
     (case call of
        OnRedisRespone q u ev szData \<Rightarrow>
          with_engine (RedisCallLua (logic_lua env) (logic_script env) (logic_api env) q u ev szData) s
      | OnRedisMulDataRespone q u ev values \<Rightarrow>
          with_engine (RedisCallLua_table (logic_lua env) (logic_script env) (logic_api env) q u ev values) s)"

text \<open>The redis client together with the server that its responses go to.\<close>

record 'l game_client = redis_client +
  its_game :: "'l logic_server"

definition game_view :: "'l logic_server \<Rightarrow> 'l game_client" where
  "game_view s = redis_client.extend (logic_db s) \<lparr>its_game = s\<rparr>"

definition game_back :: "'l game_client \<Rightarrow> 'l logic_server" where
  "game_back c = (its_game c)\<lparr>logic_db := redis_client.truncate c\<rparr>"

definition run_script :: "'l logic_env \<Rightarrow> lua_call \<Rightarrow> 'l game_client \<Rightarrow> 'l game_client res" where
  "run_script env call c = bind_res (logic_script_call env call (game_back c)) (\<lambda>s. Inr (game_view s))"

lemma game_back_view [simp]: "game_back (game_view s) = s"
  by (simp add: game_back_def game_view_def redis_client.defs)

text \<open>The members of the game server that hand the data over do the same.\<close>

lemma run_script_common:
  "bind_res (OnDBResponse_common b) (\<lambda>call. logic_script_call env call s) = GameLogicServer_OnDBResponse env b s"
  by (auto simp: GameLogicServer_OnDBResponse_def OnDBResponse_common_def logic_script_call_def Let_def bind_res_def
      split: sum.split)

lemma run_script_multi:
  "bind_res (OnDBResponse_multi b) (\<lambda>call. logic_script_call env call s) = GameLogicServer_OnDBResponse_multi env b s"
  by (auto simp: GameLogicServer_OnDBResponse_multi_def OnDBResponse_multi_def logic_script_call_def Let_def bind_res_def
      split: sum.split)

section \<open>The manager\<close>

definition Redis_IsEnabled :: "'s redis_client_scheme \<Rightarrow> bool" where
  "Redis_IsEnabled c \<longleftrightarrow> length (m_vecRedisContext c) > 0"

definition Mysql_IsEnabled :: "'s mysql_client_scheme \<Rightarrow> bool" where
  "Mysql_IsEnabled c \<longleftrightarrow> length (m_vecMysql c) > 0"

text \<open>
  The mysql client works on the same heap. Its request queue is the one that the redis client
  pushes copies to.
\<close>

definition mysql_view :: "redis_client \<Rightarrow> mysql_client \<Rightarrow> mysql_client" where
  "mysql_view db m = m\<lparr>kg_heap := kg_heap db, m_RequestQueue := m_vecMysqlClients db ! 0\<rparr>"

definition mysql_back :: "mysql_client \<Rightarrow> redis_client \<Rightarrow> redis_client" where
  "mysql_back m db = db\<lparr>kg_heap := kg_heap m, m_vecMysqlClients := (m_vecMysqlClients db)[0 := m_RequestQueue m]\<rparr>"

datatype game_pc = GIdle | GRedis drain_pc | GMysql drain_pc

text \<open>
  \<open>game_pc\<close> is where the game thread is in \<^verbatim>\<open>Activate\<close>. Everything else the game thread does
  happens between two calls of it.
\<close>

record 'l logic_process =
  game :: "'l logic_server"
  mysql :: mysql_client
  redis_pc :: worker_pc
  mysql_pc :: worker_pc
  game_pc :: game_pc

definition on_mysql ::
  "(mysql_client \<Rightarrow> ('pc \<times> mysql_client) res) \<Rightarrow> 'l logic_process \<Rightarrow> ('pc \<times> 'l logic_process) res" where
  "on_mysql f p =
     bind_res (f (mysql_view (logic_db (game p)) (mysql p))) (\<lambda>(pc, m).
     Inr (pc, p\<lparr>game := (game p)\<lparr>logic_db := mysql_back m (logic_db (game p))\<rparr>, mysql := m\<rparr>))"

definition on_redis ::
  "('l game_client \<Rightarrow> ('pc \<times> 'l game_client) res) \<Rightarrow> 'l logic_process \<Rightarrow> ('pc \<times> 'l logic_process) res" where
  "on_redis f p = bind_res (f (game_view (game p))) (\<lambda>(pc, c). Inr (pc, p\<lparr>game := game_back c\<rparr>))"

text \<open>\<^verbatim>\<open>KDBClientMgr::Activate\<close> in one go.\<close>

definition KDBClientMgr_Activate :: "'l logic_env \<Rightarrow> nat \<Rightarrow> 'l logic_process \<Rightarrow> 'l logic_process res" where
  "KDBClientMgr_Activate env fuel p =
     bind_res
       (if Redis_IsEnabled (logic_db (game p))
        then on_redis (\<lambda>c. bind_res (Activate (Redis_OnResponsed (run_script env)) fuel c) (\<lambda>c. Inr ((), c))) p
        else Inr ((), p)) (\<lambda>(_, p).
     bind_res
       (if Mysql_IsEnabled (mysql p)
        then on_mysql (\<lambda>m. bind_res (Activate Mysql_OnResponsed fuel m) (\<lambda>m. Inr ((), m))) p
        else Inr ((), p)) (\<lambda>(_, p). Inr p))"

section \<open>Steps of the process\<close>

definition redis_step :: "'l logic_env \<Rightarrow> 'l logic_process \<Rightarrow> 'l logic_process res" where
  "redis_step env p =
     bind_res (worker_step (Redis_OnRequest (logic_redis env)) (\<lambda>c. c) (redis_pc p) (logic_db (game p))) (\<lambda>(pc, db).
     Inr (p\<lparr>game := (game p)\<lparr>logic_db := db\<rparr>, redis_pc := pc\<rparr>))"

definition mysql_step :: "mysql_env \<Rightarrow> 'l logic_process \<Rightarrow> 'l logic_process res" where
  "mysql_step menv p =
     bind_res (on_mysql (worker_step (Mysql_handler menv) Mysql_Ping (mysql_pc p)) p) (\<lambda>(pc, p).
     Inr (p\<lparr>mysql_pc := pc\<rparr>))"

text \<open>The steps of \<^verbatim>\<open>Activate\<close>: first the redis client, then the mysql client.\<close>

definition after_redis :: "'l logic_process \<Rightarrow> game_pc" where
  "after_redis p = (if Mysql_IsEnabled (mysql p) then GMysql (DLoop None) else GIdle)"

definition game_step :: "'l logic_env \<Rightarrow> 'l logic_process \<Rightarrow> 'l logic_process res" where
  "game_step env p =
     (case game_pc p of
        GIdle \<Rightarrow>
          Inr (p\<lparr>game_pc := if Redis_IsEnabled (logic_db (game p)) then GRedis (DLoop None) else after_redis p\<rparr>)
      | GRedis DEnd \<Rightarrow> Inr (p\<lparr>game_pc := after_redis p\<rparr>)
      | GRedis pc \<Rightarrow>
          bind_res (on_redis (drain_step (Redis_OnResponsed (run_script env)) pc) p) (\<lambda>(pc, p).
          Inr (p\<lparr>game_pc := GRedis pc\<rparr>))
      | GMysql DEnd \<Rightarrow> Inr (p\<lparr>game_pc := GIdle\<rparr>)
      | GMysql pc \<Rightarrow>
          bind_res (on_mysql (drain_step Mysql_OnResponsed pc) p) (\<lambda>(pc, p).
          Inr (p\<lparr>game_pc := GMysql pc\<rparr>)))"

text \<open>The callbacks of the event loop, apart from the timer of \<^verbatim>\<open>Activate\<close>.\<close>

datatype logic_event =
    FromGateway "nat \<Rightarrow> junk" uv_stream int bytes
  | FromCenter "nat \<Rightarrow> junk" int bytes
  | GatewayConnects uv_stream u32 int int
  | ConnectionCloses uv_stream
  | CenterConnects junk junk "nat \<Rightarrow> bytes" uv_stream int
  | LuaTimer

definition logic_callback :: "'l logic_env \<Rightarrow> logic_event \<Rightarrow> 'l logic_server \<Rightarrow> 'l logic_server res" where
  "logic_callback env ev s =
     (case ev of
        FromGateway mem client nread base \<Rightarrow> GameLogicServer_OnMsgRecv mem env client nread base s
      | FromCenter mem nread base \<Rightarrow> CenterClient_OnMsgRecv mem env nread base s
      | GatewayConnects key junk_id status accept \<Rightarrow> GameLogicServer_OnNewConnection key junk_id status accept s
      | ConnectionCloses handle \<Rightarrow> Inr (GameLogicServer_OnConnectionClose handle s)
      | CenterConnects mem mem' peek handle nStatus \<Rightarrow> CenterClient_OnConnect mem mem' peek handle nStatus s
      | LuaTimer \<Rightarrow> UpdateLuaTimer env s)"

text \<open>
  Which thread goes on, and at which event the game thread does. An event waits until the
  game thread is back in the event loop.
\<close>

datatype proc_action = RedisThread | MysqlThread | GameThread | Callback logic_event

definition proc_step :: "'l logic_env \<Rightarrow> mysql_env \<Rightarrow> proc_action \<Rightarrow> 'l logic_process \<Rightarrow> 'l logic_process res" where
  "proc_step env menv a p =
     (case a of
        RedisThread \<Rightarrow> redis_step env p
      | MysqlThread \<Rightarrow> mysql_step menv p
      | GameThread \<Rightarrow> game_step env p
      | Callback ev \<Rightarrow>
          if game_pc p = GIdle then bind_res (logic_callback env ev (game p)) (\<lambda>s. Inr (p\<lparr>game := s\<rparr>))
          else Inr p)"

fun run_actions :: "'l logic_env \<Rightarrow> mysql_env \<Rightarrow> proc_action list \<Rightarrow> 'l logic_process \<Rightarrow> 'l logic_process res" where
  "run_actions env menv [] p = Inr p"
| "run_actions env menv (a # as) p = bind_res (proc_step env menv a p) (run_actions env menv as)"

section \<open>The callbacks keep the ownership\<close>

lemma safe_InitPackage: "(\<And>x. Q x) \<Longrightarrow> safe (InitPackage mem n pk) Q"
  unfolding InitPackage_def by (intro safe_intros)

lemma safe_write_length: "safe (write_length mem i pk data cur n) (\<lambda>_. True)"
proof (induction "KD_PACKAGE_LEN_SIZE - i" arbitrary: i pk data cur)
  case (Suc d)
  then have "d = KD_PACKAGE_LEN_SIZE - Suc i" by simp
  note ih = Suc.hyps(1) [OF this]
  show ?case
    unfolding write_length.simps [of mem i] Let_def
    by (intro safe_intros safe_InitPackage ih) simp_all
qed (simp add: write_length.simps)

lemma safe_KNetPackage_Write: "(\<And>x. Q x) \<Longrightarrow> safe (KNetPackage_Write mem pk data n) Q"
  by (auto simp: KNetPackage_Write_def write_body_def WriteData_def Let_def split: prod.split
    intro!: safe_intros safe_mono [OF safe_write_length])

lemma safe_recv_loop:
  assumes body: "\<And>b n s. I s \<Longrightarrow> safe (body b n s) I"
  shows "I s \<Longrightarrow> safe (recv_loop mem body fuel s pk data) (\<lambda>x. I (fst (snd x)))"
proof (induction fuel arbitrary: s pk data)
  case (Suc fuel)
  have go: "safe (body b n s) (\<lambda>s. (c \<longrightarrow> safe (recv_loop mem body fuel s pk data) (\<lambda>x. I (fst (snd x)))) \<and> (d \<longrightarrow> I s))"
    for b n pk data c d
    using body [OF Suc.prems] by (rule safe_mono) (simp add: Suc.IH)
  show ?case
    using Suc go
    by (auto simp: Let_def split: prod.split option.split bool.split
      intro!: safe_intros safe_KNetPackage_Write)
qed simp

lemma safe_run_calls:
  assumes "\<And>c s. I s \<Longrightarrow> safe (api c s) I"
  shows "I s \<Longrightarrow> safe (run_calls api cs s) I"
  by (induction cs arbitrary: s) (auto intro!: safe_intros safe_mono [OF assms])

lemma safe_script_call:
  assumes "\<And>c s. I s \<Longrightarrow> safe (api c s) I" and "I (snd es)"
  shows "safe (script_call lua script api f args es) (\<lambda>(e, s). I s)"
  using assms(2)
  by (auto simp: script_call_def split: prod.split sum.split
    intro!: safe_intros safe_mono [OF safe_run_calls [where I = I, OF assms(1)]])

definition server_owned :: "buffer_ref list \<Rightarrow> buffer_ref list \<Rightarrow> 'l logic_server \<Rightarrow> bool" where
  "server_owned held mh s \<longleftrightarrow> owned [] held mh (logic_db s)"

lemma server_owned_same: "logic_db s' = logic_db s \<Longrightarrow> server_owned held mh s \<Longrightarrow> server_owned held mh s'"
  by (simp add: server_owned_def)

lemma server_uv_do [simp]: "server_owned held mh (uv_do k s) = server_owned held mh s"
  by (simp add: server_owned_def uv_do_def)

lemma safe_store [safe_intros]: "(\<And>x. Q x) \<Longrightarrow> safe (store enc m off v) Q"
  by (simp add: store_def mem_write_def)

lemma safe_CreateNetPackage [safe_intros]: "(\<And>x. Q x) \<Longrightarrow> safe (CreateNetPackage mem a b c d e f) Q"
  unfolding CreateNetPackage_def CreateNetBuffer_def Let_def
  by (auto intro!: safe_intros split: prod.split)

lemma safe_logic_api:
  assumes "good_env (logic_redis env)" and "server_owned held mh s"
  shows "safe (logic_api env call s) (server_owned held mh)"
proof -
  have db: "safe (on_db f s) (server_owned held mh)" if "safe (f (logic_db s)) (owned [] held mh)" for f
    unfolding on_db_def by (intro safe_intros safe_mono [OF that]) (simp add: server_owned_def)
  note scripts = safe_scripts [OF assms(2) [unfolded server_owned_def] assms(1)]
  show ?thesis
  proof (cases call)
    case (CNet c)
    then show ?thesis
      using assms(2)
      by (cases c; cases "g_pCenterLogicClient s")
         (auto simp: logic_api_def LuaNet_SendToServer_def LuaNet_SendToLogicServer_def
          LuaNet_SetServerTypeToHandlerId_def Let_def SendDataToGateway_def logic_TransferToCenterServer_def
          TransferToCenterServer_def intro!: safe_intros)
  qed (simp_all add: logic_api_def db scripts)
qed

lemma safe_with_script:
  assumes "good_env (logic_redis env)" and "server_owned held mh s"
  shows "safe (with_engine (script_call lua script (logic_api env) f args) s) (server_owned held mh)"
  unfolding with_engine_def
  by (intro safe_intros safe_mono [OF safe_script_call [where I = "server_owned held mh", OF safe_logic_api [OF assms(1)]]])
    (use assms in \<open>auto simp: server_owned_def\<close>)

lemma with_engine_redis_calls:
  "with_engine (UpdateTimer lua script api elapse) = with_engine (script_call lua script api ''UpdateTimer'' [LuaNumber elapse])"
  "with_engine (RedisCallLua lua script api q u ev d) = with_engine (script_call lua script api ''OnRedisRespone''
     [LuaNumber (int (unat q)), LuaNumber (int (unat u)), LuaNumber (int (unat ev)), LuaString (takeWhile (\<lambda>b. b \<noteq> 0) d)])"
  "with_engine (RedisCallLua_table lua script api q u ev vs) = with_engine (script_call lua script api
     ''OnRedisMulDataRespone'' [LuaNumber (int (unat q)), LuaNumber (int (unat u)), LuaNumber (int (unat ev)), LuaTable vs])"
  by (rule ext, simp add: with_engine_def UpdateTimer_eq RedisCallLua_eq RedisCallLua_table_eq)+

lemma safe_logic_packet:
  assumes "good_env (logic_redis env)" and "server_owned held mh s"
  shows "safe (logic_packet env from b n s) (server_owned held mh)"
  unfolding logic_packet_def GetEventType_def GetHandlerId_def GetSequenceId_def GetNetPackageBody_def
  using safe_with_script [OF assms] assms(2)
  by (auto simp: with_engine_calls split: option.split intro!: safe_intros)

lemma safe_ProcessNetData:
  assumes "good_env (logic_redis env)" and "server_owned held mh s"
  shows "safe (GameLogicServer_ProcessNetData mem env pData from s) (\<lambda>x. server_owned held mh (snd x))"
proof -
  have "safe (process_net_data mem (logic_packet env from) (length pData) s (m_pServerPacket s) pData)
      (\<lambda>x. server_owned held mh (fst (snd x)))"
    unfolding process_net_data_def
    by (intro safe_intros safe_recv_loop safe_logic_packet assms) (simp add: assms)
  then show ?thesis
    unfolding GameLogicServer_ProcessNetData_def safe_bind
    by (rule safe_mono) (auto simp: server_owned_def)
qed

lemma safe_callback:
  assumes "good_env (logic_redis env)" and "server_owned held mh s"
  shows "safe (logic_callback env ev s) (server_owned held mh)"
proof (cases ev)
  case (FromGateway mem client nread base)
  have "safe (GameLogicServer_ProcessNetData mem env d from s) (\<lambda>x. safe (case x of (r, s) \<Rightarrow> Inr s) (server_owned held mh))" for d "from"
    by (rule safe_mono [OF safe_ProcessNetData [OF assms]]) (auto split: prod.split)
  then show ?thesis
    using assms(2)
    by (auto simp: FromGateway logic_callback_def GameLogicServer_OnMsgRecv_def GameLogicServer_RemoveClient_def
        split: option.split intro!: safe_intros)
next
  case (FromCenter mem nread base)
  have "safe (GameLogicServer_ProcessNetData mem env d from s) (\<lambda>x. safe (case x of (r, s) \<Rightarrow> Inr s) (server_owned held mh))" for d "from"
    by (rule safe_mono [OF safe_ProcessNetData [OF assms]]) (auto split: prod.split)
  then show ?thesis
    using assms(2)
    by (auto simp: FromCenter logic_callback_def CenterClient_OnMsgRecv_def intro!: safe_intros)
next
  case (GatewayConnects key junk_id status accept)
  then show ?thesis
    using assms(2) by (auto simp: logic_callback_def GameLogicServer_OnNewConnection_def AddSession_def Let_def
        server_owned_def uv_do_def)
next
  case (ConnectionCloses handle)
  then show ?thesis
    using assms(2) by (simp add: logic_callback_def GameLogicServer_OnConnectionClose_def server_owned_def)
next
  case (CenterConnects mem mem' peek handle nStatus)
  then show ?thesis
    using assms(2)
    by (auto simp: logic_callback_def CenterClient_OnConnect_def Let_def RegisterToCenter_def SendNetPacket_def
        TransferToCenterServer_def CreateNetBuffer_def intro!: safe_intros split: prod.split)
next
  case LuaTimer
  then show ?thesis
    using safe_with_script [OF assms] by (simp add: logic_callback_def UpdateLuaTimer_def with_engine_redis_calls)
qed

lemma safe_logic_script_call:
  assumes "good_env (logic_redis env)" and "server_owned held mh s"
  shows "safe (logic_script_call env call s) (server_owned held mh)"
  using safe_with_script [OF assms] by (cases call) (simp_all add: logic_script_call_def with_engine_redis_calls)

section \<open>The threads keep the ownership\<close>

lemma owned_view [simp]: "owned new held mh (game_view s) = owned new held mh (logic_db s)"
  by (simp add: game_view_def redis_client.defs owned_def all_queues_def live_def fresh_ref_def)

lemma owned_back: "owned new held mh c \<Longrightarrow> owned new held mh (logic_db (game_back c))"
  by (simp add: game_back_def redis_client.defs owned_def all_queues_def live_def fresh_ref_def)

lemma safe_lua_table: "safe (lua_table pn pt n b) (\<lambda>_. True)"
  by (induction n arbitrary: pn pt) (auto intro!: safe_intros)

lemma safe_Redis_OnResponsed:
  fixes c :: "'l game_client"
  assumes env: "good_env (logic_redis env)" and own: "owned [] held mh c" and p: "p \<in> set held"
  shows "safe (Redis_OnResponsed (run_script env) p c) (owned [] held mh)"
proof -
  have run: "safe (run_script env call c) (owned [] held mh)" for call
    unfolding run_script_def safe_bind
    by (rule safe_mono [OF safe_logic_script_call [OF env, of held mh]])
      (use owned_back [OF own] in \<open>simp_all add: server_owned_def\<close>)
  show ?thesis
    unfolding Redis_OnResponsed_def OnDBResponse_common_def OnDBResponse_multi_def Let_def
    using p own run
    by (auto intro!: safe_intros safe_heap_get [where new = "[]" and held = held, OF _ own] safe_mono [OF safe_lua_table])
qed

text \<open>The buffer a thread holds between two steps.\<close>

fun held_worker :: "worker_pc \<Rightarrow> buffer_ref list" where
  "held_worker (WLoop (Some p)) = [p]"
| "held_worker (WHandle p) = [p]"
| "held_worker _ = []"

fun held_drain :: "drain_pc \<Rightarrow> buffer_ref list" where
  "held_drain (DLoop (Some p)) = [p]"
| "held_drain (DHandle p) = [p]"
| "held_drain _ = []"

fun held_game :: "game_pc \<Rightarrow> buffer_ref list" where
  "held_game (GRedis pc) = held_drain pc"
| "held_game (GMysql pc) = held_drain pc"
| "held_game GIdle = []"

lemma owned_front: "p \<in> set held \<Longrightarrow> owned [] held mh c \<Longrightarrow> owned [] (p # remove1 p held) mh c"
  by (auto simp: owned_def distinct_remove1)

lemma owned_swap: "owned [] (as @ bs) mh c \<Longrightarrow> owned [] (bs @ as) mh c"
  by (auto simp: owned_def)

lemma safe_release_option:
  assumes "owned [] (case_option [] (\<lambda>p. [p]) pp @ held) mh c" and "\<And>c'. owned [] held mh c' \<Longrightarrow> Q c'"
  shows "safe (SAFE_RELEASE pp c) Q"
  using assms by (cases pp) (simp_all add: safe_release_held, simp add: SAFE_RELEASE_def)

lemma held_worker_loop: "held_worker (WLoop pp) = case_option [] (\<lambda>p. [p]) pp"
  by (cases pp) simp_all

lemma held_drain_loop: "held_drain (DLoop pp) = case_option [] (\<lambda>p. [p]) pp"
  by (cases pp) simp_all

lemma owned_ping [simp]: "owned new held mh (c\<lparr>m_uPingTime := t\<rparr>) = owned new held mh c"
  by (simp add: owned_def all_queues_def live_def fresh_ref_def)

lemma safe_redis_worker:
  fixes c :: redis_client
  assumes own: "owned [] (held_worker pc @ held) mh c" and env: "good_env env"
  shows "safe (worker_step (Redis_OnRequest env) (\<lambda>c. c) pc c) (\<lambda>(pc, c). owned [] (held_worker pc @ held) mh c)"
proof (cases pc)
  case (WLoop pp)
  then show ?thesis
    using own by (auto simp: worker_step_simps held_worker_loop intro!: safe_intros safe_release_option)
next
  case WPop
  then show ?thesis
    using own owned_PopRequest [of held mh c]
    by (cases "PopRequest c") (auto simp: worker_step_simps PopRequest_def split: option.split list.splits)
next
  case (WHandle p)
  then show ?thesis
    using safe_OnRequest [OF own env] by (auto simp: worker_step_simps intro!: safe_intros elim: safe_mono)
next
  case WEnd
  then show ?thesis using own by (simp add: worker_step_def Let_def)
qed

lemma safe_game_drain:
  fixes c :: "'l game_client"
  assumes own: "owned [] (held @ held_drain pc) mh c" and env: "good_env (logic_redis env)"
  shows "safe (drain_step (Redis_OnResponsed (run_script env)) pc c) (\<lambda>(pc, c). owned [] (held @ held_drain pc) mh c)"
proof (cases pc)
  case (DLoop pp)
  then show ?thesis
    using owned_swap [OF own] by (auto simp: drain_step_simps held_drain_loop intro!: safe_intros safe_release_option)
next
  case DPop
  then show ?thesis
    using own owned_PopRespond [of held mh c] owned_swap [of "[_]" held mh]
    by (cases "PopRespond c") (auto simp: drain_step_simps PopRespond_def split: option.split list.splits)
next
  case (DHandle p)
  then show ?thesis
    using safe_Redis_OnResponsed [OF env own, of p] by (auto simp: drain_step_simps intro!: safe_intros elim: safe_mono)
qed (use own in \<open>simp add: drain_step_simps\<close>)

section \<open>The mysql worker in the process\<close>

lemma owned_one_queue: "owned new held mh c \<Longrightarrow> \<exists>q. m_vecMysqlClients c = [q]"
  by (auto simp: owned_def length_Suc_conv)

lemma mysql_back_same:
  assumes "same_db (mysql_view db m) m'" and "m_vecMysqlClients db = [q]"
  shows "mysql_back m' db = db"
  using assms by (cases db) (simp add: mysql_back_def mysql_view_def same_db_def)

lemma owned_release_mysql: "owned new held (p # mh) c \<Longrightarrow> owned new held mh (heap_set p b c)"
  by (cases b) (auto simp: owned_def heap_set_def all_queues_def live_def fresh_ref_def)

lemma Ping_same: "same_db a m \<Longrightarrow> same_db a (Mysql_Ping m)"
proof -
  have "same_db a m \<Longrightarrow> same_db a (fold (\<lambda>p. if p \<noteq> 0 then log_mysql (Ping p) else id) ps m)" for ps m
    by (induction ps arbitrary: m) (auto simp: same_db_log)
  then show "same_db a m \<Longrightarrow> same_db a (Mysql_Ping m)" by (simp add: Mysql_Ping_def)
qed

lemma safe_mysql_worker:
  assumes own: "owned [] held (held_worker pc) db" and empty: "m_RespondQueue m = []"
  shows "safe (worker_step (Mysql_handler menv) Mysql_Ping pc (mysql_view db m))
    (\<lambda>(pc, m'). owned [] held (held_worker pc) (mysql_back m' db) \<and> m_RespondQueue m' = [])"
proof -
  obtain q where q: "m_vecMysqlClients db = [q]" using owned_one_queue [OF own] by blast
  have resp: "m_RespondQueue (mysql_view db m) = []" using empty by (simp add: mysql_view_def)
  show ?thesis
  proof (cases pc)
    case (WLoop pp)
    show ?thesis
    proof (cases pp)
      case None
      then show ?thesis
        using own resp mysql_back_same [OF same_db_refl q]
        by (auto simp: WLoop worker_step_simps SAFE_RELEASE_def)
    next
      case (Some p)
      obtain b where b: "kg_heap db p = Some b" using own by (auto simp: WLoop Some owned_def live_def)
      have ret: "mysql_back (heap_set p x (mysql_view db m)) db = heap_set p x db" for x
        using q by (cases db) (simp add: mysql_back_def mysql_view_def heap_set_def)
      have "owned [] held [] (heap_set p x db)" for x
        using own owned_release_mysql [of "[]" held p "[]" db x] by (simp add: WLoop Some)
      then show ?thesis
        using b resp ret
        by (auto simp: WLoop Some worker_step_simps SAFE_RELEASE_Some) (simp_all add: mysql_view_def heap_set_def)
    qed
  next
    case WPop
    have own': "owned [] held [] db" using own by (simp add: WPop)
    show ?thesis
    proof (cases q)
      case Nil
      then show ?thesis
        using own' resp q mysql_back_same [OF same_db_refl q]
        by (simp add: WPop worker_step_simps PopRequest_def mysql_view_def)
    next
      case (Cons p r)
      have "owned [] held [p] (db\<lparr>m_vecMysqlClients := [r]\<rparr>)"
        using own' q unfolding owned_def all_queues_def by (auto simp: Cons live_def)
      moreover have "mysql_back (mysql_view db m\<lparr>m_RequestQueue := r\<rparr>) db = db\<lparr>m_vecMysqlClients := [r]\<rparr>"
        using q by (cases db) (simp add: mysql_back_def mysql_view_def)
      ultimately show ?thesis
        using resp q by (simp add: WPop worker_step_simps PopRequest_def Cons mysql_view_def)
    qed
  next
    case (WHandle p)
    obtain b where b: "kg_heap (mysql_view db m) p = Some b" "is_change b"
      using own by (auto simp: WHandle owned_def live_def mysql_view_def)
    have "safe (Mysql_handler menv p (mysql_view db m)) (\<lambda>m'. owned [] held [p] (mysql_back m' db) \<and> m_RespondQueue m' = [])"
      using safe_Mysql_handler [OF b, of menv]
    proof (rule safe_mono)
      fix m' assume "same_db (mysql_view db m) m'"
      with mysql_back_same [OF this q] show "owned [] held [p] (mysql_back m' db) \<and> m_RespondQueue m' = []"
        using own resp by (simp add: WHandle same_db_def)
    qed
    then show ?thesis
      by (simp add: WHandle worker_step_simps safe_bind)
  next
    case WEnd
    have ping: "same_db (mysql_view db m) (m'\<lparr>m_uPingTime := t\<rparr>)" if "same_db (mysql_view db m) m'" for m' t
      using that by (simp add: same_db_def)
    have fin: "owned [] held [] (mysql_back m' db) \<and> m_RespondQueue m' = []" if "same_db (mysql_view db m) m'" for m'
      using mysql_back_same [OF that q] own resp that by (simp add: WEnd same_db_def)
    show ?thesis
      unfolding WEnd worker_step_def
      using resp Ping_same [OF same_db_refl, of "mysql_view db m"]
      by (auto simp: Let_def same_db_def [of _ "Mysql_Ping _"] intro!: fin [THEN conjunct1] ping Ping_same same_db_refl)
  qed
qed

section \<open>Every interleaving\<close>

text \<open>
  The invariant of the process. The mysql client has no responses, so \<^verbatim>\<open>Activate\<close> never handles
  one: its \<^verbatim>\<open>OnResponsed\<close> deletes the buffer that \<^verbatim>\<open>Activate\<close> then releases.
\<close>

definition mysql_drain_idle :: "game_pc \<Rightarrow> bool" where
  "mysql_drain_idle pc \<longleftrightarrow> (case pc of GMysql d \<Rightarrow> held_drain d = [] | _ \<Rightarrow> True)"

definition proc_ok :: "'l logic_process \<Rightarrow> bool" where
  "proc_ok p \<longleftrightarrow> server_owned (held_worker (redis_pc p) @ held_game (game_pc p)) (held_worker (mysql_pc p)) (game p)
     \<and> m_RespondQueue (mysql p) = [] \<and> mysql_drain_idle (game_pc p)"

lemma safe_redis_step:
  assumes "good_env (logic_redis env)" and "proc_ok p"
  shows "safe (redis_step env p) proc_ok"
  unfolding redis_step_def safe_bind
  by (rule safe_mono [OF safe_redis_worker [where held = "held_game (game_pc p)" and mh = "held_worker (mysql_pc p)"]])
    (use assms in \<open>auto simp: proc_ok_def server_owned_def split: prod.split\<close>)

lemma safe_mysql_step:
  assumes "proc_ok p"
  shows "safe (mysql_step menv p) proc_ok"
  unfolding mysql_step_def on_mysql_def safe_bind
  by (rule safe_mono [OF safe_mysql_worker [where held = "held_worker (redis_pc p) @ held_game (game_pc p)"]])
    (use assms in \<open>auto simp: proc_ok_def server_owned_def split: prod.split\<close>)

lemma safe_game_redis:
  assumes "good_env (logic_redis env)" and "proc_ok p" and "game_pc p = GRedis pc"
  shows "safe (bind_res (on_redis (drain_step (Redis_OnResponsed (run_script env)) pc) p)
    (\<lambda>(pc, p). Inr (p\<lparr>game_pc := GRedis pc\<rparr>))) proc_ok"
  unfolding on_redis_def safe_bind
  by (rule safe_mono [OF safe_game_drain [where held = "held_worker (redis_pc p)" and mh = "held_worker (mysql_pc p)"]])
    (use assms in \<open>auto simp: proc_ok_def server_owned_def mysql_drain_idle_def owned_back split: prod.split\<close>)

lemma safe_game_mysql:
  assumes "proc_ok p" and "game_pc p = GMysql pc"
  shows "safe (bind_res (on_mysql (drain_step Mysql_OnResponsed pc) p) (\<lambda>(pc, p). Inr (p\<lparr>game_pc := GMysql pc\<rparr>))) proc_ok"
proof -
  obtain q where q: "m_vecMysqlClients (logic_db (game p)) = [q]"
    using assms(1) owned_one_queue unfolding proc_ok_def server_owned_def by blast
  have pc: "pc = DLoop None \<or> pc = DPop \<or> pc = DEnd"
    using assms by (cases pc rule: held_drain.cases) (auto simp: proc_ok_def mysql_drain_idle_def)
  let ?v = "mysql_view (logic_db (game p)) (mysql p)"
  have run: "drain_step Mysql_OnResponsed pc ?v = Inr (if pc = DLoop None then DPop else DEnd, ?v)"
    using pc assms(1) by (auto simp: drain_step_simps SAFE_RELEASE_def PopRespond_def proc_ok_def mysql_view_def)
  show ?thesis
    using assms pc mysql_back_same [OF same_db_refl q]
    unfolding on_mysql_def run
    by (auto simp: proc_ok_def server_owned_def mysql_drain_idle_def) (simp_all add: mysql_view_def)
qed

lemma safe_game_step:
  assumes "good_env (logic_redis env)" and "proc_ok p"
  shows "safe (game_step env p) proc_ok"
proof (cases "game_pc p")
  case GIdle
  then show ?thesis
    using assms(2) by (auto simp: game_step_def proc_ok_def after_redis_def mysql_drain_idle_def)
next
  case (GRedis pc)
  then show ?thesis
    using assms(2) safe_game_redis [OF assms GRedis]
    by (cases pc) (auto simp: game_step_def proc_ok_def after_redis_def mysql_drain_idle_def)
next
  case (GMysql pc)
  then show ?thesis
    using assms(2) safe_game_mysql [OF assms(2) GMysql]
    by (cases pc) (auto simp: game_step_def proc_ok_def mysql_drain_idle_def)
qed

lemma safe_proc_step:
  assumes "good_env (logic_redis env)" and "proc_ok p"
  shows "safe (proc_step env menv a p) proc_ok"
proof (cases a)
  case (Callback ev)
  have "safe (logic_callback env ev (game p)) (\<lambda>s. game_pc p = GIdle \<longrightarrow> proc_ok (p\<lparr>game := s\<rparr>))"
    by (rule safe_mono [OF safe_callback [OF assms(1), of "held_worker (redis_pc p) @ held_game (game_pc p)"
      "held_worker (mysql_pc p)"]]) (use assms(2) in \<open>auto simp: proc_ok_def\<close>)
  then show ?thesis
    using assms(2) by (auto simp: Callback proc_step_def intro!: safe_intros elim: safe_mono)
qed (use assms safe_redis_step safe_mysql_step safe_game_step in \<open>simp_all add: proc_step_def\<close>)

lemma safe_run_actions:
  assumes "good_env (logic_redis env)"
  shows "proc_ok p \<Longrightarrow> safe (run_actions env menv as p) proc_ok"
  by (induction as arbitrary: p) (auto intro!: safe_intros safe_mono [OF safe_proc_step [OF assms]])

text \<open>The threads start when the clients have connected, with nothing queued.\<close>

definition start_process :: "'l logic_server \<Rightarrow> mysql_client \<Rightarrow> 'l logic_process" where
  "start_process s m = \<lparr>game = s, mysql = m, redis_pc = WLoop None, mysql_pc = WLoop None, game_pc = GIdle\<rparr>"

definition nothing_queued :: "'l logic_server \<Rightarrow> mysql_client \<Rightarrow> bool" where
  "nothing_queued s m \<longleftrightarrow> m_RequestQueue (logic_db s) = [] \<and> m_RespondQueue (logic_db s) = []
     \<and> m_vecMysqlClients (logic_db s) = [[]] \<and> m_RespondQueue m = []"

lemma proc_ok_start:
  "finite (dom (kg_heap (logic_db s))) \<Longrightarrow> nothing_queued s m \<Longrightarrow> proc_ok (start_process s m)"
  by (simp add: proc_ok_def start_process_def server_owned_def owned_def all_queues_def nothing_queued_def
      mysql_drain_idle_def)

section \<open>Uninterrupted runs\<close>

text \<open>The redis worker alone.\<close>

lemma redis_runs:
  "run_thread (\<lambda>(pc, c). worker_step (Redis_OnRequest (logic_redis env)) (\<lambda>c. c) pc c) n (redis_pc p, logic_db (game p))
     = Inr (pc, db) \<Longrightarrow>
   run_actions env menv (replicate n RedisThread) p = Inr (p\<lparr>game := (game p)\<lparr>logic_db := db\<rparr>, redis_pc := pc\<rparr>)"
proof (induction n arbitrary: p)
  case (Suc n)
  then obtain pc1 db1 where step: "worker_step (Redis_OnRequest (logic_redis env)) (\<lambda>c. c) (redis_pc p) (logic_db (game p)) = Inr (pc1, db1)"
    and rest: "run_thread (\<lambda>(pc, c). worker_step (Redis_OnRequest (logic_redis env)) (\<lambda>c. c) pc c) n (pc1, db1) = Inr (pc, db)"
    by (auto simp: bind_res_eq_Inr)
  show ?case
    using Suc.IH [of "p\<lparr>game := (game p)\<lparr>logic_db := db1\<rparr>, redis_pc := pc1\<rparr>"] rest
    by (simp add: proc_step_def redis_step_def step)
qed simp

lemma run_actions_append: "run_actions env menv (as @ bs) p = bind_res (run_actions env menv as p) (run_actions env menv bs)"
  by (induction as arbitrary: p) (simp_all add: bind_res_assoc cong: bind_res_cong)

text \<open>What \<open>its_game\<close> has for the client is never looked at.\<close>

lemma view_back: "game_view (game_back c) = c\<lparr>its_game := game_back c\<rparr>"
  by (cases c) (simp add: game_view_def game_back_def redis_client.defs)

lemma drain_view:
  fixes c :: "'l game_client"
  shows "bind_res (drain_step (Redis_OnResponsed (run_script env)) pc (game_view (game_back c))) (\<lambda>(pc, c). Inr (pc, game_back c)) =
    bind_res (drain_step (Redis_OnResponsed (run_script env)) pc c) (\<lambda>(pc, c). Inr (pc, game_back c))"
proof -
  have b: "game_back (c\<lparr>its_game := game_back c\<rparr>) = game_back c" for c :: "'l game_client"
    by (simp add: game_back_def redis_client.defs)
  have run: "run_script env call (c\<lparr>its_game := game_back c\<rparr>) = run_script env call c" for call and c :: "'l game_client"
    by (simp add: run_script_def b)
  have rel: "game_back (heap_set p x (c\<lparr>its_game := game_back c\<rparr>)) = game_back (heap_set p x c)" for p x and c :: "'l game_client"
    by (simp add: game_back_def heap_set_def redis_client.defs)
  have pop: "game_back (c\<lparr>its_game := game_back c, m_RespondQueue := q\<rparr>) = game_back (c\<lparr>m_RespondQueue := q\<rparr>)" for q and c :: "'l game_client"
    by (simp add: game_back_def redis_client.defs)
  show ?thesis
  proof (cases pc)
    case (DLoop pp)
    then show ?thesis
      by (cases pp) (auto simp: view_back drain_step_simps SAFE_RELEASE_def heap_get_def rel b split: option.split prod.split)
  next
    case DPop
    then show ?thesis
      by (auto simp: view_back drain_step_simps PopRespond_def pop b split: list.split)
  next
    case (DHandle p)
    then show ?thesis
      by (auto simp: view_back drain_step_simps Redis_OnResponsed_def heap_get_def run b bind_res_assoc bind_res_if
        split: option.split intro!: bind_res_cong)
  qed (simp add: drain_step_simps view_back b)
qed

lemma run_thread_rest: "step x = Inr x \<Longrightarrow> run_thread step n x = Inr x"
  by (induction n) simp_all

lemma game_redis_runs:
  fixes c :: "'l game_client"
  shows "run_thread (\<lambda>(pc, c). drain_step (Redis_OnResponsed (run_script env)) pc c) n (pc, c) = Inr (DEnd, c') \<Longrightarrow>
   \<exists>k. run_actions env menv (replicate k GameThread) (p\<lparr>game := game_back c, game_pc := GRedis pc\<rparr>)
     = Inr (p\<lparr>game := game_back c', game_pc := GRedis DEnd\<rparr>)"
proof (induction n arbitrary: pc c)
  case 0
  then show ?case by (intro exI [of _ 0]) simp
next
  case (Suc n)
  let ?p = "\<lambda>pc c. p\<lparr>game := game_back c, game_pc := GRedis pc\<rparr>"
  show ?case
  proof (cases "pc = DEnd")
    case True
    then show ?thesis
      using Suc.prems run_thread_rest [of "\<lambda>(pc, c). drain_step (Redis_OnResponsed (run_script env)) pc c" "(DEnd, c)" "Suc n"]
      by (intro exI [of _ 0]) (simp add: drain_step_simps)
  next
    case False
    obtain pc1 c1 where step: "drain_step (Redis_OnResponsed (run_script env)) pc c = Inr (pc1, c1)"
      and rest: "run_thread (\<lambda>(pc, c). drain_step (Redis_OnResponsed (run_script env)) pc c) n (pc1, c1) = Inr (DEnd, c')"
      using Suc.prems by (auto simp: bind_res_eq_Inr)
    obtain c2 where "drain_step (Redis_OnResponsed (run_script env)) pc (game_view (game_back c)) = Inr (pc1, c2)"
        "game_back c2 = game_back c1"
      using drain_view [of env pc c] by (auto simp: step bind_res_eq_Inr)
    then have "proc_step env menv GameThread (?p pc c) = Inr (?p pc1 c1)"
      using False by (cases pc) (simp_all add: proc_step_def game_step_def on_redis_def)
    moreover obtain k where "run_actions env menv (replicate k GameThread) (?p pc1 c1) = Inr (?p DEnd c')"
      using Suc.IH [OF rest] by blast
    ultimately have "run_actions env menv (replicate (Suc k) GameThread) (?p pc c) = Inr (?p DEnd c')" by simp
    then show ?thesis by blast
  qed
qed

definition with_mysql :: "mysql_client \<Rightarrow> 'l logic_process \<Rightarrow> 'l logic_process" where
  "with_mysql m p = p\<lparr>game := (game p)\<lparr>logic_db := mysql_back m (logic_db (game p))\<rparr>, mysql := m\<rparr>"

lemma game_mysql_runs:
  assumes "m_vecMysqlClients (logic_db (game p)) \<noteq> []"
  shows "run_thread (\<lambda>(pc, m). drain_step Mysql_OnResponsed pc m) n (pc, m) = Inr (DEnd, m') \<Longrightarrow>
   \<exists>k. run_actions env menv (replicate k GameThread) (with_mysql m p\<lparr>game_pc := GMysql pc\<rparr>)
     = Inr (with_mysql m' p\<lparr>game_pc := GMysql DEnd\<rparr>)"
proof (induction n arbitrary: pc m)
  case 0
  then show ?case by (intro exI [of _ 0]) simp
next
  case (Suc n)
  let ?p = "\<lambda>pc m. with_mysql m p\<lparr>game_pc := GMysql pc\<rparr>"
  show ?case
  proof (cases "pc = DEnd")
    case True
    then show ?thesis
      using Suc.prems run_thread_rest [of "\<lambda>(pc, m). drain_step Mysql_OnResponsed pc m" "(DEnd, m)" "Suc n"]
      by (intro exI [of _ 0]) (simp add: drain_step_simps)
  next
    case False
    obtain pc1 m1 where step: "drain_step Mysql_OnResponsed pc m = Inr (pc1, m1)"
      and rest: "run_thread (\<lambda>(pc, m). drain_step Mysql_OnResponsed pc m) n (pc1, m1) = Inr (DEnd, m')"
      using Suc.prems by (auto simp: bind_res_eq_Inr)
    have "mysql_view (mysql_back m db) m = m" if "m_vecMysqlClients db \<noteq> []" for db
      using that by (cases m; cases db) (simp add: mysql_view_def mysql_back_def)
    moreover have "mysql_back m1 (mysql_back m db) = mysql_back m1 db" for db
      by (cases db) (simp add: mysql_back_def)
    ultimately have "proc_step env menv GameThread (?p pc m) = Inr (?p pc1 m1)"
      using False step assms by (cases pc) (simp_all add: proc_step_def game_step_def on_mysql_def with_mysql_def)
    moreover obtain k where "run_actions env menv (replicate k GameThread) (?p pc1 m1) = Inr (?p DEnd m')"
      using Suc.IH [OF rest] by blast
    ultimately have "run_actions env menv (replicate (Suc k) GameThread) (?p pc m) = Inr (?p DEnd m')" by simp
    then show ?thesis by blast
  qed
qed

text \<open>What \<^verbatim>\<open>Activate\<close> does on the game thread, when nobody interrupts it.\<close>

lemma activate_redis_phase:
  assumes "Redis_IsEnabled (logic_db (game p))"
    and run: "on_redis (\<lambda>c. bind_res (Activate (Redis_OnResponsed (run_script env)) fuel c) (\<lambda>c. Inr ((), c))) p = Inr ((), p')"
  shows "game_pc p = GIdle \<Longrightarrow> \<exists>n. run_actions env menv (replicate n GameThread) p = Inr (p'\<lparr>game_pc := after_redis p'\<rparr>)"
proof -
  assume idle: "game_pc p = GIdle"
  let ?step = "\<lambda>(pc, c). drain_step (Redis_OnResponsed (run_script env)) pc c"
  obtain c where c: "activate_loop (Redis_OnResponsed (run_script env)) fuel None (game_view (game p)) = Inr c"
      "p' = p\<lparr>game := game_back c\<rparr>"
    using run by (auto simp: on_redis_def Activate_def bind_res_eq_Inr)
  obtain n where "run_thread ?step n (DLoop None, game_view (game p)) = Inr (DEnd, c)"
    using activate_loop_runs [OF c(1)] by blast
  from game_redis_runs [OF this, of menv p]
  obtain k where k: "run_actions env menv (replicate k GameThread) (p\<lparr>game_pc := GRedis (DLoop None)\<rparr>) =
      Inr (p\<lparr>game := game_back c, game_pc := GRedis DEnd\<rparr>)"
    by (auto simp: idle)
  have "run_actions env menv (replicate 1 GameThread @ replicate k GameThread @ replicate 1 GameThread) p =
      Inr (p'\<lparr>game_pc := after_redis p'\<rparr>)"
    unfolding run_actions_append
    by (simp add: proc_step_def game_step_def idle assms(1) k c(2) after_redis_def)
  then show ?thesis by (metis replicate_add)
qed

lemma activate_mysql_phase:
  assumes "m_vecMysqlClients (logic_db (game p)) \<noteq> []"
    and run: "on_mysql (\<lambda>m. bind_res (Activate Mysql_OnResponsed fuel m) (\<lambda>m. Inr ((), m))) p = Inr ((), p')"
    and pc: "game_pc p = GMysql (DLoop None)"
  shows "\<exists>n. run_actions env menv (replicate n GameThread) p = Inr (p'\<lparr>game_pc := GIdle\<rparr>)"
proof -
  let ?m = "mysql_view (logic_db (game p)) (mysql p)"
  obtain m where m: "activate_loop Mysql_OnResponsed fuel None ?m = Inr m" "p' = with_mysql m p"
    using run by (auto simp: on_mysql_def Activate_def bind_res_eq_Inr with_mysql_def)
  obtain n where "run_thread (\<lambda>(pc, m). drain_step Mysql_OnResponsed pc m) n (DLoop None, ?m) = Inr (DEnd, m)"
    using activate_loop_runs [OF m(1)] by blast
  from game_mysql_runs [OF assms(1) this, of env menv]
  obtain k where k: "run_actions env menv (replicate k GameThread) (with_mysql ?m p\<lparr>game_pc := GMysql (DLoop None)\<rparr>) =
      Inr (with_mysql m p\<lparr>game_pc := GMysql DEnd\<rparr>)"
    by blast
  have first: "proc_step env menv GameThread p =
      proc_step env menv GameThread (with_mysql ?m p\<lparr>game_pc := GMysql (DLoop None)\<rparr>)"
  proof -
    have "mysql_back ?m db = db" if "db = logic_db (game p)" for db
      using that assms(1) by (cases "m_vecMysqlClients db") (simp_all add: mysql_back_def mysql_view_def)
    then have "with_mysql ?m p\<lparr>game_pc := GMysql (DLoop None)\<rparr> = p\<lparr>mysql := ?m\<rparr>"
      using pc by (cases p) (simp add: with_mysql_def)
    moreover have "mysql_view db (mysql_view db m) = mysql_view db m" for db m
      by (simp add: mysql_view_def)
    ultimately show ?thesis
      using pc by (simp add: proc_step_def game_step_def on_mysql_def drain_step_simps SAFE_RELEASE_def)
  qed
  show ?thesis
  proof (cases k)
    case 0
    then have "GMysql (DLoop None) = GMysql DEnd"
      using arg_cong [OF k, of "\<lambda>r. case r of Inr q \<Rightarrow> game_pc q | Inl e \<Rightarrow> GIdle"] by simp
    then show ?thesis by simp
  next
    case (Suc j)
    then have "run_actions env menv (replicate k GameThread) p = Inr (with_mysql m p\<lparr>game_pc := GMysql DEnd\<rparr>)"
      using k first by simp
    then have "run_actions env menv (replicate k GameThread @ replicate 1 GameThread) p = Inr (p'\<lparr>game_pc := GIdle\<rparr>)"
      unfolding run_actions_append by (simp add: proc_step_def game_step_def m(2) with_mysql_def)
    then show ?thesis by (metis replicate_add)
  qed
qed

lemma Activate_is_a_schedule:
  assumes env: "good_env (logic_redis env)" and ok: "proc_ok p" and idle: "game_pc p = GIdle"
    and run: "KDBClientMgr_Activate env fuel p = Inr p'"
  shows "\<exists>n. run_actions env menv (replicate n GameThread) p = Inr p'"
proof -
  obtain p1 where p1: "(if Redis_IsEnabled (logic_db (game p))
        then on_redis (\<lambda>c. bind_res (Activate (Redis_OnResponsed (run_script env)) fuel c) (\<lambda>c. Inr ((), c))) p
        else Inr ((), p)) = Inr ((), p1)"
    and p': "(if Mysql_IsEnabled (mysql p1)
        then on_mysql (\<lambda>m. bind_res (Activate Mysql_OnResponsed fuel m) (\<lambda>m. Inr ((), m))) p1
        else Inr ((), p1)) = Inr ((), p')"
    using run by (auto simp: KDBClientMgr_Activate_def bind_res_eq_Inr)
  have idle1: "game_pc p1 = GIdle" "mysql p1 = mysql p"
    using p1 idle by (auto simp: on_redis_def bind_res_eq_Inr split: if_splits)
  obtain n where n: "run_actions env menv (replicate n GameThread) p = Inr (p1\<lparr>game_pc := after_redis p1\<rparr>)"
  proof (cases "Redis_IsEnabled (logic_db (game p))")
    case True
    with p1 have "on_redis (\<lambda>c. bind_res (Activate (Redis_OnResponsed (run_script env)) fuel c) (\<lambda>c. Inr ((), c))) p = Inr ((), p1)"
      by simp
    from activate_redis_phase [OF True this idle] show ?thesis using that by blast
  next
    case False
    then have "run_actions env menv (replicate 1 GameThread) p = Inr (p1\<lparr>game_pc := after_redis p1\<rparr>)"
      using p1 idle by (auto simp: proc_step_def game_step_def)
    then show ?thesis by (rule that)
  qed
  show ?thesis
  proof (cases "Mysql_IsEnabled (mysql p1)")
    case False
    then have "p1\<lparr>game_pc := after_redis p1\<rparr> = p'"
      using p' idle1(1) by (simp add: after_redis_def)
    then show ?thesis using n by metis
  next
    case True
    let ?p = "p1\<lparr>game_pc := GMysql (DLoop None)\<rparr>"
    have "proc_ok ?p"
      using safe_run_actions [OF env ok, of menv "replicate n GameThread"] n True by (simp add: after_redis_def)
    then have "m_vecMysqlClients (logic_db (game ?p)) \<noteq> []"
      using owned_one_queue unfolding proc_ok_def server_owned_def by fastforce
    moreover have "on_mysql (\<lambda>m. bind_res (Activate Mysql_OnResponsed fuel m) (\<lambda>m. Inr ((), m))) ?p =
        Inr ((), p'\<lparr>game_pc := GMysql (DLoop None)\<rparr>)"
      using p' True by (auto simp: on_mysql_def bind_res_eq_Inr)
    ultimately obtain k where k: "run_actions env menv (replicate k GameThread) ?p =
        Inr (p'\<lparr>game_pc := GMysql (DLoop None)\<rparr>\<lparr>game_pc := GIdle\<rparr>)"
      using activate_mysql_phase [of ?p] by fastforce
    have "p'\<lparr>game_pc := GMysql (DLoop None)\<rparr>\<lparr>game_pc := GIdle\<rparr> = p'"
      using p' True idle1 by (auto simp: on_mysql_def bind_res_eq_Inr)
    then have "run_actions env menv (replicate n GameThread @ replicate k GameThread) p = Inr p'"
      unfolding run_actions_append using n True k by (simp add: after_redis_def)
    then show ?thesis by (metis replicate_add)
  qed
qed

lemma owned_places:
  assumes "owned [] held mh c"
  shows "distinct (held @ mh @ all_queues c)" and "\<forall>q\<in>set (held @ mh @ all_queues c). live c q"
    and "\<forall>q\<in>set (mh @ concat (m_vecMysqlClients c)). \<exists>b. kg_heap c q = Some b \<and> is_change b"
proof -
  show d: "distinct (held @ mh @ all_queues c)" and l: "\<forall>q\<in>set (held @ mh @ all_queues c). live c q"
    using assms by (simp_all add: owned_def)
  have "set (mh @ concat (m_vecMysqlClients c)) \<subseteq> set (held @ mh @ all_queues c)"
    by (auto simp: all_queues_def)
  then show "\<forall>q\<in>set (mh @ concat (m_vecMysqlClients c)). \<exists>b. kg_heap c q = Some b \<and> is_change b"
    using assms l unfolding owned_def live_def by blast
qed

section \<open>Properties\<close>

text \<open>C9: whatever the scripts, redis and mysql do, and however the steps of the game thread, of the
  redis worker and of the mysql worker are interleaved, no thread uses a buffer after it was
  freed: not in a handler, not through a queue, not when it gives a reference back.\<close>

theorem no_use_after_free:
  assumes "good_env (logic_redis env)" and "finite (dom (kg_heap (logic_db s)))" and "nothing_queued s m"
  shows "run_actions env menv as (start_process s m) \<noteq> Inl UseAfterFree"
  using safe_run_actions [OF assms(1) proc_ok_start [OF assms(2,3)]] by (rule safe_not_freed)

text \<open>C10: at every moment no buffer is in two places: the buffers in the hands of the threads and those in the
  queues are all different, and each of them is allocated and has one or two references. (Of buffers that are in no
  place, which the code leaks, nothing is said.) What waits for the mysql worker is a change of one
  key, and the mysql client never has a response, so that its \<^verbatim>\<open>OnResponsed\<close>, which deletes a
  buffer the caller then releases, is never run.\<close>

theorem buffers_have_one_owner:
  assumes "good_env (logic_redis env)" and "finite (dom (kg_heap (logic_db s)))" and "nothing_queued s m"
    and "run_actions env menv as (start_process s m) = Inr p"
  shows "distinct (held_worker (redis_pc p) @ held_game (game_pc p) @ held_worker (mysql_pc p) @ all_queues (logic_db (game p)))
    \<and> (\<forall>q\<in>set (held_worker (redis_pc p) @ held_game (game_pc p) @ held_worker (mysql_pc p) @ all_queues (logic_db (game p))).
         live (logic_db (game p)) q)
    \<and> (\<forall>q\<in>set (held_worker (mysql_pc p) @ concat (m_vecMysqlClients (logic_db (game p)))).
         \<exists>b. kg_heap (logic_db (game p)) q = Some b \<and> is_change b)
    \<and> m_RespondQueue (mysql p) = []"
proof -
  have "proc_ok p"
    using safe_result [OF safe_run_actions [OF assms(1) proc_ok_start [OF assms(2,3)]] assms(4)] .
  then have own: "owned [] (held_worker (redis_pc p) @ held_game (game_pc p)) (held_worker (mysql_pc p)) (logic_db (game p))"
    and resp: "m_RespondQueue (mysql p) = []"
    by (simp_all add: proc_ok_def server_owned_def)
  show ?thesis
    using owned_places [OF own] resp by simp
qed

text \<open>C11: a script that asks redis for a key is called back with the value: the request goes to the
  worker, the worker asks redis and queues the response, and the next activation of the game
  thread calls \<^verbatim>\<open>OnRedisRespone\<close> with the sequence number, the user, the event type and the text up
  to its first NUL. The engine and what was sent are as they were at the request.\<close>

theorem redis_get_reaches_the_script:
  fixes p :: "'l logic_process"
  assumes "length args = 5" "lua_tostring (logic_lua env) (args ! 3) = Some t" "lua_tostring (logic_lua env) (args ! 4) = Some k"
      "0 \<notin> set t" "0 \<notin> set k" "length t \<le> 7" "length t + length k < 2 ^ 31"
    and "IsOpen c" "m_RequestQueue c = []" "m_RespondQueue c = []" "m_vecRedisContext c = [Some ctx]"
    and "fresh_malloc (logic_redis env)" "finite (dom (kg_heap c))" "0 < command_fuel (logic_redis env)"
    and "redisvCommand (logic_redis env) (hiredis_calls c @ [Command ctx (ascii ''get %b'') [ArgB (t @ [95] @ k)]])
      = (Some reply, err)"
    and "reply_type reply \<noteq> 2" "reply_type reply \<noteq> 6 \<or> \<not> err" "length (reply_str reply) < 2 ^ 31"
    and p: "logic_db (game p) = c" "redis_pc p = WLoop None" "game_pc p = GIdle"
  shows "\<exists>s1 n s2 r. logic_api env (CRedis_PushRedisGet args) (game p) = Inr s1
    \<and> run_actions env menv (replicate n RedisThread @ replicate 4 GameThread) (p\<lparr>game := s1\<rparr>) =
        bind_res (with_engine (script_call (logic_lua env) (logic_script env) (logic_api env) ''OnRedisRespone''
            [LuaNumber (int (unat (lua_tonumber (logic_lua env) (args ! 0)))),
             LuaNumber (int (unat (lua_tonumber (logic_lua env) (args ! 1)))),
             LuaNumber (int (unat (lua_tonumber (logic_lua env) (args ! 2)))),
             LuaString (takeWhile (\<lambda>x. x \<noteq> 0) (reply_str reply))]) s2)
          (\<lambda>s. Inr (p\<lparr>redis_pc := WEnd, game := s, game_pc := GRedis (DLoop (Some r))\<rparr>))
    \<and> logic_engine s2 = logic_engine (game p) \<and> uv_calls s2 = uv_calls (game p)"
proof -
  obtain c1 c2 r b' q b where *: "PushRedisGet (logic_lua env) (logic_redis env) args c = Inr c1"
      "worker_loop (Redis_OnRequest (logic_redis env)) 2 None c1 = Inr c2" "m_RespondQueue c2 = [r]"
      "kg_heap c2 = (kg_heap c)(q \<mapsto> b, r \<mapsto> b')" "m_vecRedisContext c2 = m_vecRedisContext c"
      "common_response b' (lua_tonumber (logic_lua env) (args ! 0)) (lua_tonumber (logic_lua env) (args ! 1))
        (lua_tonumber (logic_lua env) (args ! 2)) (reply_str reply)"
    by (rule get_round_trip_core [OF assms(1-18)])
  let ?call = "OnRedisRespone (lua_tonumber (logic_lua env) (args ! 0)) (lua_tonumber (logic_lua env) (args ! 1))
      (lua_tonumber (logic_lua env) (args ! 2)) (takeWhile (\<lambda>x. x \<noteq> 0) (reply_str reply))"
  define s1 where "s1 = (game p)\<lparr>logic_db := c1\<rparr>"
  define s2 where "s2 = (game p)\<lparr>logic_db := c2\<lparr>m_RespondQueue := []\<rparr>\<rparr>"
  have api: "logic_api env (CRedis_PushRedisGet args) (game p) = Inr s1"
    by (simp add: logic_api_def on_db_def p *(1) s1_def)
  obtain n where "run_thread (\<lambda>(pc, c). worker_step (Redis_OnRequest (logic_redis env)) (\<lambda>c. c) pc c) n (WLoop None, c1) = Inr (WEnd, c2)"
    using worker_loop_runs [OF *(2)] by blast
  then have worker: "run_actions env menv (replicate n RedisThread) (p\<lparr>game := s1\<rparr>) =
      Inr (p\<lparr>game := (game p)\<lparr>logic_db := c2\<rparr>, redis_pc := WEnd\<rparr>)"
    using redis_runs [of env n "p\<lparr>game := s1\<rparr>" WEnd c2 menv] p by (simp add: s1_def)
  have en: "Redis_IsEnabled c2" using *(5) assms(11) by (simp add: Redis_IsEnabled_def)
  have v: "m_RespondQueue (game_view ((game p)\<lparr>logic_db := c2\<rparr>)) = [r]"
      "game_back ((game_view ((game p)\<lparr>logic_db := c2\<rparr>))\<lparr>m_RespondQueue := []\<rparr>) = s2"
    by (simp_all add: game_view_def game_back_def redis_client.defs *(3) s2_def)
  have resp: "Redis_OnResponsed (run_script env) r (game_view s2) = run_script env ?call (game_view s2)"
    using *(4,6) by (auto simp: Redis_OnResponsed_def heap_get_def common_response_def game_view_def redis_client.defs s2_def)
  have acts: "run_actions env menv (replicate 4 GameThread) (p\<lparr>game := (game p)\<lparr>logic_db := c2\<rparr>, redis_pc := WEnd\<rparr>) =
      bind_res (logic_script_call env ?call s2)
        (\<lambda>s. Inr (p\<lparr>redis_pc := WEnd, game := s, game_pc := GRedis (DLoop (Some r))\<rparr>))"
    using p(3) en v resp
    by (simp add: numeral_eq_Suc proc_step_def game_step_def on_redis_def drain_step_simps SAFE_RELEASE_def
        PopRespond_def run_script_def bind_res_assoc)
  show ?thesis
    unfolding run_actions_append
    by (intro exI [of _ s1] exI [of _ n] exI [of _ s2] exI [of _ r])
       (simp add: api worker acts logic_script_call_def with_engine_redis_calls, simp add: s2_def)
qed

text \<open>A process whose script asks redis for the key \<^verbatim>\<open>k\<close> of \<^verbatim>\<open>user\<close> whenever its timer fires.\<close>

definition demo_get :: "lua_value list" where
  "demo_get = [LuaNumber 7, LuaNumber 1001, LuaNumber 2, LuaString (ascii ''user''), LuaString [107]]"

definition demo_proc_env :: "unit logic_env" where
  "demo_proc_env = \<lparr>logic_skip = (\<lambda>_ _. None),
     logic_script = (\<lambda>f args l. (if f = LuaFunction (ascii ''UpdateTimer'') then [CRedis_PushRedisGet demo_get] else [], Inr LuaNil, l)),
     logic_lua = plain_lua, logic_mem = (\<lambda>_. 0), logic_redis = demo_env (ReplyString [118])\<rparr>"

lemma demo_proc_facts:
  "good_env (logic_redis demo_proc_env)" "finite (dom (kg_heap (logic_db demo_logic)))"
  "nothing_queued demo_logic (demo_mysql_client Map.empty)" "logic_db demo_logic = demo_client"
proof -
  show db: "logic_db demo_logic = demo_client"
    by (simp add: demo_logic_def GameLogicServer_new_def tcp_base_server.defs TCPBaseServer_new_def)
  show "good_env (logic_redis demo_proc_env)"
    using demo_env_fresh by (simp add: demo_proc_env_def good_env_def) (simp add: demo_env_def)
  show "finite (dom (kg_heap (logic_db demo_logic)))" by (simp add: db)
  show "nothing_queued demo_logic (demo_mysql_client Map.empty)"
    by (simp add: nothing_queued_def db demo_mysql_client_def)
qed

lemma demo_get_strings:
  "length demo_get = 5" "lua_tostring plain_lua (demo_get ! 3) = Some (ascii ''user'')" "lua_tostring plain_lua (demo_get ! 4) = Some [107]"
  "0 \<notin> set (ascii ''user'')" "length (ascii ''user'') = 4"
  "lua_tonumber plain_lua (demo_get ! 0) = 7" "lua_tonumber plain_lua (demo_get ! 1) = 1001" "lua_tonumber plain_lua (demo_get ! 2) = 2"
  by (simp_all add: demo_get_def plain_lua_def ascii_def)

lemma demo_timer:
  "\<exists>p q. run_actions demo_proc_env menv [Callback LuaTimer] (start_process demo_logic m) = Inr p
     \<and> m_RequestQueue (logic_db (game p)) = [q]"
proof -
  obtain c1 where c1: "PushRedisGet plain_lua (demo_env (ReplyString [118])) demo_get demo_client = Inr c1"
    by (rule get_round_trip_core [of demo_get plain_lua "ascii ''user''" "[107]" demo_client 1 "demo_env (ReplyString [118])"
      "ReplyString [118]" False]) (simp_all add: demo_get_strings demo_env_fresh, simp_all add: demo_env_def)
  then obtain q where q: "m_RequestQueue c1 = [q]"
    by (auto simp: PushRedisGet_def demo_get_strings(1) bind_res_eq_Inr place_def PushRedisRequest_def heap_set_def dest!: requests.push_view split: if_splits)
  have api: "logic_api demo_proc_env (CRedis_PushRedisGet demo_get) demo_logic = Inr (demo_logic\<lparr>logic_db := c1\<rparr>)"
    using c1 by (simp add: logic_api_def on_db_def demo_proc_facts(4)) (simp add: demo_proc_env_def)
  have script: "logic_script demo_proc_env (LuaFunction (ascii ''UpdateTimer'')) args l = ([CRedis_PushRedisGet demo_get], Inr LuaNil, l)" for args l
    by (simp add: demo_proc_env_def)
  have "with_engine (script_call lua (logic_script demo_proc_env) (logic_api demo_proc_env) ''UpdateTimer'' args) demo_logic =
      Inr (demo_logic\<lparr>logic_db := c1, logic_engine := (logic_engine demo_logic)\<lparr>lua_state := ()\<rparr>\<rparr>)" for lua args
    by (rule one_call [of "logic_script demo_proc_env" "''UpdateTimer''" args demo_logic "CRedis_PushRedisGet demo_get"])
       (simp_all add: api script)
  with q show ?thesis
    by (simp add: proc_step_def start_process_def logic_callback_def UpdateLuaTimer_def with_engine_redis_calls)
qed

theorem no_use_after_free_witness:
  "run_actions demo_proc_env (demo_mysql (\<lambda>_. True) 0)
     [Callback LuaTimer, RedisThread, GameThread, RedisThread, MysqlThread, RedisThread, GameThread, RedisThread, GameThread]
     (start_process demo_logic (demo_mysql_client Map.empty)) \<noteq> Inl UseAfterFree"
  by (rule no_use_after_free) (rule demo_proc_facts)+

theorem buffers_have_one_owner_witness:
  "\<exists>p q. run_actions demo_proc_env (demo_mysql (\<lambda>_. True) 0) [Callback LuaTimer]
       (start_process demo_logic (demo_mysql_client Map.empty)) = Inr p
     \<and> m_RequestQueue (logic_db (game p)) = [q] \<and> live (logic_db (game p)) q \<and> distinct (all_queues (logic_db (game p)))"
proof -
  obtain p q where p: "run_actions demo_proc_env (demo_mysql (\<lambda>_. True) 0) [Callback LuaTimer]
       (start_process demo_logic (demo_mysql_client Map.empty)) = Inr p" "m_RequestQueue (logic_db (game p)) = [q]"
    using demo_timer by blast
  from buffers_have_one_owner [OF demo_proc_facts(1-3) p(1)] p show ?thesis
    by (intro exI [of _ p] exI [of _ q]) (simp add: all_queues_def)
qed

theorem redis_get_reaches_the_script_witness:
  "\<exists>s1 n p2 r. logic_api demo_proc_env (CRedis_PushRedisGet demo_get) demo_logic = Inr s1
    \<and> run_actions demo_proc_env (demo_mysql (\<lambda>_. True) 0) (replicate n RedisThread @ replicate 4 GameThread)
        ((start_process demo_logic (demo_mysql_client Map.empty))\<lparr>game := s1\<rparr>) = Inr p2
    \<and> game_pc p2 = GRedis (DLoop (Some r)) \<and> logic_engine (game p2) = \<lparr>lua_stack = [], lua_state = ()\<rparr>"
proof -
  let ?p = "start_process demo_logic (demo_mysql_client Map.empty) :: unit logic_process"
  have env: "logic_lua demo_proc_env = plain_lua" "logic_redis demo_proc_env = demo_env (ReplyString [118])"
    "logic_script demo_proc_env (LuaFunction (ascii ''OnRedisRespone'')) args l = ([], Inr LuaNil, l)" for args l
    by (simp_all add: demo_proc_env_def ascii_def)
  have fields: "logic_db (game ?p) = demo_client" "redis_pc ?p = WLoop None" "game_pc ?p = GIdle" "game ?p = demo_logic"
    by (simp_all add: start_process_def demo_proc_facts(4))
  obtain s1 n s2 r where run: "logic_api demo_proc_env (CRedis_PushRedisGet demo_get) (game ?p) = Inr s1"
      "run_actions demo_proc_env (demo_mysql (\<lambda>_. True) 0) (replicate n RedisThread @ replicate 4 GameThread) (?p\<lparr>game := s1\<rparr>) =
        bind_res (with_engine (script_call (logic_lua demo_proc_env) (logic_script demo_proc_env) (logic_api demo_proc_env) ''OnRedisRespone''
            [LuaNumber (int (unat (lua_tonumber (logic_lua demo_proc_env) (demo_get ! 0)))),
             LuaNumber (int (unat (lua_tonumber (logic_lua demo_proc_env) (demo_get ! 1)))),
             LuaNumber (int (unat (lua_tonumber (logic_lua demo_proc_env) (demo_get ! 2)))),
             LuaString (takeWhile (\<lambda>x. x \<noteq> 0) (reply_str (ReplyString [118])))]) s2)
          (\<lambda>s. Inr (?p\<lparr>redis_pc := WEnd, game := s, game_pc := GRedis (DLoop (Some r))\<rparr>))"
      "logic_engine s2 = logic_engine (game ?p)"
    using redis_get_reaches_the_script [of demo_get demo_proc_env "ascii ''user''" "[107]" demo_client 1
        "ReplyString [118]" False ?p "demo_mysql (\<lambda>_. True) 0"]
    by (auto simp: env fields demo_get_strings demo_env_fresh demo_proc_facts(4)) (auto simp: demo_env_def)
  then show ?thesis
    using fields by (intro exI [of _ s1] exI [of _ n]) (simp add: with_engine_def script_call_def env)
qed

end
