(* ===== verification/Startup.thy ===== *)
theory Startup
  imports LogicProcess Gateway
begin

text \<open>
  How the processes start: the configuration file (\<^verbatim>\<open>util/file_util.cpp\<close>, \<^verbatim>\<open>util/config_cache.cpp\<close>),
  the listening socket of the base server and of the gateway, \<^verbatim>\<open>server/main.cpp\<close> and
  \<^verbatim>\<open>gateway/main.cpp\<close>, and the database clients of the logic process, which \<^verbatim>\<open>KDBClientMgr\<close> opens
  and closes. The JSON parser is an argument; what is read from its document is modelled. The
  results of \<^verbatim>\<open>uv_listen\<close> and \<^verbatim>\<open>uv_tcp_connect\<close> are arguments; the addresses that these get are made as in
  \<^verbatim>\<open>uv_ip4_addr\<close> of libuv.
\<close>

section \<open>Files and documents\<close>

definition FileUtil_ReadFile :: "(bytes \<rightharpoonup> bytes) \<Rightarrow> bytes \<Rightarrow> bytes \<Rightarrow> bool \<times> bytes" where
  "FileUtil_ReadFile files file_name str =
     (case files file_name of
        None \<Rightarrow> (False, str)
      | Some content \<Rightarrow> (True, content))"

text \<open>The values the configuration uses. An access that does not fit the document fails an assertion of the library.\<close>

datatype json = JInt u32 | JString bytes | JObject "(bytes \<times> json) list"

definition assertion_failed :: fault where
  "assertion_failed = ProcessExit 134"


definition json_at :: "json \<Rightarrow> bytes \<Rightarrow> json res" where
  "json_at v name =
     (case v of
        JObject ms \<Rightarrow> (case map_of ms name of Some w \<Rightarrow> Inr w | None \<Rightarrow> Inl assertion_failed)
      | _ \<Rightarrow> Inl assertion_failed)"

definition GetInt :: "json \<Rightarrow> u32 res" where
  "GetInt v = (case v of JInt n \<Rightarrow> Inr n | _ \<Rightarrow> Inl assertion_failed)"

text \<open>As a C string, up to the first NUL.\<close>

definition GetString :: "json \<Rightarrow> bytes res" where
  "GetString v = (case v of JString s \<Rightarrow> Inr (takeWhile (\<lambda>b. b \<noteq> 0) s) | _ \<Rightarrow> Inl assertion_failed)"

definition Parse :: "(bytes \<Rightarrow> json) \<Rightarrow> bytes \<Rightarrow> json" where
  "Parse parse sz_config = parse (takeWhile (\<lambda>b. b \<noteq> 0) sz_config)"

text \<open>\<^verbatim>\<open>ConfigCache\<close>, which no process creates.\<close>

record config_cache =
  json_doc :: json
  m_sz_config :: bytes

definition LoadConfig :: "(bytes \<rightharpoonup> bytes) \<Rightarrow> (bytes \<Rightarrow> json) \<Rightarrow> config_cache \<Rightarrow> bool \<times> config_cache" where
  "LoadConfig files parse c =
     (case FileUtil_ReadFile files (ascii ''game_logic.json'') (m_sz_config c) of
        (is_ok, sz) \<Rightarrow>
          let c = c\<lparr>m_sz_config := sz\<rparr> in
          if is_ok then (is_ok, c\<lparr>json_doc := Parse parse (m_sz_config c)\<rparr>) else (is_ok, c))"

definition GetListenIp :: "config_cache \<Rightarrow> bytes res" where
  "GetListenIp c = bind_res (json_at (json_doc c) (ascii ''listen'')) (\<lambda>server_config.
     bind_res (json_at server_config (ascii ''ip'')) GetString)"

section \<open>Listening\<close>

text \<open>
  What the base class keeps beside its sessions. \<open>m_ip\<close> is a pointer: \<open>Dangling\<close> once the string
  it points into is gone. \<open>listening\<close> is what \<^verbatim>\<open>uv_listen\<close> was called with.
\<close>

datatype text_pointer = Unset | TextAt bytes | Dangling

record listen_info =
  m_ip :: text_pointer
  m_addr :: "(bytes \<times> u32) option"
  listening :: "(bytes \<times> u32 \<times> u32) option"

definition listen_new :: listen_info where
  "listen_new = \<lparr>m_ip = Unset, m_addr = None, listening = None\<rparr>"

definition SetIp :: "text_pointer \<Rightarrow> listen_info \<Rightarrow> listen_info" where
  "SetIp ip li = li\<lparr>m_ip := ip\<rparr>"

definition GetIp :: "listen_info \<Rightarrow> text_pointer" where
  "GetIp li = m_ip li"

definition SetSockAddrIn :: "bytes \<Rightarrow> u32 \<Rightarrow> listen_info \<Rightarrow> listen_info" where
  "SetSockAddrIn ip port li = li\<lparr>m_addr := Some (ip, port)\<rparr>"

definition TCPBaseServer_Init ::
  "int \<Rightarrow> bytes \<Rightarrow> u32 \<Rightarrow> listen_info \<times> 's tcp_base_server_scheme \<Rightarrow> (int \<times> listen_info \<times> 's tcp_base_server_scheme) res" where
  "TCPBaseServer_Init r ip port x =
     (case x of (li, s) \<Rightarrow>
      let li = SetIp (TextAt ip) li;
          s = SetPort port s;
          li = SetSockAddrIn ip port li;
          li = li\<lparr>listening := Some (ip, port, GetDefaultBackLog s)\<rparr> in
      if r \<noteq> 0 then Inl (ProcessExit 1) else Inr (1, li, s))"

definition server_main :: "int \<Rightarrow> (listen_info \<times> tcp_base_server) res" where
  "server_main r =
     bind_res (TCPBaseServer_Init r (ascii ''0.0.0.0'') 7000 (listen_new, TCPBaseServer_new)) (\<lambda>(_, x). Inr x)"



section \<open>Addresses\<close>




section \<open>The gateway process\<close>






section \<open>The database clients\<close>

text \<open>The constructor of the redis client; the manager it belongs to has one mysql client.\<close>

definition KRedisClient_new :: "(buffer_ref \<rightharpoonup> kg_buffer) \<Rightarrow> redis_client" where
  "KRedisClient_new h = db_client.extend (KDBClient_new h)
     \<lparr>m_vecRedisContext = [], m_nQueryCount = 0, m_ulAverageUSec = 0, hiredis_calls = [], m_vecMysqlClients = [[]]\<rparr>"

definition KMysqlClient_new :: "(buffer_ref \<rightharpoonup> kg_buffer) \<Rightarrow> mysql_client" where
  "KMysqlClient_new h = db_client.extend (KDBClient_new h)
     \<lparr>m_szDBName = [], m_vecMysql = [], m_vecTableName = [], m_pSQLBuff = [], m_uBuffLen = 0, mysql_calls = []\<rparr>"

text \<open>What the two \<^verbatim>\<open>Init\<close> functions read, \<open>None\<close> if there is no file.\<close>

definition redis_config :: "(bytes \<rightharpoonup> bytes) \<Rightarrow> (bytes \<Rightarrow> json) \<Rightarrow> (bytes \<times> u32) option res" where
  "redis_config files parse =
     (case FileUtil_ReadFile files (ascii ''config.json'') [] of
        (is_ok, sz_config) \<Rightarrow>
          if \<not> is_ok then Inr None
          else
            bind_res (json_at (Parse parse sz_config) (ascii ''redis'')) (\<lambda>server_config.
            bind_res (json_at server_config (ascii ''ip'')) (\<lambda>v. bind_res (GetString v) (\<lambda>szIp.
            bind_res (json_at server_config (ascii ''port'')) (\<lambda>v. bind_res (GetInt v) (\<lambda>nPort.
            Inr (Some (szIp, nPort))))))))"

definition mysql_config :: "(bytes \<rightharpoonup> bytes) \<Rightarrow> (bytes \<Rightarrow> json) \<Rightarrow> (bytes \<times> u32 \<times> bytes \<times> bytes \<times> bytes) option res" where
  "mysql_config files parse =
     (case FileUtil_ReadFile files (ascii ''config.json'') [] of
        (is_ok, sz_config) \<Rightarrow>
          if \<not> is_ok then Inr None
          else
            bind_res (json_at (Parse parse sz_config) (ascii ''mysql'')) (\<lambda>server_config.
            bind_res (json_at server_config (ascii ''ip'')) (\<lambda>v. bind_res (GetString v) (\<lambda>sz_ip.
            bind_res (json_at server_config (ascii ''port'')) (\<lambda>v. bind_res (GetInt v) (\<lambda>port.
            bind_res (json_at server_config (ascii ''user'')) (\<lambda>v. bind_res (GetString v) (\<lambda>sz_user.
            bind_res (json_at server_config (ascii ''password'')) (\<lambda>v. bind_res (GetString v) (\<lambda>sz_password.
            bind_res (json_at server_config (ascii ''scheme'')) (\<lambda>v. bind_res (GetString v) (\<lambda>sz_scheme.
            Inr (Some (sz_ip, port, sz_user, sz_password, sz_scheme))))))))))))))"

text \<open>
  \<^verbatim>\<open>KDBClientMgr::Init\<close>, which the constructor calls. \<open>mem\<close>, \<open>mem'\<close> and \<open>stack\<close> are the junk of the blocks,
  the two flags say whether the threads can be created.
\<close>

definition KDBClientMgr_Init ::
  "redis_env \<Rightarrow> mysql_env \<Rightarrow> (bytes \<rightharpoonup> bytes) \<Rightarrow> (bytes \<Rightarrow> json) \<Rightarrow> junk \<Rightarrow> junk \<Rightarrow> junk \<Rightarrow> bool \<Rightarrow> bool
     \<Rightarrow> (buffer_ref \<rightharpoonup> kg_buffer) \<Rightarrow> (redis_client \<times> mysql_client) res" where
  "KDBClientMgr_Init env menv files parse mem mem' stack redis_thread mysql_thread h =
     bind_res (redis_config files parse) (\<lambda>config.
     bind_res (case config of
         None \<Rightarrow> Inr (False, KRedisClient_new h)
       | Some (szIp, nPort) \<Rightarrow> Redis_Init env mem redis_thread szIp nPort (KRedisClient_new h)) (\<lambda>(bRet, c).
     if \<not> bRet then Inl (ProcessExit 1)
     else
       bind_res (mysql_config files parse) (\<lambda>config.
       bind_res (case config of
           None \<Rightarrow> Inr (False, KMysqlClient_new h)
         | Some (sz_ip, port, sz_user, sz_password, sz_scheme) \<Rightarrow>
             Mysql_Init menv mem' stack mysql_thread sz_ip port sz_user sz_password sz_scheme (KMysqlClient_new h)) (\<lambda>(bRet, m).
       if \<not> bRet then Inl (ProcessExit 1) else Inr (c, m)))))"

text \<open>\<^verbatim>\<open>Release\<close>: each client joins its thread, releases its queues and closes its connections.\<close>

definition KDBClientMgr_Release :: "redis_client \<Rightarrow> mysql_client \<Rightarrow> (redis_client \<times> mysql_client) res" where
  "KDBClientMgr_Release c m =
     bind_res (Redis_UnInit c) (\<lambda>c.
     bind_res (Mysql_UnInit (mysql_view c m)) (\<lambda>m.
     Inr (mysql_back m c, m)))"

definition CheckRedisEnable :: "nat \<Rightarrow> redis_client list \<Rightarrow> bool res" where
  "CheckRedisEnable nDBType clients =
     (if nDBType = 0 \<or> length clients \<le> nDBType - 1 then Inl OutOfBoundsRead
      else Inr (Redis_IsEnabled (clients ! (nDBType - 1))))"

text \<open>The overload of \<^verbatim>\<open>KDBClient::Init\<close> for one address, which copies with \<^verbatim>\<open>strcpy\<close>.\<close>

definition KDBClient_Init_address ::
  "junk \<Rightarrow> (connect_info list \<Rightarrow> 's db_client_scheme \<Rightarrow> (bool \<times> 's db_client_scheme) res) \<Rightarrow> bool \<Rightarrow> bool
     \<Rightarrow> bytes \<Rightarrow> u32 \<Rightarrow> bytes \<Rightarrow> bytes option \<Rightarrow> bytes option \<Rightarrow> 's db_client_scheme \<Rightarrow> (bool \<times> 's db_client_scheme) res" where
  "KDBClient_Init_address mem ConnectDB thread_started bMySQL pcszDBAddress nPort pcszDBName pcszUserName pcszPassWord c =
     bind_res (KConnectInfo_new mem) (\<lambda>sConnectInfo.
     if KD_MAX_DBNAME_LEN \<le> length pcszDBName then Inl HeapOverflow
     else
       bind_res (mem_write sConnectInfo INFO_szHost (pcszDBAddress @ [0])) (\<lambda>sConnectInfo.
       bind_res (mem_write sConnectInfo 0 (enc32 nPort)) (\<lambda>sConnectInfo.
       bind_res (copy_text INFO_szUser (map_option (\<lambda>t. t @ [0]) pcszUserName) sConnectInfo) (\<lambda>sConnectInfo.
       bind_res (copy_text INFO_szPwd (map_option (\<lambda>t. t @ [0]) pcszPassWord) sConnectInfo) (\<lambda>sConnectInfo.
       KDBClient_Init (ConnectDB [sConnectInfo]) thread_started bMySQL c)))))"

section \<open>The gateway as configured\<close>










section \<open>Closing the clients\<close>

text \<open>Closing releases what is queued; with the ownership of the buffers nothing is released twice.\<close>

lemma release_all_ok:
  assumes "distinct ps" and "\<forall>p\<in>set ps. kg_heap c p \<noteq> None"
  shows "\<exists>h. release_all ps c = Inr (c\<lparr>kg_heap := h\<rparr>) \<and> (\<forall>q. q \<notin> set ps \<longrightarrow> h q = kg_heap c q)"
  using assms
proof (induction ps arbitrary: c)
  case Nil
  then show ?case by (intro exI [of _ "kg_heap c"]) (cases c, simp)
next
  case (Cons p ps)
  then obtain b where b: "kg_heap c p = Some b" by auto
  define b' where "b' = fst (snd (KG_Buffer_Release b))"
  let ?c = "heap_set p b' c"
  have "\<forall>q\<in>set ps. kg_heap ?c q \<noteq> None" using Cons.prems by (auto simp: heap_set_def)
  then obtain h where "release_all ps ?c = Inr (?c\<lparr>kg_heap := h\<rparr>)" "\<forall>q. q \<notin> set ps \<longrightarrow> h q = kg_heap ?c q"
    using Cons.IH [of ?c] Cons.prems(1) by auto
  then show ?case
    using b by (intro exI [of _ h]) (auto simp: SAFE_RELEASE_Some b'_def [symmetric] heap_set_def)
qed

lemma UnInit_ok:
  assumes "distinct (m_RequestQueue c @ m_RespondQueue c)" and "\<forall>p\<in>set (m_RequestQueue c @ m_RespondQueue c). kg_heap c p \<noteq> None"
  shows "\<exists>h. UnInit c = Inr (c\<lparr>m_bRunFlag := False, m_RequestQueue := [], m_RespondQueue := [], kg_heap := h\<rparr>)
    \<and> (\<forall>q. q \<notin> set (m_RequestQueue c @ m_RespondQueue c) \<longrightarrow> h q = kg_heap c q)"
proof -
  let ?c = "SetRunFlag False c"
  have q: "m_RequestQueue ?c = m_RequestQueue c" "m_RespondQueue ?c = m_RespondQueue c" "kg_heap ?c = kg_heap c"
    by (simp_all add: SetRunFlag_def)
  obtain h1 where h1: "release_all (m_RequestQueue c) ?c = Inr (?c\<lparr>kg_heap := h1\<rparr>)"
      "\<forall>q. q \<notin> set (m_RequestQueue c) \<longrightarrow> h1 q = kg_heap c q"
    using release_all_ok [of "m_RequestQueue c" ?c] assms q by auto
  let ?d = "?c\<lparr>kg_heap := h1, m_RequestQueue := []\<rparr>"
  have "\<forall>p\<in>set (m_RespondQueue c). h1 p \<noteq> None"
    using assms h1(2) by (metis Un_iff disjoint_iff distinct_append set_append)
  then obtain h2 where h2: "release_all (m_RespondQueue c) ?d = Inr (?d\<lparr>kg_heap := h2\<rparr>)"
      "\<forall>q. q \<notin> set (m_RespondQueue c) \<longrightarrow> h2 q = h1 q"
    using release_all_ok [of "m_RespondQueue c" ?d] assms(1) by auto
  show ?thesis
    unfolding UnInit_def Let_def
    using h1 h2 q by (intro exI [of _ h2]) (simp add: SetRunFlag_def)
qed

lemma Release_ok:
  assumes own: "owned [] [] [] c" and m: "m_RespondQueue m = []"
  shows "\<exists>c' m'. KDBClientMgr_Release c m = Inr (c', m') \<and> m_RequestQueue c' = [] \<and> m_RespondQueue c' = []
    \<and> m_vecMysqlClients c' = [[]] \<and> m_vecRedisContext c' = [] \<and> m_vecMysql m' = []"
proof -
  obtain qm where qm: "m_vecMysqlClients c = [qm]" using owned_one_queue [OF own] by blast
  have d: "distinct (m_RequestQueue c @ m_RespondQueue c @ qm)"
    and l: "\<forall>p\<in>set (m_RequestQueue c @ m_RespondQueue c @ qm). kg_heap c p \<noteq> None"
    using own qm unfolding owned_def all_queues_def by (auto simp: live_def)
  obtain h where h: "UnInit c = Inr (c\<lparr>m_bRunFlag := False, m_RequestQueue := [], m_RespondQueue := [], kg_heap := h\<rparr>)"
      "\<forall>q. q \<notin> set (m_RequestQueue c @ m_RespondQueue c) \<longrightarrow> h q = kg_heap c q"
    using UnInit_ok [of c] d l by auto
  have closed: "\<exists>k. fold (case_option id (\<lambda>ctx. log_call (Free ctx))) xs d = d\<lparr>hiredis_calls := k\<rparr>" for xs and d :: redis_client
  proof (induction xs arbitrary: d)
    case Nil
    show ?case by (intro exI [of _ "hiredis_calls d"]) (cases d, simp)
  next
    case (Cons x xs)
    show ?case
    proof (cases x)
      case None
      then show ?thesis using Cons.IH [of d] by simp
    next
      case (Some ctx)
      then show ?thesis using Cons.IH [of "log_call (Free ctx) d"] by (auto simp: log_call_def)
    qed
  qed
  obtain c1 where c1: "Redis_UnInit c = Inr c1" "m_RequestQueue c1 = []" "m_RespondQueue c1 = []"
      "m_vecMysqlClients c1 = [qm]" "m_vecRedisContext c1 = []" "kg_heap c1 = h"
    using h(1) qm closed [of "m_vecRedisContext c" "c\<lparr>m_bRunFlag := False, m_RequestQueue := [], m_RespondQueue := [], kg_heap := h\<rparr>"]
    by (auto simp: Redis_UnInit_def Redis_CloseAll_def)
  have "distinct (m_RequestQueue (mysql_view c1 m) @ m_RespondQueue (mysql_view c1 m))"
      "\<forall>p\<in>set (m_RequestQueue (mysql_view c1 m) @ m_RespondQueue (mysql_view c1 m)). kg_heap (mysql_view c1 m) p \<noteq> None"
    using c1 m d l h(2) by (auto simp: mysql_view_def)
  from UnInit_ok [OF this] obtain h2 where
    "UnInit (mysql_view c1 m) = Inr ((mysql_view c1 m)\<lparr>m_bRunFlag := False, m_RequestQueue := [], m_RespondQueue := [], kg_heap := h2\<rparr>)"
    by blast
  moreover have "m_RequestQueue (fold (\<lambda>p. if p \<noteq> 0 then log_mysql (Close p) else id) ps d) = m_RequestQueue d" for ps and d :: mysql_client
    by (induction ps arbitrary: d) (simp_all add: log_mysql_def)
  ultimately obtain m' where m': "Mysql_UnInit (mysql_view c1 m) = Inr m'" "m_RequestQueue m' = []" "m_vecMysql m' = []"
    by (simp add: Mysql_UnInit_def Let_def)
  show ?thesis
    using c1 m' by (intro exI [of _ "mysql_back m' c1"] exI [of _ m']) (simp add: KDBClientMgr_Release_def mysql_back_def)
qed

section \<open>Properties\<close>






end
