(* ===== verification/Objects.thy ===== *)
theory Objects
  imports Center Startup
begin

text \<open>
  Operations of the processes that no packet and no request runs: the memory for reads
  (\<^verbatim>\<open>AllocBuffer\<close>), the start of the center (\<^verbatim>\<open>center/main.cpp\<close>), the end of the database manager
  (\<^verbatim>\<open>UnInit\<close>) and the print-out of the Lua stack (\<^verbatim>\<open>LuaEngine::stackDump\<close>).
\<close>

section \<open>Memory for reads\<close>

text \<open>The base and the length of the buffer that libuv fills.\<close>

definition AllocBuffer :: "junk \<Rightarrow> nat \<Rightarrow> bytes \<times> nat" where
  "AllocBuffer mem suggested_size = (fresh_block mem suggested_size, suggested_size)"

definition TCPClient_AllocBuffer :: "junk \<Rightarrow> nat \<Rightarrow> bytes \<times> nat" where
  "TCPClient_AllocBuffer mem suggested_size = (fresh_block mem suggested_size, suggested_size)"

text \<open>What libuv reads into the buffer is at most its length, so the read callbacks stay inside it.\<close>

lemma read_stays_inside:
  "AllocBuffer mem n = (base, len) \<Longrightarrow> nread \<le> len \<Longrightarrow> \<exists>d. mem_read base 0 nread = Inr d \<and> length d = nread"
  by (auto simp: AllocBuffer_def mem_read_def mslice_def)

section \<open>The center\<close>

text \<open>\<^verbatim>\<open>main\<close> does not look at what \<^verbatim>\<open>Init\<close> returns.\<close>

definition center_main ::
  "'l center_env \<Rightarrow> (bytes \<Rightarrow> 'l \<Rightarrow> cnet_call list \<times> (lua_value list) option \<times> 'l) \<Rightarrow> (u32 \<times> int) option \<Rightarrow> int \<Rightarrow> 'l
     \<Rightarrow> 'l lua_engine \<Rightarrow> 'l center res" where
  "center_main env dofile config ret l engine =
     bind_res (CenterServer_Init env dofile config ret l (CenterServer_new engine)) (\<lambda>(_, s). Inr s)"

lemma center_without_config: "center_main env dofile None ret l engine = Inr (CenterServer_new engine)"
  by (simp add: center_main_def CenterServer_Init_def)

section \<open>The end of the database manager\<close>

definition KDBClientMgr_UnInit :: "redis_client \<Rightarrow> mysql_client \<Rightarrow> (redis_client \<times> mysql_client) res" where
  "KDBClientMgr_UnInit c m = KDBClientMgr_Release c m"

section \<open>Printing the stack\<close>

text \<open>
  \<open>number_text\<close> is what \<open>%g\<close> prints. The loop goes from the bottom of the stack, which is the end
  of \<open>lua_stack\<close>, to the top; the two numbers printed with a value count down from the height
  of the stack and from -1.
\<close>

fun value_text :: "(int \<Rightarrow> bytes) \<Rightarrow> lua_value \<Rightarrow> bytes" where
  "value_text number_text (LuaString s) = [39] @ takeWhile (\<lambda>b. b \<noteq> 0) s @ [39, 32]"
| "value_text number_text (LuaNumber n) = number_text n @ [32]"
| "value_text number_text LuaNil = ascii ''nil ''"
| "value_text number_text (LuaTable _) = ascii ''table ''"
| "value_text number_text LuaLibrary = ascii ''table ''"
| "value_text number_text (LuaFunction _) = ascii ''function ''"

fun dump_loop :: "(int \<Rightarrow> bytes) \<Rightarrow> lua_value list \<Rightarrow> u32 \<Rightarrow> u32 \<Rightarrow> bytes list" where
  "dump_loop number_text [] stack_index_1 stack_index_2 = []"
| "dump_loop number_text (v # vs) stack_index_1 stack_index_2 =
     (fmt_int stack_index_1 @ [124] @ value_text number_text v @ [124] @ fmt_int stack_index_2 @ [10])
     # dump_loop number_text vs (stack_index_1 - 1) (stack_index_2 - 1)"

definition stackDump :: "(int \<Rightarrow> bytes) \<Rightarrow> 'l lua_engine \<Rightarrow> bytes list" where
  "stackDump number_text e =
     dump_loop number_text (rev (lua_stack e)) (word_of_nat (lua_gettop e)) (- 1)"

text \<open>One line for each value; the value at the bottom is printed with the numbers of the one at the top.\<close>

lemma stackDump_numbers:
  assumes "lua_stack e \<noteq> []"
  shows "hd (stackDump number_text e) =
    fmt_int (word_of_nat (length (lua_stack e))) @ [124] @ value_text number_text (last (lua_stack e)) @ [124] @ fmt_int (- 1) @ [10]"
proof -
  obtain w ws where r: "rev (lua_stack e) = w # ws" using assms by (cases "rev (lua_stack e)") simp_all
  then have "last (lua_stack e) = w" by (metis hd_rev list.sel(1))
  then show ?thesis by (simp add: stackDump_def r lua_gettop_def)
qed

lemma stackDump_lines: "length (stackDump number_text e) = lua_gettop e"
proof -
  have "length (dump_loop number_text vs a b) = length vs" for vs a b
    by (induction vs arbitrary: a b) simp_all
  then show ?thesis by (simp add: stackDump_def lua_gettop_def)
qed

end
