(* ===== verification/AsyncWrite.thy ===== *)
theory AsyncWrite
  imports Prelude
begin

text \<open>
  What becomes of a packet after \<^verbatim>\<open>uv_write\<close>. The other theories record a write as one event;
  here the block and the request object the servers allocate for it are explicit, and so is
  the write queue that libuv keeps for a connection (\<^verbatim>\<open>uv_write2\<close>, \<^verbatim>\<open>uv__write\<close>,
  \<^verbatim>\<open>uv__write_callbacks\<close>, \<^verbatim>\<open>uv__stream_connect\<close> and \<^verbatim>\<open>uv__stream_io\<close> of \<^verbatim>\<open>third_party/libuv/src/unix/stream.c\<close>, for requests of one buffer on
  a connection that does not block). \<^verbatim>\<open>TransferToLogicServer\<close>, \<^verbatim>\<open>TransferToClient\<close>,
  \<^verbatim>\<open>SendDataToGateway\<close> and \<^verbatim>\<open>TransferToCenterServer\<close> have the same body: they free the block as soon
  as \<^verbatim>\<open>uv_write\<close> has returned. The theory shows when that is early enough.
\<close>

section \<open>State\<close>

datatype heap_block = Data bytes | WriteReq

text \<open>A queued \<^verbatim>\<open>uv_write_t\<close> with what is left of its buffer.\<close>

record write_req =
  wr_req :: nat
  wr_base :: nat
  wr_off :: nat
  wr_len :: nat

text \<open>
  \<open>wire\<close> is what the system has taken; \<open>completed\<close> has the requests whose callback is still to run;
  \<open>connecting\<close>: there is a \<^verbatim>\<open>connect_req\<close>. The last three are the flags \<^verbatim>\<open>UV_STREAM_READING\<close>,
  \<^verbatim>\<open>UV_STREAM_READ_PARTIAL\<close> and \<^verbatim>\<open>UV_STREAM_READ_EOF\<close>.
\<close>

record write_stream =
  wheap :: "nat \<rightharpoonup> heap_block"
  write_queue :: "write_req list"
  write_queue_size :: nat
  completed :: "(write_req \<times> int) list"
  connecting :: bool
  wire :: bytes
  delayed_error :: int
  stream_reading :: bool
  read_partial :: bool
  read_eof :: bool

text \<open>What \<^verbatim>\<open>write\<close> answers: the bytes it took, \<^verbatim>\<open>EAGAIN\<close>, or another error number.\<close>

datatype write_answer = Wrote nat | WouldBlock | Failed int

section \<open>The write queue of libuv\<close>

definition block_read :: "nat \<Rightarrow> nat \<Rightarrow> nat \<Rightarrow> write_stream \<Rightarrow> bytes res" where
  "block_read p off n s =
     (if n = 0 then Inr []
      else case wheap s p of
        Some (Data d) \<Rightarrow> mem_read d off n
      | _ \<Rightarrow> Inl UseAfterFree)"

definition uv__write :: "write_answer \<Rightarrow> write_stream \<Rightarrow> write_stream res" where
  "uv__write answer s =
     (case write_queue s of
        [] \<Rightarrow> Inr s
      | r # q \<Rightarrow>
          (case answer of
             Failed e \<Rightarrow> Inr (s\<lparr>write_queue := q, completed := completed s @ [(r, - e)]\<rparr>)
           | WouldBlock \<Rightarrow> Inr s
           | Wrote k \<Rightarrow>
               let n = min k (wr_len r) in
               bind_res (block_read (wr_base r) (wr_off r) n s) (\<lambda>bs.
               let s = s\<lparr>wire := wire s @ bs, write_queue_size := write_queue_size s - n\<rparr> in
               if n < wr_len r then
                 Inr (s\<lparr>write_queue := r\<lparr>wr_off := wr_off r + n, wr_len := wr_len r - n\<rparr> # q\<rparr>)
               else
                 Inr (s\<lparr>write_queue := q, completed := completed s @ [(r\<lparr>wr_len := 0\<rparr>, 0)]\<rparr>))))"

text \<open>\<open>fd_ok\<close>: the connection has a descriptor; without one the result is \<^verbatim>\<open>EBADF\<close>.\<close>

definition uv_write ::
  "bool \<Rightarrow> write_answer \<Rightarrow> nat \<Rightarrow> nat \<Rightarrow> nat \<Rightarrow> write_stream \<Rightarrow> (int \<times> write_stream) res" where
  "uv_write fd_ok answer req base len s =
     (if \<not> fd_ok then Inr (- 9, s)
      else
        let empty_queue = (write_queue_size s = 0);
            s = s\<lparr>write_queue_size := write_queue_size s + len,
                  write_queue := write_queue s @ [\<lparr>wr_req = req, wr_base = base, wr_off = 0, wr_len = len\<rparr>]\<rparr> in
        bind_res (if \<not> connecting s \<and> empty_queue then uv__write answer s else Inr s) (\<lambda>s. Inr (0, s)))"

text \<open>The callbacks of the finished requests; a failed one still counts in the size of the queue.\<close>

fun run_callbacks :: "(int \<Rightarrow> nat \<Rightarrow> write_stream \<Rightarrow> write_stream) \<Rightarrow> (write_req \<times> int) list \<Rightarrow> write_stream \<Rightarrow> write_stream" where
  "run_callbacks cb [] s = s"
| "run_callbacks cb ((r, e) # rs) s =
     run_callbacks cb rs (cb e (wr_req r) (s\<lparr>write_queue_size := write_queue_size s - wr_len r\<rparr>))"

definition uv__write_callbacks :: "(int \<Rightarrow> nat \<Rightarrow> write_stream \<Rightarrow> write_stream) \<Rightarrow> write_stream \<Rightarrow> write_stream" where
  "uv__write_callbacks cb s = run_callbacks cb (completed s) (s\<lparr>completed := []\<rparr>)"







section \<open>The servers\<close>

definition free_block :: "nat \<Rightarrow> write_stream \<Rightarrow> write_stream" where
  "free_block p s = s\<lparr>wheap := (wheap s)(p := None)\<rparr>"

definition alloc_block :: "((nat \<rightharpoonup> heap_block) \<Rightarrow> nat) \<Rightarrow> heap_block \<Rightarrow> write_stream \<Rightarrow> nat \<times> write_stream" where
  "alloc_block malloc b s = (malloc (wheap s), s\<lparr>wheap := (wheap s)(malloc (wheap s) := Some b)\<rparr>)"

text \<open>The body that the four functions share, from \<^verbatim>\<open>malloc\<close> to \<^verbatim>\<open>SAFE_FREE\<close>.\<close>

definition transfer ::
  "((nat \<rightharpoonup> heap_block) \<Rightarrow> nat) \<Rightarrow> bool \<Rightarrow> write_answer \<Rightarrow> bytes \<Rightarrow> nat \<Rightarrow> write_stream \<Rightarrow> write_stream res" where
  "transfer malloc fd_ok answer pBuffer nRead s =
     bind_res (mem_read pBuffer 0 nRead) (\<lambda>bs.
     case alloc_block malloc (Data bs) s of
       (pvBuffer, s) \<Rightarrow>
         (case alloc_block malloc WriteReq s of
            (pWriteReq, s) \<Rightarrow>
              bind_res (uv_write fd_ok answer pWriteReq pvBuffer nRead s) (\<lambda>(nRet, s).
              Inr (free_block pvBuffer (if nRet \<noteq> 0 then free_block pWriteReq s else s)))))"

text \<open>
  The write callbacks: \<^verbatim>\<open>GatewayClient::OnTransferToLogicServer\<close> and its copies in the gateway, the
  center and the client of the center; that of the logic server; those of the base classes, which
  keep the request.
\<close>

definition OnTransferToLogicServer :: "int \<Rightarrow> nat \<Rightarrow> write_stream \<Rightarrow> write_stream" where
  "OnTransferToLogicServer nStatus pReq s = (if nStatus < 0 then s else free_block pReq s)"

definition GatewayServer_OnTransferToClient :: "int \<Rightarrow> nat \<Rightarrow> write_stream \<Rightarrow> write_stream" where
  "GatewayServer_OnTransferToClient status req s = (if status < 0 then s else free_block req s)"

definition CenterServer_OnTransferToClient :: "int \<Rightarrow> nat \<Rightarrow> write_stream \<Rightarrow> write_stream" where
  "CenterServer_OnTransferToClient status req s = (if status < 0 then s else free_block req s)"

definition OnTransferToCenterServer :: "int \<Rightarrow> nat \<Rightarrow> write_stream \<Rightarrow> write_stream" where
  "OnTransferToCenterServer nStatus pReq s = (if nStatus < 0 then s else free_block pReq s)"

definition GameLogicServer_OnSendData :: "int \<Rightarrow> nat \<Rightarrow> write_stream \<Rightarrow> write_stream" where
  "GameLogicServer_OnSendData nStatus pReq s = (if nStatus = - 1 then s else free_block pReq s)"

definition TCPBaseServer_OnSendData :: "int \<Rightarrow> nat \<Rightarrow> write_stream \<Rightarrow> write_stream" where
  "TCPBaseServer_OnSendData nStatus pReq s = s"

definition TCPClient_OnWrite :: "int \<Rightarrow> nat \<Rightarrow> write_stream \<Rightarrow> write_stream" where
  "TCPClient_OnWrite status req s = s"

section \<open>A connection that takes everything at once\<close>

text \<open>The contract of a write callback: a request that was written is deleted.\<close>

locale write_callback =
  fixes cb :: "int \<Rightarrow> nat \<Rightarrow> write_stream \<Rightarrow> write_stream"
  assumes cb_sent: "cb 0 req s = free_block req s"

definition idle :: "write_stream \<Rightarrow> bool" where
  "idle s \<longleftrightarrow> write_queue s = [] \<and> write_queue_size s = 0 \<and> completed s = [] \<and> \<not> connecting s \<and> finite (dom (wheap s))"

definition fresh_alloc :: "((nat \<rightharpoonup> heap_block) \<Rightarrow> nat) \<Rightarrow> bool" where
  "fresh_alloc malloc \<longleftrightarrow> (\<forall>h. finite (dom h) \<longrightarrow> h (malloc h) = None)"

text \<open>
  The whole way of a list of packets, with the callbacks run after each; \<open>answers\<close> is what the
  system says to each of the writes.
\<close>

fun send_all ::
  "(int \<Rightarrow> nat \<Rightarrow> write_stream \<Rightarrow> write_stream) \<Rightarrow> ((nat \<rightharpoonup> heap_block) \<Rightarrow> nat) \<Rightarrow> (bytes \<times> nat) list
     \<Rightarrow> write_stream \<Rightarrow> write_stream res" where
  "send_all cb malloc [] s = Inr s"
| "send_all cb malloc ((p, k) # ps) s =
     bind_res (transfer malloc True (Wrote k) p (length p) s) (\<lambda>s.
     send_all cb malloc ps (uv__write_callbacks cb s))"

lemma addresses:
  assumes "fresh_alloc malloc" and "finite (dom (wheap s))"
  obtains p q where "malloc (wheap s) = p" "wheap s p = None"
    and "\<And>b. malloc ((wheap s)(p := Some b)) = q b" "\<And>b. wheap s (q b) = None" "\<And>b. q b \<noteq> p"
proof
  show "wheap s (malloc (wheap s)) = None" using assms by (simp add: fresh_alloc_def)
  fix b
  have "finite (dom ((wheap s)(malloc (wheap s) := Some b)))" using assms(2) by simp
  then have "((wheap s)(malloc (wheap s) := Some b)) (malloc ((wheap s)(malloc (wheap s) := Some b))) = None"
    using assms(1) by (simp only: fresh_alloc_def)
  then show "wheap s (malloc ((wheap s)(malloc (wheap s) := Some b))) = None"
    "malloc ((wheap s)(malloc (wheap s) := Some b)) \<noteq> malloc (wheap s)"
    by (auto split: if_splits)
qed simp_all

lemma transfer_at_once:
  assumes "idle s" and "fresh_alloc malloc" and "length p \<le> k"
  shows "\<exists>req s'. transfer malloc True (Wrote k) p (length p) s = Inr s'
    \<and> completed s' = [(\<lparr>wr_req = req, wr_base = malloc (wheap s), wr_off = 0, wr_len = 0\<rparr>, 0)]
    \<and> free_block req (s'\<lparr>completed := []\<rparr>) = s\<lparr>wire := wire s @ p\<rparr>"
proof -
  obtain a q where f: "malloc (wheap s) = a" "wheap s a = None" "\<And>b. malloc ((wheap s)(a := Some b)) = q b"
      "\<And>b. wheap s (q b) = None" "\<And>b. q b \<noteq> a"
    using addresses [OF assms(2)] assms(1) unfolding idle_def by metis
  have whole: "mslice p 0 (length p) = p" by (simp add: mslice_def)
  let ?req = "q (Data p)"
  let ?s = "s\<lparr>wheap := (wheap s)(a := None, ?req := Some WriteReq), wire := wire s @ p,
      completed := [(\<lparr>wr_req = ?req, wr_base = a, wr_off = 0, wr_len = 0\<rparr>, 0)]\<rparr>"
  have "transfer malloc True (Wrote k) p (length p) s = Inr ?s"
    using assms(1,3) f f(5) [symmetric]
    by (auto simp: transfer_def alloc_block_def uv_write_def uv__write_def block_read_def free_block_def idle_def
        mem_read_def whole Let_def fun_upd_twist min_def)
  moreover have "free_block ?req (?s\<lparr>completed := []\<rparr>) = s\<lparr>wire := wire s @ p\<rparr>"
    using assms(1) f by (cases s) (auto simp: free_block_def idle_def fun_eq_iff)
  ultimately show ?thesis using f(1) by (intro exI [of _ ?req] exI [of _ ?s]) simp
qed

context write_callback
begin

lemma prompt:
  assumes "fresh_alloc malloc"
  shows "idle s \<Longrightarrow> \<forall>(p, k)\<in>set ps. length p \<le> k \<Longrightarrow>
    send_all cb malloc ps s = Inr (s\<lparr>wire := wire s @ concat (map fst ps)\<rparr>)"
proof (induction ps arbitrary: s)
  case (Cons pk ps)
  obtain p k where pk: "pk = (p, k)" by (cases pk)
  obtain req s' where s': "transfer malloc True (Wrote k) p (length p) s = Inr s'"
      "completed s' = [(\<lparr>wr_req = req, wr_base = malloc (wheap s), wr_off = 0, wr_len = 0\<rparr>, 0)]"
      "free_block req (s'\<lparr>completed := []\<rparr>) = s\<lparr>wire := wire s @ p\<rparr>"
    using transfer_at_once [OF Cons.prems(1) assms, of p k] Cons.prems(2) pk by auto
  have "uv__write_callbacks cb s' = s\<lparr>wire := wire s @ p\<rparr>"
    using s'(2,3) by (cases s') (simp add: uv__write_callbacks_def cb_sent)
  moreover have "idle (s\<lparr>wire := wire s @ p\<rparr>)" using Cons.prems(1) by (simp add: idle_def)
  ultimately show ?case
    using Cons.IH [of "s\<lparr>wire := wire s @ p\<rparr>"] Cons.prems(2) s'(1) by (simp add: pk)
qed simp

end

interpretation to_logic: write_callback OnTransferToLogicServer
  by unfold_locales (simp add: OnTransferToLogicServer_def)

interpretation to_player: write_callback GatewayServer_OnTransferToClient
  by unfold_locales (simp add: GatewayServer_OnTransferToClient_def)

interpretation to_server: write_callback CenterServer_OnTransferToClient
  by unfold_locales (simp add: CenterServer_OnTransferToClient_def)

interpretation to_center: write_callback OnTransferToCenterServer
  by unfold_locales (simp add: OnTransferToCenterServer_def)

interpretation to_gateway: write_callback GameLogicServer_OnSendData
  by unfold_locales (simp add: GameLogicServer_OnSendData_def)

section \<open>A connection that does not\<close>






section \<open>Properties\<close>

text \<open>C14: as long as the system takes every packet whole at once, the gateway sends exactly the bytes of the
  packets in their order, and afterwards neither a block nor a request is left: one write is then the one event
  the other theories record.\<close>

theorem prompt_connection_gets_every_packet:
  assumes "fresh_alloc malloc" and "idle s" and "\<forall>(p, k)\<in>set ps. length p \<le> k"
  shows "send_all OnTransferToLogicServer malloc ps s = Inr (s\<lparr>wire := wire s @ concat (map fst ps)\<rparr>)
    \<and> send_all GatewayServer_OnTransferToClient malloc ps s = Inr (s\<lparr>wire := wire s @ concat (map fst ps)\<rparr>)
    \<and> send_all GameLogicServer_OnSendData malloc ps s = Inr (s\<lparr>wire := wire s @ concat (map fst ps)\<rparr>)
    \<and> send_all CenterServer_OnTransferToClient malloc ps s = Inr (s\<lparr>wire := wire s @ concat (map fst ps)\<rparr>)
    \<and> send_all OnTransferToCenterServer malloc ps s = Inr (s\<lparr>wire := wire s @ concat (map fst ps)\<rparr>)"
  using to_logic.prompt [OF assms] to_player.prompt [OF assms] to_gateway.prompt [OF assms]
    to_server.prompt [OF assms] to_center.prompt [OF assms] by blast


definition demo_malloc :: "(nat \<rightharpoonup> heap_block) \<Rightarrow> nat" where
  "demo_malloc h = Suc (Max (insert 0 (dom h)))"

lemma demo_malloc_fresh: "fresh_alloc demo_malloc"
proof (unfold fresh_alloc_def, intro allI impI)
  fix h :: "nat \<rightharpoonup> heap_block" assume "finite (dom h)"
  then have "n \<in> dom h \<Longrightarrow> n < demo_malloc h" for n by (simp add: demo_malloc_def less_Suc_eq_le)
  then show "h (demo_malloc h) = None" by (metis domIff less_irrefl)
qed

definition demo_stream :: write_stream where
  "demo_stream = \<lparr>wheap = Map.empty, write_queue = [], write_queue_size = 0, completed = [], connecting = False, wire = [],
     delayed_error = 0, stream_reading = True, read_partial = False, read_eof = False\<rparr>"

theorem prompt_connection_gets_every_packet_witness:
  "\<exists>s'. send_all OnTransferToLogicServer demo_malloc [([1, 2], 2), ([3], 4)] demo_stream = Inr s' \<and> wire s' = [1, 2, 3]
     \<and> wheap s' = Map.empty"
  using prompt_connection_gets_every_packet [OF demo_malloc_fresh, of demo_stream "[([1, 2], 2), ([3], 4)]"]
  by (simp add: demo_stream_def idle_def)



end
