(* ===== verification/KTimer.thy ===== *)
theory KTimer
  imports Prelude "HOL-Library.Signed_Division"
begin

text \<open>
  The stop watch \<^verbatim>\<open>KTimer\<close> (\<^verbatim>\<open>common/ktimer.cpp\<close>, the branch for systems other than Windows), with
  which the redis client measures its commands. What \<^verbatim>\<open>gettimeofday\<close> answers is an argument. The
  sums are those of a 64 bit \<^verbatim>\<open>long\<close>, the results are cut to the width of the return type.
\<close>

section \<open>State\<close>

record timeval =
  tv_sec :: int
  tv_usec :: int

record ktimer =
  m_nTimeStart :: timeval
  m_nTimeStop :: timeval

text \<open>The constructor leaves both times as they are in memory.\<close>

definition KTimer_new :: "timeval \<Rightarrow> timeval \<Rightarrow> ktimer" where
  "KTimer_new junk junk' = \<lparr>m_nTimeStart = junk, m_nTimeStop = junk'\<rparr>"

definition as_long :: "int \<Rightarrow> int res" where
  "as_long x = (if - (2 ^ 63) \<le> x \<and> x < 2 ^ 63 then Inr x else Inl SignedOverflow)"

section \<open>Operations\<close>

definition Start :: "timeval \<Rightarrow> ktimer \<Rightarrow> ktimer" where
  "Start now t = t\<lparr>m_nTimeStart := now\<rparr>"

definition Stop :: "timeval \<Rightarrow> ktimer \<Rightarrow> ktimer" where
  "Stop now t = t\<lparr>m_nTimeStop := now\<rparr>"

text \<open>The expression of three of the members; the division rounds towards zero.\<close>

definition milliseconds :: "timeval \<Rightarrow> timeval \<Rightarrow> int res" where
  "milliseconds tv start =
     bind_res (as_long (tv_sec tv - tv_sec start)) (\<lambda>sec.
     bind_res (as_long (sec * 1000)) (\<lambda>ms.
     bind_res (as_long (tv_usec tv - tv_usec start)) (\<lambda>usec.
     as_long (ms + usec sdiv 1000))))"

definition GetElapse :: "timeval \<Rightarrow> ktimer \<Rightarrow> u32 res" where
  "GetElapse tv t = bind_res (milliseconds tv (m_nTimeStart t)) (\<lambda>ms. Inr (word_of_int ms))"

definition GetElapseEx :: "timeval \<Rightarrow> ktimer \<Rightarrow> u64 res" where
  "GetElapseEx tv t = bind_res (milliseconds tv (m_nTimeStart t)) (\<lambda>ms. Inr (word_of_int ms))"

definition GetElapseFrequency :: u32 where
  "GetElapseFrequency = 0"

definition GetElapseMicrosecond :: "timeval \<Rightarrow> ktimer \<Rightarrow> u32 res" where
  "GetElapseMicrosecond tv t =
     bind_res (as_long (tv_sec tv - tv_sec (m_nTimeStart t))) (\<lambda>sec.
     bind_res (as_long (sec * 1000000)) (\<lambda>usec.
     bind_res (as_long (usec + tv_usec tv)) (\<lambda>usec.
     bind_res (as_long (usec - tv_usec (m_nTimeStart t))) (\<lambda>usec.
     Inr (word_of_int usec)))))"

definition GetInterval :: "ktimer \<Rightarrow> u32 res" where
  "GetInterval t = bind_res (milliseconds (m_nTimeStop t) (m_nTimeStart t)) (\<lambda>ms. Inr (word_of_int ms))"

text \<open>\<^verbatim>\<open>Passed\<close> asks for the time once more when it starts again; \<open>nTime\<close> is cast to unsigned.\<close>

definition Passed :: "u32 \<Rightarrow> timeval \<Rightarrow> timeval \<Rightarrow> ktimer \<Rightarrow> (bool \<times> ktimer) res" where
  "Passed nTime tv now t =
     bind_res (GetElapse tv t) (\<lambda>uElapse.
     if uElapse \<ge> nTime then Inr (True, Start now t) else Inr (False, t))"

section \<open>How exact the times are\<close>

text \<open>A time in microseconds, and the times a clock can have for thousands of years.\<close>

definition micros :: "timeval \<Rightarrow> int" where
  "micros tv = tv_sec tv * 1000000 + tv_usec tv"

definition clock :: "timeval \<Rightarrow> bool" where
  "clock tv \<longleftrightarrow> 0 \<le> tv_usec tv \<and> tv_usec tv < 1000000 \<and> \<bar>tv_sec tv\<bar> < 2 ^ 40"

lemma sdiv_1000: "x sdiv (1000::int) = (if x < 0 then - ((- x) div 1000) else x div 1000)"
  by (auto simp: signed_divide_int_def sgn_if)

lemma milliseconds_ok:
  assumes "clock tv" and "clock start"
  shows "\<exists>ms. milliseconds tv start = Inr ms \<and> \<bar>1000 * ms - (micros tv - micros start)\<bar> < 1000"
proof -
  define d where "d = tv_usec tv - tv_usec start"
  define s where "s = tv_sec tv - tv_sec start"
  have d: "\<bar>d\<bar> < 1000000" and s: "\<bar>s\<bar> < 2 ^ 41"
    using assms by (auto simp: clock_def d_def s_def)
  have div: "\<bar>1000 * (d sdiv 1000) - d\<bar> < 1000" "\<bar>d sdiv 1000\<bar> < 1000"
    using d by (simp_all add: sdiv_1000) linarith+
  have "milliseconds tv start = Inr (s * 1000 + d sdiv 1000)"
    using s d div(2) by (auto simp: milliseconds_def as_long_def s_def [symmetric] d_def [symmetric])
  moreover have "micros tv - micros start = s * 1000000 + d"
    by (simp add: micros_def s_def d_def algebra_simps)
  ultimately show ?thesis using div(1) by (intro exI [of _ "s * 1000 + d sdiv 1000"]) simp
qed

text \<open>What the results are, and how far from the truth.\<close>

lemma elapsed:
  assumes "clock tv" and "clock (m_nTimeStart t)"
    and "e = micros tv - micros (m_nTimeStart t)" and "0 \<le> e" and "e < (2 ^ 32 - 1) * 1000"
  obtains ms where "GetElapse tv t = Inr ms" "GetElapseEx tv t = Inr (ucast ms)" "GetInterval (Stop tv t) = Inr ms"
    and "\<bar>1000 * uint ms - e\<bar> < 1000"
proof -
  obtain ms where ms: "milliseconds tv (m_nTimeStart t) = Inr ms" "\<bar>1000 * ms - e\<bar> < 1000"
    using milliseconds_ok [OF assms(1,2)] by (auto simp: assms(3))
  have range: "0 \<le> ms" "ms < 2 ^ 32" using ms(2) assms(4,5) by simp_all
  then have u: "uint (word_of_int ms :: u32) = ms" by (simp add: uint_word_of_int)
  then have "ucast (word_of_int ms :: u32) = (word_of_int ms :: u64)" by (metis ucast_eq)
  then show ?thesis
    using that [of "word_of_int ms"] ms u
    by (simp add: GetElapse_def GetElapseEx_def GetInterval_def Stop_def)
qed

lemma microseconds:
  assumes "clock tv" and "clock (m_nTimeStart t)"
  shows "GetElapseMicrosecond tv t = Inr (word_of_int (micros tv - micros (m_nTimeStart t)))"
  using assms unfolding GetElapseMicrosecond_def as_long_def clock_def micros_def
  by (auto simp: algebra_simps)

text \<open>A timer set to a negative number of milliseconds waits for weeks.\<close>

lemma Passed_negative: "Passed (- 1) tv now t = Inr (True, t') \<Longrightarrow> GetElapse tv t = Inr (- 1)"
  by (auto simp: Passed_def bind_res_eq_Inr word_order.extremum_unique split: if_splits)

section \<open>Properties\<close>

text \<open>C31: between two times of a clock that does not run back, \<^verbatim>\<open>GetElapse\<close> and, for the time of \<^verbatim>\<open>Stop\<close>,
  \<^verbatim>\<open>GetInterval\<close> are less than a millisecond off, to either side, as long as the result fits 32
  bits, which is 49 days. So \<^verbatim>\<open>Passed\<close> fires at the latest when its time is over, but may fire up to a
  millisecond too early. \<^verbatim>\<open>GetElapseMicrosecond\<close> is exact modulo 2^32: it starts again after 71 minutes.\<close>

theorem timer_is_exact_to_a_millisecond:
  assumes "clock tv" and "clock (m_nTimeStart t)"
    and "e = micros tv - micros (m_nTimeStart t)" and "0 \<le> e" and "e < (2 ^ 32 - 1) * 1000"
  shows "\<exists>ms b t'. GetElapse tv t = Inr ms \<and> GetInterval (Stop tv t) = Inr ms \<and> \<bar>1000 * uint ms - e\<bar> < 1000
    \<and> Passed nTime tv now t = Inr (b, t') \<and> t' = (if b then Start now t else t)
    \<and> (b \<longrightarrow> 1000 * uint nTime - 1000 < e) \<and> (\<not> b \<longrightarrow> e < 1000 * uint nTime)
    \<and> GetElapseMicrosecond tv t = Inr (word_of_int e)"
proof -
  obtain ms where ms: "GetElapse tv t = Inr ms" "GetInterval (Stop tv t) = Inr ms" "\<bar>1000 * uint ms - e\<bar> < 1000"
    by (rule elapsed [OF assms])
  have "nTime \<le> ms \<longleftrightarrow> uint nTime \<le> uint ms" by (simp add: word_le_def)
  then show ?thesis
    using ms microseconds [OF assms(1,2)]
    by (intro exI [of _ ms] exI [of _ "nTime \<le> ms"] exI [of _ "if nTime \<le> ms then Start now t else t"])
      (auto simp: Passed_def assms(3))
qed

theorem timer_is_exact_to_a_millisecond_witness:
  "\<exists>ms b t'. GetElapse \<lparr>tv_sec = 1, tv_usec = 0\<rparr> \<lparr>m_nTimeStart = \<lparr>tv_sec = 0, tv_usec = 999500\<rparr>, m_nTimeStop = \<lparr>tv_sec = 0, tv_usec = 0\<rparr>\<rparr> = Inr ms
     \<and> \<bar>1000 * uint ms - 500\<bar> < 1000
     \<and> Passed 3 \<lparr>tv_sec = 1, tv_usec = 0\<rparr> \<lparr>tv_sec = 0, tv_usec = 0\<rparr> \<lparr>m_nTimeStart = \<lparr>tv_sec = 0, tv_usec = 999500\<rparr>, m_nTimeStop = \<lparr>tv_sec = 0, tv_usec = 0\<rparr>\<rparr> = Inr (b, t') \<and> \<not> b"
  using timer_is_exact_to_a_millisecond
    [of "\<lparr>tv_sec = 1, tv_usec = 0\<rparr>" "\<lparr>m_nTimeStart = \<lparr>tv_sec = 0, tv_usec = 999500\<rparr>, m_nTimeStop = \<lparr>tv_sec = 0, tv_usec = 0\<rparr>\<rparr>" 500 3 "\<lparr>tv_sec = 0, tv_usec = 0\<rparr>"]
  by (auto simp: clock_def micros_def)

end
