(* ===== verification/MessageOps.thy ===== *)
theory MessageOps
  imports PbMessage
begin

text \<open>
  The operations of \<^verbatim>\<open>google.Message\<close> beside parsing and serializing (\<^verbatim>\<open>protobuf/google.pb.cc\<close>):
  clearing, merging, copying, swapping and the access to the one field. Here the object has
  its has-bits, the pointer to its text, the unknown fields and the cached size; the message of
  \<^verbatim>\<open>PbMessage\<close> is a view of it.
\<close>

section \<open>The object\<close>

text \<open>\<open>data_ptr\<close> is \<open>None\<close> while the pointer is that of the shared empty string.\<close>

record 'u message_object =
  has_bits :: u32
  data_ptr :: "bytes option"
  unknown_fields :: "'u list"
  cached_size :: u32

definition text_of :: "bytes option \<Rightarrow> bytes" where
  "text_of p = (case p of None \<Rightarrow> [] | Some s \<Rightarrow> s)"

definition Message_new :: "'u message_object" where
  "Message_new = \<lparr>has_bits = 0, data_ptr = None, unknown_fields = [], cached_size = 0\<rparr>"

section \<open>The field\<close>

unbundle bit_operations_syntax

definition Message_has_data :: "'u message_object \<Rightarrow> bool" where
  "Message_has_data m \<longleftrightarrow> has_bits m AND 1 \<noteq> 0"

definition set_has_data :: "'u message_object \<Rightarrow> 'u message_object" where
  "set_has_data m = m\<lparr>has_bits := has_bits m OR 1\<rparr>"

definition clear_has_data :: "'u message_object \<Rightarrow> 'u message_object" where
  "clear_has_data m = m\<lparr>has_bits := has_bits m AND NOT 1\<rparr>"

definition Message_data :: "'u message_object \<Rightarrow> bytes" where
  "Message_data m = text_of (data_ptr m)"

definition ClearToEmptyNoArena :: "bytes option \<Rightarrow> bytes option" where
  "ClearToEmptyNoArena p = (case p of None \<Rightarrow> None | Some s \<Rightarrow> Some [])"

definition clear_data :: "'u message_object \<Rightarrow> 'u message_object" where
  "clear_data m = clear_has_data (m\<lparr>data_ptr := ClearToEmptyNoArena (data_ptr m)\<rparr>)"

definition Message_set_data :: "bytes \<Rightarrow> 'u message_object \<Rightarrow> 'u message_object" where
  "Message_set_data value m = (set_has_data m)\<lparr>data_ptr := Some value\<rparr>"

definition set_data_chars :: "bytes \<Rightarrow> 'u message_object \<Rightarrow> 'u message_object res" where
  "set_data_chars value m = bind_res (c_string value) (\<lambda>s. Inr (Message_set_data s m))"

definition set_data_sized :: "bytes \<Rightarrow> nat \<Rightarrow> 'u message_object \<Rightarrow> 'u message_object res" where
  "set_data_sized value n m = bind_res (mem_read value 0 n) (\<lambda>s. Inr (Message_set_data s m))"

text \<open>\<open>f\<close> is what the caller does with the text it gets the address of.\<close>

definition mutable_data :: "(bytes \<Rightarrow> bytes) \<Rightarrow> 'u message_object \<Rightarrow> 'u message_object" where
  "mutable_data f m = (set_has_data m)\<lparr>data_ptr := Some (f (text_of (data_ptr m)))\<rparr>"

definition release_data :: "'u message_object \<Rightarrow> bytes option \<times> 'u message_object" where
  "release_data m = (data_ptr m, (clear_has_data m)\<lparr>data_ptr := None\<rparr>)"

definition set_allocated_data :: "bytes option \<Rightarrow> 'u message_object \<Rightarrow> 'u message_object" where
  "set_allocated_data data m =
     (case data of
        Some s \<Rightarrow> (set_has_data m)\<lparr>data_ptr := Some s\<rparr>
      | None \<Rightarrow> (clear_has_data m)\<lparr>data_ptr := None\<rparr>)"

section \<open>Whole messages\<close>

definition Message_Clear :: "'u message_object \<Rightarrow> 'u message_object" where
  "Message_Clear m =
     (let m = (if Message_has_data m then m\<lparr>data_ptr := ClearToEmptyNoArena (data_ptr m)\<rparr> else m) in
      m\<lparr>has_bits := 0, unknown_fields := []\<rparr>)"

text \<open>An assignment between two shared empty strings changes nothing.\<close>

definition AssignWithDefault :: "bytes option \<Rightarrow> bytes option \<Rightarrow> bytes option" where
  "AssignWithDefault value me = (if me = None \<and> value = None then None else Some (text_of value))"

definition UnsafeMergeFrom :: "'u message_object \<Rightarrow> 'u message_object \<Rightarrow> 'u message_object" where
  "UnsafeMergeFrom source m =
     (let m = (if has_bits source AND 255 \<noteq> 0 \<and> Message_has_data source
               then (set_has_data m)\<lparr>data_ptr := AssignWithDefault (data_ptr source) (data_ptr m)\<rparr> else m) in
      m\<lparr>unknown_fields := unknown_fields m @ unknown_fields source\<rparr>)"

text \<open>\<open>same\<close>: both are one object; merging a message into itself ends the process.\<close>

definition MergeFrom :: "bool \<Rightarrow> 'u message_object \<Rightarrow> 'u message_object \<Rightarrow> 'u message_object res" where
  "MergeFrom same source m = (if same then Inl (ProcessExit 134) else Inr (UnsafeMergeFrom source m))"

definition Message_copy :: "'u message_object \<Rightarrow> 'u message_object" where
  "Message_copy source = UnsafeMergeFrom source Message_new"

definition CopyFrom :: "bool \<Rightarrow> 'u message_object \<Rightarrow> 'u message_object \<Rightarrow> 'u message_object" where
  "CopyFrom same source m = (if same then m else UnsafeMergeFrom source (Message_Clear m))"

definition InternalSwap :: "'u message_object \<times> 'u message_object \<Rightarrow> 'u message_object \<times> 'u message_object" where
  "InternalSwap x =
     (case x of (m, other) \<Rightarrow>
        (\<lparr>has_bits = has_bits other, data_ptr = data_ptr other, unknown_fields = unknown_fields other, cached_size = cached_size other\<rparr>,
         \<lparr>has_bits = has_bits m, data_ptr = data_ptr m, unknown_fields = unknown_fields m, cached_size = cached_size m\<rparr>))"

definition Swap :: "bool \<Rightarrow> 'u message_object \<times> 'u message_object \<Rightarrow> 'u message_object \<times> 'u message_object" where
  "Swap same x = (if same then x else InternalSwap x)"

definition SetCachedSize :: "u32 \<Rightarrow> 'u message_object \<Rightarrow> 'u message_object" where
  "SetCachedSize n m = m\<lparr>cached_size := n\<rparr>"

text \<open>The variant that writes to a stream; \<open>field\<close> is how the library writes an unknown field.\<close>

definition SerializeWithCachedSizes :: "('u \<Rightarrow> bytes) \<Rightarrow> 'u message_object \<Rightarrow> bytes \<Rightarrow> bytes" where
  "SerializeWithCachedSizes field m output =
     (let output = (if Message_has_data m then output @ WriteStringToArray (Message_data m) else output) in
      output @ concat (map field (unknown_fields m)))"

section \<open>The view as a message\<close>

definition as_message :: "'u message_object \<Rightarrow> message" where
  "as_message m = \<lparr>has_data = Message_has_data m, msg_data = Message_data m\<rparr>"

text \<open>A field that is not there reads as the empty text.\<close>

definition message_ok :: "'u message_object \<Rightarrow> bool" where
  "message_ok m \<longleftrightarrow> (Message_has_data m \<or> Message_data m = [])"

lemma has_data_odd: "Message_has_data m \<longleftrightarrow> odd (has_bits m)"
  by (simp add: Message_has_data_def and_one_eq odd_iff_mod_2_eq_one)

lemma has_bits_simps [simp]:
  "Message_has_data (set_has_data m)" "\<not> Message_has_data (clear_has_data m)"
  "data_ptr (set_has_data m) = data_ptr m" "data_ptr (clear_has_data m) = data_ptr m"
  "unknown_fields (set_has_data m) = unknown_fields m"
  "Message_has_data (m\<lparr>data_ptr := d\<rparr>) = Message_has_data m" "Message_has_data (m\<lparr>unknown_fields := u\<rparr>) = Message_has_data m"
  "\<not> Message_has_data (m\<lparr>has_bits := 0\<rparr>)" "\<not> Message_has_data Message_new"
  by (simp_all add: has_data_odd set_has_data_def clear_has_data_def Message_new_def even_or_iff even_and_iff)

lemma has_data_any: "Message_has_data m \<Longrightarrow> has_bits m AND 255 \<noteq> 0"
proof
  assume "Message_has_data m" "has_bits m AND 255 = 0"
  then have "even (has_bits m AND 255)" "odd (has_bits m)" by (simp_all add: has_data_odd)
  then show False by (simp add: even_and_iff)
qed

text \<open>Every operation keeps the invariant, and clearing, copying and merging are what their names say.\<close>

named_theorems message_ops \<open>the operations of a message\<close>

lemmas message_definitions [message_ops] =
  as_message_def message_ok_def Message_data_def Message_set_data_def mutable_data_def release_data_def set_allocated_data_def
  clear_data_def ClearToEmptyNoArena_def Message_Clear_def text_of_def Let_def set_data_def new_message_def

lemma merge_view: "as_message (UnsafeMergeFrom source m) =
    (if Message_has_data source then as_message source else as_message m)"
  using has_data_any [of source]
  by (auto simp: UnsafeMergeFrom_def message_ops AssignWithDefault_def split: option.splits)

lemma ops_view:
  "as_message Message_new = new_message"
  "as_message (Message_set_data v m) = set_data v (as_message m)"
  "as_message (mutable_data f m) = set_data (f (Message_data m)) (as_message m)"
  "as_message (clear_data m) = new_message"
  "as_message (snd (release_data m)) = new_message"
  "as_message (set_allocated_data d m) = (case d of None \<Rightarrow> new_message | Some s \<Rightarrow> set_data s (as_message m))"
  "message_ok m \<Longrightarrow> as_message (Message_Clear m) = new_message"
  "as_message (fst (InternalSwap (m, source))) = as_message source" "as_message (snd (InternalSwap (m, source))) = as_message m"
  unfolding InternalSwap_def
  by (auto simp: message_ops split: option.splits) (simp_all add: has_data_odd Message_new_def)

lemma message_ok_view: "message_ok m \<longleftrightarrow> has_data (as_message m) \<or> msg_data (as_message m) = []"
  by (simp add: message_ok_def as_message_def)

lemma message_ok_ops:
  assumes "message_ok m" and "message_ok source"
  shows "message_ok Message_new" "message_ok (Message_set_data v m)" "message_ok (mutable_data f m)" "message_ok (clear_data m)"
    "message_ok (snd (release_data m))" "message_ok (set_allocated_data d m)" "message_ok (Message_Clear m)"
    "message_ok (UnsafeMergeFrom source m)" "message_ok (CopyFrom same source m)"
  using assms merge_view [of source m]
  by (auto simp: message_ok_view ops_view CopyFrom_def merge_view set_data_def new_message_def split: option.splits)

lemma absent_view: "message_ok m \<Longrightarrow> \<not> Message_has_data m \<Longrightarrow> as_message m = new_message"
  by (simp add: as_message_def message_ok_def new_message_def)

lemma copy_view: "message_ok m \<Longrightarrow> message_ok source \<Longrightarrow> as_message (CopyFrom False source m) = as_message source"
  using absent_view [of source] by (simp add: CopyFrom_def merge_view ops_view)

section \<open>Parsing what was written\<close>

text \<open>
  An unknown field as the library writes it: a tag that is neither that of \<^verbatim>\<open>data\<close> nor the end of a
  group, and a body that the library skips.
\<close>

definition skipped :: "(u32 \<Rightarrow> bytes \<Rightarrow> bytes option) \<Rightarrow> bytes \<Rightarrow> bool" where
  "skipped skip_field w \<longleftrightarrow> (\<exists>tag body. w = write_varint (unat tag) @ body \<and> tag \<noteq> 0 \<and> tag \<noteq> 10 \<and> unat tag mod 8 \<noteq> 4
     \<and> (\<forall>rest. skip_field tag (body @ rest) = Some rest))"

text \<open>A piece of input that the parser takes in \<open>n\<close> rounds and that changes the message by \<open>f\<close>.\<close>

definition takes :: "(u32 \<Rightarrow> bytes \<Rightarrow> bytes option) \<Rightarrow> nat \<Rightarrow> bytes \<Rightarrow> (message \<Rightarrow> message) \<Rightarrow> bool" where
  "takes skip_field n w f \<longleftrightarrow> n \<le> length w \<and>
     (\<forall>fuel rest m. MergePartialFromCodedStream skip_field (Suc (fuel + n)) (w @ rest) m =
        MergePartialFromCodedStream skip_field (Suc fuel) rest (f m))"

lemma takes_Nil: "takes skip_field 0 [] id"
  by (simp add: takes_def)

lemma takes_append: "takes skip_field k w f \<Longrightarrow> takes skip_field n v g \<Longrightarrow> takes skip_field (k + n) (w @ v) (g \<circ> f)"
proof -
  assume "takes skip_field k w f" "takes skip_field n v g"
  moreover from this have "MergePartialFromCodedStream skip_field (Suc (fuel + (k + n))) (w @ v @ rest) m =
      MergePartialFromCodedStream skip_field (Suc (fuel + n)) (v @ rest) (f m)" for fuel rest m
    unfolding takes_def by (metis add.assoc add.commute)
  ultimately show ?thesis by (simp add: takes_def add_mono del: MergePartialFromCodedStream.simps)
qed

lemma takes_string:
  assumes "length s < 2 ^ 31"
  shows "takes skip_field 1 (WriteStringToArray s) (set_data s)"
proof -
  have "MergePartialFromCodedStream skip_field (Suc (Suc fuel)) (WriteStringToArray s @ rest) m =
      MergePartialFromCodedStream skip_field (Suc fuel) rest (set_data s m)" for fuel rest m
    using ReadString_write [OF assms, of rest]
    by (cases rest) (simp_all add: WriteStringToArray_def ReadTag_Cons, simp add: ReadTag_def)
  then show ?thesis
    by (simp add: takes_def WriteStringToArray_def del: MergePartialFromCodedStream.simps)
qed

lemma takes_unknown:
  assumes "skipped skip_field w"
  shows "takes skip_field 1 w id"
proof -
  obtain tag body where w: "w = write_varint (unat tag) @ body" "tag \<noteq> 0" "tag \<noteq> 10" "unat tag mod 8 \<noteq> 4"
    and skip: "skip_field tag (body @ rest) = Some rest" for rest
    using assms by (auto simp: skipped_def)
  have "unat tag < 128 ^ 10" using unsigned_less [of tag, where 'a = nat] by simp
  then have "read_varint 10 (w @ rest) = Some (unat tag, body @ rest)" for rest
    using read_write_varint10 [of "unat tag" "body @ rest"] w(1) by simp
  moreover have ne: "w \<noteq> []" using w(1) by (simp add: write_varint.simps [of "unat tag"])
  ultimately have "ReadTag (w @ rest) = (tag, body @ rest, False)" for rest by (simp add: ReadTag_def)
  then show ?thesis
    using w skip ne by (auto simp: takes_def Suc_le_eq)
qed

lemma takes_fields:
  "\<forall>u \<in> set us. skipped skip_field (field u) \<Longrightarrow> takes skip_field (length us) (concat (map field us)) id"
proof (induction us)
  case (Cons u us)
  then show ?case
    using takes_append [OF takes_unknown [of skip_field "field u"], of "length us" "concat (map field us)" id] by (simp add: id_def comp_def)
qed (simp add: takes_Nil)

text \<open>The message that a serialized object makes of another one.\<close>

definition merged :: "'u message_object \<Rightarrow> message \<Rightarrow> message" where
  "merged a m = (if Message_has_data a then set_data (Message_data a) m else m)"

lemma takes_object:
  assumes "length (Message_data a) < 2 ^ 31" and "\<forall>u \<in> set (unknown_fields a). skipped skip_field (field u)"
  shows "\<exists>n. takes skip_field n (SerializeWithCachedSizes field a []) (merged a)"
proof -
  have m: "merged a = (if Message_has_data a then set_data (Message_data a) else id)"
    by (rule ext) (simp add: merged_def)
  show ?thesis
    using takes_fields [OF assms(2)] takes_append [OF takes_string [OF assms(1)] takes_fields [OF assms(2)]]
    by (auto simp: SerializeWithCachedSizes_def m)
qed

lemma parse_takes:
  assumes "takes skip_field n w f"
  shows "ParseFromArray skip_field w = (if has_data (f new_message) then Some (msg_data (f new_message)) else None)"
proof -
  have "MergePartialFromCodedStream skip_field (Suc (length w - n + n)) (w @ []) new_message =
      MergePartialFromCodedStream skip_field (Suc (length w - n)) [] (f new_message)"
    using assms by (simp only: takes_def)
  moreover have "length w - n + n = length w" using assms by (simp add: takes_def)
  ultimately show ?thesis by (simp add: ParseFromArray_def IsInitialized_def ReadTag_def)
qed

section \<open>Properties\<close>

text \<open>C26: the serializations of two messages, with the fields they do not know, one after the other parse as
  the merge of the second into a copy of the first, and fail to parse exactly if neither has the required field.
  Of the unknown fields it is assumed that the library skips what it wrote for them.\<close>

theorem concatenation_is_merge:
  assumes "length (Message_data a) < 2 ^ 31" and "length (Message_data b) < 2 ^ 31"
    and "\<forall>u \<in> set (unknown_fields a @ unknown_fields b). skipped skip_field (field u)"
  shows "ParseFromArray skip_field (SerializeWithCachedSizes field b (SerializeWithCachedSizes field a [])) =
      (let m = as_message (UnsafeMergeFrom b (Message_copy a)) in if IsInitialized m then Some (msg_data m) else None)"
proof -
  have ser: "SerializeWithCachedSizes field b (SerializeWithCachedSizes field a []) =
      SerializeWithCachedSizes field a [] @ SerializeWithCachedSizes field b []"
    by (simp add: SerializeWithCachedSizes_def Let_def)
  obtain k n where "takes skip_field k (SerializeWithCachedSizes field a []) (merged a)"
    "takes skip_field n (SerializeWithCachedSizes field b []) (merged b)"
    using takes_object [OF assms(1), of skip_field field] takes_object [OF assms(2), of skip_field field] assms(3) by auto
  note parse = parse_takes [OF takes_append [OF this]]
  have "as_message (UnsafeMergeFrom b (Message_copy a)) =
      (if Message_has_data b then as_message b else if Message_has_data a then as_message a else new_message)"
    by (simp add: Message_copy_def merge_view ops_view)
  then show ?thesis
    unfolding ser parse by (simp add: merged_def as_message_def IsInitialized_def set_data_def new_message_def)
qed

text \<open>The second message has an unknown field with number 2 and the value 5.\<close>

theorem concatenation_is_merge_witness:
  "ParseFromArray (\<lambda>_ bs. Some (drop 1 bs)) (SerializeWithCachedSizes (\<lambda>_. [16, 5])
     ((Message_set_data [3] Message_new)\<lparr>unknown_fields := [()]\<rparr>)
     (SerializeWithCachedSizes (\<lambda>_. [16, 5]) (Message_set_data [1, 2] (Message_new :: unit message_object)) [])) = Some [3]"
proof -
  have "skipped (\<lambda>_ bs. Some (drop 1 bs)) [16, 5]"
    unfolding skipped_def by (rule exI [of _ 16], rule exI [of _ "[5]"]) (simp add: write_varint.simps)
  moreover have "Message_has_data (Message_set_data v m)" "Message_data (Message_set_data v m) = v"
    "unknown_fields (Message_set_data v m) = unknown_fields m" "unknown_fields (Message_new :: unit message_object) = []"
    "Message_data (m\<lparr>unknown_fields := u\<rparr>) = Message_data m" for v and m :: "unit message_object" and u
    by (simp_all add: Message_set_data_def Message_data_def text_of_def Message_new_def)
  moreover have "as_message (m\<lparr>unknown_fields := u\<rparr>) = as_message m" for m :: "unit message_object" and u
    by (simp add: as_message_def Message_data_def)
  ultimately show ?thesis
    using concatenation_is_merge [of "Message_set_data [1, 2] (Message_new :: unit message_object)"
        "(Message_set_data [3] Message_new)\<lparr>unknown_fields := [()]\<rparr>" "\<lambda>_ bs. Some (drop 1 bs)" "\<lambda>_. [16, 5]"]
    by (simp add: merge_view ops_view IsInitialized_def set_data_def Let_def)
qed

end
