(* ===== verification/Spec2Isabelle.thy ===== *)
theory Spec2Isabelle
  imports ScriptedLogic LoginScript Layouts Objects AsyncWrite KTimer MessageOps
begin

text \<open>
  A verification library of the game server framework: gateway, center and logic server,
  written in C++ on libuv, with Lua scripts and a database proxy for redis and mysql.

  \<^bold>\<open>The program.\<close> Players connect to the gateway (\<^verbatim>\<open>gateway/main.cpp\<close>). Everything on a connection is a
  stream of packets: a header of 20 bytes (\<^verbatim>\<open>common/net_buffer.hpp\<close>) and a protobuf message with one
  string (\<^verbatim>\<open>protobuf/google.pb.cc\<close>). The gateway stamps the id of the session into a player's packet
  and forwards it to the server the packet names. A logic server (\<^verbatim>\<open>logic/main.cpp\<close>) runs a script
  for every packet; the script answers through the gateway, sends to other servers through the
  center (\<^verbatim>\<open>center/main.cpp\<close>), at which the servers register their type, and queues requests to the
  database. A worker thread sends these to redis (\<^verbatim>\<open>db_proxy/redis_client.cpp\<close>), passes changes on to
  the worker of mysql (\<^verbatim>\<open>db_proxy/mysql_client.cpp\<close>) and queues the responses, which the game thread
  hands to the script. All addresses come from \<^verbatim>\<open>config.json\<close>.

  \<^bold>\<open>Conventions.\<close> An operation that may fault returns \<open>fault + 'a\<close> (theory \<^verbatim>\<open>Prelude\<close>): an access outside a
  block, through a null pointer or to freed memory, an overflow of a signed integer, a call of
  \<^verbatim>\<open>exit\<close> and the use of all fuel are values. A block of memory is the list of its bytes; what
  \<^verbatim>\<open>malloc\<close> leaves in it is an argument of type \<open>junk\<close>. Machine integers are words. Objects are records,
  classes that derive from others are records that extend them. What a process asks libuv to do is
  appended to its list \<open>uv_calls\<close>; what libuv, hiredis, the mysql library, Lua, the JSON parser, the
  clock and the allocator do is an argument. Only \<^verbatim>\<open>AsyncWrite\<close> looks into libuv. The theories of the
  C++ layer also take the scripts as an argument; the theories of the scripts give it a value: a function
  of a script is a HOL function of the global tables that returns the calls it made to the C++ layer, an
  error or a result, and the new tables (\<open>lua\<close> in \<^verbatim>\<open>LuaScript\<close>). Values of scripts are trees: a table is its
  list part and its fields, and variables that hold one table hold equal trees, which is enough where the
  scripts only read a table they share; the objects of users, which they change, are references. A number is an
  integer: the numbers of the modelled scripts are ids, codes and counts far below \<open>2 ^ 53\<close>, where doubles are exact. The JSON library, \<^verbatim>\<open>tostring\<close> and the
  constants of \<^verbatim>\<open>dev_share\<close>, which is a missing submodule, are fields of the record \<open>script_env\<close> and its
  extensions.
  Where a connection is closed, gateway and center read an iterator whose element was just erased. What such a
  read gives is not defined in C++: the step takes it as a function \<open>stale\<close> of the erased value, and the runs of
  a server let each read be any function of a set \<open>reads\<close>, about which nothing is assumed. \<open>exact_reads reads\<close> says that
  all give the erased value; the theorems say what holds in any case and what needs this.

  \<^bold>\<open>Theories and the code they model.\<close>
  \<^item> \<^verbatim>\<open>NetBuffer\<close>: \<^verbatim>\<open>common/net_buffer.cpp\<close>, the header of packets, getters, \<^verbatim>\<open>CreateNetBuffer\<close>, the stamp.
  \<^item> \<^verbatim>\<open>PbMessage\<close>: \<^verbatim>\<open>protobuf/google.pb.cc\<close>, parsing, serializing and sizing of the message;
    \<^verbatim>\<open>MessageOps\<close>: its other operations, on the object with has-bits and unknown fields.
  \<^item> \<^verbatim>\<open>KgBuffer\<close>: \<^verbatim>\<open>common/db_buffer.cpp\<close> and \<^verbatim>\<open>common/kg_interlockedvariable.h\<close>, buffers with reference counts.
  \<^item> \<^verbatim>\<open>NetPacket\<close>: \<^verbatim>\<open>common/knetpacket.cpp\<close>, the object that assembles packets; \<open>frames\<close> is the specification
    of cutting a stream into packets, \<open>pk_ok\<close> the invariant of the object.
  \<^item> \<^verbatim>\<open>RecvLoop\<close>: the receive loop that \<^verbatim>\<open>TCPSession::ProcessNetData\<close>,
    \<^verbatim>\<open>TCPSession::CenterServerProcessNetData\<close>, \<^verbatim>\<open>GatewayClient\<close>, \<^verbatim>\<open>CenterClient\<close> and \<^verbatim>\<open>GameLogicServer\<close> share,
    with the handler of a packet as argument; it delivers exactly the frames of the stream.
  \<^item> \<^verbatim>\<open>TcpBase\<close>: \<^verbatim>\<open>tcp/tcp_base_server.cpp\<close> and the data of \<^verbatim>\<open>tcp/tcp_session.cpp\<close>; the invariant \<open>table_ok\<close>
    of the session table and the contract \<open>session_server\<close> of servers that keep it.
  \<^item> \<^verbatim>\<open>SessionStream\<close>: the contract of servers that treat the stream of a session packet by packet.
  \<^item> \<^verbatim>\<open>Gateway\<close>: \<^verbatim>\<open>tcp/gateway_server.cpp\<close>, \<^verbatim>\<open>tcp/gateway_client.cpp\<close> and \<^verbatim>\<open>ProcessNetData\<close> of \<^verbatim>\<open>tcp/tcp_session.cpp\<close>.
  \<^item> \<^verbatim>\<open>LuaEngine\<close>: \<^verbatim>\<open>vm/lua_engine.cpp\<close>, how scripts are called, with the stack of the Lua state.
  \<^item> \<^verbatim>\<open>LuaNet\<close>: \<^verbatim>\<open>vm/lua_net.cpp\<close>, the network functions of the scripts.
  \<^item> \<^verbatim>\<open>Center\<close>: \<^verbatim>\<open>tcp/center_server.cpp\<close> and \<^verbatim>\<open>CenterServerProcessNetData\<close>.
  \<^item> \<^verbatim>\<open>TcpClient\<close>: \<^verbatim>\<open>tcp/tcp_client.cpp\<close> and \<^verbatim>\<open>tcp/center_client.cpp\<close>.
  \<^item> \<^verbatim>\<open>LogicServer\<close>: \<^verbatim>\<open>tcp/game_logic_server.cpp\<close>, the callbacks of the center client, \<^verbatim>\<open>logic/main.cpp\<close>.
  \<^item> \<^verbatim>\<open>DbRequest\<close>: \<^verbatim>\<open>common/krequest_def.h\<close> and the functions of \<^verbatim>\<open>common/db_buffer.cpp\<close> that build requests.
  \<^item> \<^verbatim>\<open>DbClient\<close>: \<^verbatim>\<open>db_proxy/db_client.cpp\<close>, queues, worker and shutdown, shared by both databases; the
    contracts \<open>fifo\<close> and \<open>db_worker\<close>.
  \<^item> \<^verbatim>\<open>DbThreads\<close>: the same loops step by step, as threads that can be interrupted run them.
  \<^item> \<^verbatim>\<open>RedisClient\<close>: \<^verbatim>\<open>db_proxy/redis_client.cpp\<close>; \<^verbatim>\<open>LuaRedis\<close>: \<^verbatim>\<open>vm/lua_redis.cpp\<close>.
  \<^item> \<^verbatim>\<open>MysqlClient\<close> and \<^verbatim>\<open>MysqlRequests\<close>: \<^verbatim>\<open>db_proxy/mysql_client.cpp\<close>, the statements and their loops, and
    the handlers of requests.
  \<^item> \<^verbatim>\<open>Ownership\<close>: who holds which buffer, and that every database operation respects it.
  \<^item> \<^verbatim>\<open>LogicProcess\<close>: \<^verbatim>\<open>db_proxy/db_client_manager.cpp\<close> and the game thread with both workers, in every
    interleaving (\<open>run_actions\<close>); \<open>proc_ok\<close> is its invariant.
  \<^item> \<^verbatim>\<open>KTimer\<close>: \<^verbatim>\<open>common/ktimer.cpp\<close>, the stop watch.
  \<^item> \<^verbatim>\<open>AsyncWrite\<close>: what becomes of a packet after \<^verbatim>\<open>uv_write\<close>, with the blocks and requests of the heap
    and the write queue of libuv (\<^verbatim>\<open>third_party/libuv/src/unix/stream.c\<close>); the contract \<open>write_callback\<close>.
  \<^item> \<^verbatim>\<open>Startup\<close>: \<^verbatim>\<open>util\<close>, \<^verbatim>\<open>gateway/main.cpp\<close>, \<^verbatim>\<open>server/main.cpp\<close>, the \<^verbatim>\<open>Init\<close> functions that read the
    configuration, start and end of the database clients.
  \<^item> \<^verbatim>\<open>System\<close>: the processes together.
  \<^item> \<^verbatim>\<open>Layouts\<close>: the structures of \<^verbatim>\<open>common/krequest_def.h\<close> and \<^verbatim>\<open>common/db_def.h\<close>, with sizes and offsets
    by the layout rules of the compiler; the constants of the other theories are these offsets.
  \<^item> \<^verbatim>\<open>Objects\<close>: the allocation callbacks, \<^verbatim>\<open>center/main.cpp\<close>, the end of the manager of the databases, the dump
    of the Lua stack.
  \<^item> \<^verbatim>\<open>LuaScript\<close>: \<^verbatim>\<open>script/manager/event_manager.lua\<close>, \<^verbatim>\<open>script/manager/net_manager.lua\<close> and
    \<^verbatim>\<open>script/module/protocol.lua\<close>: events, sessions, the queue of requests, the entry points.
  \<^item> \<^verbatim>\<open>CenterScript\<close>: \<^verbatim>\<open>script/center_logic\<close> and \<^verbatim>\<open>script/module/center_protocol.lua\<close>, run by the center.
  \<^item> \<^verbatim>\<open>LogicScript\<close>: \<^verbatim>\<open>script/manager\<close> and \<^verbatim>\<open>script/module/logic_protocol.lua\<close>, and what runs of them do to the
    sessions (\<open>script_step\<close>, refined to \<open>session_move\<close>); \<^verbatim>\<open>ScriptedLogic\<close>: the logic server and the gateway with
    these scripts.
  \<^item> \<^verbatim>\<open>LoginScript\<close>: the request of \<^verbatim>\<open>script/module/login_protocol.lua\<close>.

  \<^bold>\<open>What the theorems show.\<close> A packet that is built is read back, sent in pieces of any size it arrives as
  it was built, and a message is parsed back (\<^verbatim>\<open>NetBuffer\<close>, \<^verbatim>\<open>RecvLoop\<close>, \<^verbatim>\<open>PbMessage\<close>). In every reachable
  state of the gateway ids lead to their owner, a player cannot send under another id, and a reply
  reaches only the owner of its id, or a connection that was closed if reads of erased elements go wrong
  (\<^verbatim>\<open>Gateway\<close>). The same holds for what the center writes (\<^verbatim>\<open>Center\<close>). A request travels from the player through gateway, logic server and
  script and its answer back to this player; a server that connects becomes reachable (\<^verbatim>\<open>System\<close>). The
  queues of the database are first in, first out, the worker handles all requests in order, a get
  comes back to the script with the value of redis, a set becomes one redis command and one escaped
  insert statement (\<^verbatim>\<open>DbClient\<close>, \<^verbatim>\<open>LuaRedis\<close>, \<^verbatim>\<open>MysqlRequests\<close>). However the three threads of the logic
  process are interleaved, no buffer is used after it was freed or is in two places, and a script is
  called back with what it asked for (\<^verbatim>\<open>LogicProcess\<close>). Packets are sent as they are as long as the
  system takes them whole at once, and read from freed memory otherwise (\<^verbatim>\<open>AsyncWrite\<close>). The gateway
  listens and connects as its configuration says (\<^verbatim>\<open>Startup\<close>), the stop watch is exact to a millisecond (\<^verbatim>\<open>KTimer\<close>),
  and messages that follow each other parse as their merge (\<^verbatim>\<open>MessageOps\<close>). With the scripts of the
  repository, a server that connects to the center is registered there unless its type already was (\<^verbatim>\<open>CenterScript\<close>), a request of a
  player is answered with what the method returned, unless this is put off (\<^verbatim>\<open>ScriptedLogic\<close>), and no two connections belong to one
  user (\<^verbatim>\<open>LogicScript\<close>); a player can log out another, and some requests get no answer or that of an
  earlier one (\<^verbatim>\<open>ScriptedLogic\<close>, \<^verbatim>\<open>LoginScript\<close>). The other theorems say exactly when the code
  fails: which lengths and names overrun a buffer, which loops do not end, which packets stop a
  server, and what survives of a lost connection.

  \<^bold>\<open>Bounds and fuel.\<close> The receive loop has one unit of fuel for each byte of the input; every round of a
  well-formed stream consumes at least one, so the fuel is enough (\<open>recv_loop_delivers\<close>). For a
  length field below 4 the model ends in \<open>HeapOverflow\<close> (\<open>bad_length_corrupts_heap\<close>); should a process survive this,
  no fuel is enough for the next byte (\<open>short_length_never_ends\<close>). The worker loop
  needs one unit more than there are queued requests. The loops that wait for a database have the
  fuel as a parameter: the theorems say from which fuel on they return, or that they return for none.
  Texts of scripts are below 2 GB where a size is computed in 32 bits.

  \<^bold>\<open>Interleaving.\<close> In \<^verbatim>\<open>LogicProcess\<close> a step of a worker is a pop of the queue (guarded by its mutex), the
  handling of one request, or a release with the test of the run flag; a step of the game thread is
  the same for a response, or a whole callback of libuv with the scripts it runs. A handler gives up its own
  reference to a response in the step that queues it. The run flag is set for as long as the threads
  run: only \<^verbatim>\<open>UnInit\<close> clears it, which joins the thread before it touches the queues.

  \<^bold>\<open>Not modelled.\<close> Skipping of unknown protobuf fields is a parameter, because the library is not part
  of the repository; the generated descriptors and reflection of \<^verbatim>\<open>google.pb.cc\<close> are not used by the
  servers. The logging macros of \<^verbatim>\<open>common/kmacros.h\<close>, the format macros at the top of
  \<^verbatim>\<open>redis_client.cpp\<close> and the parts of the database code that are comments have no counterpart, nor
  have the branches for Windows, the \<^verbatim>\<open>GetInstance\<close> functions and destructors that only print. Of the
  scripts, the modules of the games (\<^verbatim>\<open>script/game_logic\<close>), the server of the rooms (\<^verbatim>\<open>script/room_logic\<close>), the
  class of the users, the timer and the manager of the global configuration are parameters or left out,
  and so is what the login script does with the answer of redis. \<^verbatim>\<open>tools\<close> is not part of the servers.
\<close>

end
